(* ===== verification/Prelude.thy ===== *)
theory Prelude
  imports Complex_Main
begin

text \<open>
  Shared vocabulary of the development: the errors a run of the Python code can end in, the
  error monad the models of fallible code are written in, and the list and map facts that
  several components use.

  A Python exception is a value of \<open>pyerr\<close>; code that may raise returns \<open>pyerr + 'a\<close> with
  the exception on the left. \<open>bindE\<close> runs a second computation only when the first returned,
  \<open>mapE\<close> is a list comprehension whose body may raise (left to right, stopping at the first
  exception), and \<open>foldE\<close> is a \<^verbatim>\<open>for\<close> loop over an accumulator whose body may raise.
\<close>

section \<open>Errors as values\<close>

text \<open>
  The entries of the list that \<open>validate_definition\<close> collects, one per \<^verbatim>\<open>errors.append\<close>, and
  the report of \<open>run_strategy\<close> on price columns that are missing.
\<close>

datatype issue =
    UnknownIndicator string string
  | UnknownParameters string string "string list"
  | UnknownColumn string string
  | MissingColumns "string list"

datatype pyerr =
    ZeroDivisionError
  | OverflowError
  | IndexError
  | TypeError
  | AttributeError string
  | KeyError string
  | ValueError string
  | RuntimeError string
  | ValidationError string
  | StrategyValidationError string "issue list"
  | LibraryError string
  | CircuitBreakerTripped
  | TimeoutExpired
  | OrderRejected string
  | HTTPException int string
  | DatabaseError string

type_synonym 'a res = "pyerr + 'a"

named_theorems py_simps \<open>rewriting of the error monad\<close>

definition bindE :: "'e + 'a \<Rightarrow> ('a \<Rightarrow> 'e + 'b) \<Rightarrow> 'e + 'b" where
  "bindE m f = (case m of Inl e \<Rightarrow> Inl e | Inr x \<Rightarrow> f x)"

definition map_res :: "('a \<Rightarrow> 'b) \<Rightarrow> 'e + 'a \<Rightarrow> 'e + 'b" where
  "map_res f m = (case m of Inl e \<Rightarrow> Inl e | Inr x \<Rightarrow> Inr (f x))"

fun mapE :: "('a \<Rightarrow> 'e + 'b) \<Rightarrow> 'a list \<Rightarrow> 'e + 'b list" where
  "mapE f [] = Inr []"
| "mapE f (x # xs) = bindE (f x) (\<lambda>y. bindE (mapE f xs) (\<lambda>ys. Inr (y # ys)))"

fun foldE :: "('s \<Rightarrow> 'a \<Rightarrow> 'e + 's) \<Rightarrow> 's \<Rightarrow> 'a list \<Rightarrow> 'e + 's" where
  "foldE f s [] = Inr s"
| "foldE f s (x # xs) = bindE (f s x) (\<lambda>s'. foldE f s' xs)"

lemma bindE_simps [simp, py_simps]:
  "bindE (Inl e) f = Inl e"
  "bindE (Inr x) f = f x"
  by (simp_all add: bindE_def)

lemma bindE_Inr_right [simp, py_simps]: "bindE m Inr = m"
  by (cases m) simp_all

lemma map_res_simps [simp, py_simps]:
  "map_res f (Inl e) = Inl e"
  "map_res f (Inr x) = Inr (f x)"
  by (simp_all add: map_res_def)

lemma bindE_eq_Inr [py_simps]: "bindE m f = Inr y \<longleftrightarrow> (\<exists>x. m = Inr x \<and> f x = Inr y)"
  by (cases m) simp_all

lemma bindE_eq_Inl: "bindE m f = Inl e \<longleftrightarrow> m = Inl e \<or> (\<exists>x. m = Inr x \<and> f x = Inl e)"
  by (cases m) simp_all

lemma bindE_assoc: "bindE (bindE m f) g = bindE m (\<lambda>x. bindE (f x) g)"
  by (cases m) simp_all

lemma map_res_eq_Inr [py_simps]: "map_res f m = Inr y \<longleftrightarrow> (\<exists>x. m = Inr x \<and> y = f x)"
  by (cases m) auto

lemma bindE_total: "\<exists>x. m = Inr x \<Longrightarrow> (\<And>x. \<exists>y. f x = Inr y) \<Longrightarrow> \<exists>y. bindE m f = Inr y"
  by auto

lemma map_res_total: "\<exists>x. m = Inr x \<Longrightarrow> \<exists>y. map_res f m = Inr y"
  by auto

lemma if_total:
  "(b \<Longrightarrow> \<exists>x. m = Inr x) \<Longrightarrow> (\<not> b \<Longrightarrow> \<exists>x. n = Inr x) \<Longrightarrow> \<exists>x. (if b then m else n) = Inr x"
  by auto

lemma bindE_cong [fundef_cong]:
  "m = m' \<Longrightarrow> (\<And>x. m' = Inr x \<Longrightarrow> f x = g x) \<Longrightarrow> bindE m f = bindE m' g"
  by (cases m') simp_all

lemma mapE_cong [fundef_cong]:
  "xs = ys \<Longrightarrow> (\<And>x. x \<in> set ys \<Longrightarrow> f x = g x) \<Longrightarrow> mapE f xs = mapE g ys"
  by (induction ys arbitrary: xs) auto

lemma mapE_length: "mapE f xs = Inr ys \<Longrightarrow> length ys = length xs"
  by (induction xs arbitrary: ys) (auto simp: bindE_eq_Inr)

lemma mapE_nth: "mapE f xs = Inr ys \<Longrightarrow> i < length xs \<Longrightarrow> f (xs ! i) = Inr (ys ! i)"
proof (induction xs arbitrary: ys i)
  case (Cons x xs)
  then show ?case by (cases i) (auto simp: bindE_eq_Inr)
qed simp

lemma mapE_all_Inr: "(\<And>x. x \<in> set xs \<Longrightarrow> f x = Inr (g x)) \<Longrightarrow> mapE f xs = Inr (map g xs)"
  by (induction xs) auto

lemma mapE_ok: "(\<And>x. x \<in> set xs \<Longrightarrow> \<exists>y. f x = Inr y) \<Longrightarrow> \<exists>ys. mapE f xs = Inr ys"
proof (induction xs)
  case (Cons x xs)
  have "\<exists>y. f x = Inr y" and "\<exists>ys. mapE f xs = Inr ys"
    using Cons.prems by (auto intro: Cons.IH)
  then show ?case by auto
qed simp

lemma mapE_append:
  "mapE f (xs @ ys) = bindE (mapE f xs) (\<lambda>us. bindE (mapE f ys) (\<lambda>vs. Inr (us @ vs)))"
  by (induction xs) (simp_all add: bindE_assoc)

lemma foldE_append: "foldE f s (xs @ ys) = bindE (foldE f s xs) (\<lambda>s'. foldE f s' ys)"
  by (induction xs arbitrary: s) (simp_all add: bindE_assoc)

lemma foldE_invariant:
  assumes "foldE f s xs = Inr t" and "P s"
    and "\<And>s x s'. x \<in> set xs \<Longrightarrow> P s \<Longrightarrow> f s x = Inr s' \<Longrightarrow> P s'"
  shows "P t"
  using assms
proof (induction xs arbitrary: s)
  case (Cons x xs)
  from Cons.prems(1) obtain s' where s': "f s x = Inr s'" "foldE f s' xs = Inr t"
    by (auto simp: bindE_eq_Inr)
  with Cons.prems(2,3) have "P s'" by auto
  with s' Cons.prems(3) show ?case by (intro Cons.IH [of s']) auto
qed simp

lemma foldE_ok:
  assumes "P s" and "\<And>s x. x \<in> set xs \<Longrightarrow> P s \<Longrightarrow> \<exists>s'. f s x = Inr s' \<and> P s'"
  shows "\<exists>t. foldE f s xs = Inr t \<and> P t"
  using assms
proof (induction xs arbitrary: s)
  case (Cons x xs)
  from Cons.prems obtain s' where "f s x = Inr s'" "P s'" by auto
  with Cons.IH [of s'] Cons.prems(2) show ?case by auto
qed simp

section \<open>State and exceptions\<close>

text \<open>
  Code that changes state and may raise part-way: the changes made before the exception stay, so
  a computation returns its state in both cases.
\<close>

type_synonym ('s, 'a) stm = "'s \<Rightarrow> 's \<times> 'a res"

definition returnS :: "'a \<Rightarrow> ('s, 'a) stm" where
  "returnS x = (\<lambda>s. (s, Inr x))"

definition raiseS :: "pyerr \<Rightarrow> ('s, 'a) stm" where
  "raiseS e = (\<lambda>s. (s, Inl e))"

definition bindS :: "('s, 'a) stm \<Rightarrow> ('a \<Rightarrow> ('s, 'b) stm) \<Rightarrow> ('s, 'b) stm" where
  "bindS m f = (\<lambda>s. case m s of (s', Inl e) \<Rightarrow> (s', Inl e) | (s', Inr x) \<Rightarrow> f x s')"

definition getS :: "('s \<Rightarrow> 'a) \<Rightarrow> ('s, 'a) stm" where
  "getS f = (\<lambda>s. (s, Inr (f s)))"

definition modifyS :: "('s \<Rightarrow> 's) \<Rightarrow> ('s, unit) stm" where
  "modifyS f = (\<lambda>s. (f s, Inr ()))"

definition liftS :: "'a res \<Rightarrow> ('s, 'a) stm" where
  "liftS r = (\<lambda>s. (s, r))"

definition seqS :: "('s, unit) stm \<Rightarrow> ('s, 'b) stm \<Rightarrow> ('s, 'b) stm" where
  "seqS m n = bindS m (\<lambda>_. n)"

text \<open>\<open>zoomS get upd m\<close> runs \<open>m\<close> on a part of the state.\<close>

definition zoomS :: "('s \<Rightarrow> 't) \<Rightarrow> ('t \<Rightarrow> 's \<Rightarrow> 's) \<Rightarrow> ('t, 'a) stm \<Rightarrow> ('s, 'a) stm" where
  "zoomS get upd m = (\<lambda>s. case m (get s) of (t, r) \<Rightarrow> (upd t s, r))"

text \<open>\<^verbatim>\<open>try: m except: handler\<close>, where the handler sees the exception and the state it left.\<close>

definition catchS :: "('s, 'a) stm \<Rightarrow> (pyerr \<Rightarrow> ('s, 'a) stm) \<Rightarrow> ('s, 'a) stm" where
  "catchS m h = (\<lambda>s. case m s of (s', Inl e) \<Rightarrow> h e s' | (s', Inr x) \<Rightarrow> (s', Inr x))"

definition mapS :: "('a \<Rightarrow> 'b) \<Rightarrow> ('s, 'a) stm \<Rightarrow> ('s, 'b) stm" where
  "mapS f m = bindS m (\<lambda>x. returnS (f x))"

fun forS :: "('a \<Rightarrow> ('s, unit) stm) \<Rightarrow> 'a list \<Rightarrow> ('s, unit) stm" where
  "forS f [] = returnS ()"
| "forS f (x # xs) = seqS (f x) (forS f xs)"

named_theorems st_simps \<open>running the state monad\<close>

lemma run_returnS [simp, st_simps]: "returnS x s = (s, Inr x)"
  by (simp add: returnS_def)

lemma run_raiseS [simp, st_simps]: "raiseS e s = (s, Inl e)"
  by (simp add: raiseS_def)

lemma run_getS [simp, st_simps]: "getS f s = (s, Inr (f s))"
  by (simp add: getS_def)

lemma run_modifyS [simp, st_simps]: "modifyS f s = (f s, Inr ())"
  by (simp add: modifyS_def)

lemma run_liftS [simp, st_simps]: "liftS r s = (s, r)"
  by (simp add: liftS_def)

lemma run_bindS [st_simps]:
  "bindS m f s = (case m s of (s', Inl e) \<Rightarrow> (s', Inl e) | (s', Inr x) \<Rightarrow> f x s')"
  by (simp add: bindS_def)

lemma run_seqS [st_simps]:
  "seqS m n s = (case m s of (s', Inl e) \<Rightarrow> (s', Inl e) | (s', Inr x) \<Rightarrow> n s')"
  by (simp add: seqS_def bindS_def)

lemma run_mapS [st_simps]: "mapS f m s = (let (s', r) = m s in (s', map_res f r))"
  by (simp add: mapS_def bindS_def map_res_def split: prod.splits sum.splits)

lemma run_zoomS [st_simps]: "zoomS get upd m s = (upd (fst (m (get s))) s, snd (m (get s)))"
  by (simp add: zoomS_def split: prod.splits)

lemma run_catchS [st_simps]:
  "catchS m h s = (case m s of (s', Inl e) \<Rightarrow> h e s' | (s', Inr x) \<Rightarrow> (s', Inr x))"
  by (simp add: catchS_def)

lemma bindS_Inr:
  "bindS m f s = (t, Inr y) \<longleftrightarrow> (\<exists>s' x. m s = (s', Inr x) \<and> f x s' = (t, Inr y))"
  by (auto simp: bindS_def split: prod.splits sum.splits)

lemma seqS_Inr: "seqS m n s = (t, Inr y) \<longleftrightarrow> (\<exists>s'. m s = (s', Inr ()) \<and> n s' = (t, Inr y))"
  by (auto simp: seqS_def bindS_Inr)

text \<open>\<open>preserves P m\<close>: the invariant holds after \<open>m\<close>, also when it raised.\<close>

definition preserves :: "('s \<Rightarrow> bool) \<Rightarrow> ('s, 'a) stm \<Rightarrow> bool" where
  "preserves P m \<longleftrightarrow> (\<forall>s. P s \<longrightarrow> P (fst (m s)))"

lemma preservesD: "preserves P m \<Longrightarrow> m s = (s', r) \<Longrightarrow> P s \<Longrightarrow> P s'"
  by (force simp: preserves_def)

named_theorems preserve \<open>invariants of stateful code\<close>

lemma preserves_returnS [preserve]: "preserves P (returnS x)"
  and preserves_raiseS [preserve]: "preserves P (raiseS e)"
  and preserves_getS [preserve]: "preserves P (getS f)"
  and preserves_liftS [preserve]: "preserves P (liftS r)"
  by (simp_all add: preserves_def)

lemma preserves_modifyS [preserve]: "(\<And>s. P s \<Longrightarrow> P (f s)) \<Longrightarrow> preserves P (modifyS f)"
  by (simp add: preserves_def)

lemma preserves_bindS [preserve]:
  "preserves P m \<Longrightarrow> (\<And>x. preserves P (f x)) \<Longrightarrow> preserves P (bindS m f)"
  by (auto simp: preserves_def bindS_def split: prod.splits sum.splits)

lemma preserves_mapS [preserve]: "preserves P m \<Longrightarrow> preserves P (mapS f m)"
  unfolding mapS_def by (intro preserves_bindS preserves_returnS)

lemma preserves_seqS [preserve]: "preserves P m \<Longrightarrow> preserves P n \<Longrightarrow> preserves P (seqS m n)"
  by (simp add: seqS_def preserves_bindS)

lemma preserves_forS [preserve]: "(\<And>x. x \<in> set xs \<Longrightarrow> preserves P (f x)) \<Longrightarrow> preserves P (forS f xs)"
  by (induction xs) (auto intro: preserve)

lemma preserves_zoomS [preserve]:
  "preserves Q m \<Longrightarrow> (\<And>s. P s \<Longrightarrow> Q (get s)) \<Longrightarrow> (\<And>s t. P s \<Longrightarrow> Q t \<Longrightarrow> P (upd t s)) \<Longrightarrow>
     preserves P (zoomS get upd m)"
  by (simp add: preserves_def zoomS_def case_prod_beta)

lemma preserves_catchS [preserve]:
  "preserves P m \<Longrightarrow> (\<And>e. preserves P (h e)) \<Longrightarrow> preserves P (catchS m h)"
  by (auto simp: preserves_def catchS_def split: prod.splits sum.splits)

lemma preserves_if [preserve]:
  "(b \<Longrightarrow> preserves P m) \<Longrightarrow> (\<not> b \<Longrightarrow> preserves P n) \<Longrightarrow> preserves P (if b then m else n)"
  by simp

lemma preserves_case_option [preserve]:
  "(x = None \<Longrightarrow> preserves P m) \<Longrightarrow> (\<And>y. x = Some y \<Longrightarrow> preserves P (f y)) \<Longrightarrow>
     preserves P (case x of None \<Rightarrow> m | Some y \<Rightarrow> f y)"
  by (cases x) simp_all

lemma preserves_case_prod [preserve]:
  "(\<And>a b. p = (a, b) \<Longrightarrow> preserves P (f a b)) \<Longrightarrow> preserves P (case p of (a, b) \<Rightarrow> f a b)"
  by (cases p) simp

text \<open>\<open>avoids e m\<close>: the code never raises \<open>e\<close>.\<close>

definition avoids :: "pyerr \<Rightarrow> ('s, 'a) stm \<Rightarrow> bool" where
  "avoids e m \<longleftrightarrow> (\<forall>s. snd (m s) \<noteq> Inl e)"

named_theorems avoid \<open>exceptions that code does not raise\<close>

lemma avoidsD: "avoids e m \<Longrightarrow> m s = (s', r) \<Longrightarrow> r \<noteq> Inl e"
  by (metis avoids_def snd_conv)

lemma avoids_returnS [avoid]: "avoids e (returnS x)"
  and avoids_getS [avoid]: "avoids e (getS f)"
  and avoids_modifyS [avoid]: "avoids e (modifyS g)"
  by (simp_all add: avoids_def)

lemma avoids_raiseS [avoid]: "e' \<noteq> e \<Longrightarrow> avoids e (raiseS e')"
  and avoids_liftS [avoid]: "r \<noteq> Inl e \<Longrightarrow> avoids e (liftS r)"
  by (simp_all add: avoids_def)

lemma avoids_bindS [avoid]: "avoids e m \<Longrightarrow> (\<And>x. avoids e (f x)) \<Longrightarrow> avoids e (bindS m f)"
  by (auto simp: avoids_def bindS_def split: prod.splits sum.splits) (metis snd_conv)+

lemma avoids_seqS [avoid]: "avoids e m \<Longrightarrow> avoids e n \<Longrightarrow> avoids e (seqS m n)"
  by (simp add: seqS_def avoids_bindS)

lemma avoids_zoomS [avoid]: "avoids e m \<Longrightarrow> avoids e (zoomS get upd m)"
  by (simp add: avoids_def zoomS_def case_prod_beta)

lemma avoids_catchS [avoid]:
  "avoids e m \<Longrightarrow> (\<And>e'. e' \<noteq> e \<Longrightarrow> avoids e (h e')) \<Longrightarrow> avoids e (catchS m h)"
  by (auto simp: avoids_def catchS_def split: prod.splits sum.splits) (metis snd_conv)+

lemma avoids_if [avoid]:
  "(b \<Longrightarrow> avoids e m) \<Longrightarrow> (\<not> b \<Longrightarrow> avoids e n) \<Longrightarrow> avoids e (if b then m else n)"
  by simp

lemma seqS_raised_first: "seqS m n s = (s', Inl e) \<Longrightarrow> avoids e n \<Longrightarrow> m s = (s', Inl e)"
  by (auto simp: run_seqS split: prod.splits sum.splits dest: avoidsD)

lemma seqS_raised_second:
  "seqS m n s = (s', Inl e) \<Longrightarrow> avoids e m \<Longrightarrow> \<exists>s1. m s = (s1, Inr ()) \<and> n s1 = (s', Inl e)"
  by (auto simp: run_seqS split: prod.splits sum.splits dest: avoidsD)

section \<open>Lists\<close>

lemma map2_length [simp]: "length (map2 f xs ys) = min (length xs) (length ys)"
  by simp

lemma map2_nth:
  "i < length xs \<Longrightarrow> i < length ys \<Longrightarrow> map2 f xs ys ! i = f (xs ! i) (ys ! i)"
  by simp

lemma take_map2: "take n (map2 f xs ys) = map2 f (take n xs) (take n ys)"
  by (simp add: take_map take_zip)

lemma sorted_wrt_nth_mono:
  fixes xs :: "'a::linorder list"
  assumes "sorted_wrt (<) xs" and "i < length xs" and "j < length xs"
  shows "xs ! i < xs ! j \<longleftrightarrow> i < j"
  using assms
  by (metis linorder_less_linear order_less_asym sorted_wrt_iff_nth_less order_less_irrefl)

lemma sorted_wrt_less_distinct: "sorted_wrt (<) (xs :: 'a::linorder list) \<Longrightarrow> distinct xs"
  by (simp add: strict_sorted_iff)

lemma sorted_wrt_last:
  fixes f :: "'a \<Rightarrow> int"
  assumes "sorted_wrt (<) (map f xs)" and "y \<in> set xs" and "xs \<noteq> []"
  shows "f y \<le> f (last xs)"
proof -
  from assms(2) obtain i where i: "i < length xs" "y = xs ! i" by (auto simp: in_set_conv_nth)
  have "last xs = xs ! (length xs - 1)" using assms(3) by (rule last_conv_nth)
  moreover have "f (xs ! i) \<le> f (xs ! (length xs - 1))"
  proof (cases "i = length xs - 1")
    case False
    with i(1) have "i < length xs - 1" by simp
    moreover from this have "length xs - 1 < length (map f xs)" by simp
    ultimately show ?thesis using sorted_wrt_nth_less [OF assms(1), of i "length xs - 1"] by simp
  qed simp
  ultimately show ?thesis using i(2) by simp
qed

lemma distinct_map_of_rev: "distinct (map fst xs) \<Longrightarrow> map_of (rev xs) = map_of xs"
proof (induction xs)
  case (Cons a xs)
  then have "map_of xs (fst a) = None" by (simp add: map_of_eq_None_iff)
  with Cons show ?case by (auto simp: fun_eq_iff map_add_def split: option.splits)
qed simp

lemma set_map_filter: "set (List.map_filter f xs) = {y. \<exists>x \<in> set xs. f x = Some y}"
  by (induction xs) (auto simp: map_filter_simps split: option.splits)

lemma filter_upt_single: "i < n \<Longrightarrow> filter (\<lambda>j. j = i) [0..<n] = [i]"
  by (induction n) (auto simp: less_Suc_eq filter_empty_conv)

end
