(* ===== verification/Rounding.thy ===== *)
theory Rounding
  imports Prelude "HOL-Library.Log_Nat"
begin

text \<open>
  Rounding to IEEE 754 binary64, the format of a Python \<^verbatim>\<open>float\<close> and of a numpy \<^verbatim>\<open>float64\<close>:
  53 bits of precision, least exponent \<open>-1074\<close>, round half to even, overflow to an infinity.
  The values of \<open>fl\<close> are the finite numbers (as exact rationals), the two infinities and NaN;
  the sign of a zero is not represented. The locale \<open>rounding\<close> lists what the rest of the
  development uses of the rounding function, and its interpretation at the end of the theory
  discharges those laws for \<open>round64\<close>.
\<close>

section \<open>Values and their order\<close>

datatype fl = Fin rat | PInf | NInf | NaN

text \<open>The IEEE comparisons: every comparison with NaN is false.\<close>

instantiation fl :: ord
begin

fun less_eq_fl :: "fl \<Rightarrow> fl \<Rightarrow> bool" where
  "less_eq_fl (Fin a) (Fin b) = (a \<le> b)"
| "less_eq_fl NaN _ = False"
| "less_eq_fl _ NaN = False"
| "less_eq_fl NInf _ = True"
| "less_eq_fl _ PInf = True"
| "less_eq_fl _ _ = False"

fun less_fl :: "fl \<Rightarrow> fl \<Rightarrow> bool" where
  "less_fl (Fin a) (Fin b) = (a < b)"
| "less_fl NaN _ = False"
| "less_fl _ NaN = False"
| "less_fl NInf NInf = False"
| "less_fl NInf _ = True"
| "less_fl PInf _ = False"
| "less_fl _ PInf = True"
| "less_fl _ _ = False"

instance ..

end

instantiation fl :: uminus
begin

fun uminus_fl :: "fl \<Rightarrow> fl" where
  "uminus_fl (Fin a) = Fin (- a)"
| "uminus_fl PInf = NInf"
| "uminus_fl NInf = PInf"
| "uminus_fl NaN = NaN"

instance ..

end

lemma fl_le_refl [simp]: "x \<le> x \<longleftrightarrow> x \<noteq> (NaN :: fl)"
  by (cases x) auto

lemma fl_less_irrefl [simp]: "\<not> x < (x :: fl)"
  by (cases x) auto

lemma fl_le_trans [trans]: "x \<le> y \<Longrightarrow> y \<le> z \<Longrightarrow> x \<le> (z :: fl)"
  by (cases x; cases y; cases z) auto

lemma fl_less_le_trans [trans]: "x < y \<Longrightarrow> y \<le> z \<Longrightarrow> x < (z :: fl)"
  by (cases x; cases y; cases z) auto

lemma fl_le_less_trans [trans]: "x \<le> y \<Longrightarrow> y < z \<Longrightarrow> x < (z :: fl)"
  by (cases x; cases y; cases z) auto

lemma fl_less_trans [trans]: "x < y \<Longrightarrow> y < z \<Longrightarrow> x < (z :: fl)"
  by (cases x; cases y; cases z) auto

lemma fl_less_imp_le: "x < y \<Longrightarrow> x \<le> (y :: fl)"
  by (cases x; cases y) auto

lemma fl_le_antisym: "x \<le> y \<Longrightarrow> y \<le> x \<Longrightarrow> x = (y :: fl)"
  by (cases x; cases y) auto

lemma fl_not_le: "x \<noteq> NaN \<Longrightarrow> y \<noteq> NaN \<Longrightarrow> \<not> x \<le> y \<longleftrightarrow> y < (x :: fl)"
  by (cases x; cases y) auto

lemma fl_not_less: "x \<noteq> NaN \<Longrightarrow> y \<noteq> NaN \<Longrightarrow> \<not> x < y \<longleftrightarrow> y \<le> (x :: fl)"
  by (cases x; cases y) auto

lemma fl_linear: "x \<noteq> NaN \<Longrightarrow> y \<noteq> NaN \<Longrightarrow> x \<le> y \<or> y \<le> (x :: fl)"
  by (cases x; cases y) auto

lemma fl_le_noNaN: "x \<le> y \<Longrightarrow> x \<noteq> NaN \<and> y \<noteq> (NaN :: fl)"
  by (cases x; cases y) auto

lemma fl_less_noNaN: "x < y \<Longrightarrow> x \<noteq> NaN \<and> y \<noteq> (NaN :: fl)"
  by (cases x; cases y) auto

lemma fl_less_not_le: "x < y \<Longrightarrow> \<not> y \<le> (x :: fl)"
  by (cases x; cases y) auto

lemma fl_le_not_less: "x \<le> y \<Longrightarrow> \<not> y < (x :: fl)"
  by (cases x; cases y) auto

lemma fl_uminus_le: "- x \<le> - y \<longleftrightarrow> y \<le> (x :: fl)"
  by (cases x; cases y) auto

lemma fl_le_between_Fin: "Fin a \<le> x \<Longrightarrow> x \<le> Fin b \<Longrightarrow> \<exists>c. x = Fin c \<and> a \<le> c \<and> c \<le> b"
  by (cases x) auto

section \<open>The rounding function\<close>

definition pow2 :: "int \<Rightarrow> rat" where
  "pow2 e = (if 0 \<le> e then 2 ^ nat e else 1 / 2 ^ nat (- e))"

definition half_even :: "int \<Rightarrow> rat \<Rightarrow> int" where
  "half_even f r =
     (if r < 1 / 2 then f else if 1 / 2 < r then f + 1 else if even f then f else f + 1)"

text \<open>Round half to even: the nearest integer, the even one at equal distance.\<close>

definition rhe :: "rat \<Rightarrow> int" where
  "rhe x = half_even \<lfloor>x\<rfloor> (x - of_int \<lfloor>x\<rfloor>)"

text \<open>The binary exponent of a positive number: the \<open>e\<close> with \<open>2 ^ e \<le> x < 2 ^ (e + 1)\<close>.\<close>

definition bexp :: "rat \<Rightarrow> int" where
  "bexp x =
     (if 1 \<le> x then int (floorlog 2 (nat \<lfloor>x\<rfloor>)) - 1 else - int (ceillog2 (nat \<lceil>1 / x\<rceil>)))"

text \<open>The distance of two neighbouring doubles at \<open>x\<close>.\<close>

definition ulp_exp :: "rat \<Rightarrow> int" where
  "ulp_exp x = max (- 1074) (bexp x - 52)"

definition round_pos :: "rat \<Rightarrow> rat" where
  "round_pos x = of_int (rhe (x / pow2 (ulp_exp x))) * pow2 (ulp_exp x)"

definition to_range :: "rat \<Rightarrow> fl" where
  "to_range r = (if 2 ^ 1024 \<le> r then PInf else Fin r)"

definition round64 :: "rat \<Rightarrow> fl" where
  "round64 x =
     (if x = 0 then Fin 0
      else if 0 < x then to_range (round_pos x)
      else - to_range (round_pos (- x)))"

section \<open>Powers of two and binary exponents\<close>

lemma pow2_powi: "pow2 e = 2 powi e"
  by (simp add: pow2_def power_int_def power_one_over field_simps)

lemma pow2_pos [simp]: "0 < pow2 e"
  by (simp add: pow2_powi)

lemma pow2_nonneg [simp]: "0 \<le> pow2 e"
  by (simp add: pow2_powi)

lemma pow2_nonzero [simp]: "pow2 e \<noteq> 0"
  by (simp add: pow2_powi)

lemma pow2_add: "pow2 (a + b) = pow2 a * pow2 b"
  by (simp add: pow2_powi power_int_add)

lemma pow2_strict_mono: "strict_mono pow2"
proof (rule strict_monoI)
  fix a b :: int
  assume "a < b"
  then have "1 < pow2 (b - a)" by (simp add: pow2_def one_less_power)
  then have "pow2 a * 1 < pow2 a * pow2 (b - a)" by (simp only: mult_less_cancel_left_pos pow2_pos)
  then show "pow2 a < pow2 b" by (simp flip: pow2_add)
qed

lemma pow2_less_iff [simp]: "pow2 a < pow2 b \<longleftrightarrow> a < b"
  by (rule strict_mono_less [OF pow2_strict_mono])

lemma pow2_le_iff [simp]: "pow2 a \<le> pow2 b \<longleftrightarrow> a \<le> b"
  by (rule strict_mono_less_eq [OF pow2_strict_mono])

lemma pow2_nat: "pow2 (int n) = of_int (2 ^ n)"
  by (simp add: pow2_def)

lemma pow2_of_int: "0 \<le> e \<Longrightarrow> pow2 e = of_int (2 ^ nat e)"
  by (simp add: pow2_def)

lemma pow2_diff: "pow2 (a - b) = pow2 a / pow2 b"
  using pow2_add [of "a - b" b] by (simp add: field_simps)

lemma bexp_bounds:
  assumes "0 < x"
  shows "pow2 (bexp x) \<le> x \<and> x < pow2 (bexp x + 1)"
proof (cases "1 \<le> x")
  case True
  define n where "n = nat \<lfloor>x\<rfloor>"
  define k where "k = floorlog 2 n"
  have n: "0 < n" and nx: "int n = \<lfloor>x\<rfloor>" using True by (auto simp: n_def)
  have k: "2 ^ (k - 1) \<le> n" "n < 2 ^ k"
    using floorlog_bounds [of n 2] n by (simp_all add: k_def)
  have "k \<noteq> 0" using n by (simp add: k_def floorlog_eq_zero_iff)
  then have k1: "1 \<le> k" by simp
  have "int (2 ^ (k - 1)) \<le> int n" "int n < int (2 ^ k)"
    using k by (simp_all only: of_nat_le_iff of_nat_less_iff)
  then have lo: "(2::int) ^ (k - 1) \<le> \<lfloor>x\<rfloor>" and hi: "\<lfloor>x\<rfloor> < 2 ^ k"
    by (simp_all only: nx of_nat_power of_nat_numeral)
  from lo have "of_int (2 ^ (k - 1)) \<le> x" by (simp only: le_floor_iff)
  moreover from hi have "x < of_int (2 ^ k)" by (simp only: floor_less_iff)
  moreover have "bexp x = int (k - 1)" using True k1 by (simp add: bexp_def k_def n_def)
  moreover from this k1 have "bexp x + 1 = int k" by simp
  ultimately show ?thesis by (simp only: pow2_nat)
next
  case False
  define n where "n = nat \<lceil>1 / x\<rceil>"
  define k where "k = ceillog2 n"
  have "1 < 1 / x" using assms False by (simp add: field_simps)
  then have "1 < \<lceil>1 / x\<rceil>" by (simp add: less_ceiling_iff)
  then have n2: "2 \<le> n" and nx: "int n = \<lceil>1 / x\<rceil>" unfolding n_def by linarith+
  have le: "n \<le> 2 ^ k" using n2 by (simp add: k_def flip: ceillog2_le_iff)
  have k1: "1 \<le> k"
  proof (rule ccontr)
    assume "\<not> 1 \<le> k"
    then have "k = 0" by simp
    with le n2 show False by simp
  qed
  have gt: "2 ^ (k - 1) < n"
  proof (rule ccontr)
    assume "\<not> 2 ^ (k - 1) < n"
    then have "ceillog2 n \<le> k - 1" using n2 by (simp add: ceillog2_le_iff)
    with k1 show False by (simp add: k_def)
  qed
  have "int n \<le> int (2 ^ k)" "int (2 ^ (k - 1)) < int n"
    using le gt by (simp_all only: of_nat_le_iff of_nat_less_iff)
  then have cle: "\<lceil>1 / x\<rceil> \<le> 2 ^ k" and cgt: "2 ^ (k - 1) < \<lceil>1 / x\<rceil>"
    by (simp_all only: nx of_nat_power of_nat_numeral)
  from cle have "1 / x \<le> of_int (2 ^ k)" by (simp only: ceiling_le_iff)
  then have "1 / 2 ^ k \<le> x" using assms by (simp add: field_simps)
  moreover from cgt have "of_int (2 ^ (k - 1)) < 1 / x" by (simp only: less_ceiling_iff)
  then have "x < 1 / 2 ^ (k - 1)" using assms by (simp add: field_simps)
  moreover have "bexp x = - int k" using False by (simp add: bexp_def k_def n_def)
  moreover have "pow2 (- int k) = 1 / 2 ^ k" "pow2 (- int k + 1) = 1 / 2 ^ (k - 1)"
    using k1 by (auto simp: pow2_def nat_diff_distrib le_Suc_eq)
  ultimately show ?thesis by simp
qed

lemma bexp_less_iff:
  assumes "0 < x"
  shows "bexp x < e \<longleftrightarrow> x < pow2 e"
proof
  assume "bexp x < e"
  then have "pow2 (bexp x + 1) \<le> pow2 e" by simp
  with bexp_bounds [OF assms] show "x < pow2 e" by (meson order_less_le_trans)
next
  assume "x < pow2 e"
  with bexp_bounds [OF assms] have "pow2 (bexp x) < pow2 e" by (meson order_le_less_trans)
  then show "bexp x < e" by simp
qed

lemma bexp_ge_iff: "0 < x \<Longrightarrow> e \<le> bexp x \<longleftrightarrow> pow2 e \<le> x"
  using bexp_less_iff [of x e] by (simp flip: not_less)

lemma bexp_pow2 [simp]: "bexp (pow2 e) = e"
  using bexp_less_iff [of "pow2 e" "e + 1"] bexp_ge_iff [of "pow2 e" e] by simp

lemma bexp_mono: "0 < x \<Longrightarrow> x \<le> y \<Longrightarrow> bexp x \<le> bexp y"
  using bexp_ge_iff [of y "bexp x"] bexp_bounds [of x] by simp

lemma ulp_exp_mono: "0 < x \<Longrightarrow> x \<le> y \<Longrightarrow> ulp_exp x \<le> ulp_exp y"
  using bexp_mono [of x y] by (simp add: ulp_exp_def)

section \<open>Rounding to an integer\<close>

lemma rhe_ge: "of_int k \<le> x \<Longrightarrow> k \<le> rhe x"
  by (auto simp: rhe_def half_even_def le_floor_iff [symmetric])

lemma rhe_le:
  assumes "x \<le> of_int k"
  shows "rhe x \<le> k"
proof (cases "x = of_int k")
  case True
  then show ?thesis by (simp add: rhe_def half_even_def)
next
  case False
  with assms have "x < of_int k" by simp
  then have "\<lfloor>x\<rfloor> < k" by (simp add: floor_less_iff)
  then show ?thesis by (auto simp: rhe_def half_even_def)
qed

lemma rhe_of_int [simp]: "rhe (of_int k) = k"
  by (simp add: rhe_def half_even_def)

lemma rhe_mono:
  assumes "x \<le> y"
  shows "rhe x \<le> rhe y"
proof (cases "\<lfloor>x\<rfloor> = \<lfloor>y\<rfloor>")
  case True
  with assms show ?thesis by (auto simp: rhe_def half_even_def)
next
  case False
  with floor_mono [OF assms] have "\<lfloor>x\<rfloor> + 1 \<le> \<lfloor>y\<rfloor>" by simp
  moreover have "rhe x \<le> \<lfloor>x\<rfloor> + 1" by (auto simp: rhe_def half_even_def)
  moreover have "\<lfloor>y\<rfloor> \<le> rhe y" by (auto simp: rhe_def half_even_def)
  ultimately show ?thesis by linarith
qed

section \<open>Rounding of positive numbers\<close>

text \<open>
  A number is on the grid when it is a multiple of its own unit in the last place. An integer
  of at most 53 bits times a power of two is on the grid, and the grid points are the fixed
  points of \<open>round_pos\<close>.
\<close>

lemma round_pos_fix:
  assumes "x = of_int k * pow2 (ulp_exp x)"
  shows "round_pos x = x"
proof -
  have "x / pow2 (ulp_exp x) = of_int k" using assms by (metis nonzero_mult_div_cancel_right pow2_nonzero)
  then show ?thesis using assms by (simp add: round_pos_def)
qed

lemma on_grid:
  assumes "0 < x" and x: "x = of_int m * pow2 e" and m: "m \<le> 2 ^ 53" and e: "- 1074 \<le> e"
  shows "\<exists>k. x = of_int k * pow2 (ulp_exp x)"
proof (cases "ulp_exp x \<le> e")
  case True
  then have "pow2 e = of_int (2 ^ nat (e - ulp_exp x)) * pow2 (ulp_exp x)"
    by (simp add: pow2_of_int [symmetric] pow2_add [symmetric] del: of_int_power)
  then have "x = of_int (m * 2 ^ nat (e - ulp_exp x)) * pow2 (ulp_exp x)"
    by (simp add: x)
  then show ?thesis by blast
next
  case False
  with e have b: "e + 53 \<le> bexp x" and u: "ulp_exp x = bexp x - 52" by (auto simp: ulp_exp_def)
  from b assms(1) have "pow2 (e + 53) \<le> x" by (simp add: bexp_ge_iff)
  then have "pow2 53 * pow2 e \<le> of_int m * pow2 e" by (simp add: x pow2_add mult.commute)
  then have "pow2 53 \<le> of_int m" by simp
  then have "of_int (2 ^ 53) \<le> (of_int m :: rat)" by (simp add: pow2_def)
  then have "m = 2 ^ 53" using m by (simp only: of_int_le_iff)
  then have "x = pow2 (53 + e)" by (simp only: x pow2_add) (simp add: pow2_def)
  then have "ulp_exp x = e + 1" "x = pow2 (e + 1) * pow2 52"
    using u by (simp_all add: pow2_add [symmetric] add.commute)
  then have "x = of_int (2 ^ 52) * pow2 (ulp_exp x)" by (simp add: pow2_def)
  then show ?thesis by blast
qed

lemma round_pos_pow2: "- 1074 \<le> e \<Longrightarrow> round_pos (pow2 e) = pow2 e"
  using on_grid [of "pow2 e" 1 e] round_pos_fix by auto

lemma round_pos_mono:
  assumes "0 < x" and "x \<le> y"
  shows "round_pos x \<le> round_pos y"
proof (cases "ulp_exp x = ulp_exp y")
  case True
  have "rhe (x / pow2 (ulp_exp y)) \<le> rhe (y / pow2 (ulp_exp y))"
    using assms by (intro rhe_mono divide_right_mono) simp_all
  then show ?thesis by (simp add: round_pos_def True mult_right_mono)
next
  case False
  with ulp_exp_mono [OF assms] have lt: "ulp_exp x < ulp_exp y" by simp
  then have u: "ulp_exp y = bexp y - 52" by (auto simp: ulp_exp_def)
  define p where "p = pow2 (bexp y)"
  have "bexp x < bexp y" using lt by (auto simp: ulp_exp_def)
  then have xp: "x \<le> p" using assms(1) by (simp add: p_def bexp_less_iff less_imp_le)
  have py: "p \<le> y" using bexp_bounds [of y] assms by (simp add: p_def)
  have split: "p = of_int (2 ^ nat (bexp y - a)) * pow2 a" if "a \<le> bexp y" for a
    using that by (simp add: p_def pow2_of_int [symmetric] pow2_add [symmetric] del: of_int_power)
  have "round_pos x \<le> p"
  proof -
    have sp: "p = of_int (2 ^ nat (bexp y - ulp_exp x)) * pow2 (ulp_exp x)"
      using lt u by (intro split) simp
    with xp have "x / pow2 (ulp_exp x) \<le> of_int (2 ^ nat (bexp y - ulp_exp x))"
      by (simp add: pos_divide_le_eq)
    then have "rhe (x / pow2 (ulp_exp x)) \<le> 2 ^ nat (bexp y - ulp_exp x)" by (rule rhe_le)
    then show ?thesis unfolding round_pos_def sp
      by (intro mult_right_mono) (simp_all only: of_int_le_iff pow2_nonneg)
  qed
  also have "p \<le> round_pos y"
  proof -
    have sp: "p = of_int (2 ^ nat (bexp y - ulp_exp y)) * pow2 (ulp_exp y)"
      using u by (intro split) simp
    with py have "of_int (2 ^ nat (bexp y - ulp_exp y)) \<le> y / pow2 (ulp_exp y)"
      by (simp add: pos_le_divide_eq)
    then have "2 ^ nat (bexp y - ulp_exp y) \<le> rhe (y / pow2 (ulp_exp y))" by (rule rhe_ge)
    then show ?thesis unfolding round_pos_def sp
      by (intro mult_right_mono) (simp_all only: of_int_le_iff pow2_nonneg)
  qed
  finally show ?thesis .
qed

lemma round_pos_nonneg: "0 < x \<Longrightarrow> 0 \<le> round_pos x"
  unfolding round_pos_def by (intro mult_nonneg_nonneg) (simp_all add: rhe_ge)

lemma round_pos_idem:
  assumes "0 < x" and pos: "0 < round_pos x"
  shows "round_pos (round_pos x) = round_pos x"
proof -
  define k where "k = rhe (x / pow2 (ulp_exp x))"
  have r: "round_pos x = of_int k * pow2 (ulp_exp x)" by (simp add: round_pos_def k_def)
  have "pow2 (bexp x + 1) \<le> pow2 (53 + ulp_exp x)" by (simp add: ulp_exp_def)
  then have "x \<le> pow2 (53 + ulp_exp x)" using bexp_bounds [OF assms(1)] by linarith
  then have "x \<le> pow2 53 * pow2 (ulp_exp x)" by (simp only: pow2_add)
  then have "x / pow2 (ulp_exp x) \<le> of_int (2 ^ 53)"
    by (simp add: pos_divide_le_eq pow2_def [of 53])
  then have "k \<le> 2 ^ 53" unfolding k_def by (rule rhe_le)
  moreover have "- 1074 \<le> ulp_exp x" by (simp add: ulp_exp_def)
  ultimately obtain j where "round_pos x = of_int j * pow2 (ulp_exp (round_pos x))"
    using on_grid [OF pos r] by auto
  then show ?thesis by (rule round_pos_fix)
qed

section \<open>The rounding function and its laws\<close>

lemma to_range_mono: "a \<le> b \<Longrightarrow> to_range a \<le> to_range b"
  by (auto simp: to_range_def)

lemma round64_pos: "0 < x \<Longrightarrow> round64 x = to_range (round_pos x)"
  by (simp add: round64_def)

lemma round64_0 [simp]: "round64 0 = Fin 0"
  by (simp add: round64_def)

lemma round64_nonneg: "0 \<le> x \<Longrightarrow> Fin 0 \<le> round64 x"
  using round_pos_nonneg [of x] by (cases "x = 0") (auto simp: round64_pos to_range_def)

lemma round64_minus: "round64 (- x) = - round64 x"
proof (cases x "0 :: rat" rule: linorder_cases)
  case greater
  then show ?thesis by (simp add: round64_def)
next
  case less
  then have "- (- to_range (round_pos (- x))) = to_range (round_pos (- x))"
    by (simp add: to_range_def)
  with less show ?thesis by (simp add: round64_def)
qed simp

lemma round64_mono_pos: "0 < x \<Longrightarrow> x \<le> y \<Longrightarrow> round64 x \<le> round64 y"
  by (simp add: round64_pos to_range_mono round_pos_mono)

lemma round64_nonpos:
  assumes "x \<le> 0"
  shows "round64 x \<le> Fin 0"
proof -
  have "Fin 0 \<le> round64 (- x)" using assms by (intro round64_nonneg) simp
  then have "- round64 (- x) \<le> - Fin 0" by (simp only: fl_uminus_le)
  then show ?thesis by (simp add: round64_minus [symmetric])
qed

lemma round64_mono:
  assumes "x \<le> y"
  shows "round64 x \<le> round64 y"
proof -
  consider "0 < x" | "x \<le> 0" "0 \<le> y" | "y < 0" by linarith
  then show ?thesis
  proof cases
    case 1
    then show ?thesis using assms by (rule round64_mono_pos)
  next
    case 2
    then show ?thesis using round64_nonpos round64_nonneg fl_le_trans by blast
  next
    case 3
    then have "round64 (- y) \<le> round64 (- x)" using assms by (intro round64_mono_pos) simp_all
    then show ?thesis by (simp add: round64_minus fl_uminus_le)
  qed
qed

lemma round64_idem_pos:
  assumes "0 < x" and "round64 x = Fin y"
  shows "round64 y = Fin y"
proof -
  from assms have y: "y = round_pos x" and r: "to_range y = Fin y"
    by (auto simp: round64_pos to_range_def split: if_splits)
  with round_pos_nonneg [OF assms(1)] have "y = 0 \<or> 0 < y" by auto
  then show ?thesis using assms(1) y r round_pos_idem [of x] by (auto simp: round64_pos)
qed

lemma round64_idem:
  assumes "round64 x = Fin y"
  shows "round64 y = Fin y"
proof (cases x "0 :: rat" rule: linorder_cases)
  case less
  have "round64 (- x) = Fin (- y)" using assms by (simp add: round64_minus)
  with less have "round64 (- y) = Fin (- y)" by (intro round64_idem_pos [of "- x"]) simp_all
  then show ?thesis using round64_minus [of "- y"] by simp
next
  case equal
  with assms show ?thesis by simp
next
  case greater
  then show ?thesis using assms by (rule round64_idem_pos)
qed

text \<open>The integers of at most 53 bits are doubles.\<close>

lemma round64_of_int:
  assumes "\<bar>i\<bar> \<le> 2 ^ 53"
  shows "round64 (of_int i) = Fin (of_int i)"
proof -
  have pos: "round64 (of_int j) = Fin (of_int j)" if "0 < j" "j \<le> 2 ^ 53" for j :: int
  proof -
    have "round_pos (of_int j) = of_int j"
      using on_grid [of "of_int j" j 0] that round_pos_fix by (auto simp: pow2_def [of 0])
    moreover have "of_int j \<le> (of_int (2 ^ 53) :: rat)" using that by (simp only: of_int_le_iff)
    then have "to_range (of_int j) = Fin (of_int j)" by (simp add: to_range_def)
    ultimately show ?thesis using that by (simp add: round64_pos)
  qed
  consider "i = 0" | "0 < i" | "i < 0" by linarith
  then show ?thesis
  proof cases
    case 3
    then have "round64 (of_int (- i)) = Fin (of_int (- i))" using assms by (intro pos) simp_all
    then show ?thesis using round64_minus [of "of_int (- i)"] by simp
  qed (use assms pos in auto)
qed

lemma round64_numeral: "numeral k \<le> (2 ^ 53 :: int) \<Longrightarrow> round64 (numeral k) = Fin (numeral k)"
  using round64_of_int [of "numeral k"] by simp

lemma round64_1 [simp]: "round64 1 = Fin 1"
  using round64_of_int [of 1] by simp

text \<open>
  The interface: what arithmetic proofs may use of rounding. \<open>exact q\<close> says that \<open>q\<close> is one
  of the numbers the format holds.
\<close>

locale rounding =
  fixes rnd :: "rat \<Rightarrow> fl"
  assumes rnd_mono: "x \<le> y \<Longrightarrow> rnd x \<le> rnd y"
    and rnd_0: "rnd 0 = Fin 0"
    and rnd_1: "rnd 1 = Fin 1"
    and rnd_minus: "rnd (- x) = - rnd x"
    and rnd_idem: "rnd x = Fin y \<Longrightarrow> rnd y = Fin y"
begin

lemma rnd_noNaN: "rnd x \<noteq> NaN"
  using rnd_mono [of x x] by simp

lemma rnd_nonneg: "0 \<le> x \<Longrightarrow> Fin 0 \<le> rnd x"
  using rnd_mono [of 0 x] by (simp add: rnd_0)

lemma rnd_nonpos: "x \<le> 0 \<Longrightarrow> rnd x \<le> Fin 0"
  using rnd_mono [of x 0] by (simp add: rnd_0)

lemma rnd_pos_imp: "Fin 0 < rnd x \<Longrightarrow> 0 < x"
  using rnd_nonpos [of x] fl_le_not_less by (cases "0 < x") auto

lemma rnd_neg_imp: "rnd x < Fin 0 \<Longrightarrow> x < 0"
  using rnd_nonneg [of x] fl_le_not_less by (cases "x < 0") auto

lemma rnd_below: "x \<le> y \<Longrightarrow> rnd y = Fin y \<Longrightarrow> rnd x \<le> Fin y"
  using rnd_mono [of x y] by simp

lemma rnd_above: "y \<le> x \<Longrightarrow> rnd y = Fin y \<Longrightarrow> Fin y \<le> rnd x"
  using rnd_mono [of y x] by simp

lemma rnd_between:
  "a \<le> x \<Longrightarrow> x \<le> b \<Longrightarrow> rnd a = Fin a \<Longrightarrow> rnd b = Fin b \<Longrightarrow>
    \<exists>c. rnd x = Fin c \<and> a \<le> c \<and> c \<le> b"
  by (rule fl_le_between_Fin) (blast intro: rnd_above rnd_below)+

lemma rnd_unit: "0 \<le> x \<Longrightarrow> x \<le> 1 \<Longrightarrow> \<exists>c. rnd x = Fin c \<and> 0 \<le> c \<and> c \<le> 1"
  by (rule rnd_between) (simp_all add: rnd_0 rnd_1)

end

interpretation b64: rounding round64
  by unfold_locales (auto intro: round64_mono round64_idem simp: round64_minus)

end
