(* ===== verification/Pyfloat.thy ===== *)
theory Pyfloat
  imports Rounding
begin

text \<open>
  The arithmetic of Python's \<^verbatim>\<open>float\<close> (and, elementwise, of numpy and pandas) on \<open>fl\<close>: each
  operation is the exact one on rationals followed by \<open>round64\<close>, with the IEEE rules for the
  infinities and NaN. \<open>x / y\<close> is the numpy division, which returns an infinity or NaN for a
  zero divisor; \<open>py_div\<close> is Python's, which raises. As the sign of a zero is not represented,
  a division by a zero reads it as a positive one.

  \<open>number\<close> is the schema's \<^verbatim>\<open>Union[int, float]\<close>: Python integers are unbounded, and mixing
  one with a float converts it first, which raises \<open>OverflowError\<close> when it is too large.
\<close>

section \<open>Operations\<close>

definition fl_sgn :: "fl \<Rightarrow> int" where
  "fl_sgn x = (case x of
      Fin a \<Rightarrow> (if 0 < a then 1 else if a < 0 then - 1 else 0)
    | PInf \<Rightarrow> 1 | NInf \<Rightarrow> - 1 | NaN \<Rightarrow> 0)"

definition signed_inf :: "int \<Rightarrow> fl" where
  "signed_inf s = (if 0 < s then PInf else if s < 0 then NInf else NaN)"

instantiation fl :: "{zero, one, plus, minus, times, inverse, abs}"
begin

definition zero_fl :: fl where "zero_fl = Fin 0"

definition one_fl :: fl where "one_fl = Fin 1"

fun plus_fl :: "fl \<Rightarrow> fl \<Rightarrow> fl" where
  "plus_fl (Fin a) (Fin b) = round64 (a + b)"
| "plus_fl NaN _ = NaN"
| "plus_fl _ NaN = NaN"
| "plus_fl PInf NInf = NaN"
| "plus_fl NInf PInf = NaN"
| "plus_fl PInf _ = PInf"
| "plus_fl _ PInf = PInf"
| "plus_fl NInf _ = NInf"
| "plus_fl _ NInf = NInf"

definition minus_fl :: "fl \<Rightarrow> fl \<Rightarrow> fl" where "minus_fl x y = x + (- y)"

fun times_fl :: "fl \<Rightarrow> fl \<Rightarrow> fl" where
  "times_fl (Fin a) (Fin b) = round64 (a * b)"
| "times_fl NaN _ = NaN"
| "times_fl _ NaN = NaN"
| "times_fl x y = signed_inf (fl_sgn x * fl_sgn y)"

fun divide_fl :: "fl \<Rightarrow> fl \<Rightarrow> fl" where
  "divide_fl (Fin a) (Fin b) =
     (if b = 0 then signed_inf (fl_sgn (Fin a)) else round64 (a / b))"
| "divide_fl NaN _ = NaN"
| "divide_fl _ NaN = NaN"
| "divide_fl (Fin _) _ = Fin 0"
| "divide_fl x (Fin b) = signed_inf (fl_sgn x * (if b < 0 then - 1 else 1))"
| "divide_fl _ _ = NaN"

definition inverse_fl :: "fl \<Rightarrow> fl" where "inverse_fl x = Fin 1 div x"

fun abs_fl :: "fl \<Rightarrow> fl" where
  "abs_fl (Fin a) = Fin \<bar>a\<bar>"
| "abs_fl NaN = NaN"
| "abs_fl _ = PInf"

instance ..

end

text \<open>Python's \<^verbatim>\<open>==\<close> on floats, its \<^verbatim>\<open>/\<close>, and \<^verbatim>\<open>max(a, b)\<close>, which keeps \<open>a\<close> unless \<open>b > a\<close>.\<close>

definition py_eq :: "fl \<Rightarrow> fl \<Rightarrow> bool" where
  "py_eq x y \<longleftrightarrow> x = y \<and> x \<noteq> NaN"

definition py_div :: "fl \<Rightarrow> fl \<Rightarrow> fl res" where
  "py_div x y = (if y = 0 then Inl ZeroDivisionError else Inr (x / y))"

definition py_max :: "fl \<Rightarrow> fl \<Rightarrow> fl" where
  "py_max a b = (if a < b then b else a)"

definition is_finite :: "fl \<Rightarrow> bool" where
  "is_finite x = (case x of Fin _ \<Rightarrow> True | _ \<Rightarrow> False)"

definition is_nan :: "fl \<Rightarrow> bool" where
  "is_nan x \<longleftrightarrow> x = NaN"

text \<open>A decimal literal of the source, such as \<^verbatim>\<open>0.10\<close>: the double nearest to it.\<close>

definition lit :: "rat \<Rightarrow> fl" where
  "lit q = round64 q"

text \<open>The values a Python float can hold: rationals of the format, infinities and NaN.\<close>

definition is_double :: "fl \<Rightarrow> bool" where
  "is_double x = (case x of Fin q \<Rightarrow> round64 q = Fin q | _ \<Rightarrow> True)"

section \<open>Integers and numbers\<close>

datatype number = IntN int | FloatN fl

definition float_of_int :: "int \<Rightarrow> fl res" where
  "float_of_int i = (case round64 (of_int i) of Fin q \<Rightarrow> Inr (Fin q) | _ \<Rightarrow> Inl OverflowError)"

text \<open>\<^verbatim>\<open>float(n)\<close>\<close>

definition py_float :: "number \<Rightarrow> fl res" where
  "py_float n = (case n of IntN i \<Rightarrow> float_of_int i | FloatN x \<Rightarrow> Inr x)"

text \<open>\<^verbatim>\<open>int(n)\<close>: truncation towards zero; NaN and the infinities raise.\<close>

definition trunc_rat :: "rat \<Rightarrow> int" where
  "trunc_rat q = (if 0 \<le> q then \<lfloor>q\<rfloor> else \<lceil>q\<rceil>)"

definition py_int :: "number \<Rightarrow> int res" where
  "py_int n = (case n of
      IntN i \<Rightarrow> Inr i
    | FloatN (Fin q) \<Rightarrow> Inr (trunc_rat q)
    | FloatN NaN \<Rightarrow> Inl (ValueError ''cannot convert float NaN to integer'')
    | FloatN _ \<Rightarrow> Inl OverflowError)"

text \<open>Comparison of two numbers: Python compares an int with a float exactly.\<close>

definition exact_value :: "number \<Rightarrow> fl" where
  "exact_value n = (case n of IntN i \<Rightarrow> Fin (of_int i) | FloatN x \<Rightarrow> x)"

definition num_le :: "number \<Rightarrow> number \<Rightarrow> bool" where
  "num_le m n \<longleftrightarrow> exact_value m \<le> exact_value n"

definition num_less :: "number \<Rightarrow> number \<Rightarrow> bool" where
  "num_less m n \<longleftrightarrow> exact_value m < exact_value n"

text \<open>\<^verbatim>\<open>1 - n\<close>, \<^verbatim>\<open>1 + n\<close> and \<^verbatim>\<open>x * n\<close> for a float \<^verbatim>\<open>x\<close>.\<close>

definition one_minus :: "number \<Rightarrow> number" where
  "one_minus n = (case n of IntN i \<Rightarrow> IntN (1 - i) | FloatN x \<Rightarrow> FloatN (1 - x))"

definition one_plus :: "number \<Rightarrow> number" where
  "one_plus n = (case n of IntN i \<Rightarrow> IntN (1 + i) | FloatN x \<Rightarrow> FloatN (1 + x))"

definition mult_num :: "fl \<Rightarrow> number \<Rightarrow> fl res" where
  "mult_num x n = map_res (\<lambda>y. x * y) (py_float n)"

section \<open>Evaluation\<close>

text \<open>
  \<open>fl_eval\<close> evaluates closed arithmetic by simplification: it unfolds the operations down to
  integer division and powers of two. It is given by name to \<open>simp\<close> where a concrete run is
  computed, and is not part of the default simpset.
\<close>

lemma floor_rat_numeral:
  "\<lfloor>numeral a / numeral b :: rat\<rfloor> = numeral a div numeral b"
  "\<lfloor>1 / numeral b :: rat\<rfloor> = 1 div numeral b"
  using floor_divide_of_int_eq [of "numeral a" "numeral b", where 'a = rat]
    floor_divide_of_int_eq [of 1 "numeral b", where 'a = rat] by simp_all

lemma ceiling_rat_numeral:
  "\<lceil>numeral a / numeral b :: rat\<rceil> = - ((- numeral a) div numeral b)"
  "\<lceil>1 / numeral b :: rat\<rceil> = - ((- 1) div numeral b)"
  using floor_divide_of_int_eq [of "- numeral a" "numeral b", where 'a = rat]
    floor_divide_of_int_eq [of "- 1" "numeral b", where 'a = rat]
  by (simp_all add: ceiling_def)

lemmas round_eval = round64_def round_pos_def ulp_exp_def bexp_def rhe_def half_even_def
  to_range_def compute_floorlog ceillog2_code ceillog2_aux.simps pow2_def
  floor_rat_numeral ceiling_rat_numeral

lemmas fl_eval = round_eval zero_fl_def one_fl_def minus_fl_def fl_sgn_def signed_inf_def
  py_div_def py_max_def lit_def float_of_int_def py_float_def one_minus_def one_plus_def
  mult_num_def exact_value_def num_le_def num_less_def

lemma decimal_literal_example: "lit (1 / 10) = Fin (3602879701896397 / 36028797018963968)"
  by (simp add: fl_eval)

lemma addition_rounds_example:
  "lit (1 / 10) + lit (1 / 5) = Fin (1351079888211149 / 4503599627370496)"
  by (simp add: fl_eval)

section \<open>Laws\<close>

lemma zero_fl_Fin: "0 = Fin 0" and one_fl_Fin: "1 = Fin 1"
  by (simp_all add: zero_fl_def one_fl_def)

lemma fl_zero_ne_one [simp]: "(0 :: fl) \<noteq> 1" "(1 :: fl) \<noteq> 0"
  by (simp_all add: zero_fl_def one_fl_def)

lemma is_double_simps [simp]:
  "is_double PInf" "is_double NInf" "is_double NaN" "is_double 0" "is_double 1"
  by (simp_all add: is_double_def zero_fl_def one_fl_def)

lemma is_double_Fin: "is_double (Fin q) \<longleftrightarrow> round64 q = Fin q"
  by (simp add: is_double_def)

lemma is_double_round64 [simp]: "is_double (round64 q)"
  by (cases "round64 q") (auto simp: is_double_def intro: round64_idem)

lemma is_double_signed_inf [simp]: "is_double (signed_inf s)"
  by (simp add: signed_inf_def)

lemma is_double_uminus [simp]: "is_double (- x) = is_double x"
proof (cases x)
  case (Fin q)
  have "- round64 q = Fin (- q) \<longleftrightarrow> round64 q = Fin q" by (cases "round64 q") auto
  with Fin show ?thesis by (simp add: is_double_def round64_minus)
qed simp_all

lemma is_double_plus [simp]: "is_double (x + y)"
  by (cases x; cases y) simp_all

lemma is_double_minus [simp]: "is_double (x - y)"
  by (simp add: minus_fl_def)

lemma is_double_times [simp]: "is_double (x * y)"
  by (cases x; cases y) simp_all

lemma is_double_divide [simp]: "is_double (x / y)"
  by (cases x; cases y) (simp_all add: is_double_simps(4) [unfolded zero_fl_def])

lemma is_double_lit [simp]: "is_double (lit q)"
  by (simp add: lit_def)

lemma is_double_py_max [simp]: "is_double x \<Longrightarrow> is_double y \<Longrightarrow> is_double (py_max x y)"
  by (simp add: py_max_def)

lemma py_max_upper: "x \<noteq> NaN \<Longrightarrow> y \<noteq> NaN \<Longrightarrow> x \<le> py_max x y \<and> y \<le> py_max x y"
  by (auto simp: py_max_def fl_less_imp_le fl_not_less)

lemma py_max_ge_first: "x \<noteq> NaN \<Longrightarrow> x \<le> py_max x y"
  by (auto simp: py_max_def fl_less_imp_le)

lemma py_div_Inr [py_simps]: "py_div x y = Inr z \<longleftrightarrow> y \<noteq> 0 \<and> z = x / y"
  by (auto simp: py_div_def)

text \<open>A fraction taken off one stays between zero and one.\<close>

lemma one_minus_unit:
  assumes "0 \<le> s" and "s \<le> 1"
  shows "\<exists>c. 1 - s = Fin c \<and> 0 \<le> c \<and> c \<le> 1"
proof -
  obtain q where q: "s = Fin q" "0 \<le> q" "q \<le> 1"
    using assms fl_le_between_Fin [of 0 s 1] by (auto simp: zero_fl_def one_fl_def)
  then show ?thesis using b64.rnd_unit [of "1 - q"] by (simp add: minus_fl_def one_fl_def)
qed

text \<open>A fraction added to one is at least one.\<close>

lemma one_plus_ge_one: "0 \<le> s \<Longrightarrow> 1 \<le> 1 + (s :: fl)"
  using b64.rnd_above [of 1 "1 + q" for q] by (cases s) (simp_all add: zero_fl_def one_fl_def)

lemma mult_shrinks:
  assumes "is_double (Fin p)" and "0 \<le> p" and "0 \<le> c" and "c \<le> 1"
  shows "Fin p * Fin c \<le> Fin p" and "0 \<le> Fin p * Fin c"
proof -
  have "p * c \<le> p" using assms(2,4) by (simp add: mult_left_le)
  then show "Fin p * Fin c \<le> Fin p" using assms(1) by (simp add: b64.rnd_below is_double_Fin)
  show "0 \<le> Fin p * Fin c" using assms(2,3) by (simp add: zero_fl_def b64.rnd_nonneg)
qed

lemma mult_grows:
  assumes "is_double (Fin p)" and "0 < p" and "1 \<le> c"
  shows "Fin p \<le> Fin p * c"
proof (cases c)
  case (Fin q)
  with assms have "p \<le> p * q" by (simp add: one_fl_def)
  then show ?thesis using assms(1) Fin by (simp add: b64.rnd_above is_double_Fin)
qed (use assms in \<open>auto simp: one_fl_def signed_inf_def fl_sgn_def\<close>)

lemma divide_le_one:
  assumes "0 \<le> a" and "a \<le> b" and "0 < b"
  shows "\<exists>c. Fin a / Fin b = Fin c \<and> 0 \<le> c \<and> c \<le> 1"
  using assms b64.rnd_unit [of "a / b"] by simp

lemma divide_ge_one:
  assumes "b \<le> a" and "0 < b"
  shows "1 \<le> Fin a / Fin b"
  using assms b64.rnd_above [of 1 "a / b"] by (simp add: one_fl_def)

lemma minus_one_nonpos: "x \<le> 1 \<Longrightarrow> x - 1 \<le> (0 :: fl)"
  by (cases x) (simp_all add: one_fl_def zero_fl_def minus_fl_def b64.rnd_nonpos)

lemma minus_one_nonneg: "1 \<le> x \<Longrightarrow> 0 \<le> x - (1 :: fl)"
  by (cases x) (simp_all add: one_fl_def zero_fl_def minus_fl_def b64.rnd_nonneg)

lemma fl_times_mono:
  "x \<le> y \<Longrightarrow> 0 \<le> c \<Longrightarrow> Fin x * Fin c \<le> Fin y * Fin c"
  by (simp add: round64_mono mult_right_mono)

lemma fl_plus_mono: "x \<le> y \<Longrightarrow> Fin x + Fin c \<le> Fin y + Fin c"
  by (simp add: round64_mono)

lemma mult_num_float [simp, py_simps]: "mult_num x (FloatN y) = Inr (x * y)"
  by (simp add: mult_num_def py_float_def)

lemma one_minus_float [simp]: "one_minus (FloatN x) = FloatN (1 - x)"
  by (simp add: one_minus_def)

lemma one_plus_float [simp]: "one_plus (FloatN x) = FloatN (1 + x)"
  by (simp add: one_plus_def)

end
