(* ===== verification/Schema.thy ===== *)
theory Schema
  imports Pyfloat
begin

text \<open>
  The data model of a strategy definition, \<^verbatim>\<open>freqpanda_strategy/schema.py\<close>: parameters,
  indicators, the condition trees and the risk block, each with the checks its Pydantic model
  runs when an instance is built. A check that fails raises Pydantic's \<open>ValidationError\<close>.
  Strings are lists of ASCII characters; a Python dictionary read from JSON is an association
  list in insertion order, whose keys are distinct.
\<close>

section \<open>Parameters\<close>

record param_range =
  pr_default :: number
  pr_min :: number
  pr_max :: number
  pr_step :: "number option"

text \<open>\<^verbatim>\<open>step\<close> must be positive, and \<^verbatim>\<open>_check_bounds\<close> wants \<^verbatim>\<open>min <= default <= max\<close>.\<close>

definition check_bounds :: "param_range \<Rightarrow> param_range res" where
  "check_bounds r =
     (if (case pr_step r of None \<Rightarrow> False | Some s \<Rightarrow> \<not> num_less (IntN 0) s)
      then Inl (ValidationError ''step'')
      else if num_less (pr_max r) (pr_min r) then Inl (ValidationError ''min must be <= max'')
      else if \<not> (num_le (pr_min r) (pr_default r) \<and> num_le (pr_default r) (pr_max r))
      then Inl (ValidationError ''default must lie within [min, max]'')
      else Inr r)"

datatype param_value = Fixed number | Range param_range

definition resolve_param :: "param_value \<Rightarrow> number" where
  "resolve_param v = (case v of Range r \<Rightarrow> pr_default r | Fixed n \<Rightarrow> n)"

section \<open>Indicators\<close>

record indicator_config =
  ic_name :: string
  ic_alias :: string
  ic_params :: "(string \<times> param_value) list"

definition is_letter :: "char \<Rightarrow> bool" where
  "is_letter c \<longleftrightarrow> (let n = of_char c :: nat in 65 \<le> n \<and> n \<le> 90 \<or> 97 \<le> n \<and> n \<le> 122 \<or> n = 95)"

definition is_digit :: "char \<Rightarrow> bool" where
  "is_digit c \<longleftrightarrow> (let n = of_char c :: nat in 48 \<le> n \<and> n \<le> 57)"

text \<open>\<^verbatim>\<open>str.isidentifier\<close> on ASCII strings.\<close>

definition isidentifier :: "string \<Rightarrow> bool" where
  "isidentifier s = (case s of [] \<Rightarrow> False
     | c # cs \<Rightarrow> is_letter c \<and> (\<forall>d \<in> set cs. is_letter d \<or> is_digit d))"

definition alias_is_identifier :: "string \<Rightarrow> string res" where
  "alias_is_identifier v =
     (if isidentifier v then Inr v else Inl (ValidationError ''alias must be a valid identifier''))"

section \<open>Conditions\<close>

datatype comparison_op = GT | GTE | LT | LTE | EQ | NE | CrossesAbove | CrossesBelow

datatype logical_op = AND_op | OR_op | NOT_op

datatype operand = Const number | Ref string

datatype condition =
    Comparison operand comparison_op operand
  | Logical logical_op "condition list"

text \<open>
  The arity check of a \<^verbatim>\<open>Logical\<close> node. Pydantic builds the children first, so a tree it
  accepts satisfies the check at every node.
\<close>

definition check_arity :: "logical_op \<Rightarrow> condition list \<Rightarrow> condition res" where
  "check_arity op cs =
     (if op = NOT_op \<and> length cs \<noteq> 1
      then Inl (ValidationError ''not requires exactly 1 nested condition'')
      else if op \<in> {AND_op, OR_op} \<and> length cs < 2
      then Inl (ValidationError ''and/or require at least 2 nested conditions'')
      else Inr (Logical op cs))"

fun condition_ok :: "condition \<Rightarrow> bool" where
  "condition_ok (Comparison l op r) = True"
| "condition_ok (Logical op cs) =
     (check_arity op cs = Inr (Logical op cs) \<and> (\<forall>c \<in> set cs. condition_ok c))"

section \<open>Risk management\<close>

record risk_management =
  rm_stop_loss_pct :: number
  rm_take_profit_pct :: number
  rm_trailing_stop_pct :: "number option"

text \<open>The field bounds: \<^verbatim>\<open>gt=0, lt=1\<close> for the two stops, \<^verbatim>\<open>gt=0\<close> for the take-profit.\<close>

definition in_open_unit :: "number \<Rightarrow> bool" where
  "in_open_unit n \<longleftrightarrow> num_less (IntN 0) n \<and> num_less n (IntN 1)"

definition check_risk :: "risk_management \<Rightarrow> risk_management res" where
  "check_risk r =
     (if \<not> in_open_unit (rm_stop_loss_pct r) then Inl (ValidationError ''stop_loss_pct'')
      else if \<not> num_less (IntN 0) (rm_take_profit_pct r)
      then Inl (ValidationError ''take_profit_pct'')
      else if (case rm_trailing_stop_pct r of None \<Rightarrow> False | Some t \<Rightarrow> \<not> in_open_unit t)
      then Inl (ValidationError ''trailing_stop_pct'')
      else Inr r)"

section \<open>Strategy definitions\<close>

record strategy_definition =
  sd_name :: string
  sd_description :: "string option"
  sd_timeframe :: "string option"
  sd_indicators :: "indicator_config list"
  sd_entry_conditions :: condition
  sd_exit_conditions :: "condition option"
  sd_risk_management :: risk_management

text \<open>The loop of \<^verbatim>\<open>_check_unique_aliases\<close>: each alias joins \<open>dupes\<close> when it was seen before.\<close>

fun scan_aliases :: "string set \<Rightarrow> string set \<Rightarrow> string list \<Rightarrow> string set" where
  "scan_aliases seen dupes [] = dupes"
| "scan_aliases seen dupes (a # as) =
     (if a \<in> seen then scan_aliases seen (insert a dupes) as
      else scan_aliases (insert a seen) dupes as)"

definition check_unique_aliases :: "strategy_definition \<Rightarrow> strategy_definition res" where
  "check_unique_aliases d =
     (if scan_aliases {} {} (map ic_alias (sd_indicators d)) \<noteq> {}
      then Inl (ValidationError ''duplicate indicator aliases'') else Inr d)"

definition accepted :: "'e + 'a \<Rightarrow> bool" where
  "accepted m = (case m of Inl _ \<Rightarrow> False | Inr _ \<Rightarrow> True)"

definition indicator_ok :: "indicator_config \<Rightarrow> bool" where
  "indicator_ok i \<longleftrightarrow> accepted (alias_is_identifier (ic_alias i)) \<and> distinct (map fst (ic_params i)) \<and>
     (\<forall>(k, v) \<in> set (ic_params i). case v of Range r \<Rightarrow> accepted (check_bounds r) | Fixed _ \<Rightarrow> True)"

text \<open>What a \<^verbatim>\<open>StrategyDefinition\<close> that Pydantic has built satisfies.\<close>

definition definition_ok :: "strategy_definition \<Rightarrow> bool" where
  "definition_ok d \<longleftrightarrow>
     list_all indicator_ok (sd_indicators d) \<and>
     condition_ok (sd_entry_conditions d) \<and>
     (case sd_exit_conditions d of None \<Rightarrow> True | Some c \<Rightarrow> condition_ok c) \<and>
     accepted (check_risk (sd_risk_management d)) \<and>
     accepted (check_unique_aliases d)"

section \<open>What the checks establish\<close>

lemma accepted_simps [simp]: "accepted (Inr x)" "\<not> accepted (Inl e)"
  by (simp_all add: accepted_def)

lemma scan_aliases_iff:
  "scan_aliases seen dupes as = {} \<longleftrightarrow> dupes = {} \<and> distinct as \<and> set as \<inter> seen = {}"
  by (induction as arbitrary: seen dupes) auto

lemma check_unique_aliases_iff:
  "accepted (check_unique_aliases d) \<longleftrightarrow> distinct (map ic_alias (sd_indicators d))"
  by (simp add: check_unique_aliases_def scan_aliases_iff)

lemma check_bounds_Inr:
  "check_bounds r = Inr r' \<longleftrightarrow> r' = r \<and> num_le (pr_min r) (pr_default r) \<and>
     num_le (pr_default r) (pr_max r) \<and> (\<forall>s. pr_step r = Some s \<longrightarrow> num_less (IntN 0) s)"
  (is "_ \<longleftrightarrow> ?ok")
proof -
  have "num_le a b \<Longrightarrow> num_le b c \<Longrightarrow> \<not> num_less c a" for a b c
    unfolding num_le_def num_less_def by (meson fl_le_not_less fl_le_trans)
  then show ?thesis by (auto simp: check_bounds_def split: option.splits)
qed

lemma check_arity_Inr:
  "check_arity op cs = Inr c \<longleftrightarrow>
     c = Logical op cs \<and> (op = NOT_op \<and> length cs = 1 \<or> op \<noteq> NOT_op \<and> 2 \<le> length cs)"
  by (cases op) (auto simp: check_arity_def)

lemma condition_ok_Logical [simp]:
  "condition_ok (Logical op cs) \<longleftrightarrow> cs \<noteq> [] \<and> (op = NOT_op \<longrightarrow> length cs = 1) \<and>
     (op \<noteq> NOT_op \<longrightarrow> 2 \<le> length cs) \<and> (\<forall>c \<in> set cs. condition_ok c)"
  by (auto simp: check_arity_Inr)

declare condition_ok.simps(2) [simp del]

text \<open>
  An accepted fraction is a float strictly between zero and one: no integer lies there. The
  take-profit is the one risk parameter that may be an integer.
\<close>

lemma in_open_unit_iff:
  "in_open_unit n \<longleftrightarrow> (\<exists>q. n = FloatN (Fin q) \<and> 0 < q \<and> q < 1)"
proof (cases n)
  case (IntN i)
  then show ?thesis by (auto simp: in_open_unit_def num_less_def exact_value_def)
next
  case (FloatN x)
  then show ?thesis by (cases x) (auto simp: in_open_unit_def num_less_def exact_value_def)
qed

lemma check_risk_Inr:
  "check_risk r = Inr r' \<longleftrightarrow> r' = r \<and> in_open_unit (rm_stop_loss_pct r) \<and>
     num_less (IntN 0) (rm_take_profit_pct r) \<and>
     (\<forall>t. rm_trailing_stop_pct r = Some t \<longrightarrow> in_open_unit t)"
  by (auto simp: check_risk_def split: option.splits)

lemma accepted_check_risk:
  "accepted (check_risk r) \<longleftrightarrow> in_open_unit (rm_stop_loss_pct r) \<and>
     num_less (IntN 0) (rm_take_profit_pct r) \<and>
     (\<forall>t. rm_trailing_stop_pct r = Some t \<longrightarrow> in_open_unit t)"
  by (cases "check_risk r") (auto simp: check_risk_def split: option.splits if_splits)

end
