(* ===== verification/Frames.thy ===== *)
theory Frames
  imports Pyfloat
begin

text \<open>
  The pandas objects the code computes with. A series is the list of its values; a data frame
  is its index (timestamps in nanoseconds) and a map from column names to series of the same
  length. The operations are the ones the code calls, row by row: constant series, \<^verbatim>\<open>shift(1)\<close>,
  elementwise comparison, column assignment, \<^verbatim>\<open>iloc[:n]\<close>, boolean row selection, \<^verbatim>\<open>iterrows\<close>
  and the scalar read \<^verbatim>\<open>series.loc[ts]\<close>, which is only a scalar when \<open>ts\<close> occurs once in the
  index. Numerical routines of pandas, numpy and \<^verbatim>\<open>ta\<close> are not defined here: they are the
  fields of \<open>extlib\<close>, a parameter of every definition that uses them.
\<close>

type_synonym time = int

record frame =
  fr_index :: "time list"
  fr_columns :: "string \<rightharpoonup> fl list"

definition frame_ok :: "frame \<Rightarrow> bool" where
  "frame_ok df \<longleftrightarrow> (\<forall>name s. fr_columns df name = Some s \<longrightarrow> length s = length (fr_index df))"

text \<open>\<^verbatim>\<open>df[name]\<close> and \<^verbatim>\<open>df[name] = series\<close>\<close>

definition get_column :: "frame \<Rightarrow> string \<Rightarrow> fl list res" where
  "get_column df name = (case fr_columns df name of None \<Rightarrow> Inl (KeyError name) | Some s \<Rightarrow> Inr s)"

definition set_column :: "frame \<Rightarrow> string \<times> fl list \<Rightarrow> frame" where
  "set_column df c = df\<lparr>fr_columns := (fr_columns df)(fst c \<mapsto> snd c)\<rparr>"

definition const_series :: "frame \<Rightarrow> fl \<Rightarrow> fl list" where
  "const_series df x = replicate (length (fr_index df)) x"

definition shift1 :: "fl list \<Rightarrow> fl list" where
  "shift1 xs = (if xs = [] then [] else NaN # butlast xs)"

text \<open>\<^verbatim>\<open>df.iloc[:n]\<close> and \<^verbatim>\<open>df[mask]\<close> for a condition on the index\<close>

definition frame_take :: "nat \<Rightarrow> frame \<Rightarrow> frame" where
  "frame_take n df = \<lparr>fr_index = take n (fr_index df),
     fr_columns = (\<lambda>c. map_option (take n) (fr_columns df c))\<rparr>"

definition select_rows :: "(time \<Rightarrow> bool) \<Rightarrow> time list \<Rightarrow> 'a list \<Rightarrow> 'a list" where
  "select_rows p idx xs = map snd (filter (\<lambda>(t, _). p t) (zip idx xs))"

definition frame_select :: "(time \<Rightarrow> bool) \<Rightarrow> frame \<Rightarrow> frame" where
  "frame_select p df = \<lparr>fr_index = filter p (fr_index df),
     fr_columns = (\<lambda>c. map_option (select_rows p (fr_index df)) (fr_columns df c))\<rparr>"

text \<open>\<^verbatim>\<open>bool(series.loc[ts])\<close>: a repeated timestamp gives a series, whose truth value raises.\<close>

definition rows_at :: "time list \<Rightarrow> time \<Rightarrow> nat list" where
  "rows_at idx ts = filter (\<lambda>i. idx ! i = ts) [0..<length idx]"

definition loc_bool :: "time list \<Rightarrow> bool list \<Rightarrow> time \<Rightarrow> bool res" where
  "loc_bool idx s ts = (case rows_at idx ts of
      [] \<Rightarrow> Inl (KeyError ''timestamp'')
    | [i] \<Rightarrow> Inr (s ! i)
    | _ \<Rightarrow> Inl (ValueError ''The truth value of a Series is ambiguous''))"

text \<open>One row of the price data, as \<^verbatim>\<open>iterrows\<close> hands it out.\<close>

record candle =
  cd_time :: time
  cd_open :: fl
  cd_high :: fl
  cd_low :: fl
  cd_close :: fl

definition cell :: "frame \<Rightarrow> string \<Rightarrow> nat \<Rightarrow> fl" where
  "cell df name i = (case fr_columns df name of None \<Rightarrow> NaN | Some s \<Rightarrow> s ! i)"

definition row_at :: "frame \<Rightarrow> nat \<Rightarrow> candle" where
  "row_at df i = \<lparr>cd_time = fr_index df ! i, cd_open = cell df ''open'' i,
     cd_high = cell df ''high'' i, cd_low = cell df ''low'' i, cd_close = cell df ''close'' i\<rparr>"

definition iterrows :: "frame \<Rightarrow> candle list" where
  "iterrows df = map (row_at df) [0..<length (fr_index df)]"

text \<open>
  The libraries the strategy code calls: the indicator classes of \<^verbatim>\<open>ta\<close> (each given the close
  column and its window sizes) and numpy's \<^verbatim>\<open>isclose\<close> on one pair of values.
\<close>

record extlib =
  ta_rsi :: "fl list \<Rightarrow> int \<Rightarrow> fl list res"
  ta_ema :: "fl list \<Rightarrow> int \<Rightarrow> fl list res"
  ta_sma :: "fl list \<Rightarrow> int \<Rightarrow> fl list res"
  ta_macd :: "fl list \<Rightarrow> int \<Rightarrow> int \<Rightarrow> int \<Rightarrow> (fl list \<times> fl list \<times> fl list) res"
  ta_bbands :: "fl list \<Rightarrow> int \<Rightarrow> fl \<Rightarrow> (fl list \<times> fl list \<times> fl list) res"
  np_isclose :: "fl \<Rightarrow> fl \<Rightarrow> bool"

section \<open>Facts\<close>

lemma get_column_Inr [py_simps]: "get_column df c = Inr s \<longleftrightarrow> fr_columns df c = Some s"
  by (simp add: get_column_def split: option.splits)

lemma set_column_simps [simp]:
  "fr_index (set_column df c) = fr_index df"
  "fr_columns (set_column df c) = (fr_columns df)(fst c \<mapsto> snd c)"
  by (simp_all add: set_column_def)

lemma frame_ok_set_column [simp]:
  "frame_ok df \<Longrightarrow> length (snd c) = length (fr_index df) \<Longrightarrow> frame_ok (set_column df c)"
  by (auto simp: frame_ok_def)

lemma frame_take_simps [simp]:
  "fr_index (frame_take n df) = take n (fr_index df)"
  "fr_columns (frame_take n df) c = map_option (take n) (fr_columns df c)"
  by (simp_all add: frame_take_def)

lemma frame_take_set_column:
  "frame_take n (set_column df c) = set_column (frame_take n df) (fst c, take n (snd c))"
  by (simp add: frame_take_def set_column_def fun_eq_iff)

lemma frame_ok_take [simp]: "frame_ok df \<Longrightarrow> frame_ok (frame_take n df)"
  by (auto simp: frame_ok_def)

lemma length_shift1 [simp]: "length (shift1 xs) = length xs"
  by (simp add: shift1_def)

lemma shift1_nth: "i < length xs \<Longrightarrow> shift1 xs ! i = (case i of 0 \<Rightarrow> NaN | Suc j \<Rightarrow> xs ! j)"
  by (cases i) (auto simp: shift1_def nth_butlast)

lemma take_shift1: "take n (shift1 xs) = shift1 (take n xs)"
  by (rule nth_equalityI) (auto simp: shift1_nth split: nat.splits)

lemma take_const_series: "take n (const_series df x) = const_series (frame_take n df) x"
  by (simp add: const_series_def min.commute)

lemma length_const_series [simp]: "length (const_series df x) = length (fr_index df)"
  by (simp add: const_series_def)

lemma rows_at_distinct:
  assumes "distinct idx" and "i < length idx"
  shows "rows_at idx (idx ! i) = [i]"
proof -
  have "rows_at idx (idx ! i) = filter (\<lambda>j. j = i) [0..<length idx]"
    unfolding rows_at_def using assms by (intro filter_cong) (auto simp: nth_eq_iff_index_eq)
  also have "\<dots> = [i]" using assms(2) by (rule filter_upt_single)
  finally show ?thesis .
qed

lemma loc_bool_distinct:
  "distinct idx \<Longrightarrow> i < length idx \<Longrightarrow> loc_bool idx s (idx ! i) = Inr (s ! i)"
  by (simp add: loc_bool_def rows_at_distinct)

lemma length_iterrows [simp]: "length (iterrows df) = length (fr_index df)"
  by (simp add: iterrows_def)

lemma iterrows_nth [simp]: "i < length (fr_index df) \<Longrightarrow> iterrows df ! i = row_at df i"
  by (simp add: iterrows_def)

lemma row_at_simps [simp]:
  "cd_time (row_at df i) = fr_index df ! i"
  "cd_open (row_at df i) = cell df ''open'' i"
  "cd_high (row_at df i) = cell df ''high'' i"
  "cd_low (row_at df i) = cell df ''low'' i"
  "cd_close (row_at df i) = cell df ''close'' i"
  by (simp_all add: row_at_def)

lemma times_iterrows: "map cd_time (iterrows df) = fr_index df"
  by (rule nth_equalityI) (simp_all add: iterrows_def)

lemma cell_take: "i < n \<Longrightarrow> cell (frame_take n df) c i = cell df c i"
  by (simp add: cell_def split: option.splits)

lemma row_at_take: "i < n \<Longrightarrow> row_at (frame_take n df) i = row_at df i"
  by (simp add: row_at_def cell_take)

end
