(* ===== verification/Indicators.thy ===== *)
theory Indicators
  imports Schema Frames
begin

text \<open>
  The indicator registry, \<^verbatim>\<open>freqpanda_strategy/indicators.py\<close>, and \<^verbatim>\<open>compute_indicators\<close> of
  \<^verbatim>\<open>interpreter.py\<close>, which adds one column per indicator output. The \<^verbatim>\<open>ta\<close> library that computes
  the values is the parameter \<open>L\<close>. \<open>causal_lib L\<close> is the documented behaviour of the trailing
  windows of \<^verbatim>\<open>ta\<close>: the output has the length of the input, and its values on a shorter history
  are the first values on a longer one.
\<close>

section \<open>The registry\<close>

type_synonym params = "(string \<times> number) list"
type_synonym outputs = "(string \<times> fl list) list"

record indicator_handler =
  ih_compute :: "extlib \<Rightarrow> frame \<Rightarrow> string \<Rightarrow> params \<Rightarrow> outputs res"
  ih_outputs :: "string \<Rightarrow> string list"
  ih_param_names :: "string list"

text \<open>\<^verbatim>\<open>params.get(name, default)\<close>\<close>

definition get_param :: "params \<Rightarrow> string \<Rightarrow> number \<Rightarrow> number" where
  "get_param ps name d = (case map_of ps name of None \<Rightarrow> d | Some n \<Rightarrow> n)"

definition single_output :: "string \<Rightarrow> string list" where
  "single_output alias = [alias]"

definition rsi_compute :: "extlib \<Rightarrow> frame \<Rightarrow> string \<Rightarrow> params \<Rightarrow> outputs res" where
  "rsi_compute L df alias params =
     bindE (py_int (get_param params ''period'' (IntN 14))) (\<lambda>period.
     bindE (get_column df ''close'') (\<lambda>close.
     map_res (\<lambda>s. [(alias, s)]) (ta_rsi L close period)))"

definition ema_compute :: "extlib \<Rightarrow> frame \<Rightarrow> string \<Rightarrow> params \<Rightarrow> outputs res" where
  "ema_compute L df alias params =
     bindE (py_int (get_param params ''period'' (IntN 20))) (\<lambda>period.
     bindE (get_column df ''close'') (\<lambda>close.
     map_res (\<lambda>s. [(alias, s)]) (ta_ema L close period)))"

definition sma_compute :: "extlib \<Rightarrow> frame \<Rightarrow> string \<Rightarrow> params \<Rightarrow> outputs res" where
  "sma_compute L df alias params =
     bindE (py_int (get_param params ''period'' (IntN 20))) (\<lambda>period.
     bindE (get_column df ''close'') (\<lambda>close.
     map_res (\<lambda>s. [(alias, s)]) (ta_sma L close period)))"

definition macd_outputs :: "string \<Rightarrow> string list" where
  "macd_outputs alias = [alias @ ''_macd'', alias @ ''_signal'', alias @ ''_hist'']"

definition macd_compute :: "extlib \<Rightarrow> frame \<Rightarrow> string \<Rightarrow> params \<Rightarrow> outputs res" where
  "macd_compute L df alias params =
     bindE (py_int (get_param params ''fast_period'' (IntN 12))) (\<lambda>fast.
     bindE (py_int (get_param params ''slow_period'' (IntN 26))) (\<lambda>slow.
     bindE (py_int (get_param params ''signal_period'' (IntN 9))) (\<lambda>signal.
     bindE (get_column df ''close'') (\<lambda>close.
     map_res (\<lambda>(m, s, h). [(alias @ ''_macd'', m), (alias @ ''_signal'', s), (alias @ ''_hist'', h)])
       (ta_macd L close slow fast signal)))))"

definition bbands_outputs :: "string \<Rightarrow> string list" where
  "bbands_outputs alias = [alias @ ''_upper'', alias @ ''_middle'', alias @ ''_lower'']"

definition bbands_compute :: "extlib \<Rightarrow> frame \<Rightarrow> string \<Rightarrow> params \<Rightarrow> outputs res" where
  "bbands_compute L df alias params =
     bindE (py_int (get_param params ''period'' (IntN 20))) (\<lambda>period.
     bindE (py_float (get_param params ''std_dev'' (IntN 2))) (\<lambda>std_dev.
     bindE (get_column df ''close'') (\<lambda>close.
     map_res (\<lambda>(u, m, l). [(alias @ ''_upper'', u), (alias @ ''_middle'', m), (alias @ ''_lower'', l)])
       (ta_bbands L close period std_dev))))"

definition indicator_registry :: "(string \<times> indicator_handler) list" where
  "indicator_registry =
     [(''rsi'', \<lparr>ih_compute = rsi_compute, ih_outputs = single_output, ih_param_names = [''period'']\<rparr>),
      (''ema'', \<lparr>ih_compute = ema_compute, ih_outputs = single_output, ih_param_names = [''period'']\<rparr>),
      (''sma'', \<lparr>ih_compute = sma_compute, ih_outputs = single_output, ih_param_names = [''period'']\<rparr>),
      (''macd'', \<lparr>ih_compute = macd_compute, ih_outputs = macd_outputs,
         ih_param_names = [''fast_period'', ''slow_period'', ''signal_period'']\<rparr>),
      (''bbands'', \<lparr>ih_compute = bbands_compute, ih_outputs = bbands_outputs,
         ih_param_names = [''period'', ''std_dev'']\<rparr>)]"

definition find_handler :: "string \<Rightarrow> indicator_handler option" where
  "find_handler name = map_of indicator_registry name"

section \<open>Computing the columns\<close>

definition resolved_params :: "indicator_config \<Rightarrow> params" where
  "resolved_params ind = map (\<lambda>(name, v). (name, resolve_param v)) (ic_params ind)"

definition add_indicator :: "extlib \<Rightarrow> frame \<Rightarrow> indicator_config \<Rightarrow> frame res" where
  "add_indicator L df ind = (case find_handler (ic_name ind) of
      None \<Rightarrow> Inl (KeyError (ic_name ind))
    | Some h \<Rightarrow> map_res (foldl set_column df)
        (ih_compute h L df (ic_alias ind) (resolved_params ind)))"

definition compute_indicators :: "extlib \<Rightarrow> frame \<Rightarrow> indicator_config list \<Rightarrow> frame res" where
  "compute_indicators L df inds = foldE (add_indicator L) df inds"

section \<open>The library's contract\<close>

definition causal1 :: "(fl list \<Rightarrow> fl list res) \<Rightarrow> bool" where
  "causal1 f \<longleftrightarrow> (\<forall>xs ys. f xs = Inr ys \<longrightarrow> length ys = length xs \<and>
     (\<forall>n. 0 < n \<longrightarrow> f (take n xs) = Inr (take n ys)))"

definition causal3 :: "(fl list \<Rightarrow> (fl list \<times> fl list \<times> fl list) res) \<Rightarrow> bool" where
  "causal3 f \<longleftrightarrow> (\<forall>xs a b c. f xs = Inr (a, b, c) \<longrightarrow>
     length a = length xs \<and> length b = length xs \<and> length c = length xs \<and>
     (\<forall>n. 0 < n \<longrightarrow> f (take n xs) = Inr (take n a, take n b, take n c)))"

definition causal_lib :: "extlib \<Rightarrow> bool" where
  "causal_lib L \<longleftrightarrow>
     (\<forall>p. causal1 (\<lambda>xs. ta_rsi L xs p)) \<and> (\<forall>p. causal1 (\<lambda>xs. ta_ema L xs p)) \<and>
     (\<forall>p. causal1 (\<lambda>xs. ta_sma L xs p)) \<and>
     (\<forall>s f g. causal3 (\<lambda>xs. ta_macd L xs s f g)) \<and> (\<forall>p d. causal3 (\<lambda>xs. ta_bbands L xs p d))"

section \<open>Facts\<close>

lemmas compute_defs = rsi_compute_def ema_compute_def sma_compute_def macd_compute_def
  bbands_compute_def

lemma find_handler_cases:
  assumes "find_handler name = Some h"
  obtains "name = ''rsi''" "ih_compute h = rsi_compute" "ih_outputs h = single_output"
      "ih_param_names h = [''period'']"
    | "name = ''ema''" "ih_compute h = ema_compute" "ih_outputs h = single_output"
      "ih_param_names h = [''period'']"
    | "name = ''sma''" "ih_compute h = sma_compute" "ih_outputs h = single_output"
      "ih_param_names h = [''period'']"
    | "name = ''macd''" "ih_compute h = macd_compute" "ih_outputs h = macd_outputs"
      "ih_param_names h = [''fast_period'', ''slow_period'', ''signal_period'']"
    | "name = ''bbands''" "ih_compute h = bbands_compute" "ih_outputs h = bbands_outputs"
      "ih_param_names h = [''period'', ''std_dev'']"
  using assms by (auto simp: find_handler_def indicator_registry_def split: if_splits)

text \<open>A handler produces exactly the columns it announces, in that order.\<close>

lemma compute_outputs:
  assumes "find_handler name = Some h" and "ih_compute h L df alias ps = Inr cols"
  shows "map fst cols = ih_outputs h alias"
  using assms(2)
  by (cases rule: find_handler_cases [OF assms(1)])
    (auto simp: compute_defs single_output_def macd_outputs_def bbands_outputs_def py_simps)

lemma foldl_set_column_index [simp]: "fr_index (foldl set_column df cols) = fr_index df"
  by (induction cols arbitrary: df) simp_all

lemma foldl_set_column_dom:
  "dom (fr_columns (foldl set_column df cols)) = dom (fr_columns df) \<union> set (map fst cols)"
  by (induction cols arbitrary: df) auto

lemma foldl_set_column_other:
  "c \<notin> set (map fst cols) \<Longrightarrow> fr_columns (foldl set_column df cols) c = fr_columns df c"
  by (induction cols arbitrary: df) auto

lemma foldl_set_column_ok:
  "frame_ok df \<Longrightarrow> (\<And>c s. (c, s) \<in> set cols \<Longrightarrow> length s = length (fr_index df)) \<Longrightarrow>
     frame_ok (foldl set_column df cols)"
proof (induction cols arbitrary: df)
  case (Cons a cols)
  have "length (snd a) = length (fr_index df)"
    using Cons.prems(2) [of "fst a" "snd a"] by simp
  then have "frame_ok (set_column df a)" using Cons.prems(1) by simp
  moreover have "length s = length (fr_index (set_column df a))" if "(c, s) \<in> set cols" for c s
    using Cons.prems(2) [of c s] that by simp
  ultimately show ?case using Cons.IH [of "set_column df a"] by simp
qed simp

lemma foldl_set_column_take:
  "foldl set_column (frame_take n df) (map (\<lambda>(c, s). (c, take n s)) cols) =
     frame_take n (foldl set_column df cols)"
proof (induction cols arbitrary: df)
  case (Cons a cols)
  have "set_column (frame_take n df) (fst a, take n (snd a)) = frame_take n (set_column df a)"
    by (simp add: frame_take_set_column)
  then show ?case using Cons.IH [of "set_column df a"] by (simp add: case_prod_beta)
qed simp

lemma add_indicator_Inr:
  "add_indicator L df ind = Inr df' \<longleftrightarrow>
     (\<exists>h cols. find_handler (ic_name ind) = Some h \<and>
        ih_compute h L df (ic_alias ind) (resolved_params ind) = Inr cols \<and>
        df' = foldl set_column df cols)"
  by (auto simp: add_indicator_def py_simps split: option.splits)

lemma add_indicator_dom:
  assumes "add_indicator L df ind = Inr df'"
  shows "\<exists>h. find_handler (ic_name ind) = Some h \<and>
     dom (fr_columns df') = dom (fr_columns df) \<union> set (ih_outputs h (ic_alias ind))"
proof -
  from assms obtain h cols where h: "find_handler (ic_name ind) = Some h"
      and c: "ih_compute h L df (ic_alias ind) (resolved_params ind) = Inr cols"
      and d: "df' = foldl set_column df cols"
    by (auto simp: add_indicator_Inr)
  from compute_outputs [OF h c] have "set (map fst cols) = set (ih_outputs h (ic_alias ind))"
    by simp
  with h d show ?thesis by (auto simp: foldl_set_column_dom simp del: set_map)
qed

lemma single_causal:
  assumes "causal1 f" and "frame_ok df"
    and "bindE (get_column df ''close'') (\<lambda>c. map_res (\<lambda>s. [(x, s)]) (f c)) = Inr cols"
  shows "(\<forall>(c, s) \<in> set cols. length s = length (fr_index df)) \<and>
     (\<forall>n > 0. bindE (get_column (frame_take n df) ''close'') (\<lambda>c. map_res (\<lambda>s. [(x, s)]) (f c)) =
        Inr (map (\<lambda>(c, s). (c, take n s)) cols))"
proof -
  from assms(3) obtain c s where c: "fr_columns df ''close'' = Some c" and s: "f c = Inr s"
      and cols: "cols = [(x, s)]"
    by (auto simp: py_simps)
  from assms(1) s have len: "length s = length c"
      and t: "0 < n \<Longrightarrow> f (take n c) = Inr (take n s)" for n
    by (auto simp: causal1_def)
  from assms(2) c have "length c = length (fr_index df)" by (auto simp: frame_ok_def)
  with c cols len t show ?thesis by (simp add: get_column_def)
qed

lemma triple_causal:
  assumes "causal3 f" and "frame_ok df"
    and "bindE (get_column df ''close'') (\<lambda>c. map_res (\<lambda>(u, v, w). [(x, u), (y, v), (z, w)]) (f c)) = Inr cols"
  shows "(\<forall>(c, s) \<in> set cols. length s = length (fr_index df)) \<and>
     (\<forall>n > 0. bindE (get_column (frame_take n df) ''close'')
          (\<lambda>c. map_res (\<lambda>(u, v, w). [(x, u), (y, v), (z, w)]) (f c)) =
        Inr (map (\<lambda>(c, s). (c, take n s)) cols))"
proof -
  from assms(3) obtain c u v w where c: "fr_columns df ''close'' = Some c" and s: "f c = Inr (u, v, w)"
      and cols: "cols = [(x, u), (y, v), (z, w)]"
    by (auto simp: py_simps)
  from assms(1) s have len: "length u = length c \<and> length v = length c \<and> length w = length c"
      and t: "0 < n \<Longrightarrow> f (take n c) = Inr (take n u, take n v, take n w)" for n
    by (auto simp: causal3_def)
  from assms(2) c have "length c = length (fr_index df)" by (auto simp: frame_ok_def)
  with c cols len t show ?thesis by (simp add: get_column_def)
qed

lemma compute_causal:
  assumes L: "causal_lib L" and df: "frame_ok df" and "find_handler name = Some h"
    and "ih_compute h L df alias ps = Inr cols"
  shows "(\<forall>(c, s) \<in> set cols. length s = length (fr_index df)) \<and>
     (\<forall>n > 0. ih_compute h L (frame_take n df) alias ps =
        Inr (map (\<lambda>(c, s). (c, take n s)) cols))"
  using assms(4)
proof (cases rule: find_handler_cases [OF assms(3)])
  case 1
  with assms(4) obtain p where p: "py_int (get_param ps ''period'' (IntN 14)) = Inr p"
    by (auto simp: rsi_compute_def bindE_eq_Inr)
  have "causal1 (\<lambda>xs. ta_rsi L xs p)" using L by (simp add: causal_lib_def)
  from single_causal [where x = "alias" and cols = cols, OF this df] "1" assms(4) p show ?thesis
    by (simp add: rsi_compute_def)
next
  case 2
  with assms(4) obtain p where p: "py_int (get_param ps ''period'' (IntN 20)) = Inr p"
    by (auto simp: ema_compute_def bindE_eq_Inr)
  have "causal1 (\<lambda>xs. ta_ema L xs p)" using L by (simp add: causal_lib_def)
  from single_causal [where x = "alias" and cols = cols, OF this df] "2" assms(4) p show ?thesis
    by (simp add: ema_compute_def)
next
  case 3
  with assms(4) obtain p where p: "py_int (get_param ps ''period'' (IntN 20)) = Inr p"
    by (auto simp: sma_compute_def bindE_eq_Inr)
  have "causal1 (\<lambda>xs. ta_sma L xs p)" using L by (simp add: causal_lib_def)
  from single_causal [where x = "alias" and cols = cols, OF this df] "3" assms(4) p show ?thesis
    by (simp add: sma_compute_def)
next
  case 4
  with assms(4) obtain f s g where p: "py_int (get_param ps ''fast_period'' (IntN 12)) = Inr f"
      "py_int (get_param ps ''slow_period'' (IntN 26)) = Inr s"
      "py_int (get_param ps ''signal_period'' (IntN 9)) = Inr g"
    by (auto simp: macd_compute_def bindE_eq_Inr)
  have "causal3 (\<lambda>xs. ta_macd L xs s f g)" using L by (simp add: causal_lib_def)
  from triple_causal [where cols = cols, OF this df] "4" assms(4) p show ?thesis
    by (simp add: macd_compute_def)
next
  case 5
  with assms(4) obtain p d where p: "py_int (get_param ps ''period'' (IntN 20)) = Inr p"
      "py_float (get_param ps ''std_dev'' (IntN 2)) = Inr d"
    by (auto simp: bbands_compute_def bindE_eq_Inr)
  have "causal3 (\<lambda>xs. ta_bbands L xs p d)" using L by (simp add: causal_lib_def)
  from triple_causal [where cols = cols, OF this df] "5" assms(4) p show ?thesis
    by (simp add: bbands_compute_def)
qed

lemma add_indicator_causal:
  assumes "causal_lib L" and "frame_ok df" and "add_indicator L df ind = Inr df'"
  shows "frame_ok df'" and "fr_index df' = fr_index df"
    and "0 < n \<Longrightarrow> add_indicator L (frame_take n df) ind = Inr (frame_take n df')"
proof -
  from assms(3) obtain h cols where h: "find_handler (ic_name ind) = Some h"
      and c: "ih_compute h L df (ic_alias ind) (resolved_params ind) = Inr cols"
      and d: "df' = foldl set_column df cols"
    by (auto simp: add_indicator_Inr)
  note cc = compute_causal [OF assms(1,2) h c]
  show "frame_ok df'" using cc assms(2) unfolding d by (intro foldl_set_column_ok) auto
  show "fr_index df' = fr_index df" by (simp add: d)
  assume "0 < n"
  with cc h show "add_indicator L (frame_take n df) ind = Inr (frame_take n df')"
    by (simp add: add_indicator_def d foldl_set_column_take)
qed

text \<open>\<open>compute_indicators\<close> keeps the index, and over a shorter history it gives the prefix.\<close>

lemma compute_indicators_causal:
  assumes "causal_lib L" and "frame_ok df" and "compute_indicators L df inds = Inr df'"
  shows "frame_ok df' \<and> fr_index df' = fr_index df \<and>
     (\<forall>n > 0. compute_indicators L (frame_take n df) inds = Inr (frame_take n df'))"
  using assms(2,3)
proof (induction inds arbitrary: df)
  case Nil
  then show ?case by (simp add: compute_indicators_def)
next
  case (Cons i inds)
  from Cons.prems(2) obtain d1 where d1: "add_indicator L df i = Inr d1"
      and d2: "compute_indicators L d1 inds = Inr df'"
    by (auto simp: compute_indicators_def py_simps)
  note a = add_indicator_causal [OF assms(1) Cons.prems(1) d1]
  from Cons.IH [OF a(1) d2] a show ?case by (simp add: compute_indicators_def)
qed

lemma compute_indicators_index: "compute_indicators L df inds = Inr df' \<Longrightarrow> fr_index df' = fr_index df"
  by (induction inds arbitrary: df) (auto simp: compute_indicators_def py_simps add_indicator_Inr)

end
