(* ===== verification/Conditions.thy ===== *)
theory Conditions
  imports Indicators
begin

text \<open>
  Evaluation of a condition tree over a data frame, \<^verbatim>\<open>freqpanda_strategy/conditions.py\<close>: one
  boolean per row. \<open>holds_at\<close> is the reference semantics, the truth of a tree at one row from
  the values of that row and the one before it; \<open>evaluate_condition_holds\<close> shows the column
  code computes it. The locale \<open>causal_series\<close> is the contract the backtest and the live
  interpreter share: a series whose values do not depend on later rows.
\<close>

section \<open>The evaluator\<close>

definition resolve_operand :: "operand \<Rightarrow> frame \<Rightarrow> fl list res" where
  "resolve_operand operand df = (case operand of
      Const n \<Rightarrow> map_res (const_series df) (py_float n)
    | Ref name \<Rightarrow> get_column df name)"

definition apply_op :: "extlib \<Rightarrow> comparison_op \<Rightarrow> fl list \<Rightarrow> fl list \<Rightarrow> bool list" where
  "apply_op L op left right = (case op of
      GT \<Rightarrow> map2 (\<lambda>x y. y < x) left right
    | GTE \<Rightarrow> map2 (\<lambda>x y. y \<le> x) left right
    | LT \<Rightarrow> map2 (\<lambda>x y. x < y) left right
    | LTE \<Rightarrow> map2 (\<lambda>x y. x \<le> y) left right
    | EQ \<Rightarrow> map2 (np_isclose L) left right
    | NE \<Rightarrow> map2 (\<lambda>x y. \<not> np_isclose L x y) left right
    | CrossesAbove \<Rightarrow> map2 (\<and>) (map2 (\<lambda>x y. x \<le> y) (shift1 left) (shift1 right))
        (map2 (\<lambda>x y. y < x) left right)
    | CrossesBelow \<Rightarrow> map2 (\<and>) (map2 (\<lambda>x y. y \<le> x) (shift1 left) (shift1 right))
        (map2 (\<lambda>x y. x < y) left right))"

definition combine :: "logical_op \<Rightarrow> bool list list \<Rightarrow> bool list res" where
  "combine op results = (case results of
      [] \<Rightarrow> Inl IndexError
    | r # rs \<Rightarrow> Inr (case op of
          AND_op \<Rightarrow> foldl (map2 (\<and>)) r rs
        | OR_op \<Rightarrow> foldl (map2 (\<or>)) r rs
        | NOT_op \<Rightarrow> map Not r))"

fun evaluate_condition :: "extlib \<Rightarrow> condition \<Rightarrow> frame \<Rightarrow> bool list res" where
  "evaluate_condition L (Comparison l op r) df =
     bindE (resolve_operand l df) (\<lambda>left.
     bindE (resolve_operand r df) (\<lambda>right.
     Inr (apply_op L op left right)))"
| "evaluate_condition L (Logical op cs) df =
     bindE (mapE (\<lambda>c. evaluate_condition L c df) cs) (combine op)"

section \<open>Row semantics\<close>

definition value_at :: "frame \<Rightarrow> nat \<Rightarrow> operand \<Rightarrow> fl" where
  "value_at df i operand = (case operand of
      Const n \<Rightarrow> (case py_float n of Inl _ \<Rightarrow> NaN | Inr x \<Rightarrow> x)
    | Ref name \<Rightarrow> cell df name i)"

definition previous_value :: "frame \<Rightarrow> nat \<Rightarrow> operand \<Rightarrow> fl" where
  "previous_value df i operand = (case i of 0 \<Rightarrow> NaN | Suc j \<Rightarrow> value_at df j operand)"

definition op_holds :: "extlib \<Rightarrow> comparison_op \<Rightarrow> fl \<Rightarrow> fl \<Rightarrow> fl \<Rightarrow> fl \<Rightarrow> bool" where
  "op_holds L op x0 y0 x y = (case op of
      GT \<Rightarrow> y < x | GTE \<Rightarrow> y \<le> x | LT \<Rightarrow> x < y | LTE \<Rightarrow> x \<le> y
    | EQ \<Rightarrow> np_isclose L x y | NE \<Rightarrow> \<not> np_isclose L x y
    | CrossesAbove \<Rightarrow> x0 \<le> y0 \<and> y < x
    | CrossesBelow \<Rightarrow> y0 \<le> x0 \<and> x < y)"

fun holds_at :: "extlib \<Rightarrow> frame \<Rightarrow> nat \<Rightarrow> condition \<Rightarrow> bool" where
  "holds_at L df i (Comparison l op r) =
     op_holds L op (previous_value df i l) (previous_value df i r) (value_at df i l) (value_at df i r)"
| "holds_at L df i (Logical op cs) = (case op of
      AND_op \<Rightarrow> (\<forall>c \<in> set cs. holds_at L df i c)
    | OR_op \<Rightarrow> (\<exists>c \<in> set cs. holds_at L df i c)
    | NOT_op \<Rightarrow> (case cs of [] \<Rightarrow> False | c # _ \<Rightarrow> \<not> holds_at L df i c))"

text \<open>The column names a tree mentions and the numbers it compares with.\<close>

fun operand_consts :: "condition \<Rightarrow> number list" where
  "operand_consts (Comparison l op r) =
     (case l of Const n \<Rightarrow> [n] | Ref _ \<Rightarrow> []) @ (case r of Const n \<Rightarrow> [n] | Ref _ \<Rightarrow> [])"
| "operand_consts (Logical op cs) = concat (map operand_consts cs)"

section \<open>Columns and rows agree\<close>

lemma resolve_operand_facts:
  assumes "resolve_operand operand df = Inr s" and "frame_ok df"
  shows "length s = length (fr_index df)"
    and "i < length (fr_index df) \<Longrightarrow> s ! i = value_at df i operand"
    and "resolve_operand operand (frame_take n df) = Inr (take n s)"
  using assms
  by (auto simp: resolve_operand_def value_at_def cell_def py_simps frame_ok_def const_series_def
      get_column_def min.commute split: operand.splits option.splits)

lemma length_apply_op:
  "length left = n \<Longrightarrow> length right = n \<Longrightarrow> length (apply_op L op left right) = n"
  by (cases op) (simp_all add: apply_op_def)

lemma apply_op_nth:
  assumes "length left = n" and "length right = n" and "i < n"
  shows "apply_op L op left right ! i = op_holds L op (shift1 left ! i) (shift1 right ! i) (left ! i) (right ! i)"
  using assms by (cases op) (simp_all add: apply_op_def op_holds_def)

lemma take_apply_op:
  "take n (apply_op L op left right) = apply_op L op (take n left) (take n right)"
  by (cases op) (simp_all only: apply_op_def comparison_op.case take_map2 take_shift1)

lemma foldl_map2_length:
  "length r = n \<Longrightarrow> \<forall>s \<in> set rs. length s = n \<Longrightarrow> length (foldl (map2 f) r rs) = n"
  by (induction rs arbitrary: r) simp_all

lemma foldl_and_nth:
  "length r = n \<Longrightarrow> \<forall>s \<in> set rs. length s = n \<Longrightarrow> i < n \<Longrightarrow>
     foldl (map2 (\<and>)) r rs ! i \<longleftrightarrow> (\<forall>s \<in> set (r # rs). s ! i)"
  by (induction rs arbitrary: r) auto

lemma foldl_or_nth:
  "length r = n \<Longrightarrow> \<forall>s \<in> set rs. length s = n \<Longrightarrow> i < n \<Longrightarrow>
     foldl (map2 (\<or>)) r rs ! i \<longleftrightarrow> (\<exists>s \<in> set (r # rs). s ! i)"
  by (induction rs arbitrary: r) auto

lemma take_foldl_map2: "take n (foldl (map2 f) r rs) = foldl (map2 f) (take n r) (map (take n) rs)"
  by (induction rs arbitrary: r) (simp_all only: foldl.simps list.map take_map2)

lemma combine_length:
  "combine op results = Inr s \<Longrightarrow> \<forall>r \<in> set results. length r = n \<Longrightarrow> length s = n"
  by (auto simp: combine_def foldl_map2_length split: list.splits logical_op.splits)

lemma combine_take: "combine op results = Inr s \<Longrightarrow> combine op (map (take n) results) = Inr (take n s)"
  by (auto simp: combine_def take_foldl_map2 take_map split: list.splits logical_op.splits)

lemma combine_nth:
  assumes "combine op results = Inr s" and "\<forall>r \<in> set results. length r = n" and "i < n"
  shows "s ! i = (case op of AND_op \<Rightarrow> \<forall>r \<in> set results. r ! i
    | OR_op \<Rightarrow> \<exists>r \<in> set results. r ! i | NOT_op \<Rightarrow> \<not> hd results ! i)"
proof (cases results)
  case (Cons r rs)
  then show ?thesis
    using assms foldl_and_nth [of r n rs i] foldl_or_nth [of r n rs i]
    by (cases op) (auto simp: combine_def)
qed (use assms in \<open>simp add: combine_def\<close>)

lemma evaluate_condition_length:
  "frame_ok df \<Longrightarrow> evaluate_condition L c df = Inr s \<Longrightarrow> length s = length (fr_index df)"
proof (induction L c df arbitrary: s rule: evaluate_condition.induct)
  case (1 L l op r df)
  then show ?case by (auto simp: py_simps length_apply_op resolve_operand_facts(1))
next
  case (2 L op cs df)
  from "2.prems" obtain rs where rs: "mapE (\<lambda>c. evaluate_condition L c df) cs = Inr rs"
      and s: "combine op rs = Inr s"
    by (auto simp: py_simps)
  have "length (rs ! i) = length (fr_index df)" if "i < length rs" for i
    using "2.IH" [OF _ "2.prems"(1) mapE_nth [OF rs]] that mapE_length [OF rs] by simp
  then have "\<forall>r \<in> set rs. length r = length (fr_index df)" by (metis in_set_conv_nth)
  with s show ?case by (rule combine_length)
qed

lemma mapE_take:
  assumes "mapE f cs = Inr rs" and "\<And>c r. c \<in> set cs \<Longrightarrow> f c = Inr r \<Longrightarrow> g c = Inr (h r)"
  shows "mapE g cs = Inr (map h rs)"
  using assms
proof (induction cs arbitrary: rs)
  case (Cons c cs)
  from Cons.prems(1) obtain r rs' where "f c = Inr r" "mapE f cs = Inr rs'" "rs = r # rs'"
    by (auto simp: py_simps)
  with Cons.prems(2) Cons.IH [of rs'] show ?case by simp
qed simp

lemma evaluate_condition_take:
  "frame_ok df \<Longrightarrow> evaluate_condition L c df = Inr s \<Longrightarrow>
     evaluate_condition L c (frame_take n df) = Inr (take n s)"
proof (induction L c df arbitrary: s rule: evaluate_condition.induct)
  case (1 L l op r df)
  then obtain x y where xy: "resolve_operand l df = Inr x" "resolve_operand r df = Inr y"
      and s: "s = apply_op L op x y"
    by (auto simp: py_simps)
  then show ?case using "1.prems"(1) by (simp add: resolve_operand_facts(3) [OF xy(1)]
        resolve_operand_facts(3) [OF xy(2)] take_apply_op)
next
  case (2 L op cs df)
  from "2.prems" obtain rs where rs: "mapE (\<lambda>c. evaluate_condition L c df) cs = Inr rs"
      and s: "combine op rs = Inr s"
    by (auto simp: py_simps)
  have "mapE (\<lambda>c. evaluate_condition L c (frame_take n df)) cs = Inr (map (take n) rs)"
    using "2.IH" [OF _ "2.prems"(1)] by (intro mapE_take [OF rs])
  with combine_take [OF s] show ?case by simp
qed

lemma previous_value_shift1:
  assumes "resolve_operand operand df = Inr s" and "frame_ok df" and "i < length (fr_index df)"
  shows "shift1 s ! i = previous_value df i operand"
  using assms(3) resolve_operand_facts(1,2) [OF assms(1,2)]
  by (auto simp: shift1_nth previous_value_def split: nat.splits)

lemma evaluate_condition_nth:
  "frame_ok df \<Longrightarrow> evaluate_condition L c df = Inr s \<Longrightarrow> i < length (fr_index df) \<Longrightarrow>
     s ! i = holds_at L df i c"
proof (induction L c df arbitrary: s rule: evaluate_condition.induct)
  case (1 L l op r df)
  then obtain x y where xy: "resolve_operand l df = Inr x" "resolve_operand r df = Inr y"
      and s: "s = apply_op L op x y"
    by (auto simp: py_simps)
  note fx = resolve_operand_facts [OF xy(1) "1.prems"(1)] previous_value_shift1 [OF xy(1) "1.prems"(1,3)]
  note fy = resolve_operand_facts [OF xy(2) "1.prems"(1)] previous_value_shift1 [OF xy(2) "1.prems"(1,3)]
  show ?case using apply_op_nth [OF fx(1) fy(1) "1.prems"(3)] fx(2,4) fy(2,4) "1.prems"(3) s by simp
next
  case (2 L op cs df)
  let ?f = "\<lambda>c. evaluate_condition L c df"
  from "2.prems" obtain rs where rs: "mapE ?f cs = Inr rs" and s: "combine op rs = Inr s"
    by (auto simp: py_simps)
  note len = mapE_length [OF rs]
  have n: "rs ! j ! i = holds_at L df i (cs ! j)" "length (rs ! j) = length (fr_index df)"
    if "j < length cs" for j
    using "2.IH" [OF _ "2.prems"(1) mapE_nth [OF rs that] "2.prems"(3)] that
      evaluate_condition_length [OF "2.prems"(1) mapE_nth [OF rs that]] by simp_all
  have "\<forall>r \<in> set rs. length r = length (fr_index df)"
    using n(2) len by (metis in_set_conv_nth)
  from combine_nth [OF s this "2.prems"(3)]
  have *: "s ! i = (case op of AND_op \<Rightarrow> \<forall>r \<in> set rs. r ! i
      | OR_op \<Rightarrow> \<exists>r \<in> set rs. r ! i | NOT_op \<Rightarrow> \<not> hd rs ! i)" .
  have eq: "map (\<lambda>r. r ! i) rs = map (holds_at L df i) cs"
    using n(1) len by (intro nth_equalityI) simp_all
  have all: "(\<forall>r \<in> set rs. r ! i) \<longleftrightarrow> (\<forall>c \<in> set cs. holds_at L df i c)"
    and ex: "(\<exists>r \<in> set rs. r ! i) \<longleftrightarrow> (\<exists>c \<in> set cs. holds_at L df i c)"
    using arg_cong [OF eq, of "list_all id"] arg_cong [OF eq, of "list_ex id"]
    by (simp_all add: list_all_iff list_ex_iff)
  have "rs \<noteq> []" using s by (auto simp: combine_def)
  then have "(\<not> hd rs ! i) = (case cs of [] \<Rightarrow> False | c # _ \<Rightarrow> \<not> holds_at L df i c)"
    using n(1) [of 0] len by (cases rs; cases cs) auto
  with * all ex show ?case by (cases op) simp_all
qed

section \<open>The contract of a causal series\<close>

locale causal_series =
  fixes ev :: "frame \<Rightarrow> bool list res"
  assumes rows: "frame_ok df \<Longrightarrow> ev df = Inr s \<Longrightarrow> length s = length (fr_index df)"
    and prefix: "frame_ok df \<Longrightarrow> ev df = Inr s \<Longrightarrow> 0 < n \<Longrightarrow> ev (frame_take n df) = Inr (take n s)"
begin

text \<open>The last value over the history up to a row is the value of that row over any longer one.\<close>

lemma last_is_nth:
  assumes "frame_ok df" and "ev df = Inr s" and "i < length (fr_index df)"
  shows "\<exists>t. ev (frame_take (Suc i) df) = Inr t \<and> length t = Suc i \<and> last t = s ! i"
proof -
  have "length s = length (fr_index df)" using assms(1,2) by (rule rows)
  then have "last (take (Suc i) s) = s ! i \<and> length (take (Suc i) s) = Suc i"
    using assms(3) by (simp add: take_Suc_conv_app_nth)
  then show ?thesis using prefix [OF assms(1,2), of "Suc i"] by auto
qed

lemma no_lookahead:
  assumes "frame_ok df" "frame_ok df'" and "ev df = Inr s" "ev df' = Inr s'"
    and "frame_take n df = frame_take n df'" and "i < n"
  shows "take n s ! i = take n s' ! i"
  using prefix [OF assms(1,3), of n] prefix [OF assms(2,4), of n] assms(5,6) by simp

end

interpretation cond: causal_series "evaluate_condition L c" for L c
  by unfold_locales (simp_all add: evaluate_condition_length evaluate_condition_take)

text \<open>A strategy without exit conditions has the constant false series.\<close>

definition exit_series :: "extlib \<Rightarrow> condition option \<Rightarrow> frame \<Rightarrow> bool list res" where
  "exit_series L c df = (case c of
      Some cond \<Rightarrow> evaluate_condition L cond df
    | None \<Rightarrow> Inr (replicate (length (fr_index df)) False))"

interpretation exit_cond: causal_series "exit_series L c" for L c
  by unfold_locales (auto simp: exit_series_def min.commute evaluate_condition_length
      evaluate_condition_take split: option.splits)

end
