(* ===== verification/Validation.thy ===== *)
theory Validation
  imports Conditions "HOL-Library.List_Lexorder" "HOL-Library.Char_ord"
begin

text \<open>
  The semantic validation of \<^verbatim>\<open>freqpanda_strategy/validation.py\<close>: indicator names and parameter
  names against the registry, and the columns that the condition trees mention against the price
  columns and the outputs of the declared indicators. The lemmas tie it to the run: a definition
  that passes never asks a frame for a column that is not there.
\<close>

definition ohlcv_columns :: "string list" where
  "ohlcv_columns = [''open'', ''high'', ''low'', ''close'', ''volume'']"

definition available_columns :: "strategy_definition \<Rightarrow> string set" where
  "available_columns d = foldl (\<lambda>columns ind. case find_handler (ic_name ind) of
      None \<Rightarrow> columns | Some h \<Rightarrow> columns \<union> set (ih_outputs h (ic_alias ind)))
    (set ohlcv_columns) (sd_indicators d)"

fun operand_ref :: "operand \<Rightarrow> string list" where
  "operand_ref (Ref name) = [name]"
| "operand_ref (Const _) = []"

fun operand_refs :: "condition \<Rightarrow> string list" where
  "operand_refs (Comparison l op r) = operand_ref l @ operand_ref r"
| "operand_refs (Logical op cs) = concat (map operand_refs cs)"

definition indicator_issues :: "indicator_config \<Rightarrow> issue list" where
  "indicator_issues ind = (case find_handler (ic_name ind) of
      None \<Rightarrow> [UnknownIndicator (ic_alias ind) (ic_name ind)]
    | Some h \<Rightarrow> (let unknown = filter (\<lambda>p. p \<notin> set (ih_param_names h)) (map fst (ic_params ind))
        in if unknown \<noteq> []
           then [UnknownParameters (ic_alias ind) (ic_name ind) (sort unknown)] else []))"

definition condition_trees :: "strategy_definition \<Rightarrow> (string \<times> condition) list" where
  "condition_trees d = (''entry_conditions'', sd_entry_conditions d) #
     (case sd_exit_conditions d of None \<Rightarrow> [] | Some c \<Rightarrow> [(''exit_conditions'', c)])"

definition column_issues :: "string set \<Rightarrow> string \<times> condition \<Rightarrow> issue list" where
  "column_issues available t =
     map (UnknownColumn (fst t)) (filter (\<lambda>ref. ref \<notin> available) (operand_refs (snd t)))"

definition validate_definition :: "strategy_definition \<Rightarrow> unit res" where
  "validate_definition d =
     (let errors = concat (map indicator_issues (sd_indicators d)) @
        concat (map (column_issues (available_columns d)) (condition_trees d))
      in if errors \<noteq> [] then Inl (StrategyValidationError (sd_name d) errors) else Inr ())"

section \<open>What a validated definition guarantees\<close>

lemma available_columns_fold:
  "foldl (\<lambda>columns ind. case find_handler (ic_name ind) of
      None \<Rightarrow> columns | Some h \<Rightarrow> columns \<union> set (ih_outputs h (ic_alias ind))) cs inds =
    cs \<union> (\<Union>ind \<in> set inds. case find_handler (ic_name ind) of
      None \<Rightarrow> {} | Some h \<Rightarrow> set (ih_outputs h (ic_alias ind)))"
  by (induction inds arbitrary: cs) (auto split: option.splits)

lemma compute_indicators_dom:
  "compute_indicators L df inds = Inr df' \<Longrightarrow> dom (fr_columns df') = dom (fr_columns df) \<union>
     (\<Union>ind \<in> set inds. case find_handler (ic_name ind) of
      None \<Rightarrow> {} | Some h \<Rightarrow> set (ih_outputs h (ic_alias ind)))"
proof (induction inds arbitrary: df)
  case (Cons i inds)
  from Cons.prems obtain d1 where d1: "add_indicator L df i = Inr d1"
      and d2: "compute_indicators L d1 inds = Inr df'"
    by (auto simp: compute_indicators_def py_simps)
  from Cons.IH [OF d2] add_indicator_dom [OF d1] show ?case by auto
qed (simp add: compute_indicators_def)

text \<open>The columns validation counts on are the columns the run has.\<close>

lemma computed_columns:
  assumes "compute_indicators L df (sd_indicators d) = Inr data"
    and "dom (fr_columns df) = set ohlcv_columns"
  shows "dom (fr_columns data) = available_columns d"
  using compute_indicators_dom [OF assms(1)] assms(2)
  by (simp add: available_columns_def available_columns_fold)

lemma available_columns_subset:
  assumes "compute_indicators L df (sd_indicators d) = Inr data"
    and "set ohlcv_columns \<subseteq> dom (fr_columns df)"
  shows "available_columns d \<subseteq> dom (fr_columns data)"
  using compute_indicators_dom [OF assms(1)] assms(2)
  by (auto simp: available_columns_def available_columns_fold)

lemma resolve_operand_ok:
  assumes "set (operand_ref x) \<subseteq> dom (fr_columns df)"
    and "\<And>n. x = Const n \<Longrightarrow> \<exists>v. py_float n = Inr v"
  shows "\<exists>s. resolve_operand x df = Inr s"
  using assms by (cases x) (auto simp: resolve_operand_def get_column_def)

lemma evaluate_condition_ok:
  assumes "condition_ok c" and "set (operand_refs c) \<subseteq> dom (fr_columns df)"
    and "\<forall>n \<in> set (operand_consts c). \<exists>v. py_float n = Inr v"
  shows "\<exists>s. evaluate_condition L c df = Inr s"
  using assms
proof (induction c)
  case (Comparison l op r)
  have "\<exists>s. resolve_operand l df = Inr s" "\<exists>s. resolve_operand r df = Inr s"
    using Comparison.prems by (intro resolve_operand_ok; auto)+
  then show ?case by auto
next
  case (Logical op cs)
  have "\<exists>rs. mapE (\<lambda>c. evaluate_condition L c df) cs = Inr rs"
    using Logical.prems by (intro mapE_ok Logical.IH) auto
  then obtain rs where rs: "mapE (\<lambda>c. evaluate_condition L c df) cs = Inr rs" ..
  with Logical.prems(1) mapE_length [OF rs] have "rs \<noteq> []" by auto
  then have "\<exists>s. combine op rs = Inr s" by (cases rs) (auto simp: combine_def)
  with rs show ?case by simp
qed

text \<open>A tree that mentions a column which is not there raises.\<close>

lemma resolve_operand_missing:
  "resolve_operand x df = Inr s \<Longrightarrow> set (operand_ref x) \<subseteq> dom (fr_columns df)"
  by (cases x) (auto simp: resolve_operand_def get_column_def split: option.splits)

lemma mapE_Inr_all: "mapE f xs = Inr ys \<Longrightarrow> x \<in> set xs \<Longrightarrow> \<exists>y. f x = Inr y"
  by (induction xs arbitrary: ys) (auto simp: py_simps)

lemma evaluate_condition_refs:
  "evaluate_condition L c df = Inr s \<Longrightarrow> set (operand_refs c) \<subseteq> dom (fr_columns df)"
proof (induction c arbitrary: s)
  case (Comparison l op r)
  then show ?case by (auto simp: py_simps dest!: resolve_operand_missing)
next
  case (Logical op cs)
  from Logical.prems obtain rs where rs: "mapE (\<lambda>c. evaluate_condition L c df) cs = Inr rs"
    by (auto simp: py_simps)
  have "set (operand_refs c) \<subseteq> dom (fr_columns df)" if "c \<in> set cs" for c
    using mapE_Inr_all [OF rs that] Logical.IH [OF that] by auto
  then show ?case by auto
qed

lemma validate_definition_iff:
  "validate_definition d = Inr u \<longleftrightarrow>
     (\<forall>ind \<in> set (sd_indicators d). \<exists>h. find_handler (ic_name ind) = Some h \<and>
        fst ` set (ic_params ind) \<subseteq> set (ih_param_names h)) \<and>
     (\<forall>(label, c) \<in> set (condition_trees d). set (operand_refs c) \<subseteq> available_columns d)"
proof -
  have i: "indicator_issues ind = [] \<longleftrightarrow> (\<exists>h. find_handler (ic_name ind) = Some h \<and>
      fst ` set (ic_params ind) \<subseteq> set (ih_param_names h))" for ind
    by (auto simp: indicator_issues_def Let_def filter_empty_conv split: option.splits)
  have c: "column_issues a t = [] \<longleftrightarrow> set (operand_refs (snd t)) \<subseteq> a" for a t
    by (auto simp: column_issues_def filter_empty_conv)
  show ?thesis by (auto simp: validate_definition_def Let_def i c case_prod_beta)
qed

end
