(* ===== verification/Interpreter.thy ===== *)
theory Interpreter
  imports Validation
begin

text \<open>
  The backtest loop, \<^verbatim>\<open>run_strategy\<close> of \<^verbatim>\<open>freqpanda_strategy/interpreter.py\<close>. The local variables
  of the loop are the record \<open>loop_state\<close>, one candle is \<open>run_step\<close>, and the four exit checks,
  in the code's order, are \<open>exit_decision\<close>. The signals are read at a candle's timestamp only
  where the code reads them, so a read that would raise is an error of the step that makes it.

  \<open>trade_span\<close> says what one recorded trade is; \<open>run_loop_spans\<close> shows the log is a sequence of
  such spans that do not overlap and miss no entry signal.
\<close>

section \<open>The loop\<close>

datatype exit_reason = StopLoss | TakeProfit | TrailingStop | ExitSignal

record trade =
  tr_entry_time :: time
  tr_entry_price :: fl
  tr_exit_time :: time
  tr_exit_price :: fl
  tr_exit_reason :: exit_reason
  tr_pnl_pct :: fl

record loop_state =
  st_in_position :: bool
  st_entry_price :: "fl option"
  st_entry_time :: "time option"
  st_highest :: "fl option"
  st_trades :: "trade list"

definition start_state :: loop_state where
  "start_state = \<lparr>st_in_position = False, st_entry_price = None, st_entry_time = None,
     st_highest = None, st_trades = []\<rparr>"

definition trailing_check :: "risk_management \<Rightarrow> fl \<Rightarrow> candle \<Rightarrow> (fl \<times> exit_reason) option res" where
  "trailing_check risk highest row = (case rm_trailing_stop_pct risk of
      None \<Rightarrow> Inr None
    | Some pct \<Rightarrow> map_res (\<lambda>p. if cd_low row \<le> p then Some (p, TrailingStop) else None)
        (mult_num highest (one_minus pct)))"

definition exit_decision ::
  "risk_management \<Rightarrow> (time \<Rightarrow> bool res) \<Rightarrow> fl \<Rightarrow> fl \<Rightarrow> candle \<Rightarrow> (fl \<times> exit_reason) option res" where
  "exit_decision risk exit_signal entry_price highest row =
     bindE (mult_num entry_price (one_minus (rm_stop_loss_pct risk))) (\<lambda>stop_loss_price.
     if cd_low row \<le> stop_loss_price then Inr (Some (stop_loss_price, StopLoss))
     else bindE (mult_num entry_price (one_plus (rm_take_profit_pct risk))) (\<lambda>take_profit_price.
     if take_profit_price \<le> cd_high row then Inr (Some (take_profit_price, TakeProfit))
     else bindE (trailing_check risk highest row) (\<lambda>trailing. case trailing of
        Some hit \<Rightarrow> Inr (Some hit)
      | None \<Rightarrow> map_res (\<lambda>b. if b then Some (cd_close row, ExitSignal) else None)
          (exit_signal (cd_time row)))))"

definition close_trade :: "time \<Rightarrow> fl \<Rightarrow> candle \<Rightarrow> fl \<times> exit_reason \<Rightarrow> trade res" where
  "close_trade entry_time entry_price row hit =
     map_res (\<lambda>q. \<lparr>tr_entry_time = entry_time, tr_entry_price = entry_price,
         tr_exit_time = cd_time row, tr_exit_price = fst hit, tr_exit_reason = snd hit,
         tr_pnl_pct = q - 1\<rparr>)
       (py_div (fst hit) entry_price)"

definition run_step ::
  "risk_management \<Rightarrow> (time \<Rightarrow> bool res) \<Rightarrow> (time \<Rightarrow> bool res) \<Rightarrow> loop_state \<Rightarrow> candle \<Rightarrow> loop_state res" where
  "run_step risk entry_signal exit_signal s row =
     (if \<not> st_in_position s then
        map_res (\<lambda>b. if b then s\<lparr>st_in_position := True, st_entry_price := Some (cd_close row),
              st_entry_time := Some (cd_time row), st_highest := Some (cd_close row)\<rparr> else s)
          (entry_signal (cd_time row))
      else (case (st_entry_price s, st_entry_time s, st_highest s) of
          (Some entry_price, Some entry_time, Some h) \<Rightarrow>
            (let highest = py_max h (cd_high row) in
             bindE (exit_decision risk exit_signal entry_price highest row) (\<lambda>hit. case hit of
                 None \<Rightarrow> Inr (s\<lparr>st_highest := Some highest\<rparr>)
               | Some pr \<Rightarrow> map_res (\<lambda>t. s\<lparr>st_trades := st_trades s @ [t], st_in_position := False,
                     st_entry_price := None, st_entry_time := None, st_highest := None\<rparr>)
                   (close_trade entry_time entry_price row pr)))
        | _ \<Rightarrow> Inl TypeError))"

definition run_loop ::
  "risk_management \<Rightarrow> (time \<Rightarrow> bool res) \<Rightarrow> (time \<Rightarrow> bool res) \<Rightarrow> candle list \<Rightarrow> loop_state res" where
  "run_loop risk entry_signal exit_signal rows =
     foldE (run_step risk entry_signal exit_signal) start_state rows"

definition run_strategy :: "extlib \<Rightarrow> strategy_definition \<Rightarrow> frame \<Rightarrow> trade list res" where
  "run_strategy L d df =
     bindE (validate_definition d) (\<lambda>_.
     let missing = filter (\<lambda>c. fr_columns df c = None) ohlcv_columns in
     if missing \<noteq> [] then Inl (StrategyValidationError (sd_name d) [MissingColumns missing])
     else bindE (compute_indicators L df (sd_indicators d)) (\<lambda>data.
     bindE (evaluate_condition L (sd_entry_conditions d) data) (\<lambda>entry_signal.
     bindE (exit_series L (sd_exit_conditions d) data) (\<lambda>exit_signal.
     map_res st_trades (run_loop (sd_risk_management d) (loc_bool (fr_index data) entry_signal)
       (loc_bool (fr_index data) exit_signal) (iterrows data))))))"

section \<open>The locals are set together\<close>

definition locals_ok :: "loop_state \<Rightarrow> bool" where
  "locals_ok s \<longleftrightarrow> (if st_in_position s
     then st_entry_price s \<noteq> None \<and> st_entry_time s \<noteq> None \<and> st_highest s \<noteq> None
     else st_entry_price s = None \<and> st_entry_time s = None \<and> st_highest s = None)"

lemma run_step_flat:
  "\<not> st_in_position s \<Longrightarrow> run_step risk en ex s row =
     map_res (\<lambda>b. if b then s\<lparr>st_in_position := True, st_entry_price := Some (cd_close row),
       st_entry_time := Some (cd_time row), st_highest := Some (cd_close row)\<rparr> else s)
     (en (cd_time row))"
  by (simp add: run_step_def)

lemma run_step_open:
  "st_in_position s \<Longrightarrow> st_entry_price s = Some p \<Longrightarrow> st_entry_time s = Some t \<Longrightarrow> st_highest s = Some h \<Longrightarrow>
   run_step risk en ex s row =
     bindE (exit_decision risk ex p (py_max h (cd_high row)) row) (\<lambda>hit. case hit of
       None \<Rightarrow> Inr (s\<lparr>st_highest := Some (py_max h (cd_high row))\<rparr>)
     | Some pr \<Rightarrow> map_res (\<lambda>tr. s\<lparr>st_trades := st_trades s @ [tr], st_in_position := False,
           st_entry_price := None, st_entry_time := None, st_highest := None\<rparr>)
         (close_trade t p row pr))"
  by (simp add: run_step_def Let_def)

lemma start_state_simps [simp]:
  "\<not> st_in_position start_state" "st_trades start_state = []" "locals_ok start_state"
  by (simp_all add: start_state_def locals_ok_def)

lemma run_step_locals:
  assumes "locals_ok s" and "run_step risk en ex s row = Inr s'"
  shows "locals_ok s'"
proof (cases "st_in_position s")
  case True
  with assms(1) obtain p t h where "st_entry_price s = Some p" "st_entry_time s = Some t"
      "st_highest s = Some h"
    by (auto simp: locals_ok_def)
  with True assms(2) show ?thesis
    by (auto simp: run_step_open locals_ok_def py_simps split: option.splits)
next
  case False
  with assms show ?thesis by (auto simp: run_step_flat locals_ok_def py_simps split: if_splits)
qed

section \<open>The log as a sequence of spans\<close>

definition highest_between :: "candle list \<Rightarrow> nat \<Rightarrow> nat \<Rightarrow> fl" where
  "highest_between rows i k =
     foldl py_max (cd_close (rows ! i)) (map (\<lambda>m. cd_high (rows ! m)) [Suc i..<Suc k])"

definition decision_at ::
  "risk_management \<Rightarrow> (time \<Rightarrow> bool res) \<Rightarrow> candle list \<Rightarrow> nat \<Rightarrow> nat \<Rightarrow> (fl \<times> exit_reason) option res" where
  "decision_at risk ex rows i k =
     exit_decision risk ex (cd_close (rows ! i)) (highest_between rows i k) (rows ! k)"

definition trade_span ::
  "risk_management \<Rightarrow> (time \<Rightarrow> bool res) \<Rightarrow> (time \<Rightarrow> bool res) \<Rightarrow> candle list \<Rightarrow> nat \<times> nat \<Rightarrow> trade \<Rightarrow> bool" where
  "trade_span risk en ex rows ij t = (case ij of (i, j) \<Rightarrow>
     i < j \<and> j < length rows \<and> en (cd_time (rows ! i)) = Inr True \<and>
     (\<forall>k \<in> {Suc i..<j}. decision_at risk ex rows i k = Inr None) \<and>
     (case decision_at risk ex rows i j of
        Inr (Some hit) \<Rightarrow> close_trade (cd_time (rows ! i)) (cd_close (rows ! i)) (rows ! j) hit = Inr t
      | _ \<Rightarrow> False))"

text \<open>What holds after the first \<open>n\<close> candles: the spans so far, and the open one if any.\<close>

definition log_upto ::
  "risk_management \<Rightarrow> (time \<Rightarrow> bool res) \<Rightarrow> (time \<Rightarrow> bool res) \<Rightarrow> candle list \<Rightarrow> nat \<Rightarrow>
     (nat \<times> nat) list \<Rightarrow> nat option \<Rightarrow> loop_state \<Rightarrow> bool" where
  "log_upto risk en ex rows n spans opened s \<longleftrightarrow>
     list_all2 (trade_span risk en ex rows) spans (st_trades s) \<and>
     sorted_wrt (\<lambda>(i, j) (i', j'). j < i') spans \<and> (\<forall>(i, j) \<in> set spans. j < n) \<and>
     (\<forall>k < n. en (cd_time (rows ! k)) = Inr False \<or> (\<exists>(i, j) \<in> set spans. i \<le> k \<and> k \<le> j) \<or>
        (\<exists>i. opened = Some i \<and> i \<le> k)) \<and>
     (case opened of
        None \<Rightarrow> \<not> st_in_position s
      | Some i \<Rightarrow> st_in_position s \<and> i < n \<and> (\<forall>(i', j') \<in> set spans. j' < i) \<and>
          en (cd_time (rows ! i)) = Inr True \<and>
          st_entry_price s = Some (cd_close (rows ! i)) \<and> st_entry_time s = Some (cd_time (rows ! i)) \<and>
          st_highest s = Some (highest_between rows i (n - 1)) \<and>
          (\<forall>k \<in> {Suc i..<n}. decision_at risk ex rows i k = Inr None))"

lemma highest_between_self [simp]: "highest_between rows i i = cd_close (rows ! i)"
  by (simp add: highest_between_def)

lemma highest_between_Suc:
  "i < n \<Longrightarrow> highest_between rows i n = py_max (highest_between rows i (n - 1)) (cd_high (rows ! n))"
  by (cases n) (simp_all add: highest_between_def)

lemma log_upto_step:
  assumes log: "log_upto risk en ex rows n spans opened s" and n: "n < length rows"
    and step: "run_step risk en ex s (rows ! n) = Inr s'"
  shows "\<exists>spans' opened'. log_upto risk en ex rows (Suc n) spans' opened' s'"
proof (cases opened)
  case None
  with log have flat: "\<not> st_in_position s" by (simp add: log_upto_def)
  with step obtain b where b: "en (cd_time (rows ! n)) = Inr b"
    by (auto simp: run_step_flat py_simps)
  have "log_upto risk en ex rows (Suc n) spans (if b then Some n else None) s'"
    using log None flat step b unfolding log_upto_def
    by (auto simp: run_step_flat less_Suc_eq)
  then show ?thesis by blast
next
  case (Some i)
  note l = log [unfolded log_upto_def Some, simplified]
  let ?h = "highest_between rows i n"
  have hn: "py_max (highest_between rows i (n - 1)) (cd_high (rows ! n)) = ?h"
    using l by (simp add: highest_between_Suc)
  have "run_step risk en ex s (rows ! n) = bindE (decision_at risk ex rows i n) (\<lambda>hit. case hit of
      None \<Rightarrow> Inr (s\<lparr>st_highest := Some ?h\<rparr>)
    | Some pr \<Rightarrow> map_res (\<lambda>tr. s\<lparr>st_trades := st_trades s @ [tr], st_in_position := False,
        st_entry_price := None, st_entry_time := None, st_highest := None\<rparr>)
        (close_trade (cd_time (rows ! i)) (cd_close (rows ! i)) (rows ! n) pr))"
    using l hn by (simp add: run_step_open decision_at_def cong: option.case_cong)
  with step obtain hit where hit: "decision_at risk ex rows i n = Inr hit"
      and s': "(case hit of None \<Rightarrow> Inr (s\<lparr>st_highest := Some ?h\<rparr>)
        | Some pr \<Rightarrow> map_res (\<lambda>tr. s\<lparr>st_trades := st_trades s @ [tr], st_in_position := False,
            st_entry_price := None, st_entry_time := None, st_highest := None\<rparr>)
            (close_trade (cd_time (rows ! i)) (cd_close (rows ! i)) (rows ! n) pr)) = Inr s'"
    by (auto simp only: bindE_eq_Inr)
  show ?thesis
  proof (cases hit)
    case None
    have "log_upto risk en ex rows (Suc n) spans (Some i) s'"
      using l s' None hit unfolding log_upto_def by (auto simp: less_Suc_eq)
    then show ?thesis by blast
  next
    case (Some pr)
    with s' obtain t where t: "close_trade (cd_time (rows ! i)) (cd_close (rows ! i)) (rows ! n) pr = Inr t"
        and s'_eq: "s' = s\<lparr>st_trades := st_trades s @ [t], st_in_position := False,
            st_entry_price := None, st_entry_time := None, st_highest := None\<rparr>"
      by (auto simp: py_simps)
    have span: "trade_span risk en ex rows (i, n) t"
      using l hit Some t n by (simp add: trade_span_def)
    have "log_upto risk en ex rows (Suc n) (spans @ [(i, n)]) None s'"
      using l s'_eq span unfolding log_upto_def
      by (auto simp: less_Suc_eq sorted_wrt_append intro!: list_all2_appendI)
    then show ?thesis by blast
  qed
qed

lemma foldE_take_Suc:
  "n < length xs \<Longrightarrow> foldE f s (take (Suc n) xs) = bindE (foldE f s (take n xs)) (\<lambda>s'. f s' (xs ! n))"
  by (simp add: take_Suc_conv_app_nth foldE_append)

lemma log_upto_exists:
  assumes "foldE (run_step risk en ex) start_state (take n rows) = Inr s" and "n \<le> length rows"
  shows "\<exists>spans opened. log_upto risk en ex rows n spans opened s"
  using assms
proof (induction n arbitrary: s)
  case 0
  then have "log_upto risk en ex rows 0 [] None s"
    by (auto simp: log_upto_def)
  then show ?case by blast
next
  case (Suc n)
  then obtain s0 where "foldE (run_step risk en ex) start_state (take n rows) = Inr s0"
      and st: "run_step risk en ex s0 (rows ! n) = Inr s"
    by (auto simp: foldE_take_Suc py_simps)
  with Suc obtain spans opened where "log_upto risk en ex rows n spans opened s0" by fastforce
  from log_upto_step [OF this _ st] Suc.prems(2) show ?case by simp
qed

text \<open>The whole run: the log, and the position left open at the end of the data.\<close>

lemma run_loop_log:
  assumes "run_loop risk en ex rows = Inr s"
  shows "\<exists>spans opened. log_upto risk en ex rows (length rows) spans opened s"
  using assms log_upto_exists [of risk en ex "length rows" rows s] by (simp add: run_loop_def)

lemma run_loop_spans:
  assumes "run_loop risk en ex rows = Inr s"
  shows "\<exists>spans. list_all2 (trade_span risk en ex rows) spans (st_trades s) \<and>
     sorted_wrt (\<lambda>(i, j) (i', j'). j < i') spans"
  using run_loop_log [OF assms] by (auto simp: log_upto_def)

lemma trade_span_times:
  "trade_span risk en ex rows (i, j) t \<Longrightarrow> i < j \<and> j < length rows \<and>
     tr_entry_time t = cd_time (rows ! i) \<and> tr_exit_time t = cd_time (rows ! j) \<and>
     tr_entry_price t = cd_close (rows ! i)"
  by (auto simp: trade_span_def close_trade_def py_simps split: sum.splits option.splits)

lemma run_strategy_Inr:
  assumes "run_strategy L d df = Inr ts"
  obtains data en ex s where "validate_definition d = Inr ()"
    and "set ohlcv_columns \<subseteq> dom (fr_columns df)"
    and "compute_indicators L df (sd_indicators d) = Inr data"
    and "evaluate_condition L (sd_entry_conditions d) data = Inr en"
    and "exit_series L (sd_exit_conditions d) data = Inr ex"
    and "run_loop (sd_risk_management d) (loc_bool (fr_index data) en)
        (loc_bool (fr_index data) ex) (iterrows data) = Inr s"
    and "ts = st_trades s"
proof -
  have m: "filter (\<lambda>c. fr_columns df c = None) ohlcv_columns = [] \<longleftrightarrow> set ohlcv_columns \<subseteq> dom (fr_columns df)"
    by (auto simp: filter_empty_conv)
  from assms obtain data en ex s where r: "validate_definition d = Inr ()"
      "filter (\<lambda>c. fr_columns df c = None) ohlcv_columns = []"
      "compute_indicators L df (sd_indicators d) = Inr data"
      "evaluate_condition L (sd_entry_conditions d) data = Inr en"
      "exit_series L (sd_exit_conditions d) data = Inr ex"
      "run_loop (sd_risk_management d) (loc_bool (fr_index data) en)
        (loc_bool (fr_index data) ex) (iterrows data) = Inr s"
      "ts = st_trades s"
    by (auto simp: run_strategy_def py_simps Let_def split: if_splits)
  show thesis by (rule that) (use r in \<open>simp_all add: m\<close>)
qed

section \<open>Exit decisions\<close>

definition stop_loss_hit :: "risk_management \<Rightarrow> fl \<Rightarrow> candle \<Rightarrow> bool" where
  "stop_loss_hit risk p row \<longleftrightarrow> (case mult_num p (one_minus (rm_stop_loss_pct risk)) of
      Inl _ \<Rightarrow> False | Inr x \<Rightarrow> cd_low row \<le> x)"

definition take_profit_hit :: "risk_management \<Rightarrow> fl \<Rightarrow> candle \<Rightarrow> bool" where
  "take_profit_hit risk p row \<longleftrightarrow> (case mult_num p (one_plus (rm_take_profit_pct risk)) of
      Inl _ \<Rightarrow> False | Inr x \<Rightarrow> x \<le> cd_high row)"

definition trailing_stop_hit :: "risk_management \<Rightarrow> fl \<Rightarrow> candle \<Rightarrow> bool" where
  "trailing_stop_hit risk h row \<longleftrightarrow> (case rm_trailing_stop_pct risk of None \<Rightarrow> False
    | Some pct \<Rightarrow> (case mult_num h (one_minus pct) of Inl _ \<Rightarrow> False | Inr x \<Rightarrow> cd_low row \<le> x))"

lemma exit_decision_priority:
  assumes "exit_decision risk ex p h row = Inr (Some (price, reason))"
  shows "case reason of
      StopLoss \<Rightarrow> stop_loss_hit risk p row
    | TakeProfit \<Rightarrow> take_profit_hit risk p row \<and> \<not> stop_loss_hit risk p row
    | TrailingStop \<Rightarrow> trailing_stop_hit risk h row \<and> \<not> stop_loss_hit risk p row \<and>
        \<not> take_profit_hit risk p row
    | ExitSignal \<Rightarrow> ex (cd_time row) = Inr True \<and> price = cd_close row \<and>
        \<not> stop_loss_hit risk p row \<and> \<not> take_profit_hit risk p row \<and> \<not> trailing_stop_hit risk h row"
  using assms
  by (auto simp: exit_decision_def trailing_check_def stop_loss_hit_def take_profit_hit_def
      trailing_stop_hit_def py_simps split: if_splits option.splits)

lemma exit_decision_None:
  assumes "exit_decision risk ex p h row = Inr None"
  shows "\<not> stop_loss_hit risk p row \<and> \<not> take_profit_hit risk p row \<and>
     \<not> trailing_stop_hit risk h row \<and> ex (cd_time row) = Inr False"
  using assms
  by (auto simp: exit_decision_def trailing_check_def stop_loss_hit_def take_profit_hit_def
      trailing_stop_hit_def py_simps split: if_splits option.splits)

lemma exit_decision_price:
  assumes "exit_decision risk ex p h row = Inr (Some (price, reason))"
  shows "reason = StopLoss \<Longrightarrow> mult_num p (one_minus (rm_stop_loss_pct risk)) = Inr price"
    and "reason = TakeProfit \<Longrightarrow> mult_num p (one_plus (rm_take_profit_pct risk)) = Inr price"
  using assms
  by (auto simp: exit_decision_def trailing_check_def py_simps split: if_splits option.splits)

text \<open>Every recorded trade is a decision of the exit rules, with its return.\<close>

lemma run_loop_trade:
  assumes "run_loop risk en ex rows = Inr s" and "t \<in> set (st_trades s)"
  shows "\<exists>h row. exit_decision risk ex (tr_entry_price t) h row =
      Inr (Some (tr_exit_price t, tr_exit_reason t)) \<and>
    tr_pnl_pct t = tr_exit_price t / tr_entry_price t - 1"
proof -
  from run_loop_spans [OF assms(1)] obtain spans where
      "list_all2 (trade_span risk en ex rows) spans (st_trades s)" by blast
  with assms(2) obtain i j where "trade_span risk en ex rows (i, j) t"
    by (metis in_set_conv_nth list_all2_nthD2 prod.exhaust)
  then obtain hit where "decision_at risk ex rows i j = Inr (Some hit)"
      "close_trade (cd_time (rows ! i)) (cd_close (rows ! i)) (rows ! j) hit = Inr t"
    by (auto simp: trade_span_def split: sum.splits option.splits)
  then show ?thesis by (auto simp: decision_at_def close_trade_def py_simps)
qed

text \<open>
  For an accepted risk block and a positive entry price of the format, the stop-loss price is at
  most the entry price and the take-profit price at least it, also after rounding.
\<close>

lemma stop_loss_price_le:
  assumes "in_open_unit sl" and "is_double (Fin p)" and "0 < p"
    and "mult_num (Fin p) (one_minus sl) = Inr x"
  shows "0 \<le> x \<and> x \<le> Fin p"
proof -
  from assms(1) obtain q where q: "sl = FloatN (Fin q)" "0 < q" "q < 1"
    by (auto simp: in_open_unit_iff)
  then obtain c where c: "1 - Fin q = Fin c" "0 \<le> c" "c \<le> 1"
    using one_minus_unit [of "Fin q"] by (auto simp: zero_fl_def one_fl_def)
  with assms q have "x = Fin p * Fin c" by simp
  then show ?thesis using mult_shrinks [OF assms(2) _ c(2,3)] assms(3) by simp
qed

lemma one_plus_ge:
  assumes "num_less (IntN 0) tp" and "py_float (one_plus tp) = Inr c"
  shows "1 \<le> c"
proof (cases tp)
  case (IntN i)
  with assms have i: "0 < i" by (simp add: num_less_def exact_value_def)
  have "Fin 1 \<le> round64 (of_int (1 + i))"
    using i b64.rnd_above [of 1 "of_int (1 + i)"] by simp
  moreover have "c = round64 (of_int (1 + i))"
    using IntN assms(2) by (auto simp: one_plus_def py_float_def float_of_int_def split: fl.splits)
  ultimately show ?thesis by (simp only: one_fl_def)
next
  case (FloatN x)
  with assms(1) have "0 \<le> x"
    by (auto simp: num_less_def exact_value_def zero_fl_def intro: fl_less_imp_le)
  with FloatN assms(2) one_plus_ge_one show ?thesis by (auto simp: py_float_def)
qed

lemma take_profit_price_ge:
  assumes "num_less (IntN 0) tp" and "is_double (Fin p)" and "0 < p"
    and "mult_num (Fin p) (one_plus tp) = Inr x"
  shows "Fin p \<le> x"
  using assms mult_grows one_plus_ge by (auto simp: mult_num_def map_res_eq_Inr)

lemma stop_loss_pnl:
  assumes "Fin 0 \<le> x" and "x \<le> Fin p" and "0 < p"
  shows "x / Fin p - 1 \<le> (0 :: fl)"
proof -
  from assms(1,2) obtain q where "x = Fin q" "0 \<le> q" "q \<le> p"
    by (auto dest: fl_le_between_Fin)
  with divide_le_one [of q p] assms(3) have "x / Fin p \<le> 1"
    unfolding one_fl_def by auto
  then show ?thesis by (rule minus_one_nonpos)
qed

lemma take_profit_pnl:
  assumes "Fin p \<le> x" and "0 < p"
  shows "0 \<le> x / Fin p - (1 :: fl)"
proof (cases x)
  case (Fin q)
  with assms divide_ge_one [of p q] show ?thesis by (auto intro: minus_one_nonneg)
qed (use assms in \<open>auto simp: signed_inf_def fl_sgn_def minus_fl_def one_fl_def zero_fl_def\<close>)

end
