(* ===== verification/Live.thy ===== *)
theory Live
  imports Interpreter
begin

text \<open>
  The live counterpart of the backtest loop, \<^verbatim>\<open>freqpanda_execution/live_interpreter.py\<close>:
  \<open>latest_signal\<close> evaluates the strategy on the candle that just closed, \<open>process\<close> is one step
  of \<^verbatim>\<open>LivePositionTracker\<close>. \<open>live_run\<close> feeds it a frame one candle at a time, as the parity test
  of the repository does. The lemmas show that a step of the tracker simulates a step of the
  loop, and that the signal of a prefix of the data is the row of the whole of it.
\<close>

record snapshot =
  sg_timestamp :: time
  sg_open :: fl
  sg_high :: fl
  sg_low :: fl
  sg_close :: fl
  sg_entry_signal :: bool
  sg_exit_signal :: bool

record open_position =
  op_entry_time :: time
  op_entry_price :: fl
  op_highest_since_entry :: fl

datatype trade_action = Enter fl | Exit fl exit_reason

record tracker =
  tk_risk_management :: risk_management
  tk_position :: "open_position option"

section \<open>The latest signal\<close>

definition read_cell :: "frame \<Rightarrow> nat \<Rightarrow> string \<Rightarrow> fl res" where
  "read_cell df i name = map_res (\<lambda>s. s ! i) (get_column df name)"

text \<open>\<^verbatim>\<open>data.loc[ts]\<close> is one row only when \<open>ts\<close> occurs once; \<^verbatim>\<open>float\<close> of a column raises.\<close>

definition latest_signal :: "extlib \<Rightarrow> strategy_definition \<Rightarrow> frame \<Rightarrow> snapshot res" where
  "latest_signal L d df =
     bindE (compute_indicators L df (sd_indicators d)) (\<lambda>data.
     bindE (evaluate_condition L (sd_entry_conditions d) data) (\<lambda>entry_series.
     bindE (exit_series L (sd_exit_conditions d) data) (\<lambda>exits.
     if fr_index data = [] then Inl IndexError else
     let latest_ts = last (fr_index data) in
     case rows_at (fr_index data) latest_ts of
       [i] \<Rightarrow>
         bindE (read_cell data i ''open'') (\<lambda>open.
         bindE (read_cell data i ''high'') (\<lambda>high.
         bindE (read_cell data i ''low'') (\<lambda>low.
         bindE (read_cell data i ''close'') (\<lambda>close.
         bindE (loc_bool (fr_index data) entry_series latest_ts) (\<lambda>entry.
         bindE (loc_bool (fr_index data) exits latest_ts) (\<lambda>exit.
         Inr \<lparr>sg_timestamp = latest_ts, sg_open = open, sg_high = high, sg_low = low,
           sg_close = close, sg_entry_signal = entry, sg_exit_signal = exit\<rparr>))))))
     | _ \<Rightarrow> Inl TypeError)))"

section \<open>The tracker\<close>

definition close_position :: "tracker \<Rightarrow> fl \<Rightarrow> exit_reason \<Rightarrow> tracker \<times> trade_action option" where
  "close_position t price reason = (t\<lparr>tk_position := None\<rparr>, Some (Exit price reason))"

definition process :: "tracker \<Rightarrow> snapshot \<Rightarrow> (tracker \<times> trade_action option) res" where
  "process t sg = (case tk_position t of
      None \<Rightarrow> Inr (if sg_entry_signal sg
        then (t\<lparr>tk_position := Some \<lparr>op_entry_time = sg_timestamp sg, op_entry_price = sg_close sg,
                op_highest_since_entry = sg_close sg\<rparr>\<rparr>, Some (Enter (sg_close sg)))
        else (t, None))
    | Some p0 \<Rightarrow>
        (let p = p0\<lparr>op_highest_since_entry := py_max (op_highest_since_entry p0) (sg_high sg)\<rparr>;
             t' = t\<lparr>tk_position := Some p\<rparr>; rm = tk_risk_management t in
         bindE (mult_num (op_entry_price p) (one_minus (rm_stop_loss_pct rm))) (\<lambda>stop_loss_price.
         if sg_low sg \<le> stop_loss_price then Inr (close_position t' stop_loss_price StopLoss)
         else bindE (mult_num (op_entry_price p) (one_plus (rm_take_profit_pct rm))) (\<lambda>take_profit_price.
         if take_profit_price \<le> sg_high sg then Inr (close_position t' take_profit_price TakeProfit)
         else bindE (case rm_trailing_stop_pct rm of
               None \<Rightarrow> Inr None
             | Some pct \<Rightarrow> map_res Some (mult_num (op_highest_since_entry p) (one_minus pct)))
           (\<lambda>trailing_stop_price. case trailing_stop_price of
               Some x \<Rightarrow> if sg_low sg \<le> x then Inr (close_position t' x TrailingStop)
                  else Inr (if sg_exit_signal sg then close_position t' (sg_close sg) ExitSignal else (t', None))
             | None \<Rightarrow>
                  Inr (if sg_exit_signal sg then close_position t' (sg_close sg) ExitSignal else (t', None)))))))"

section \<open>Feeding a frame one candle at a time\<close>

record live_trade =
  lt_entry_time :: time
  lt_entry_price :: fl
  lt_exit_time :: time
  lt_exit_price :: fl
  lt_exit_reason :: exit_reason

type_synonym live_state = "tracker \<times> (time \<times> fl) option \<times> live_trade list"

definition book :: "snapshot \<Rightarrow> (time \<times> fl) option \<Rightarrow> live_trade list \<Rightarrow> trade_action option \<Rightarrow>
    ((time \<times> fl) option \<times> live_trade list) res" where
  "book sg open_entry trades action = (case action of
      None \<Rightarrow> Inr (open_entry, trades)
    | Some (Enter price) \<Rightarrow> Inr (Some (sg_timestamp sg, price), trades)
    | Some (Exit price reason) \<Rightarrow> (case open_entry of
          None \<Rightarrow> Inl TypeError
        | Some (t, p) \<Rightarrow> Inr (None, trades @ [\<lparr>lt_entry_time = t, lt_entry_price = p,
            lt_exit_time = sg_timestamp sg, lt_exit_price = price, lt_exit_reason = reason\<rparr>])))"

definition live_step :: "(nat \<Rightarrow> snapshot res) \<Rightarrow> live_state \<Rightarrow> nat \<Rightarrow> live_state res" where
  "live_step sig st i = (case st of (t, open_entry, trades) \<Rightarrow>
     bindE (sig i) (\<lambda>sg. bindE (process t sg) (\<lambda>(t', action).
       map_res (Pair t') (book sg open_entry trades action))))"

definition live_run :: "extlib \<Rightarrow> strategy_definition \<Rightarrow> frame \<Rightarrow> live_trade list res" where
  "live_run L d df =
     map_res (\<lambda>(_, _, trades). trades)
       (foldE (live_step (\<lambda>i. latest_signal L d (frame_take (Suc i) df)))
         (\<lparr>tk_risk_management = sd_risk_management d, tk_position = None\<rparr>, None, [])
         [0..<length (fr_index df)])"

definition as_live :: "trade \<Rightarrow> live_trade" where
  "as_live t = \<lparr>lt_entry_time = tr_entry_time t, lt_entry_price = tr_entry_price t,
     lt_exit_time = tr_exit_time t, lt_exit_price = tr_exit_price t, lt_exit_reason = tr_exit_reason t\<rparr>"

section \<open>The tracker simulates the loop\<close>

text \<open>The tracker's position as a function of the backtest's local variables.\<close>

definition abs_position :: "loop_state \<Rightarrow> open_position option" where
  "abs_position s = (if st_in_position s then Some \<lparr>op_entry_time = the (st_entry_time s),
     op_entry_price = the (st_entry_price s), op_highest_since_entry = the (st_highest s)\<rparr> else None)"

definition abs_live :: "risk_management \<Rightarrow> loop_state \<Rightarrow> live_state" where
  "abs_live risk s = (\<lparr>tk_risk_management = risk, tk_position = abs_position s\<rparr>,
     (if st_in_position s then Some (the (st_entry_time s), the (st_entry_price s)) else None),
     map as_live (st_trades s))"

definition row_snapshot :: "candle \<Rightarrow> bool \<Rightarrow> bool \<Rightarrow> snapshot" where
  "row_snapshot row b e = \<lparr>sg_timestamp = cd_time row, sg_open = cd_open row, sg_high = cd_high row,
     sg_low = cd_low row, sg_close = cd_close row, sg_entry_signal = b, sg_exit_signal = e\<rparr>"

lemma process_open:
  assumes "tk_position t = Some p" and "ex (cd_time row) = Inr e"
  shows "process t (row_snapshot row b e) =
     (let h = py_max (op_highest_since_entry p) (cd_high row);
          t' = t\<lparr>tk_position := Some (p\<lparr>op_highest_since_entry := h\<rparr>)\<rparr> in
      map_res (\<lambda>hit. case hit of None \<Rightarrow> (t', None) | Some (price, reason) \<Rightarrow> close_position t' price reason)
        (exit_decision (tk_risk_management t) ex (op_entry_price p) h row))"
proof -
  let ?rm = "tk_risk_management t"
  let ?h = "py_max (op_highest_since_entry p) (cd_high row)"
  consider a where "mult_num (op_entry_price p) (one_minus (rm_stop_loss_pct ?rm)) = Inl a"
    | a b where "mult_num (op_entry_price p) (one_minus (rm_stop_loss_pct ?rm)) = Inr a"
        "mult_num (op_entry_price p) (one_plus (rm_take_profit_pct ?rm)) = Inl b"
    | a b where "mult_num (op_entry_price p) (one_minus (rm_stop_loss_pct ?rm)) = Inr a"
        "mult_num (op_entry_price p) (one_plus (rm_take_profit_pct ?rm)) = Inr b"
    by (metis sum.exhaust)
  then show ?thesis
  proof cases
    case (3 a b)
    show ?thesis
    proof (cases "rm_trailing_stop_pct ?rm")
      case None
      with 3 assms show ?thesis
        by (simp add: process_def exit_decision_def trailing_check_def row_snapshot_def Let_def)
    next
      case (Some pct)
      with 3 assms show ?thesis
        by (cases "mult_num ?h (one_minus pct)")
          (simp_all add: process_def exit_decision_def trailing_check_def row_snapshot_def Let_def)
    qed
  qed (use assms in \<open>simp_all add: process_def exit_decision_def row_snapshot_def Let_def\<close>)
qed

lemma live_step_simulates:
  assumes ok: "locals_ok s" and step: "run_step risk en ex s row = Inr s'"
    and en: "en (cd_time row) = Inr b" and ex: "ex (cd_time row) = Inr e"
    and sig: "sig i = Inr (row_snapshot row b e)"
  shows "live_step sig (abs_live risk s) i = Inr (abs_live risk s')"
proof (cases "st_in_position s")
  case False
  with step en have "s' = (if b then s\<lparr>st_in_position := True, st_entry_price := Some (cd_close row),
       st_entry_time := Some (cd_time row), st_highest := Some (cd_close row)\<rparr> else s)"
    by (simp add: run_step_flat)
  with False sig show ?thesis
    by (simp add: live_step_def abs_live_def abs_position_def process_def row_snapshot_def book_def)
next
  case True
  with ok obtain p t h where l: "st_entry_price s = Some p" "st_entry_time s = Some t"
      "st_highest s = Some h"
    by (auto simp: locals_ok_def)
  let ?h = "py_max h (cd_high row)"
  from step run_step_open [OF True l] obtain hit where
      hit: "exit_decision risk ex p ?h row = Inr hit"
      and s': "(case hit of None \<Rightarrow> Inr (s\<lparr>st_highest := Some ?h\<rparr>)
        | Some pr \<Rightarrow> map_res (\<lambda>tr. s\<lparr>st_trades := st_trades s @ [tr], st_in_position := False,
            st_entry_price := None, st_entry_time := None, st_highest := None\<rparr>)
            (close_trade t p row pr)) = Inr s'"
    by (auto simp: bindE_eq_Inr)
  let ?t = "\<lparr>tk_risk_management = risk, tk_position = abs_position s\<rparr>"
  have pos: "tk_position ?t = Some \<lparr>op_entry_time = t, op_entry_price = p, op_highest_since_entry = h\<rparr>"
    using True l by (simp add: abs_position_def)
  note pr = process_open [where ex = ex and row = row and b = b, OF pos ex, simplified Let_def, simplified]
  show ?thesis
  proof (cases hit)
    case None
    with s' have "s' = s\<lparr>st_highest := Some ?h\<rparr>" by simp
    with None hit pr True l sig show ?thesis
      by (simp add: live_step_def abs_live_def abs_position_def book_def)
  next
    case (Some q)
    with s' hit pr True l sig show ?thesis
      by (auto simp: live_step_def abs_live_def abs_position_def book_def close_position_def py_simps
          close_trade_def as_live_def row_snapshot_def split: prod.splits)
  qed
qed

text \<open>The signal of a prefix is the row of the whole frame.\<close>

lemma latest_signal_prefix:
  assumes lib: "causal_lib L" and df: "frame_ok df" "distinct (fr_index df)"
    and cols: "set ohlcv_columns \<subseteq> dom (fr_columns df)"
    and data: "compute_indicators L df (sd_indicators d) = Inr data"
    and en: "evaluate_condition L (sd_entry_conditions d) data = Inr en"
    and ex: "exit_series L (sd_exit_conditions d) data = Inr ex"
    and i: "i < length (fr_index df)"
  shows "latest_signal L d (frame_take (Suc i) df) = Inr (row_snapshot (row_at data i) (en ! i) (ex ! i))"
proof -
  note ci = compute_indicators_causal [OF lib df(1) data]
  let ?d = "frame_take (Suc i) data"
  have idx: "fr_index data = fr_index df" and ok: "frame_ok data" using ci by auto
  have take: "compute_indicators L (frame_take (Suc i) df) (sd_indicators d) = Inr ?d"
    using ci by simp
  have e1: "evaluate_condition L (sd_entry_conditions d) ?d = Inr (take (Suc i) en)"
    using evaluate_condition_take [OF ok en] .
  have e2: "exit_series L (sd_exit_conditions d) ?d = Inr (take (Suc i) ex)"
    using exit_cond.prefix [OF ok ex] by simp
  have dist: "distinct (fr_index ?d)" and li: "length (fr_index ?d) = Suc i"
    using df(2) idx i by (simp_all add: distinct_take)
  have ne: "fr_index ?d \<noteq> []" using li by (metis list.size(3) nat.simps(3))
  have last: "last (fr_index ?d) = fr_index ?d ! i"
    unfolding last_conv_nth [OF ne] li by simp
  have row: "rows_at (fr_index ?d) (fr_index ?d ! i) = [i]"
    using rows_at_distinct [OF dist, of i] li by simp
  have l: "loc_bool (fr_index ?d) s (fr_index ?d ! i) = Inr (s ! i)" for s
    using loc_bool_distinct [OF dist, of i] li by simp
  have "set ohlcv_columns \<subseteq> dom (fr_columns data)"
    using compute_indicators_dom [OF data] cols by auto
  then have c: "read_cell ?d i name = Inr (cell data name i)" if "name \<in> set ohlcv_columns" for name
    using that by (auto simp: read_cell_def get_column_def cell_def dest!: subsetD)
  show ?thesis
    using take e1 e2 ne last row l [of "take (Suc i) en"] l [of "take (Suc i) ex"] i idx
    by (simp add: latest_signal_def Let_def c ohlcv_columns_def row_snapshot_def del: frame_take_simps)
      (simp add: idx)
qed

lemma live_fold_simulates:
  assumes "foldE (run_step risk en ex) start_state (map (row_at data) [0..<n]) = Inr s"
    and "\<And>i. i < n \<Longrightarrow> sig i = Inr (row_snapshot (row_at data i) (b i) (e i))"
    and "\<And>i. i < n \<Longrightarrow> en (cd_time (row_at data i)) = Inr (b i) \<and> ex (cd_time (row_at data i)) = Inr (e i)"
  shows "foldE (live_step sig) (abs_live risk start_state) [0..<n] = Inr (abs_live risk s) \<and> locals_ok s"
  using assms
proof (induction n arbitrary: s)
  case 0
  then show ?case by simp
next
  case (Suc n)
  from Suc.prems(1) obtain s0 where
      s0: "foldE (run_step risk en ex) start_state (map (row_at data) [0..<n]) = Inr s0"
      and st: "run_step risk en ex s0 (row_at data n) = Inr s"
    by (auto simp: foldE_append py_simps)
  from Suc.IH [OF s0] Suc.prems(2,3)
  have ih: "foldE (live_step sig) (abs_live risk start_state) [0..<n] = Inr (abs_live risk s0)"
    and ok: "locals_ok s0" by simp_all
  have "live_step sig (abs_live risk s0) n = Inr (abs_live risk s)"
    using Suc.prems(2,3) [of n]
    by (intro live_step_simulates [where b = "b n" and e = "e n", OF ok st]) auto
  with ih run_step_locals [OF ok st] show ?case by (simp add: foldE_append)
qed

end
