(* ===== verification/Equity.thy ===== *)
theory Equity
  imports Interpreter
begin

text \<open>
  Costs and the equity curve, \<^verbatim>\<open>freqpanda_backtest/costs.py\<close> and \<^verbatim>\<open>freqpanda_backtest/equity.py\<close>.
  \<open>apply_costs_to_trades\<close> compounds the capital through the trades; \<open>build_equity_curve\<close> writes
  one value per candle into an array that \<^verbatim>\<open>np.empty\<close> hands out. The library is the parameter
  \<open>N\<close>: what \<^verbatim>\<open>np.empty\<close> leaves in the array, and the reductions that the metrics use. The curve
  is shown to overwrite every cell, so it does not depend on what was there.
\<close>

record numlib =
  nl_empty :: "nat \<Rightarrow> fl list"
  nl_sum :: "fl list \<Rightarrow> fl"
  nl_mean :: "fl list \<Rightarrow> fl"
  nl_std :: "fl list \<Rightarrow> fl"
  nl_sqrt :: "fl \<Rightarrow> fl"
  nl_pct_change :: "fl list \<Rightarrow> fl list"
  nl_median_delta :: "int list \<Rightarrow> int"
  nl_total_seconds :: "int \<Rightarrow> fl"

section \<open>Costs\<close>

record trading_costs =
  tc_fee_pct :: fl
  tc_slippage_pct :: fl

definition entry_fill_price :: "trading_costs \<Rightarrow> fl \<Rightarrow> fl" where
  "entry_fill_price costs raw_price = raw_price * (1 + tc_slippage_pct costs)"

definition exit_fill_price :: "trading_costs \<Rightarrow> fl \<Rightarrow> fl" where
  "exit_fill_price costs raw_price = raw_price * (1 - tc_slippage_pct costs)"

record trade_cost_result =
  cr_trade :: trade
  cr_entry_fill_price :: fl
  cr_exit_fill_price :: fl
  cr_quantity :: fl
  cr_equity_before :: fl
  cr_equity_after :: fl
  cr_net_pnl_pct :: fl
  cr_net_pnl_abs :: fl

definition cost_of_trade :: "trading_costs \<Rightarrow> fl \<Rightarrow> trade \<Rightarrow> trade_cost_result res" where
  "cost_of_trade costs equity_before t =
     (let entry_fill = entry_fill_price costs (tr_entry_price t);
          exit_fill = exit_fill_price costs (tr_exit_price t) in
      bindE (py_div (equity_before * (1 - tc_fee_pct costs)) entry_fill) (\<lambda>quantity.
      let proceeds = quantity * exit_fill;
          equity_after = proceeds * (1 - tc_fee_pct costs) in
      map_res (\<lambda>ratio. \<lparr>cr_trade = t, cr_entry_fill_price = entry_fill, cr_exit_fill_price = exit_fill,
          cr_quantity = quantity, cr_equity_before = equity_before, cr_equity_after = equity_after,
          cr_net_pnl_pct = ratio - 1, cr_net_pnl_abs = equity_after - equity_before\<rparr>)
        (py_div equity_after equity_before)))"

fun apply_costs_to_trades :: "trade list \<Rightarrow> fl \<Rightarrow> trading_costs \<Rightarrow> trade_cost_result list res" where
  "apply_costs_to_trades [] equity costs = Inr []"
| "apply_costs_to_trades (t # ts) equity costs =
     bindE (cost_of_trade costs equity t) (\<lambda>r.
     map_res (Cons r) (apply_costs_to_trades ts (cr_equity_after r) costs))"

section \<open>The curve\<close>

text \<open>\<^verbatim>\<open>index.get_loc\<close>, which is a position only for a timestamp that occurs once.\<close>

definition get_loc :: "time list \<Rightarrow> time \<Rightarrow> nat res" where
  "get_loc idx t = (case rows_at idx t of
      [] \<Rightarrow> Inl (KeyError ''timestamp'') | [i] \<Rightarrow> Inr i | _ \<Rightarrow> Inl TypeError)"

text \<open>\<^verbatim>\<open>values[a:b] = ...\<close>, with the new value of each position\<close>

definition fill_slice :: "nat \<Rightarrow> nat \<Rightarrow> (nat \<Rightarrow> fl) \<Rightarrow> fl list \<Rightarrow> fl list" where
  "fill_slice a b f xs = map (\<lambda>k. if a \<le> k \<and> k < b then f k else xs ! k) [0..<length xs]"

record curve_state =
  cv_values :: "fl list"
  cv_segment_start :: fl
  cv_cursor :: nat

definition curve_step :: "time list \<Rightarrow> fl list \<Rightarrow> curve_state \<Rightarrow> trade_cost_result \<Rightarrow> curve_state res" where
  "curve_step index close s tc =
     bindE (get_loc index (tr_entry_time (cr_trade tc))) (\<lambda>entry_pos.
     bindE (get_loc index (tr_exit_time (cr_trade tc))) (\<lambda>exit_pos.
     let v1 = fill_slice (cv_cursor s) entry_pos (\<lambda>_. cv_segment_start s) (cv_values s);
         v2 = v1[entry_pos := cr_quantity tc * cr_entry_fill_price tc];
         v3 = (if entry_pos + 1 < exit_pos
           then fill_slice (entry_pos + 1) exit_pos (\<lambda>k. cr_quantity tc * close ! k) v2 else v2);
         v4 = v3[exit_pos := cr_equity_after tc]
     in Inr \<lparr>cv_values = v4, cv_segment_start = cr_equity_after tc, cv_cursor = exit_pos + 1\<rparr>))"

definition build_equity_curve ::
  "numlib \<Rightarrow> frame \<Rightarrow> trade_cost_result list \<Rightarrow> fl \<Rightarrow> fl list res" where
  "build_equity_curve N df tcs initial_capital =
     bindE (get_column df ''close'') (\<lambda>close.
     let n = length (fr_index df) in
     map_res (\<lambda>s. fill_slice (cv_cursor s) n (\<lambda>_. cv_segment_start s) (cv_values s))
       (foldE (curve_step (fr_index df) close)
         \<lparr>cv_values = nl_empty N n, cv_segment_start = initial_capital, cv_cursor = 0\<rparr> tcs))"

section \<open>The chain of capitals\<close>

lemma cost_of_trade_Inr:
  "cost_of_trade costs e t = Inr r \<longleftrightarrow>
     e \<noteq> 0 \<and> entry_fill_price costs (tr_entry_price t) \<noteq> 0 \<and>
     r = (let entry_fill = entry_fill_price costs (tr_entry_price t);
            exit_fill = exit_fill_price costs (tr_exit_price t);
            quantity = (e * (1 - tc_fee_pct costs)) / entry_fill;
            after = (quantity * exit_fill) * (1 - tc_fee_pct costs) in
          \<lparr>cr_trade = t, cr_entry_fill_price = entry_fill, cr_exit_fill_price = exit_fill,
           cr_quantity = quantity, cr_equity_before = e, cr_equity_after = after,
           cr_net_pnl_pct = after / e - 1, cr_net_pnl_abs = after - e\<rparr>)"
  by (auto simp: cost_of_trade_def Let_def py_simps)

lemma cost_of_trade_fields:
  assumes "cost_of_trade costs e t = Inr r"
  shows "cr_trade r = t" and "cr_equity_before r = e"
    and "cr_net_pnl_abs r = cr_equity_after r - e"
    and "cr_net_pnl_pct r = cr_equity_after r / e - 1"
  using assms by (simp_all add: cost_of_trade_Inr Let_def)

lemma apply_costs_trades:
  "apply_costs_to_trades ts e costs = Inr rs \<Longrightarrow> map cr_trade rs = ts"
  by (induction ts arbitrary: e rs) (auto simp: py_simps cost_of_trade_fields(1))

lemma apply_costs_chain:
  "apply_costs_to_trades ts e costs = Inr rs \<Longrightarrow>
     map cr_equity_before rs = butlast (e # map cr_equity_after rs)"
  by (induction ts arbitrary: e rs) (auto simp: py_simps cost_of_trade_fields(2))

lemma apply_costs_each:
  "apply_costs_to_trades ts e costs = Inr rs \<Longrightarrow> r \<in> set rs \<Longrightarrow>
     cost_of_trade costs (cr_equity_before r) (cr_trade r) = Inr r"
proof (induction ts arbitrary: e rs)
  case (Cons t ts)
  from Cons.prems(1) obtain r0 rs' where r0: "cost_of_trade costs e t = Inr r0"
      and rs': "apply_costs_to_trades ts (cr_equity_after r0) costs = Inr rs'" and rs: "rs = r0 # rs'"
    by (auto simp: py_simps)
  show ?case
  proof (cases "r = r0")
    case True
    with r0 show ?thesis by (simp add: cost_of_trade_fields [OF r0])
  next
    case False
    with Cons.IH [OF rs'] Cons.prems(2) rs show ?thesis by simp
  qed
qed simp

text \<open>Costs only ever move a fill against the strategy.\<close>

lemma entry_fill_adverse:
  assumes "0 \<le> tc_slippage_pct costs" and "is_double (Fin p)" and "0 < p"
  shows "Fin p \<le> entry_fill_price costs (Fin p)"
  using mult_grows [OF assms(2,3) one_plus_ge_one [OF assms(1)]] by (simp add: entry_fill_price_def)

lemma exit_fill_adverse:
  assumes "0 \<le> tc_slippage_pct costs" and "tc_slippage_pct costs \<le> 1"
    and "is_double (Fin p)" and "0 \<le> p"
  shows "exit_fill_price costs (Fin p) \<le> Fin p \<and> 0 \<le> exit_fill_price costs (Fin p)"
proof -
  from one_minus_unit [OF assms(1,2)] obtain c where "1 - tc_slippage_pct costs = Fin c"
      "0 \<le> c" "c \<le> 1" by blast
  then show ?thesis using mult_shrinks [OF assms(3,4)] by (simp add: exit_fill_price_def)
qed

section \<open>Every cell of the curve is written\<close>

lemma get_loc_distinct: "distinct idx \<Longrightarrow> i < length idx \<Longrightarrow> get_loc idx (idx ! i) = Inr i"
  by (simp add: get_loc_def rows_at_distinct)

lemma length_fill_slice [simp]: "length (fill_slice a b f xs) = length xs"
  by (simp add: fill_slice_def)

lemma fill_slice_nth [simp]:
  "k < length xs \<Longrightarrow> fill_slice a b f xs ! k = (if a \<le> k \<and> k < b then f k else xs ! k)"
  by (simp add: fill_slice_def)

text \<open>
  The value the curve is meant to have at a candle, from the positions of the trades: the mark
  inside a trade, otherwise the capital after the last trade that has ended.
\<close>

fun curve_value :: "fl list \<Rightarrow> fl \<Rightarrow> ((nat \<times> nat) \<times> trade_cost_result) list \<Rightarrow> nat \<Rightarrow> fl" where
  "curve_value close e [] k = e"
| "curve_value close e (((i, j), tc) # rest) k =
     (if k < i then e
      else if k = i then cr_quantity tc * cr_entry_fill_price tc
      else if k < j then cr_quantity tc * close ! k
      else if k = j then cr_equity_after tc
      else curve_value close (cr_equity_after tc) rest k)"

definition placed :: "time list \<Rightarrow> (nat \<times> nat) list \<Rightarrow> trade_cost_result list \<Rightarrow> bool" where
  "placed idx spans tcs \<longleftrightarrow>
     list_all2 (\<lambda>(i, j) tc. i < j \<and> j < length idx \<and> tr_entry_time (cr_trade tc) = idx ! i \<and>
       tr_exit_time (cr_trade tc) = idx ! j) spans tcs \<and>
     sorted_wrt (\<lambda>(i, j) (i', j'). j < i') spans"

lemma curve_step_placed:
  assumes "distinct idx" and "i < j" and "j < length idx"
    and "tr_entry_time (cr_trade tc) = idx ! i" and "tr_exit_time (cr_trade tc) = idx ! j"
  shows "curve_step idx close s tc = Inr \<lparr>
     cv_values = (fill_slice (i + 1) j (\<lambda>k. cr_quantity tc * close ! k)
        ((fill_slice (cv_cursor s) i (\<lambda>_. cv_segment_start s) (cv_values s))
          [i := cr_quantity tc * cr_entry_fill_price tc])) [j := cr_equity_after tc],
     cv_segment_start = cr_equity_after tc, cv_cursor = j + 1\<rparr>"
proof -
  have "fill_slice (i + 1) j f xs = xs" if "\<not> i + 1 < j" for f and xs :: "fl list"
    using that by (intro nth_equalityI) auto
  with assms show ?thesis by (simp add: curve_step_def Let_def get_loc_distinct)
qed

lemma curve_fold:
  assumes "distinct idx" and "placed idx spans tcs" and "length (cv_values s) = length idx"
    and "\<forall>(i, j) \<in> set spans. cv_cursor s \<le> i"
  shows "\<exists>s'. foldE (curve_step idx close) s tcs = Inr s' \<and> length (cv_values s') = length idx \<and>
     (\<forall>k < length idx. fill_slice (cv_cursor s') (length idx) (\<lambda>_. cv_segment_start s') (cv_values s') ! k =
        (if cv_cursor s \<le> k then curve_value close (cv_segment_start s) (zip spans tcs) k
         else cv_values s ! k))"
  using assms
proof (induction spans arbitrary: tcs s)
  case Nil
  then show ?case by (auto simp: placed_def)
next
  case (Cons ij spans)
  obtain i j where ij: "ij = (i, j)" by force
  from Cons.prems(2) ij obtain tc rest where tcs: "tcs = tc # rest"
      and p: "i < j" "j < length idx" "tr_entry_time (cr_trade tc) = idx ! i"
        "tr_exit_time (cr_trade tc) = idx ! j"
      and rest: "placed idx spans rest" and later: "\<forall>(i', j') \<in> set spans. j < i'"
    by (cases tcs) (auto simp: placed_def)
  from Cons.prems(4) ij have cur: "cv_cursor s \<le> i" by simp
  note step = curve_step_placed [OF Cons.prems(1) p, of close s]
  let ?s1 = "\<lparr>cv_values = (fill_slice (i + 1) j (\<lambda>k. cr_quantity tc * close ! k)
        ((fill_slice (cv_cursor s) i (\<lambda>_. cv_segment_start s) (cv_values s))
          [i := cr_quantity tc * cr_entry_fill_price tc])) [j := cr_equity_after tc],
     cv_segment_start = cr_equity_after tc, cv_cursor = j + 1\<rparr>"
  have "\<forall>(i', j') \<in> set spans. cv_cursor ?s1 \<le> i'" using later by auto
  from Cons.IH [OF Cons.prems(1) rest _ this] Cons.prems(3) obtain s' where
      s': "foldE (curve_step idx close) ?s1 rest = Inr s'" "length (cv_values s') = length idx"
      and v: "\<And>k. k < length idx \<Longrightarrow>
        fill_slice (cv_cursor s') (length idx) (\<lambda>_. cv_segment_start s') (cv_values s') ! k =
        (if cv_cursor ?s1 \<le> k then curve_value close (cv_segment_start ?s1) (zip spans rest) k
         else cv_values ?s1 ! k)"
    by auto
  have "foldE (curve_step idx close) s tcs = Inr s'" using step s'(1) by (simp add: tcs)
  moreover have "fill_slice (cv_cursor s') (length idx) (\<lambda>_. cv_segment_start s') (cv_values s') ! k =
      (if cv_cursor s \<le> k then curve_value close (cv_segment_start s) (zip (ij # spans) tcs) k
       else cv_values s ! k)" if "k < length idx" for k
    using v [OF that] that p(1,2) cur Cons.prems(3) by (auto simp: tcs ij nth_list_update)
  ultimately show ?case using s'(2) by blast
qed

lemma build_equity_curve_value:
  assumes "frame_ok df" and "distinct (fr_index df)" and "fr_columns df ''close'' = Some close"
    and "placed (fr_index df) spans tcs" and "length (nl_empty N (length (fr_index df))) = length (fr_index df)"
  shows "build_equity_curve N df tcs e =
     Inr (map (curve_value close e (zip spans tcs)) [0..<length (fr_index df)])"
proof -
  let ?s = "\<lparr>cv_values = nl_empty N (length (fr_index df)), cv_segment_start = e, cv_cursor = 0\<rparr>"
  from curve_fold [OF assms(2,4), of ?s close] assms(5) obtain s' where
      s': "foldE (curve_step (fr_index df) close) ?s tcs = Inr s'"
        "length (cv_values s') = length (fr_index df)"
      and v: "\<forall>k < length (fr_index df). fill_slice (cv_cursor s') (length (fr_index df))
        (\<lambda>_. cv_segment_start s') (cv_values s') ! k = curve_value close e (zip spans tcs) k"
    by auto
  then show ?thesis using assms(3)
    by (auto simp: build_equity_curve_def get_column_def Let_def intro!: nth_equalityI)
qed

lemma spans_placed:
  assumes "list_all2 (trade_span risk en ex (iterrows data)) spans ts"
    and "sorted_wrt (\<lambda>(i, j) (i', j'). j < i') spans" and "map cr_trade tcs = ts"
  shows "placed (fr_index data) spans tcs"
proof -
  have "list_all2 (\<lambda>ij tc. trade_span risk en ex (iterrows data) ij (cr_trade tc)) spans tcs"
    using assms(1,3) by (simp add: list_all2_map2 [symmetric])
  then show ?thesis unfolding placed_def using assms(2)
    by (auto elim!: list_all2_mono dest!: trade_span_times)
qed

end
