(* ===== verification/Metrics.thy ===== *)
theory Metrics
  imports Equity
begin

text \<open>
  The performance metrics of \<^verbatim>\<open>freqpanda_backtest/metrics.py\<close>. A series is the list of its
  values with its index beside it; \<^verbatim>\<open>cummax\<close>, \<^verbatim>\<open>idxmin\<close>, \<^verbatim>\<open>idxmax\<close> and the label slices are
  written out (they skip NaN, and give the first position on ties), the reductions \<^verbatim>\<open>mean\<close>,
  \<^verbatim>\<open>std\<close>, \<^verbatim>\<open>sum\<close>, \<^verbatim>\<open>sqrt\<close> and \<^verbatim>\<open>median\<close> are fields of \<open>numlib\<close>.
\<close>

section \<open>Series operations\<close>

fun cummax_from :: "fl \<Rightarrow> fl list \<Rightarrow> fl list" where
  "cummax_from m [] = []"
| "cummax_from m (x # xs) = (if is_nan x then NaN # cummax_from m xs
     else (let m' = py_max m x in m' # cummax_from m' xs))"

definition cummax :: "fl list \<Rightarrow> fl list" where
  "cummax xs = cummax_from NInf xs"

fun arg_best :: "(fl \<Rightarrow> fl \<Rightarrow> bool) \<Rightarrow> nat \<Rightarrow> (nat \<times> fl) option \<Rightarrow> fl list \<Rightarrow> (nat \<times> fl) option" where
  "arg_best better i best [] = best"
| "arg_best better i best (x # xs) = arg_best better (Suc i)
     (if is_nan x then best
      else (case best of None \<Rightarrow> Some (i, x) | Some (j, y) \<Rightarrow> if better x y then Some (i, x) else best)) xs"

text \<open>\<^verbatim>\<open>idxmin\<close> and \<^verbatim>\<open>idxmax\<close>, as positions; a series of NaN has neither.\<close>

definition arg_min :: "fl list \<Rightarrow> nat res" where
  "arg_min xs = (case arg_best (\<lambda>x y. x < y) 0 None xs of
      None \<Rightarrow> Inl (LibraryError ''idxmin of an all-NaN series'') | Some (i, _) \<Rightarrow> Inr i)"

definition arg_max :: "fl list \<Rightarrow> nat res" where
  "arg_max xs = (case arg_best (\<lambda>x y. y < x) 0 None xs of
      None \<Rightarrow> Inl (LibraryError ''idxmax of an all-NaN series'') | Some (i, _) \<Rightarrow> Inr i)"

section \<open>Drawdown\<close>

record drawdown_info =
  dd_max_drawdown_pct :: fl
  dd_peak_time :: "time option"
  dd_trough_time :: "time option"
  dd_recovery_time :: "time option"
  dd_duration :: int

definition drawdown_series :: "fl list \<Rightarrow> fl list" where
  "drawdown_series equity = map2 (\<lambda>e m. (e - m) / m) equity (cummax equity)"

definition compute_drawdown :: "time list \<Rightarrow> fl list \<Rightarrow> drawdown_info res" where
  "compute_drawdown index equity =
     (if equity = [] then Inr \<lparr>dd_max_drawdown_pct = 0, dd_peak_time = None, dd_trough_time = None,
        dd_recovery_time = None, dd_duration = 0\<rparr>
      else bindE (arg_min (drawdown_series equity)) (\<lambda>trough.
      bindE (get_loc index (index ! trough)) (\<lambda>t.
      let max_dd = - (drawdown_series equity ! t) in
      bindE (arg_max (take (Suc t) equity)) (\<lambda>peak.
      bindE (get_loc index (index ! peak)) (\<lambda>p.
      let peak_value = equity ! p;
          recovered = filter (\<lambda>k. peak_value \<le> equity ! k) [t..<length equity] in
      case recovered of
        k # _ \<Rightarrow> Inr \<lparr>dd_max_drawdown_pct = max_dd, dd_peak_time = Some (index ! p),
          dd_trough_time = Some (index ! t), dd_recovery_time = Some (index ! k),
          dd_duration = index ! k - index ! p\<rparr>
      | [] \<Rightarrow> Inr \<lparr>dd_max_drawdown_pct = max_dd, dd_peak_time = Some (index ! p),
          dd_trough_time = Some (index ! t), dd_recovery_time = None,
          dd_duration = last index - index ! p\<rparr>)))))"

section \<open>Ratios and trade statistics\<close>

text \<open>\<^verbatim>\<open>pd.Timedelta(days=365) / median_delta\<close>: nanoseconds over nanoseconds.\<close>

definition year_ns :: int where
  "year_ns = 365 * 86400 * 1000000000"

definition infer_periods_per_year :: "numlib \<Rightarrow> time list \<Rightarrow> fl res" where
  "infer_periods_per_year N index =
     (if length index < 2 then Inr NaN
      else bindE (float_of_int year_ns) (\<lambda>y.
        bindE (float_of_int (nl_median_delta N (map2 (-) (tl index) index))) (py_div y)))"

definition np_minimum :: "fl \<Rightarrow> fl \<Rightarrow> fl" where
  "np_minimum x y = (if is_nan x \<or> is_nan y then NaN else if y < x then y else x)"

definition compute_return_ratios :: "numlib \<Rightarrow> fl list \<Rightarrow> fl \<Rightarrow> fl \<Rightarrow> (fl \<times> fl) res" where
  "compute_return_ratios N equity periods_per_year risk_free_rate =
     (let returns = filter (\<lambda>x. \<not> is_nan x) (nl_pct_change N equity) in
      if returns = [] then Inr (NaN, NaN)
      else bindE (if \<not> py_eq periods_per_year 0 \<and> \<not> is_nan periods_per_year
          then py_div risk_free_rate periods_per_year else Inr 0) (\<lambda>mar.
        let mean_excess = nl_mean N (map (\<lambda>x. x - mar) returns); std = nl_std N returns in
        bindE (if 0 < std then map_res (\<lambda>q. q * nl_sqrt N periods_per_year) (py_div mean_excess std)
          else Inr NaN) (\<lambda>sharpe.
        let downside = map (\<lambda>x. np_minimum (x - mar) 0) returns;
            downside_deviation = nl_sqrt N (nl_mean N (map (\<lambda>x. x * x) downside)) in
        map_res (Pair sharpe)
          (if 0 < downside_deviation
           then map_res (\<lambda>q. q * nl_sqrt N periods_per_year) (py_div mean_excess downside_deviation)
           else Inr (if 0 < mean_excess then PInf else NaN)))))"

record trade_stats =
  ts_num_trades :: nat
  ts_win_rate :: fl
  ts_avg_win_pct :: fl
  ts_avg_loss_pct :: fl
  ts_profit_factor :: fl

text \<open>\<^verbatim>\<open>np.count_nonzero(wins) / n\<close>: both counts as doubles\<close>

definition count_ratio :: "nat \<Rightarrow> nat \<Rightarrow> fl" where
  "count_ratio k n = round64 (of_nat k) / round64 (of_nat n)"

definition compute_trade_stats :: "numlib \<Rightarrow> trade_cost_result list \<Rightarrow> trade_stats" where
  "compute_trade_stats N tcs =
     (if tcs = [] then \<lparr>ts_num_trades = 0, ts_win_rate = NaN, ts_avg_win_pct = NaN,
        ts_avg_loss_pct = NaN, ts_profit_factor = NaN\<rparr>
      else
        (let wins = filter (\<lambda>tc. 0 < cr_net_pnl_abs tc) tcs;
             losses = filter (\<lambda>tc. cr_net_pnl_abs tc < 0) tcs;
             gross_profit = (if wins \<noteq> [] then nl_sum N (map cr_net_pnl_abs wins) else 0);
             gross_loss = (if losses \<noteq> [] then - nl_sum N (map cr_net_pnl_abs losses) else 0)
         in \<lparr>ts_num_trades = length tcs, ts_win_rate = count_ratio (length wins) (length tcs),
             ts_avg_win_pct = (if wins \<noteq> [] then nl_mean N (map cr_net_pnl_pct wins) else 0),
             ts_avg_loss_pct = (if losses \<noteq> [] then nl_mean N (map cr_net_pnl_pct losses) else 0),
             ts_profit_factor = (if 0 < gross_loss then gross_profit / gross_loss
               else if 0 < gross_profit then PInf else NaN)\<rparr>))"

section \<open>Running maximum and first extremum\<close>

lemma length_cummax [simp]: "length (cummax_from m xs) = length xs" "length (cummax xs) = length xs"
proof -
  show "length (cummax_from m xs) = length xs" for m
    by (induction xs arbitrary: m) (simp_all add: Let_def)
  then show "length (cummax xs) = length xs" by (simp add: cummax_def)
qed

lemma cummax_from_nth:
  assumes "NaN \<notin> set xs" and "m \<noteq> NaN" and "k < length xs"
  shows "m \<le> cummax_from m xs ! k \<and> (\<forall>j \<le> k. xs ! j \<le> cummax_from m xs ! k) \<and>
     (cummax_from m xs ! k = m \<or> (\<exists>j \<le> k. cummax_from m xs ! k = xs ! j))"
  using assms
proof (induction xs arbitrary: m k)
  case (Cons x xs)
  have x: "x \<noteq> NaN" and xs: "NaN \<notin> set xs" using Cons.prems(1) by auto
  have mx: "py_max m x \<noteq> NaN" "m \<le> py_max m x" "x \<le> py_max m x"
      "py_max m x = m \<or> py_max m x = x"
    using py_max_upper [OF Cons.prems(2) x] x Cons.prems(2) by (auto simp: py_max_def)
  show ?case
  proof (cases k)
    case 0
    with mx x show ?thesis by (auto simp: is_nan_def Let_def)
  next
    case (Suc k')
    let ?c = "cummax_from (py_max m x) xs ! k'"
    from Cons.IH [OF xs mx(1), of k'] Cons.prems(3) Suc
    have ih: "py_max m x \<le> ?c" "\<forall>j \<le> k'. xs ! j \<le> ?c"
        "?c = py_max m x \<or> (\<exists>j \<le> k'. ?c = xs ! j)" by auto
    have "m \<le> ?c" "x \<le> ?c" using mx(2,3) ih(1) by (blast intro: fl_le_trans)+
    moreover have "(x # xs) ! j \<le> ?c" if "j \<le> Suc k'" for j
      using that ih(2) \<open>x \<le> ?c\<close> by (cases j) auto
    moreover have "?c = m \<or> (\<exists>j \<le> Suc k'. ?c = (x # xs) ! j)"
      using ih(3) mx(4) by (metis Suc_le_mono nth_Cons_0 nth_Cons_Suc zero_le)
    ultimately show ?thesis using Suc x by (simp add: is_nan_def Let_def)
  qed
qed simp

lemma cummax_nth:
  assumes "\<forall>x \<in> set xs. \<exists>q. x = Fin q" and "k < length xs"
  shows "\<exists>j \<le> k. cummax xs ! k = xs ! j \<and> (\<forall>i \<le> k. xs ! i \<le> xs ! j)"
proof -
  have "NaN \<notin> set xs" using assms(1) by auto
  from cummax_from_nth [OF this _ assms(2), of NInf]
  have c: "\<forall>j \<le> k. xs ! j \<le> cummax xs ! k" "cummax xs ! k = NInf \<or> (\<exists>j \<le> k. cummax xs ! k = xs ! j)"
    by (auto simp: cummax_def)
  obtain q where "xs ! k = Fin q" using assms by (meson nth_mem)
  with c(1) have "cummax xs ! k \<noteq> NInf" by (metis less_eq_fl.simps order_refl)
  with c show ?thesis by metis
qed

text \<open>On a list of finite values \<open>arg_best\<close> finds an element that no other one beats.\<close>

lemma arg_best_from:
  assumes "\<forall>x \<in> set (ys @ xs). \<exists>q. x = Fin q" and "j < length ys"
    and "\<forall>s \<in> set ys. \<not> better s (ys ! j)"
    and order: "\<And>a b c. better (Fin a) (Fin b) \<Longrightarrow> \<not> better (Fin c) (Fin b) \<Longrightarrow> \<not> better (Fin c) (Fin a)"
    and irrefl: "\<And>a. \<not> better (Fin a) (Fin a)"
  shows "\<exists>r < length (ys @ xs). arg_best better (length ys) (Some (j, ys ! j)) xs = Some (r, (ys @ xs) ! r) \<and>
     (\<forall>s \<in> set (ys @ xs). \<not> better s ((ys @ xs) ! r))"
  using assms(1-3)
proof (induction xs arbitrary: ys j)
  case (Cons x xs)
  let ?ys = "ys @ [x]"
  obtain q where x: "x = Fin q" using Cons.prems(1) by auto
  have "ys ! j \<in> set (ys @ x # xs)" using Cons.prems(2) by simp
  then obtain b where b: "ys ! j = Fin b" using Cons.prems(1) by blast
  let ?j = "if better x (ys ! j) then length ys else j"
  have j: "?j < length ?ys" using Cons.prems(2) by auto
  have "\<not> better s (?ys ! ?j)" if s: "s \<in> set ?ys" for s
  proof -
    from s Cons.prems(1) obtain c where c: "s = Fin c" by auto
    show ?thesis
    proof (cases "better x (ys ! j)")
      case True
      then have "\<not> better c' x" if "c' = s" "s \<in> set ys" for c'
        using that order [of q b c] c b x Cons.prems(3) by simp
      with True s x irrefl show ?thesis by auto
    next
      case False
      with s Cons.prems(2,3) show ?thesis by (auto simp: nth_append)
    qed
  qed
  with Cons.IH [of ?ys ?j] Cons.prems(1) j
  have "\<exists>r < length (?ys @ xs). arg_best better (length ?ys) (Some (?j, ?ys ! ?j)) xs = Some (r, (?ys @ xs) ! r) \<and>
     (\<forall>s \<in> set (?ys @ xs). \<not> better s ((?ys @ xs) ! r))"
    by simp
  moreover have "arg_best better (length ys) (Some (j, ys ! j)) (x # xs) =
      arg_best better (length ?ys) (Some (?j, ?ys ! ?j)) xs"
    using x Cons.prems(2) by (simp add: is_nan_def nth_append)
  ultimately show ?case by simp
qed simp

lemma arg_best_finite:
  assumes "\<forall>x \<in> set xs. \<exists>q. x = Fin q" and "xs \<noteq> []"
    and "\<And>a b c. better (Fin a) (Fin b) \<Longrightarrow> \<not> better (Fin c) (Fin b) \<Longrightarrow> \<not> better (Fin c) (Fin a)"
    and "\<And>a. \<not> better (Fin a) (Fin a)"
  shows "\<exists>r < length xs. arg_best better 0 None xs = Some (r, xs ! r) \<and> (\<forall>s \<in> set xs. \<not> better s (xs ! r))"
proof (cases xs)
  case (Cons y ys)
  with assms(1) obtain q where "y = Fin q" by auto
  have "\<exists>r < length ([y] @ ys). arg_best better (length [y]) (Some (0, [y] ! 0)) ys = Some (r, ([y] @ ys) ! r) \<and>
     (\<forall>s \<in> set ([y] @ ys). \<not> better s (([y] @ ys) ! r))"
    by (rule arg_best_from [where better = better, OF _ _ _ assms(3,4)]) (use assms(1,4) Cons \<open>y = Fin q\<close> in auto)
  with Cons \<open>y = Fin q\<close> show ?thesis by (simp add: is_nan_def)
qed (use assms(2) in simp)

lemma arg_min_finite:
  assumes "\<forall>x \<in> set xs. \<exists>q. x = Fin q" and "xs \<noteq> []"
  shows "\<exists>r < length xs. arg_min xs = Inr r \<and> (\<forall>s \<in> set xs. xs ! r \<le> s)"
proof -
  from arg_best_finite [OF assms, of "\<lambda>x y. x < y"] obtain r where r: "r < length xs"
      "arg_best (\<lambda>x y. x < y) 0 None xs = Some (r, xs ! r)" "\<forall>s \<in> set xs. \<not> s < xs ! r"
    by auto
  moreover have "s \<noteq> NaN" if "s \<in> set xs" for s using assms(1) that by auto
  ultimately show ?thesis by (auto simp: arg_min_def fl_not_less)
qed

lemma arg_max_finite:
  assumes "\<forall>x \<in> set xs. \<exists>q. x = Fin q" and "xs \<noteq> []"
  shows "\<exists>r < length xs. arg_max xs = Inr r \<and> (\<forall>s \<in> set xs. s \<le> xs ! r)"
proof -
  from arg_best_finite [OF assms, of "\<lambda>x y. y < x"] obtain r where r: "r < length xs"
      "arg_best (\<lambda>x y. y < x) 0 None xs = Some (r, xs ! r)" "\<forall>s \<in> set xs. \<not> xs ! r < s"
    by auto
  moreover have "s \<noteq> NaN" if "s \<in> set xs" for s using assms(1) that by auto
  ultimately show ?thesis by (auto simp: arg_max_def fl_not_less)
qed

section \<open>Bounds\<close>

definition positive_double :: "fl \<Rightarrow> bool" where
  "positive_double x \<longleftrightarrow> is_double x \<and> (\<exists>q. x = Fin q \<and> 0 < q)"

text \<open>One drawdown ratio, of a positive value under its running maximum.\<close>

lemma drawdown_ratio:
  assumes "positive_double e" and "positive_double m" and "e \<le> m"
  shows "\<exists>c. (e - m) / m = Fin c \<and> - 1 \<le> c \<and> c \<le> 0"
proof -
  from assms obtain a b where ab: "e = Fin a" "m = Fin b" "0 < a" "0 < b" "a \<le> b"
      "round64 b = Fin b"
    by (auto simp: positive_double_def is_double_def)
  have "round64 (- b) = Fin (- b)" using ab(6) by (simp add: round64_minus)
  with ab have "Fin (- b) \<le> round64 (a - b)" and "round64 (a - b) \<le> Fin 0"
    using b64.rnd_above [of "- b" "a - b"] b64.rnd_nonpos [of "a - b"] by simp_all
  then obtain d where d: "round64 (a - b) = Fin d" "- b \<le> d" "d \<le> 0"
    by (auto dest: fl_le_between_Fin)
  then have "- 1 \<le> d / b" and "d / b \<le> 0" using ab(4) by (simp_all add: field_simps)
  then have "Fin (- 1) \<le> round64 (d / b)" and "round64 (d / b) \<le> Fin 0"
    using b64.rnd_above [of "- 1" "d / b"] b64.rnd_nonpos [of "d / b"] by (simp_all add: round64_minus)
  then obtain c where "round64 (d / b) = Fin c" "- 1 \<le> c" "c \<le> 0"
    by (auto dest: fl_le_between_Fin)
  with ab d show ?thesis by (simp add: minus_fl_def)
qed

lemma drawdown_series_nth:
  assumes "\<forall>x \<in> set equity. positive_double x" and "k < length equity"
  shows "\<exists>c. drawdown_series equity ! k = Fin c \<and> - 1 \<le> c \<and> c \<le> 0"
proof -
  have "\<forall>x \<in> set equity. \<exists>q. x = Fin q" using assms(1) by (auto simp: positive_double_def)
  from cummax_nth [OF this assms(2)] obtain j where j: "j \<le> k" "cummax equity ! k = equity ! j"
      "\<forall>i \<le> k. equity ! i \<le> equity ! j" by blast
  then have "positive_double (equity ! k)" "positive_double (equity ! j)" "equity ! k \<le> equity ! j"
    using assms by simp_all
  from drawdown_ratio [OF this] j(2) assms(2) show ?thesis by (simp add: drawdown_series_def)
qed

lemma length_drawdown_series [simp]: "length (drawdown_series equity) = length equity"
  by (simp add: drawdown_series_def)

lemma count_ratio_unit: "k \<le> n \<Longrightarrow> 0 < n \<Longrightarrow> n \<le> 2 ^ 53 \<Longrightarrow>
    \<exists>c. count_ratio k n = Fin c \<and> 0 \<le> c \<and> c \<le> 1"
  using divide_le_one [of "of_nat k" "of_nat n"] round64_of_int [of "int k"] round64_of_int [of "int n"]
  by (simp add: count_ratio_def)

text \<open>The shape of a computed drawdown, by positions.\<close>

definition drawdown_at :: "time list \<Rightarrow> fl list \<Rightarrow> nat \<Rightarrow> nat \<Rightarrow> drawdown_info \<Rightarrow> bool" where
  "drawdown_at index equity p t info \<longleftrightarrow>
     p \<le> t \<and> t < length equity \<and>
     dd_peak_time info = Some (index ! p) \<and> dd_trough_time info = Some (index ! t) \<and>
     dd_max_drawdown_pct info = - (drawdown_series equity ! t) \<and>
     (\<forall>k < length equity. drawdown_series equity ! t \<le> drawdown_series equity ! k) \<and>
     (\<forall>k \<le> t. equity ! k \<le> equity ! p) \<and>
     (case dd_recovery_time info of
        Some r \<Rightarrow> \<exists>k. t \<le> k \<and> k < length equity \<and> r = index ! k \<and> equity ! p \<le> equity ! k \<and>
          (\<forall>m \<in> {t..<k}. \<not> equity ! p \<le> equity ! m) \<and> dd_duration info = index ! k - index ! p
      | None \<Rightarrow> (\<forall>m \<in> {t..<length equity}. \<not> equity ! p \<le> equity ! m) \<and>
          dd_duration info = last index - index ! p)"

lemma filter_upt_Cons:
  "filter P [a..<b] = k # ks \<Longrightarrow> a \<le> k \<and> k < b \<and> P k \<and> (\<forall>m \<in> {a..<k}. \<not> P m)"
proof (induction b arbitrary: ks)
  case (Suc b)
  show ?case
  proof (cases "filter P [a..<b]")
    case Nil
    with Suc.prems show ?thesis by (auto simp: filter_empty_conv split: if_splits)
  next
    case (Cons k' ks')
    with Suc.prems have "k' = k" by (cases "a \<le> b") (auto split: if_splits)
    with Suc.IH [of ks'] Cons show ?thesis by auto
  qed
qed simp

lemma compute_drawdown_at:
  assumes "equity \<noteq> []" and pos: "\<forall>x \<in> set equity. positive_double x"
    and "distinct index" and len: "length index = length equity"
  shows "\<exists>info p t. compute_drawdown index equity = Inr info \<and> drawdown_at index equity p t info"
proof -
  let ?d = "drawdown_series equity"
  have "\<forall>x \<in> set ?d. \<exists>q. x = Fin q"
    using drawdown_series_nth [OF pos] by (fastforce simp: in_set_conv_nth)
  moreover have "?d \<noteq> []" using assms(1) length_drawdown_series by (metis length_0_conv)
  ultimately have "\<exists>r < length ?d. arg_min ?d = Inr r \<and> (\<forall>s \<in> set ?d. ?d ! r \<le> s)"
    by (rule arg_min_finite)
  then obtain t where t: "t < length equity" "arg_min ?d = Inr t" "\<forall>s \<in> set ?d. ?d ! t \<le> s"
    by (auto simp only: length_drawdown_series)
  have fin: "\<forall>x \<in> set (take (Suc t) equity). \<exists>q. x = Fin q" and ne: "take (Suc t) equity \<noteq> []"
    using pos t(1) by (auto simp: positive_double_def dest!: in_set_takeD)
  from arg_max_finite [OF this] t(1) obtain p where p: "p \<le> t" "arg_max (take (Suc t) equity) = Inr p"
      "\<forall>s \<in> set (take (Suc t) equity). s \<le> equity ! p"
    by auto
  have peak: "equity ! k \<le> equity ! p" if "k \<le> t" for k
  proof -
    have "take (Suc t) equity ! k \<in> set (take (Suc t) equity)" using that t(1) by (intro nth_mem) simp
    with p(3) that show ?thesis by simp
  qed
  have trough: "?d ! t \<le> ?d ! k" if "k < length equity" for k using t(3) that by simp
  note g = get_loc_distinct [OF assms(3)]
  show ?thesis
  proof (cases "filter (\<lambda>k. equity ! p \<le> equity ! k) [t..<length equity]")
    case Nil
    define info where "info = \<lparr>dd_max_drawdown_pct = - (?d ! t), dd_peak_time = Some (index ! p),
      dd_trough_time = Some (index ! t), dd_recovery_time = None, dd_duration = last index - index ! p\<rparr>"
    have "compute_drawdown index equity = Inr info"
      using Nil t(1,2) p(1,2) assms(1) len by (simp add: compute_drawdown_def g info_def)
    moreover have "drawdown_at index equity p t info"
      using Nil t(1) p(1) peak trough by (auto simp: drawdown_at_def info_def filter_empty_conv)
    ultimately show ?thesis by blast
  next
    case (Cons k ks)
    define info where "info = \<lparr>dd_max_drawdown_pct = - (?d ! t), dd_peak_time = Some (index ! p),
      dd_trough_time = Some (index ! t), dd_recovery_time = Some (index ! k),
      dd_duration = index ! k - index ! p\<rparr>"
    have "compute_drawdown index equity = Inr info"
      using Cons t(1,2) p(1,2) assms(1) len by (simp add: compute_drawdown_def g info_def)
    moreover have "drawdown_at index equity p t info"
      unfolding drawdown_at_def info_def using filter_upt_Cons [OF Cons] t(1) p(1) peak trough
      by auto
    ultimately show ?thesis by blast
  qed
qed

text \<open>The ratios never raise: every division is guarded by the test before it.\<close>

lemma compute_return_ratios_total: "\<exists>r. compute_return_ratios N equity ppy rf = Inr r"
proof -
  have "\<exists>z. py_div x y = Inr z" if "0 < y \<or> \<not> py_eq y 0" for x y
    using that by (auto simp: py_div_def py_eq_def zero_fl_def)
  then show ?thesis unfolding compute_return_ratios_def Let_def
    by (intro if_total bindE_total map_res_total) simp_all
qed

lemma compute_trade_stats_partition:
  "length (filter (\<lambda>tc. 0 < cr_net_pnl_abs tc) tcs) + length (filter (\<lambda>tc. cr_net_pnl_abs tc < 0) tcs) \<le> length tcs"
proof (induction tcs)
  case (Cons tc tcs)
  have "\<not> (0 < cr_net_pnl_abs tc \<and> cr_net_pnl_abs tc < 0)"
    using fl_less_trans [of 0 "cr_net_pnl_abs tc" 0] by auto
  with Cons show ?case by auto
qed simp

end
