(* ===== verification/Json.thy ===== *)
theory Json
  imports Pyfloat
begin

text \<open>
  The values that the code writes to \<^verbatim>\<open>jsonb\<close> columns or returns from the API: Python's \<^verbatim>\<open>None\<close>,
  booleans, numbers, strings, times, lists and dictionaries (in insertion order). \<open>json_safe\<close> is
  the function of that name in \<^verbatim>\<open>freqpanda_execution/repository.py\<close> and, written again, in
  \<^verbatim>\<open>freqpanda_api/repositories/results.py\<close>: it replaces every float that JSON cannot hold.
\<close>

datatype jval =
    VNone
  | VBool bool
  | VInt int
  | VFloat fl
  | VStr string
  | VTime int
  | VList "jval list"
  | VDict "(string \<times> jval) list"

fun json_safe :: "jval \<Rightarrow> jval" where
  "json_safe (VFloat x) = (if is_finite x then VFloat x else VNone)"
| "json_safe (VDict kvs) = VDict (map (\<lambda>(k, v). (k, json_safe v)) kvs)"
| "json_safe (VList vs) = VList (map json_safe vs)"
| "json_safe v = v"

text \<open>What \<^verbatim>\<open>jsonb\<close> accepts: no infinity and no NaN at any depth.\<close>

fun json_ok :: "jval \<Rightarrow> bool" where
  "json_ok (VFloat x) = is_finite x"
| "json_ok (VDict kvs) = (\<forall>kv \<in> set kvs. json_ok (snd kv))"
| "json_ok (VList vs) = (\<forall>v \<in> set vs. json_ok v)"
| "json_ok v = True"

definition json_get :: "(string \<times> jval) list \<Rightarrow> string \<Rightarrow> jval res" where
  "json_get kvs k = (case map_of kvs k of None \<Rightarrow> Inl (KeyError k) | Some v \<Rightarrow> Inr v)"

text \<open>A number of the schema as a json value.\<close>

definition number_json :: "number \<Rightarrow> jval" where
  "number_json n = (case n of IntN i \<Rightarrow> VInt i | FloatN x \<Rightarrow> VFloat x)"

lemma json_safe_ok: "json_ok (json_safe v)"
proof (induction v rule: json_safe.induct)
  case (2 kvs)
  then show ?case by (fastforce split: prod.splits)
qed auto

lemma json_safe_id: "json_ok v \<Longrightarrow> json_safe v = v"
proof (induction v rule: json_safe.induct)
  case (2 kvs)
  have "map (\<lambda>(k, v). (k, json_safe v)) kvs = kvs"
    using 2 by (intro map_idI) (fastforce split: prod.splits)
  then show ?case by simp
next
  case (3 vs)
  have "map json_safe vs = vs" using 3 by (intro map_idI) auto
  then show ?case by simp
qed auto

end
