(* ===== verification/Backtest.thy ===== *)
theory Backtest
  imports Metrics Json
begin

text \<open>
  \<^verbatim>\<open>backtest()\<close> of \<^verbatim>\<open>freqpanda_backtest/backtest.py\<close>, its result \<^verbatim>\<open>result.py\<close> and the process
  pool of \<^verbatim>\<open>batch.py\<close>. The lemmas connect the trade log of the interpreter to the curve: on an
  index without repeated timestamps the run of the whole pipeline places every trade.
\<close>

record backtest_result =
  br_strategy_name :: string
  br_initial_capital :: fl
  br_final_capital :: fl
  br_total_return_pct :: fl
  br_total_return_abs :: fl
  br_sharpe_ratio :: fl
  br_sortino_ratio :: fl
  br_max_drawdown_pct :: fl
  br_max_drawdown_duration :: int
  br_num_trades :: nat
  br_win_rate :: fl
  br_avg_win_pct :: fl
  br_avg_loss_pct :: fl
  br_profit_factor :: fl
  br_trades :: "trade_cost_result list"
  br_equity_curve :: "(time \<times> fl) list"
  br_costs :: trading_costs

text \<open>The keyword arguments of \<^verbatim>\<open>backtest()\<close>, with their defaults.\<close>

record backtest_args =
  ba_initial_capital :: fl
  ba_fee_pct :: fl
  ba_slippage_pct :: fl
  ba_risk_free_rate :: fl

definition default_args :: backtest_args where
  "default_args = \<lparr>ba_initial_capital = lit 10000, ba_fee_pct = lit (1 / 1000),
     ba_slippage_pct = 0, ba_risk_free_rate = 0\<rparr>"

definition backtest ::
  "extlib \<Rightarrow> numlib \<Rightarrow> strategy_definition \<Rightarrow> frame \<Rightarrow> backtest_args \<Rightarrow> backtest_result res" where
  "backtest L N d df args =
     bindE (run_strategy L d df) (\<lambda>trades.
     let costs = \<lparr>tc_fee_pct = ba_fee_pct args, tc_slippage_pct = ba_slippage_pct args\<rparr>;
         initial_capital = ba_initial_capital args in
     bindE (apply_costs_to_trades trades initial_capital costs) (\<lambda>trade_costs.
     bindE (build_equity_curve N df trade_costs initial_capital) (\<lambda>equity_curve.
     bindE (infer_periods_per_year N (fr_index df)) (\<lambda>periods_per_year.
     bindE (compute_return_ratios N equity_curve periods_per_year (ba_risk_free_rate args)) (\<lambda>(sharpe, sortino).
     bindE (compute_drawdown (fr_index df) equity_curve) (\<lambda>drawdown.
     let stats = compute_trade_stats N trade_costs;
         final_capital = (if equity_curve \<noteq> [] then last equity_curve else initial_capital) in
     map_res (\<lambda>ratio. \<lparr>br_strategy_name = sd_name d, br_initial_capital = initial_capital,
         br_final_capital = final_capital, br_total_return_pct = ratio - 1,
         br_total_return_abs = final_capital - initial_capital,
         br_sharpe_ratio = sharpe, br_sortino_ratio = sortino,
         br_max_drawdown_pct = dd_max_drawdown_pct drawdown,
         br_max_drawdown_duration = dd_duration drawdown,
         br_num_trades = ts_num_trades stats, br_win_rate = ts_win_rate stats,
         br_avg_win_pct = ts_avg_win_pct stats, br_avg_loss_pct = ts_avg_loss_pct stats,
         br_profit_factor = ts_profit_factor stats, br_trades = trade_costs,
         br_equity_curve = zip (fr_index df) equity_curve, br_costs = costs\<rparr>)
       (py_div final_capital initial_capital)))))))"

section \<open>Serialisation\<close>

definition reason_name :: "exit_reason \<Rightarrow> string" where
  "reason_name r = (case r of StopLoss \<Rightarrow> ''stop_loss'' | TakeProfit \<Rightarrow> ''take_profit''
     | TrailingStop \<Rightarrow> ''trailing_stop'' | ExitSignal \<Rightarrow> ''exit_signal'')"

definition metrics_dict :: "numlib \<Rightarrow> backtest_result \<Rightarrow> (string \<times> jval) list" where
  "metrics_dict N r =
     [(''strategy_name'', VStr (br_strategy_name r)),
      (''initial_capital'', VFloat (br_initial_capital r)),
      (''final_capital'', VFloat (br_final_capital r)),
      (''total_return_pct'', VFloat (br_total_return_pct r)),
      (''total_return_abs'', VFloat (br_total_return_abs r)),
      (''sharpe_ratio'', VFloat (br_sharpe_ratio r)),
      (''sortino_ratio'', VFloat (br_sortino_ratio r)),
      (''max_drawdown_pct'', VFloat (br_max_drawdown_pct r)),
      (''max_drawdown_duration_seconds'', VFloat (nl_total_seconds N (br_max_drawdown_duration r))),
      (''num_trades'', VInt (int (br_num_trades r))),
      (''win_rate'', VFloat (br_win_rate r)),
      (''avg_win_pct'', VFloat (br_avg_win_pct r)),
      (''avg_loss_pct'', VFloat (br_avg_loss_pct r)),
      (''profit_factor'', VFloat (br_profit_factor r)),
      (''fee_pct'', VFloat (tc_fee_pct (br_costs r))),
      (''slippage_pct'', VFloat (tc_slippage_pct (br_costs r)))]"

definition trade_record :: "trade_cost_result \<Rightarrow> (string \<times> jval) list" where
  "trade_record tc =
     [(''entry_time'', VTime (tr_entry_time (cr_trade tc))),
      (''exit_time'', VTime (tr_exit_time (cr_trade tc))),
      (''entry_price'', VFloat (tr_entry_price (cr_trade tc))),
      (''exit_price'', VFloat (tr_exit_price (cr_trade tc))),
      (''entry_fill_price'', VFloat (cr_entry_fill_price tc)),
      (''exit_fill_price'', VFloat (cr_exit_fill_price tc)),
      (''exit_reason'', VStr (reason_name (tr_exit_reason (cr_trade tc)))),
      (''quantity'', VFloat (cr_quantity tc)),
      (''net_pnl_pct'', VFloat (cr_net_pnl_pct tc)),
      (''net_pnl_abs'', VFloat (cr_net_pnl_abs tc))]"

definition trade_records :: "backtest_result \<Rightarrow> (string \<times> jval) list list" where
  "trade_records r = map trade_record (br_trades r)"

definition equity_curve_records :: "backtest_result \<Rightarrow> (string \<times> jval) list list" where
  "equity_curve_records r =
     map (\<lambda>(ts, v). [(''timestamp'', VTime ts), (''equity'', VFloat v)]) (br_equity_curve r)"

section \<open>The process pool\<close>

text \<open>
  \<^verbatim>\<open>executor.map\<close> hands the results back in the order of its input and raises the first error in
  that order; a worker computes with the frame and arguments its initializer stored.
\<close>

record worker =
  wk_df :: frame
  wk_kwargs :: backtest_args

definition init_worker :: "frame \<Rightarrow> backtest_args \<Rightarrow> worker" where
  "init_worker df args = \<lparr>wk_df = df, wk_kwargs = args\<rparr>"

definition run_one :: "extlib \<Rightarrow> numlib \<Rightarrow> worker \<Rightarrow> strategy_definition \<Rightarrow> backtest_result res" where
  "run_one L N w d = backtest L N d (wk_df w) (wk_kwargs w)"

definition run_backtests_parallel ::
  "extlib \<Rightarrow> numlib \<Rightarrow> strategy_definition list \<Rightarrow> frame \<Rightarrow> int option \<Rightarrow> backtest_args \<Rightarrow>
     backtest_result list res" where
  "run_backtests_parallel L N ds df max_workers args =
     (if (case max_workers of None \<Rightarrow> False | Some n \<Rightarrow> n \<le> 0)
      then Inl (ValueError ''max_workers must be greater than 0'')
      else mapE (run_one L N (init_worker df args)) ds)"

section \<open>From the log to the curve\<close>

lemma backtest_Inr:
  assumes "backtest L N d df args = Inr r"
  obtains trades curve ppy drawdown where "run_strategy L d df = Inr trades"
    and "apply_costs_to_trades trades (ba_initial_capital args) (br_costs r) = Inr (br_trades r)"
    and "build_equity_curve N df (br_trades r) (ba_initial_capital args) = Inr curve"
    and "infer_periods_per_year N (fr_index df) = Inr ppy"
    and "compute_return_ratios N curve ppy (ba_risk_free_rate args) = Inr (br_sharpe_ratio r, br_sortino_ratio r)"
    and "compute_drawdown (fr_index df) curve = Inr drawdown"
    and "br_costs r = \<lparr>tc_fee_pct = ba_fee_pct args, tc_slippage_pct = ba_slippage_pct args\<rparr>"
    and "br_equity_curve r = zip (fr_index df) curve"
    and "br_final_capital r = (if curve \<noteq> [] then last curve else ba_initial_capital args)"
    and "br_initial_capital r = ba_initial_capital args"
    and "br_num_trades r = length (br_trades r)"
    and "br_max_drawdown_pct r = dd_max_drawdown_pct drawdown"
    and "br_strategy_name r = sd_name d"
  using assms
  by (auto simp: backtest_def Let_def py_simps compute_trade_stats_def split: prod.splits)

text \<open>The trades of a run sit in the index of its frame, in order and without overlap.\<close>

lemma run_strategy_placed:
  assumes "run_strategy L d df = Inr trades" and "map cr_trade tcs = trades"
  shows "\<exists>spans. placed (fr_index df) spans tcs"
proof -
  from assms(1) obtain data en ex s where
      data: "compute_indicators L df (sd_indicators d) = Inr data"
      and loop: "run_loop (sd_risk_management d) (loc_bool (fr_index data) en)
        (loc_bool (fr_index data) ex) (iterrows data) = Inr s"
      and ts: "trades = st_trades s"
    by (rule run_strategy_Inr)
  from run_loop_spans [OF loop] obtain spans where
      "list_all2 (trade_span (sd_risk_management d) (loc_bool (fr_index data) en)
        (loc_bool (fr_index data) ex) (iterrows data)) spans trades"
      "sorted_wrt (\<lambda>(i, j) (i', j'). j < i') spans"
    by (auto simp: ts)
  from spans_placed [OF this assms(2)] compute_indicators_index [OF data] show ?thesis by auto
qed

end
