(* ===== verification/Walkforward.thy ===== *)
theory Walkforward
  imports Backtest
begin

text \<open>
  Walk-forward windows, \<^verbatim>\<open>freqpanda_backtest/walkforward.py\<close>. Timestamps are nanoseconds in the
  range of a 64-bit \<^verbatim>\<open>Timestamp\<close>; arithmetic outside it raises (\<^verbatim>\<open>OutOfBoundsDatetime\<close>). The
  \<^verbatim>\<open>while True\<close> loop need not end, so it is a partial function into an option: \<open>None\<close> is a call
  that never returns.
\<close>

record wf_window =
  wf_train_start :: time
  wf_train_end :: time
  wf_test_start :: time
  wf_test_end :: time

record wf_result =
  wr_window :: wf_window
  wr_train_result :: backtest_result
  wr_test_result :: backtest_result

definition time_add :: "time \<Rightarrow> int \<Rightarrow> time res" where
  "time_add t d = (if - (2 ^ 63) < t + d \<and> t + d < 2 ^ 63 then Inr (t + d) else Inl OverflowError)"

text \<open>The bounds of the next window: a fixed start when anchored, a sliding one otherwise.\<close>

definition next_train :: "bool \<Rightarrow> int \<Rightarrow> int \<Rightarrow> time \<Rightarrow> time \<Rightarrow> (time \<times> time) res" where
  "next_train anchored train_period step train_start train_end =
     (if anchored then map_res (Pair train_start) (time_add train_end step)
      else bindE (time_add train_start step) (\<lambda>start. map_res (Pair start) (time_add start train_period)))"

partial_function (option) wf_loop ::
  "bool \<Rightarrow> int \<Rightarrow> int \<Rightarrow> int \<Rightarrow> time \<Rightarrow> time \<Rightarrow> time \<Rightarrow> wf_window list \<Rightarrow> wf_window list res option" where
  "wf_loop anchored train_period test_period step data_end train_start train_end windows =
     (case time_add train_end test_period of
        Inl e \<Rightarrow> Some (Inl e)
      | Inr test_end \<Rightarrow>
          if data_end < test_end then Some (Inr windows)
          else (case next_train anchored train_period step train_start train_end of
              Inl e \<Rightarrow> Some (Inl e)
            | Inr se \<Rightarrow> wf_loop anchored train_period test_period step data_end (fst se) (snd se)
                (windows @ [\<lparr>wf_train_start = train_start, wf_train_end = train_end,
                   wf_test_start = train_end, wf_test_end = test_end\<rparr>])))"

definition generate_walk_forward_windows ::
  "time list \<Rightarrow> int \<Rightarrow> int \<Rightarrow> int option \<Rightarrow> bool \<Rightarrow> wf_window list res option" where
  "generate_walk_forward_windows index train_period test_period step anchored =
     (if index = [] then Some (Inr [])
      else (let st = (case step of None \<Rightarrow> test_period | Some s \<Rightarrow> s) in
        case time_add (hd index) train_period of
          Inl e \<Rightarrow> Some (Inl e)
        | Inr train_end \<Rightarrow> wf_loop anchored train_period test_period st (last index) (hd index) train_end []))"

definition slice_between :: "time \<Rightarrow> time \<Rightarrow> frame \<Rightarrow> frame" where
  "slice_between a b df = frame_select (\<lambda>t. a \<le> t \<and> t < b) df"

text \<open>Both backtests of one window, or nothing when a slice is empty.\<close>

definition run_window ::
  "extlib \<Rightarrow> numlib \<Rightarrow> strategy_definition \<Rightarrow> frame \<Rightarrow> backtest_args \<Rightarrow> wf_window \<Rightarrow> wf_result option res" where
  "run_window L N d df args w =
     (let train_df = slice_between (wf_train_start w) (wf_train_end w) df;
          test_df = slice_between (wf_test_start w) (wf_test_end w) df in
      if fr_index train_df = [] \<or> fr_index test_df = [] then Inr None
      else bindE (backtest L N d train_df args) (\<lambda>train_result.
        map_res (\<lambda>test_result. Some \<lparr>wr_window = w, wr_train_result = train_result,
            wr_test_result = test_result\<rparr>)
          (backtest L N d test_df args)))"

definition run_walk_forward ::
  "extlib \<Rightarrow> numlib \<Rightarrow> strategy_definition \<Rightarrow> frame \<Rightarrow> int \<Rightarrow> int \<Rightarrow> int option \<Rightarrow> bool \<Rightarrow> backtest_args \<Rightarrow>
     wf_result list res option" where
  "run_walk_forward L N d df train_period test_period step anchored args =
     map_option (\<lambda>ws. bindE ws (\<lambda>windows.
       map_res (\<lambda>rs. List.map_filter (\<lambda>r. r) rs) (mapE (run_window L N d df args) windows)))
     (generate_walk_forward_windows (fr_index df) train_period test_period step anchored)"

section \<open>The windows\<close>

text \<open>The \<open>k\<close>-th window, counted from the current bounds.\<close>

definition window_at :: "bool \<Rightarrow> int \<Rightarrow> int \<Rightarrow> int \<Rightarrow> time \<Rightarrow> time \<Rightarrow> nat \<Rightarrow> wf_window" where
  "window_at anchored train_period test_period step train_start train_end k =
     \<lparr>wf_train_start = (if anchored then train_start else train_start + int k * step),
      wf_train_end = train_end + int k * step,
      wf_test_start = train_end + int k * step,
      wf_test_end = train_end + int k * step + test_period\<rparr>"

lemma time_add_Inr [py_simps]:
  "time_add t d = Inr u \<longleftrightarrow> u = t + d \<and> - (2 ^ 63) < t + d \<and> t + d < 2 ^ 63"
  by (auto simp: time_add_def)

lemma next_train_Inr:
  assumes "next_train anchored train_period step s e = Inr (s', e')"
    and "anchored \<or> e = s + train_period"
  shows "s' = (if anchored then s else s + step) \<and> e' = e + step \<and> (anchored \<or> e' = s' + train_period)"
  using assms by (auto simp: next_train_def py_simps split: if_splits)

lemma window_at_Suc:
  "anchored \<or> e = s + train_period \<Longrightarrow>
   window_at anchored train_period test_period step s e (Suc k) =
     window_at anchored train_period test_period step (if anchored then s else s + step) (e + step) k"
  by (auto simp: window_at_def algebra_simps)

text \<open>With a positive step the loop returns: each round moves the test window towards the end.\<close>

lemma wf_loop_returns:
  assumes "0 < step" and "anchored \<or> e = s + train_period"
  shows "\<exists>r. wf_loop anchored train_period test_period step data_end s e ws = Some r \<and>
     (\<forall>out. r = Inr out \<longrightarrow> (\<exists>n. out = ws @ map (window_at anchored train_period test_period step s e) [0..<n] \<and>
        (\<forall>k < n. e + int k * step + test_period \<le> data_end) \<and>
        data_end < e + int n * step + test_period))"
  using assms(2)
proof (induction "nat (data_end - e - test_period + 1)" arbitrary: s e ws rule: less_induct)
  case less
  show ?case
  proof (cases "time_add e test_period")
    case (Inl a)
    then show ?thesis by (simp add: wf_loop.simps)
  next
    case (Inr test_end)
    then have te: "test_end = e + test_period" by (simp add: py_simps)
    show ?thesis
    proof (cases "data_end < test_end")
      case True
      with Inr te have "wf_loop anchored train_period test_period step data_end s e ws = Some (Inr ws)"
        by (simp add: wf_loop.simps)
      moreover have "\<exists>n. ws = ws @ map (window_at anchored train_period test_period step s e) [0..<n] \<and>
          (\<forall>k < n. e + int k * step + test_period \<le> data_end) \<and>
          data_end < e + int n * step + test_period"
        using True te by (intro exI [of _ 0]) simp
      ultimately show ?thesis by simp
    next
      case False
      show ?thesis
      proof (cases "next_train anchored train_period step s e")
        case (Inl a)
        with Inr False show ?thesis by (simp add: wf_loop.simps)
      next
        case se: (Inr se)
        obtain s' e' where [simp]: "se = (s', e')" by force
        from se have "next_train anchored train_period step s e = Inr (s', e')" by simp
        from next_train_Inr [OF this less.prems]
        have s': "s' = (if anchored then s else s + step)" "e' = e + step"
            "anchored \<or> e' = s' + train_period"
          by blast+
        let ?w = "window_at anchored train_period test_period step"
        have w0: "\<lparr>wf_train_start = s, wf_train_end = e, wf_test_start = e, wf_test_end = test_end\<rparr> = ?w s e 0"
          by (simp add: window_at_def te)
        have loop: "wf_loop anchored train_period test_period step data_end s e ws =
            wf_loop anchored train_period test_period step data_end s' e' (ws @ [?w s e 0])"
          using Inr False se by (subst wf_loop.simps) (simp add: w0)
        have "nat (data_end - e' - test_period + 1) < nat (data_end - e - test_period + 1)"
          using False te s'(2) assms(1) by simp
        from less.hyps [OF this s'(3), of "ws @ [?w s e 0]"] obtain r where
            r: "wf_loop anchored train_period test_period step data_end s' e' (ws @ [?w s e 0]) = Some r"
            and out: "\<And>out. r = Inr out \<Longrightarrow> \<exists>n. out = (ws @ [?w s e 0]) @ map (?w s' e') [0..<n] \<and>
              (\<forall>k < n. e' + int k * step + test_period \<le> data_end) \<and>
              data_end < e' + int n * step + test_period"
          by blast
        have "\<exists>n. out = ws @ map (?w s e) [0..<n] \<and>
            (\<forall>k < n. e + int k * step + test_period \<le> data_end) \<and>
            data_end < e + int n * step + test_period" if "r = Inr out" for out
        proof -
          from out [OF that] obtain n where n: "out = (ws @ [?w s e 0]) @ map (?w s' e') [0..<n]"
              "\<forall>k < n. e' + int k * step + test_period \<le> data_end"
              "data_end < e' + int n * step + test_period" by blast
          have "map (?w s e) [0..<Suc n] = ?w s e 0 # map (?w s' e') [0..<n]"
            using window_at_Suc [OF less.prems] s'(1,2)
            by (simp add: upt_conv_Cons map_Suc_upt [symmetric] del: upt_Suc)
          moreover have "e + int k * step + test_period \<le> data_end" if "k < Suc n" for k
            using that n(2) False te s'(2) by (cases k) (auto simp: algebra_simps)
          moreover have "data_end < e + int (Suc n) * step + test_period"
            using n(3) s'(2) by (simp add: algebra_simps)
          ultimately show ?thesis using n(1) by (intro exI [of _ "Suc n"]) simp
        qed
        then show ?thesis using loop r by simp
      qed
    qed
  qed
qed

text \<open>With a zero step and room for one window the loop repeats that window for ever.\<close>

definition stuck :: "int \<Rightarrow> int \<Rightarrow> int \<Rightarrow> time \<Rightarrow> time \<Rightarrow> time \<Rightarrow> bool" where
  "stuck train_period test_period step data_end s e \<longleftrightarrow>
     step = 0 \<and> e + test_period \<le> data_end \<and> e = s + train_period \<and>
     time_add e test_period = Inr (e + test_period) \<and> time_add s 0 = Inr s \<and> time_add e 0 = Inr e"

lemma wf_loop_not_stuck:
  assumes "wf_loop anchored train_period test_period step data_end s e ws = Some r"
  shows "\<not> stuck train_period test_period step data_end s e"
proof (rule wf_loop.raw_induct
    [where P = "\<lambda>anchored tr te st de s e ws r. \<not> stuck tr te st de s e", OF _ assms])
  fix f and anchored tr te st de s e ws r
  assume IH: "\<And>anchored tr te st de s e ws r. f anchored tr te st de s e ws = Some r \<Longrightarrow> \<not> stuck tr te st de s e"
    and body: "(case time_add e te of
        Inl x \<Rightarrow> Some (Inl x)
      | Inr test_end \<Rightarrow>
          if de < test_end then Some (Inr ws)
          else (case next_train anchored tr st s e of
              Inl x \<Rightarrow> Some (Inl x)
            | Inr se \<Rightarrow> f anchored tr te st de (fst se) (snd se)
                (ws @ [\<lparr>wf_train_start = s, wf_train_end = e, wf_test_start = e, wf_test_end = test_end\<rparr>])))
      = Some r"
  show "\<not> stuck tr te st de s e"
  proof
    assume st: "stuck tr te st de s e"
    then have "next_train anchored tr st s e = Inr (s, e)"
      by (auto simp: stuck_def next_train_def time_add_def split: if_splits)
    with body st obtain ws' where "f anchored tr te st de s e ws' = Some r"
      by (auto simp: stuck_def)
    from IH [OF this] st show False by simp
  qed
qed

lemma wf_loop_zero_step:
  "stuck train_period test_period step data_end s e \<Longrightarrow>
     wf_loop anchored train_period test_period step data_end s e ws = None"
  using wf_loop_not_stuck by (metis not_None_eq)

text \<open>The windows of a call, as an arithmetic progression.\<close>

definition windows_of :: "time list \<Rightarrow> int \<Rightarrow> int \<Rightarrow> int \<Rightarrow> bool \<Rightarrow> nat \<Rightarrow> wf_window list" where
  "windows_of index train_period test_period step anchored n =
     map (window_at anchored train_period test_period step (hd index) (hd index + train_period)) [0..<n]"

lemma generate_windows:
  assumes "index \<noteq> []" and "0 < (case step of None \<Rightarrow> test_period | Some s \<Rightarrow> s)"
  shows "\<exists>r. generate_walk_forward_windows index train_period test_period step anchored = Some r \<and>
     (\<forall>out. r = Inr out \<longrightarrow> (\<exists>n. out = windows_of index train_period test_period
          (case step of None \<Rightarrow> test_period | Some s \<Rightarrow> s) anchored n \<and>
        (\<forall>w \<in> set out. wf_test_end w \<le> last index)))"
proof -
  let ?st = "case step of None \<Rightarrow> test_period | Some s \<Rightarrow> s"
  show ?thesis
  proof (cases "time_add (hd index) train_period")
    case (Inl e)
    then show ?thesis using assms(1) by (simp add: generate_walk_forward_windows_def)
  next
    case (Inr e)
    then have e: "e = hd index + train_period" by (simp add: py_simps)
    then have "anchored \<or> e = hd index + train_period" by simp
    from wf_loop_returns [OF assms(2) this, of test_period "last index" "[]"] obtain r where
        r: "wf_loop anchored train_period test_period ?st (last index) (hd index) e [] = Some r"
        and out: "\<And>out. r = Inr out \<Longrightarrow>
          \<exists>n. out = map (window_at anchored train_period test_period ?st (hd index) e) [0..<n] \<and>
            (\<forall>k < n. e + int k * ?st + test_period \<le> last index)"
      by auto
    have "\<exists>n. out = windows_of index train_period test_period ?st anchored n \<and>
        (\<forall>w \<in> set out. wf_test_end w \<le> last index)" if "r = Inr out" for out
      using out [OF that] e by (auto simp: windows_of_def window_at_def)
    with r Inr assms(1) show ?thesis by (simp add: generate_walk_forward_windows_def Let_def)
  qed
qed

lemma window_at_simps:
  "wf_train_end (window_at a tr te st s e k) = e + int k * st"
  "wf_test_start (window_at a tr te st s e k) = e + int k * st"
  "wf_test_end (window_at a tr te st s e k) = e + int k * st + te"
  "wf_train_start (window_at a tr te st s e k) = (if a then s else s + int k * st)"
  by (simp_all add: window_at_def)

text \<open>Test slices of successive windows do not overlap when the step covers the test period.\<close>

lemma windows_disjoint:
  assumes "te \<le> st" and "0 < st" and "j < k"
  shows "wf_test_end (window_at a tr te st s e j) \<le> wf_test_start (window_at a tr te st s e k)"
proof -
  have "int j + 1 \<le> int k" using assms(3) by simp
  then have "(int j + 1) * st \<le> int k * st" using assms(2) by (intro mult_right_mono) auto
  with assms(1) show ?thesis by (simp add: window_at_simps algebra_simps)
qed

lemma slice_between_index:
  "fr_index (slice_between a b df) = filter (\<lambda>t. a \<le> t \<and> t < b) (fr_index df)"
  by (simp add: slice_between_def frame_select_def)

end
