(* ===== verification/Samples.thy ===== *)
theory Samples
  imports Live Walkforward
begin

text \<open>
  Concrete inputs: a library that satisfies the causality contract, a strategy with one
  indicator, and a frame of four candles on which it opens and closes one position.
\<close>

definition sample_lib :: extlib where
  "sample_lib = \<lparr>ta_rsi = (\<lambda>xs p. Inr xs), ta_ema = (\<lambda>xs p. Inr xs), ta_sma = (\<lambda>xs p. Inr xs),
     ta_macd = (\<lambda>xs s f g. Inr (xs, xs, xs)), ta_bbands = (\<lambda>xs p d. Inr (xs, xs, xs)),
     np_isclose = (\<lambda>x y. py_eq x y)\<rparr>"

definition sample_risk :: risk_management where
  "sample_risk = \<lparr>rm_stop_loss_pct = FloatN (Fin (1 / 16)), rm_take_profit_pct = FloatN (Fin (1 / 8)),
     rm_trailing_stop_pct = None\<rparr>"

definition sample_strategy :: strategy_definition where
  "sample_strategy = \<lparr>sd_name = ''sample'', sd_description = None, sd_timeframe = None,
     sd_indicators = [\<lparr>ic_name = ''ema'', ic_alias = ''fast'', ic_params = [(''period'', Fixed (IntN 5))]\<rparr>],
     sd_entry_conditions = Comparison (Ref ''fast'') GT (Const (IntN 99)),
     sd_exit_conditions = Some (Comparison (Ref ''fast'') LT (Const (IntN 10))),
     sd_risk_management = sample_risk\<rparr>"

definition sample_frame :: frame where
  "sample_frame = \<lparr>fr_index = [1, 2, 3, 4], fr_columns = [
     ''open'' \<mapsto> [Fin 90, Fin 100, Fin 104, Fin 90],
     ''high'' \<mapsto> [Fin 96, Fin 104, Fin 106, Fin 96],
     ''low'' \<mapsto> [Fin 88, Fin 98, Fin 92, Fin 88],
     ''close'' \<mapsto> [Fin 95, Fin 100, Fin 94, Fin 90],
     ''volume'' \<mapsto> [Fin 1, Fin 1, Fin 1, Fin 1]]\<rparr>"

definition sample_trade :: trade where
  "sample_trade = \<lparr>tr_entry_time = 2, tr_entry_price = Fin 100, tr_exit_time = 3,
     tr_exit_price = Fin (375 / 4), tr_exit_reason = StopLoss, tr_pnl_pct = Fin (- (1 / 16))\<rparr>"

lemma sample_lib_causal: "causal_lib sample_lib"
  by (simp add: causal_lib_def causal1_def causal3_def sample_lib_def)

lemma sample_frame_ok: "frame_ok sample_frame" "distinct (fr_index sample_frame)"
  by (auto simp: frame_ok_def sample_frame_def split: if_splits)

lemma sample_valid: "validate_definition sample_strategy = Inr ()"
  by (auto simp: validate_definition_iff sample_strategy_def find_handler_def indicator_registry_def
      condition_trees_def available_columns_def single_output_def)

lemma sample_definition_ok: "definition_ok sample_strategy"
  by (simp add: definition_ok_def sample_strategy_def indicator_ok_def alias_is_identifier_def
      isidentifier_def is_letter_def is_digit_def accepted_check_risk check_unique_aliases_iff
      sample_risk_def in_open_unit_def num_less_def exact_value_def)

definition sample_data :: frame where
  "sample_data = set_column sample_frame (''fast'', [Fin 95, Fin 100, Fin 94, Fin 90])"

lemma sample_indicators: "compute_indicators sample_lib sample_frame (sd_indicators sample_strategy) = Inr sample_data"
  by (simp add: compute_indicators_def add_indicator_def sample_strategy_def find_handler_def
      indicator_registry_def resolved_params_def resolve_param_def ema_compute_def get_param_def
      py_int_def get_column_def sample_frame_def sample_lib_def sample_data_def)

lemma sample_constants: "py_float (IntN 99) = Inr (Fin 99)" "py_float (IntN 10) = Inr (Fin 10)"
  by (simp_all add: fl_eval)

lemma sample_signals:
  "evaluate_condition sample_lib (sd_entry_conditions sample_strategy) sample_data = Inr [False, True, False, False]"
  "exit_series sample_lib (sd_exit_conditions sample_strategy) sample_data = Inr [False, False, False, False]"
  by (simp_all add: sample_strategy_def resolve_operand_def get_column_def sample_data_def
      sample_frame_def sample_constants const_series_def apply_op_def exit_series_def
      numeral_eq_Suc)

lemma sample_rows: "iterrows sample_data = [
    \<lparr>cd_time = 1, cd_open = Fin 90, cd_high = Fin 96, cd_low = Fin 88, cd_close = Fin 95\<rparr>,
    \<lparr>cd_time = 2, cd_open = Fin 100, cd_high = Fin 104, cd_low = Fin 98, cd_close = Fin 100\<rparr>,
    \<lparr>cd_time = 3, cd_open = Fin 104, cd_high = Fin 106, cd_low = Fin 92, cd_close = Fin 94\<rparr>,
    \<lparr>cd_time = 4, cd_open = Fin 90, cd_high = Fin 96, cd_low = Fin 88, cd_close = Fin 90\<rparr>]"
  by (simp add: iterrows_def row_at_def cell_def sample_data_def sample_frame_def upt_rec)

lemma sample_reads:
  "loc_bool [1, 2, 3, 4] [a, b, c, d] 1 = Inr a" "loc_bool [1, 2, 3, 4] [a, b, c, d] 2 = Inr b"
  "loc_bool [1, 2, 3, 4] [a, b, c, d] 3 = Inr c" "loc_bool [1, 2, 3, 4] [a, b, c, d] 4 = Inr d"
  by (simp_all add: loc_bool_def rows_at_def upt_rec)

lemma sample_arith:
  "mult_num (Fin 100) (one_minus (FloatN (Fin (1 / 16)))) = Inr (Fin (375 / 4))"
  "py_div (Fin (375 / 4)) (Fin 100) = Inr (Fin (15 / 16))"
  "Fin (15 / 16) - 1 = Fin (- (1 / 16))"
  by (simp_all add: fl_eval)

lemma sample_loop: "run_loop sample_risk (loc_bool [1, 2, 3, 4] [False, True, False, False])
    (loc_bool [1, 2, 3, 4] [False, False, False, False]) (iterrows sample_data) =
    Inr \<lparr>st_in_position = False, st_entry_price = None, st_entry_time = None, st_highest = None,
      st_trades = [sample_trade]\<rparr>"
  by (simp add: run_loop_def sample_rows run_step_def start_state_def sample_reads Let_def
      exit_decision_def sample_risk_def sample_arith close_trade_def sample_trade_def
      del: one_minus_float mult_num_float)

lemma sample_run: "run_strategy sample_lib sample_strategy sample_frame = Inr [sample_trade]"
proof -
  have "filter (\<lambda>c. fr_columns sample_frame c = None) ohlcv_columns = []"
    by (simp add: sample_frame_def ohlcv_columns_def)
  moreover have "fr_index sample_data = [1, 2, 3, 4]"
    by (simp add: sample_data_def sample_frame_def)
  moreover have "sd_risk_management sample_strategy = sample_risk"
    by (simp add: sample_strategy_def)
  ultimately show ?thesis
    by (simp add: run_strategy_def sample_valid sample_indicators sample_signals sample_loop)
qed

end
