(* ===== verification/Loader.thy ===== *)
theory Loader
  imports Schema Json
begin

text \<open>
  Definitions as data: how Pydantic builds a \<^verbatim>\<open>StrategyDefinition\<close> from the value a JSON or YAML
  parser, an HTTP body or a \<^verbatim>\<open>jsonb\<close> column gives (\<^verbatim>\<open>model_validate\<close>), how \<^verbatim>\<open>model_dump\<close> writes one, and
  the loader \<^verbatim>\<open>freqpanda_strategy/loader.py\<close>. The field declarations are those of \<^verbatim>\<open>schema.py\<close>: a field
  without a default is required, a key that is no field is ignored, and \<^verbatim>\<open>None\<close> is a value of an
  optional field. A union takes the member that fits exactly, so an integer stays an integer and
  a float a float; the conversions Pydantic tries on any other value of a number field (a boolean,
  a text with digits) are the parameter \<open>lax\<close>. The first error stands for the list Pydantic collects.
\<close>

section \<open>Fields\<close>

type_synonym fields = "(string \<times> jval) list"

definition invalid :: "string \<Rightarrow> 'a res" where
  "invalid what = Inl (ValidationError what)"

definition required :: "fields \<Rightarrow> string \<Rightarrow> (jval \<Rightarrow> 'a res) \<Rightarrow> 'a res" where
  "required kvs k f = (case map_of kvs k of None \<Rightarrow> invalid k | Some v \<Rightarrow> f v)"

definition optional :: "fields \<Rightarrow> string \<Rightarrow> (jval \<Rightarrow> 'a res) \<Rightarrow> 'a option res" where
  "optional kvs k f = (case map_of kvs k of
      None \<Rightarrow> Inr None | Some VNone \<Rightarrow> Inr None | Some v \<Rightarrow> map_res Some (f v))"

definition defaulted :: "fields \<Rightarrow> string \<Rightarrow> 'a \<Rightarrow> (jval \<Rightarrow> 'a res) \<Rightarrow> 'a res" where
  "defaulted kvs k x f = (case map_of kvs k of None \<Rightarrow> Inr x | Some v \<Rightarrow> f v)"

definition text_of :: "jval \<Rightarrow> string res" where
  "text_of v = (case v of VStr s \<Rightarrow> Inr s | _ \<Rightarrow> invalid ''string_type'')"

definition number_of :: "(jval \<Rightarrow> number option) \<Rightarrow> jval \<Rightarrow> number res" where
  "number_of lax v = (case v of
      VInt i \<Rightarrow> Inr (IntN i)
    | VFloat x \<Rightarrow> Inr (FloatN x)
    | _ \<Rightarrow> (case lax v of None \<Rightarrow> invalid ''number'' | Some n \<Rightarrow> Inr n))"

definition fields_of :: "jval \<Rightarrow> fields res" where
  "fields_of v = (case v of VDict kvs \<Rightarrow> Inr kvs | _ \<Rightarrow> invalid ''model_type'')"

definition items_of :: "(jval \<Rightarrow> 'a res) \<Rightarrow> jval \<Rightarrow> 'a list res" where
  "items_of f v = (case v of VList vs \<Rightarrow> mapE f vs | _ \<Rightarrow> invalid ''list_type'')"

section \<open>Parameters and indicators\<close>

definition param_range_of :: "(jval \<Rightarrow> number option) \<Rightarrow> fields \<Rightarrow> param_range res" where
  "param_range_of lax kvs =
     bindE (required kvs ''default'' (number_of lax)) (\<lambda>dflt.
     bindE (required kvs ''min'' (number_of lax)) (\<lambda>lo.
     bindE (required kvs ''max'' (number_of lax)) (\<lambda>hi.
     bindE (optional kvs ''step'' (number_of lax)) (\<lambda>step.
     check_bounds \<lparr>pr_default = dflt, pr_min = lo, pr_max = hi, pr_step = step\<rparr>))))"

definition param_value_of :: "(jval \<Rightarrow> number option) \<Rightarrow> jval \<Rightarrow> param_value res" where
  "param_value_of lax v = (case v of
      VDict kvs \<Rightarrow> map_res Range (param_range_of lax kvs)
    | _ \<Rightarrow> map_res Fixed (number_of lax v))"

definition params_of :: "(jval \<Rightarrow> number option) \<Rightarrow> jval \<Rightarrow> (string \<times> param_value) list res" where
  "params_of lax v = bindE (fields_of v) (mapE (\<lambda>(k, p). map_res (Pair k) (param_value_of lax p)))"

definition indicator_of :: "(jval \<Rightarrow> number option) \<Rightarrow> jval \<Rightarrow> indicator_config res" where
  "indicator_of lax v =
     bindE (fields_of v) (\<lambda>kvs.
     bindE (required kvs ''name'' text_of) (\<lambda>name.
     bindE (bindE (required kvs ''alias'' text_of) alias_is_identifier) (\<lambda>als.
     map_res (\<lambda>params. \<lparr>ic_name = name, ic_alias = als, ic_params = params\<rparr>)
       (defaulted kvs ''params'' [] (params_of lax)))))"

section \<open>Conditions\<close>

definition comparison_name :: "comparison_op \<Rightarrow> string" where
  "comparison_name op = (case op of GT \<Rightarrow> ''gt'' | GTE \<Rightarrow> ''gte'' | LT \<Rightarrow> ''lt'' | LTE \<Rightarrow> ''lte''
     | EQ \<Rightarrow> ''eq'' | NE \<Rightarrow> ''ne'' | CrossesAbove \<Rightarrow> ''crosses_above'' | CrossesBelow \<Rightarrow> ''crosses_below'')"

definition logical_name :: "logical_op \<Rightarrow> string" where
  "logical_name op = (case op of AND_op \<Rightarrow> ''and'' | OR_op \<Rightarrow> ''or'' | NOT_op \<Rightarrow> ''not'')"

text \<open>A \<^verbatim>\<open>Literal\<close> takes one of its texts.\<close>

definition literal_of :: "('a \<times> string) list \<Rightarrow> jval \<Rightarrow> 'a res" where
  "literal_of names v = (case v of
      VStr s \<Rightarrow> (case filter (\<lambda>(x, name). name = s) names of
          [] \<Rightarrow> invalid ''literal_error'' | (x, _) # _ \<Rightarrow> Inr x)
    | _ \<Rightarrow> invalid ''literal_error'')"

definition comparison_ops :: "(comparison_op \<times> string) list" where
  "comparison_ops = map (\<lambda>op. (op, comparison_name op)) [GT, GTE, LT, LTE, EQ, NE, CrossesAbove, CrossesBelow]"

definition logical_ops :: "(logical_op \<times> string) list" where
  "logical_ops = map (\<lambda>op. (op, logical_name op)) [AND_op, OR_op, NOT_op]"

definition operand_of :: "(jval \<Rightarrow> number option) \<Rightarrow> jval \<Rightarrow> operand res" where
  "operand_of lax v = (case v of VStr s \<Rightarrow> Inr (Ref s) | _ \<Rightarrow> map_res Const (number_of lax v))"

definition tag_is :: "string \<Rightarrow> fields \<Rightarrow> unit res" where
  "tag_is tag kvs = defaulted kvs ''type'' () (literal_of [((), tag)])"

definition comparison_of :: "(jval \<Rightarrow> number option) \<Rightarrow> fields \<Rightarrow> condition res" where
  "comparison_of lax kvs =
     bindE (tag_is ''comparison'' kvs) (\<lambda>_.
     bindE (required kvs ''left'' (operand_of lax)) (\<lambda>l.
     bindE (required kvs ''op'' (literal_of comparison_ops)) (\<lambda>op.
     map_res (\<lambda>r. Comparison l op r) (required kvs ''right'' (operand_of lax)))))"

definition logical_of :: "(jval \<Rightarrow> condition res) \<Rightarrow> fields \<Rightarrow> condition res" where
  "logical_of child kvs =
     bindE (tag_is ''logical'' kvs) (\<lambda>_.
     bindE (required kvs ''op'' (literal_of logical_ops)) (\<lambda>op.
     bindE (required kvs ''conditions'' (items_of child)) (check_arity op)))"

lemma logical_of_cong [fundef_cong]:
  assumes "kvs = kvs'" and "\<And>vs v. map_of kvs' ''conditions'' = Some (VList vs) \<Longrightarrow> v \<in> set vs \<Longrightarrow> child v = child' v"
  shows "logical_of child kvs = logical_of child' kvs'"
proof -
  have "required kvs ''conditions'' (items_of child) = required kvs' ''conditions'' (items_of child')"
    using assms by (auto simp: required_def items_of_def split: option.splits jval.splits intro!: mapE_cong)
  then show ?thesis using assms(1) by (simp add: logical_of_def)
qed

text \<open>
  A nested node is an untagged union: a \<^verbatim>\<open>Comparison\<close> if it fits one, else a \<^verbatim>\<open>Logical\<close> (no value
  fits both, as their operators differ). The two roots are discriminated by the key \<^verbatim>\<open>type\<close>, which
  must be there.
\<close>

lemma size_map_of: "map_of kvs k = Some v \<Longrightarrow> size v < size (VDict kvs)"
  by (induction kvs) (auto split: if_splits)

lemma size_in_VList: "v \<in> set vs \<Longrightarrow> size v < size (VList vs)"
  by (induction vs) auto

function node_of :: "(jval \<Rightarrow> number option) \<Rightarrow> jval \<Rightarrow> condition res" where
  "node_of lax v = bindE (fields_of v) (\<lambda>kvs. case comparison_of lax kvs of
      Inr c \<Rightarrow> Inr c
    | Inl _ \<Rightarrow> logical_of (node_of lax) kvs)"
  by pat_completeness auto
termination
proof (relation "measure (size \<circ> snd)")
  fix lax :: "jval \<Rightarrow> number option" and v kvs e vs c
  assume "fields_of v = Inr kvs" and "map_of kvs ''conditions'' = Some (VList vs)" and "c \<in> set vs"
  then have "size c < size (VList vs)" and "size (VList vs) < size v"
    using size_in_VList [of c vs] size_map_of [of kvs "''conditions''" "VList vs"]
    by (auto simp: fields_of_def invalid_def split: jval.splits)
  then show "((lax, c), lax, v) \<in> measure (size \<circ> snd)" by simp
qed simp

declare node_of.simps [simp del]

definition tagged_node_of :: "(jval \<Rightarrow> number option) \<Rightarrow> jval \<Rightarrow> condition res" where
  "tagged_node_of lax v = bindE (fields_of v) (\<lambda>kvs.
     if map_of kvs ''type'' = Some (VStr ''comparison'') then comparison_of lax kvs
     else if map_of kvs ''type'' = Some (VStr ''logical'') then logical_of (node_of lax) kvs
     else invalid ''union_tag'')"

section \<open>Definitions\<close>

definition risk_of :: "(jval \<Rightarrow> number option) \<Rightarrow> jval \<Rightarrow> risk_management res" where
  "risk_of lax v =
     bindE (fields_of v) (\<lambda>kvs.
     bindE (required kvs ''stop_loss_pct'' (number_of lax)) (\<lambda>stop.
     bindE (required kvs ''take_profit_pct'' (number_of lax)) (\<lambda>target.
     bindE (optional kvs ''trailing_stop_pct'' (number_of lax)) (\<lambda>trail.
     check_risk \<lparr>rm_stop_loss_pct = stop, rm_take_profit_pct = target, rm_trailing_stop_pct = trail\<rparr>))))"

definition model_validate :: "(jval \<Rightarrow> number option) \<Rightarrow> jval \<Rightarrow> strategy_definition res" where
  "model_validate lax v =
     bindE (fields_of v) (\<lambda>kvs.
     bindE (required kvs ''name'' text_of) (\<lambda>name.
     bindE (optional kvs ''description'' text_of) (\<lambda>description.
     bindE (optional kvs ''timeframe'' text_of) (\<lambda>timeframe.
     bindE (defaulted kvs ''indicators'' [] (items_of (indicator_of lax))) (\<lambda>indicators.
     bindE (required kvs ''entry_conditions'' (tagged_node_of lax)) (\<lambda>entry.
     bindE (optional kvs ''exit_conditions'' (tagged_node_of lax)) (\<lambda>exit.
     bindE (required kvs ''risk_management'' (risk_of lax)) (\<lambda>risk.
     check_unique_aliases \<lparr>sd_name = name, sd_description = description, sd_timeframe = timeframe,
       sd_indicators = indicators, sd_entry_conditions = entry, sd_exit_conditions = exit,
       sd_risk_management = risk\<rparr>))))))))"

section \<open>Writing\<close>

definition optional_json :: "('a \<Rightarrow> jval) \<Rightarrow> 'a option \<Rightarrow> jval" where
  "optional_json f x = (case x of None \<Rightarrow> VNone | Some y \<Rightarrow> f y)"

definition param_json :: "param_value \<Rightarrow> jval" where
  "param_json p = (case p of
      Fixed n \<Rightarrow> number_json n
    | Range r \<Rightarrow> VDict [(''default'', number_json (pr_default r)), (''min'', number_json (pr_min r)),
        (''max'', number_json (pr_max r)), (''step'', optional_json number_json (pr_step r))])"

definition indicator_json :: "indicator_config \<Rightarrow> jval" where
  "indicator_json i = VDict [(''name'', VStr (ic_name i)), (''alias'', VStr (ic_alias i)),
     (''params'', VDict (map (\<lambda>(k, p). (k, param_json p)) (ic_params i)))]"

definition operand_json :: "operand \<Rightarrow> jval" where
  "operand_json x = (case x of Const n \<Rightarrow> number_json n | Ref s \<Rightarrow> VStr s)"

fun condition_json :: "condition \<Rightarrow> jval" where
  "condition_json (Comparison l op r) = VDict [(''type'', VStr ''comparison''), (''left'', operand_json l),
     (''op'', VStr (comparison_name op)), (''right'', operand_json r)]"
| "condition_json (Logical op cs) = VDict [(''type'', VStr ''logical''), (''op'', VStr (logical_name op)),
     (''conditions'', VList (map condition_json cs))]"

definition risk_json :: "risk_management \<Rightarrow> jval" where
  "risk_json r = VDict [(''stop_loss_pct'', number_json (rm_stop_loss_pct r)),
     (''take_profit_pct'', number_json (rm_take_profit_pct r)),
     (''trailing_stop_pct'', optional_json number_json (rm_trailing_stop_pct r))]"

definition model_dump :: "strategy_definition \<Rightarrow> jval" where
  "model_dump d = VDict [(''name'', VStr (sd_name d)),
     (''description'', optional_json VStr (sd_description d)), (''timeframe'', optional_json VStr (sd_timeframe d)),
     (''indicators'', VList (map indicator_json (sd_indicators d))),
     (''entry_conditions'', condition_json (sd_entry_conditions d)),
     (''exit_conditions'', optional_json condition_json (sd_exit_conditions d)),
     (''risk_management'', risk_json (sd_risk_management d))]"

section \<open>Files\<close>

text \<open>
  \<^verbatim>\<open>Path.suffix\<close>: what follows the last dot of the last component, with the dot, unless that dot is
  its first or last character. \<^verbatim>\<open>str.lower\<close> on ASCII letters.
\<close>

definition last_component :: "string \<Rightarrow> string" where
  "last_component path = takeWhile (\<lambda>c. c \<noteq> CHR ''/'') (dropWhile (\<lambda>c. c = CHR ''/'') (rev path))"

definition path_suffix :: "string \<Rightarrow> string" where
  "path_suffix path = (let r = last_component path; ext = takeWhile (\<lambda>c. c \<noteq> CHR ''.'') r;
       stem = drop (length ext + 1) r in
     if ext = [] \<or> stem = [] then [] else CHR ''.'' # rev ext)"

definition to_lower :: "string \<Rightarrow> string" where
  "to_lower s = map (\<lambda>c. let n = of_char c :: nat in if 65 \<le> n \<and> n \<le> 90 then char_of (n + 32) else c) s"

record file_parsers =
  fp_read :: "string \<Rightarrow> string res"
  fp_yaml :: "string \<Rightarrow> jval res"
  fp_json :: "string \<Rightarrow> jval res"

definition parse_file :: "file_parsers \<Rightarrow> string \<Rightarrow> string \<Rightarrow> jval res" where
  "parse_file P path txt =
     (if to_lower (path_suffix path) \<in> {''.yaml'', ''.yml''} then fp_yaml P txt else fp_json P txt)"

definition load_strategy_definition :: "file_parsers \<Rightarrow> (jval \<Rightarrow> number option) \<Rightarrow> string \<Rightarrow> strategy_definition res" where
  "load_strategy_definition P lax path =
     bindE (fp_read P path) (\<lambda>txt. bindE (parse_file P path txt) (model_validate lax))"

section \<open>Reading back what was written\<close>

lemma number_of_json [simp]: "number_of lax (number_json n) = Inr n"
  by (cases n) (simp_all add: number_of_def number_json_def)

lemma number_json_plain [simp]: "number_json n \<noteq> VNone" "number_json n \<noteq> VDict kvs" "number_json n \<noteq> VStr s"
  by (cases n; simp add: number_json_def)+

lemma field_simps_of_cons:
  "required ((k', v) # kvs) k f = (if k = k' then f v else required kvs k f)"
  "defaulted ((k', v) # kvs) k x f = (if k = k' then f v else defaulted kvs k x f)"
  "k \<noteq> k' \<Longrightarrow> optional ((k', v) # kvs) k f = optional kvs k f"
  by (auto simp: required_def defaulted_def optional_def split: jval.splits)

lemma optional_of_json:
  assumes "\<And>y. x = Some y \<Longrightarrow> f (g y) = Inr y \<and> g y \<noteq> VNone"
  shows "optional ((k, optional_json g x) # kvs) k f = Inr x"
  using assms by (cases x) (auto simp: optional_json_def optional_def split: jval.splits)

lemma text_of_VStr [simp]: "text_of (VStr s) = Inr s"
  by (simp add: text_of_def)

lemma fields_of_VDict [simp]: "fields_of (VDict kvs) = Inr kvs"
  by (simp add: fields_of_def)

lemma items_of_map: "(\<And>x. x \<in> set xs \<Longrightarrow> f (g x) = Inr x) \<Longrightarrow> items_of f (VList (map g xs)) = Inr xs"
  by (induction xs) (simp_all add: items_of_def)

lemma accepted_iff: "accepted m \<longleftrightarrow> (\<exists>x. m = Inr x)"
  by (cases m) simp_all

lemma param_of_json:
  assumes "case p of Range r \<Rightarrow> accepted (check_bounds r) | Fixed n \<Rightarrow> True"
  shows "param_value_of lax (param_json p) = Inr p"
proof (cases p)
  case (Fixed n)
  then show ?thesis by (cases n) (simp_all add: param_json_def param_value_of_def number_json_def number_of_def)
next
  case (Range r)
  with assms have "check_bounds r = Inr r" by (auto simp: accepted_iff check_bounds_Inr)
  then show ?thesis
    by (cases r) (simp add: Range param_json_def param_value_of_def param_range_of_def field_simps_of_cons optional_of_json)
qed

lemma indicator_of_json:
  assumes "indicator_ok i"
  shows "indicator_of lax (indicator_json i) = Inr i"
proof -
  have "mapE (\<lambda>(k, p). map_res (Pair k) (param_value_of lax p)) (map (\<lambda>(k, p). (k, param_json p)) ps) = Inr ps"
    if "\<forall>(k, p) \<in> set ps. case p of Range r \<Rightarrow> accepted (check_bounds r) | Fixed n \<Rightarrow> True" for ps
    using that by (induction ps) (auto simp: param_of_json)
  with assms have "params_of lax (VDict (map (\<lambda>(k, p). (k, param_json p)) (ic_params i))) = Inr (ic_params i)"
    and "alias_is_identifier (ic_alias i) = Inr (ic_alias i)"
    by (auto simp: indicator_ok_def params_of_def alias_is_identifier_def accepted_def split: if_splits)
  then show ?thesis by (simp add: indicator_of_def indicator_json_def field_simps_of_cons)
qed

lemma operand_of_json [simp]: "operand_of lax (operand_json x) = Inr x"
proof (cases x)
  case (Const n)
  then show ?thesis by (cases n) (simp_all add: operand_of_def operand_json_def number_json_def number_of_def)
qed (simp add: operand_of_def operand_json_def)

lemma literal_names [simp]:
  "literal_of comparison_ops (VStr (comparison_name op)) = Inr op"
  "literal_of logical_ops (VStr (logical_name lop)) = Inr lop"
  by (cases op; simp add: literal_of_def comparison_ops_def comparison_name_def)
    (cases lop; simp add: literal_of_def logical_ops_def logical_name_def)

lemma literal_other [simp]: "literal_of comparison_ops (VStr (logical_name lop)) = invalid ''literal_error''"
  by (cases lop) (simp_all add: literal_of_def comparison_ops_def comparison_name_def logical_name_def)

lemma tag_is_Cons [simp]:
  "tag_is tag ((''type'', VStr t) # kvs) = (if t = tag then Inr () else invalid ''literal_error'')"
  by (simp add: tag_is_def defaulted_def literal_of_def)

lemma comparison_of_json:
  "comparison_of lax [(''type'', VStr ''comparison''), (''left'', operand_json l),
     (''op'', VStr (comparison_name op)), (''right'', operand_json r)] = Inr (Comparison l op r)"
  by (simp add: comparison_of_def field_simps_of_cons)

lemma node_of_json: "condition_ok c \<Longrightarrow> node_of lax (condition_json c) = Inr c"
proof (induction c rule: condition_json.induct)
  case (1 l op r)
  then show ?case by (simp add: node_of.simps [of lax] comparison_of_json)
next
  case (2 op cs)
  have "items_of (node_of lax) (VList (map condition_json cs)) = Inr cs"
    using 2 by (intro items_of_map) simp
  moreover have "check_arity op cs = Inr (Logical op cs)" using "2.prems" by (auto simp: check_arity_Inr)
  ultimately show ?case
    by (simp add: node_of.simps [of lax "VDict _"] comparison_of_def logical_of_def field_simps_of_cons invalid_def)
qed

lemma tagged_node_of_json: "condition_ok c \<Longrightarrow> tagged_node_of lax (condition_json c) = Inr c"
proof (cases c)
  case (Logical op cs)
  assume "condition_ok c"
  then have "node_of lax (condition_json c) = Inr c" by (rule node_of_json)
  then show ?thesis
    by (simp add: Logical tagged_node_of_def node_of.simps [of lax "VDict _"] comparison_of_def invalid_def)
qed (simp add: tagged_node_of_def comparison_of_json)

lemma condition_json_plain [simp]: "condition_json c \<noteq> VNone"
  by (cases c) simp_all

lemma risk_of_json: "accepted (check_risk r) \<Longrightarrow> risk_of lax (risk_json r) = Inr r"
  by (auto simp: accepted_iff check_risk_Inr risk_of_def risk_json_def field_simps_of_cons optional_of_json)

lemma model_validate_dump:
  assumes "definition_ok d"
  shows "model_validate lax (model_dump d) = Inr d"
proof -
  note ok = assms [unfolded definition_ok_def]
  have "items_of (indicator_of lax) (VList (map indicator_json (sd_indicators d))) = Inr (sd_indicators d)"
    using ok by (intro items_of_map indicator_of_json) (simp add: list_all_iff)
  moreover have "tagged_node_of lax (condition_json (sd_entry_conditions d)) = Inr (sd_entry_conditions d)"
    using ok by (simp add: tagged_node_of_json)
  moreover have "optional ((k, optional_json condition_json (sd_exit_conditions d)) # kvs) k (tagged_node_of lax) =
      Inr (sd_exit_conditions d)" for k kvs
    using ok by (intro optional_of_json) (simp add: tagged_node_of_json)
  moreover have "check_unique_aliases d = Inr d"
    using ok by (auto simp: accepted_iff check_unique_aliases_def split: if_splits)
  ultimately show ?thesis
    using ok by (cases d) (simp add: model_validate_def model_dump_def field_simps_of_cons optional_of_json risk_of_json)
qed

section \<open>What is accepted\<close>

text \<open>A Python dictionary has each key once.\<close>

fun unique_keys :: "jval \<Rightarrow> bool" where
  "unique_keys (VDict kvs) = (distinct (map fst kvs) \<and> (\<forall>kv \<in> set kvs. unique_keys (snd kv)))"
| "unique_keys (VList vs) = (\<forall>v \<in> set vs. unique_keys v)"
| "unique_keys v = True"

lemma required_Inr: "required kvs k f = Inr x \<longleftrightarrow> (\<exists>v. map_of kvs k = Some v \<and> f v = Inr x)"
  by (auto simp: required_def invalid_def split: option.splits)

lemma defaulted_Inr: "defaulted kvs k x f = Inr y \<longleftrightarrow> map_of kvs k = None \<and> y = x \<or> (\<exists>v. map_of kvs k = Some v \<and> f v = Inr y)"
  by (auto simp: defaulted_def split: option.splits)

lemma optional_Some: "optional kvs k f = Inr (Some y) \<Longrightarrow> \<exists>v. map_of kvs k = Some v \<and> f v = Inr y"
  by (auto simp: optional_def map_res_eq_Inr split: option.splits jval.splits)

lemma fields_of_Inr: "fields_of v = Inr kvs \<longleftrightarrow> v = VDict kvs"
  by (auto simp: fields_of_def invalid_def split: jval.splits)

lemma items_of_Inr: "items_of f v = Inr xs \<longleftrightarrow> (\<exists>vs. v = VList vs \<and> mapE f vs = Inr xs)"
  by (auto simp: items_of_def invalid_def split: jval.splits)

lemmas parse_Inr = bindE_eq_Inr map_res_eq_Inr required_Inr defaulted_Inr fields_of_Inr items_of_Inr

lemma mapE_all: "mapE f vs = Inr xs \<Longrightarrow> (\<And>v x. v \<in> set vs \<Longrightarrow> f v = Inr x \<Longrightarrow> P x) \<Longrightarrow> \<forall>x \<in> set xs. P x"
proof (induction vs arbitrary: xs)
  case (Cons v vs)
  then obtain y ys where "xs = y # ys" "f v = Inr y" "mapE f vs = Inr ys" by (auto simp: bindE_eq_Inr)
  with Cons.IH [of ys] Cons.prems(2) show ?case by (metis list.set_intros set_ConsD)
qed simp

lemma param_value_of_ok:
  "param_value_of lax v = Inr p \<Longrightarrow> case p of Range r \<Rightarrow> accepted (check_bounds r) | Fixed n \<Rightarrow> True"
  by (auto simp: param_value_of_def param_range_of_def parse_Inr check_bounds_Inr accepted_iff split: jval.splits)

lemma params_of_ok:
  assumes "params_of lax v = Inr ps" and "unique_keys v"
  shows "distinct (map fst ps) \<and> (\<forall>(k, p) \<in> set ps. case p of Range r \<Rightarrow> accepted (check_bounds r) | Fixed n \<Rightarrow> True)"
proof -
  let ?f = "\<lambda>(k, p). map_res (Pair k) (param_value_of lax p)"
  from assms obtain kvs where kvs: "distinct (map fst kvs)" "mapE ?f kvs = Inr ps"
    by (auto simp: params_of_def parse_Inr)
  have "map fst ps = map fst kvs"
    using kvs(2) by (induction kvs arbitrary: ps) (auto simp: parse_Inr)
  moreover have "\<forall>x \<in> set ps. case x of (k, p) \<Rightarrow> case p of Range r \<Rightarrow> accepted (check_bounds r) | Fixed n \<Rightarrow> True"
    using kvs(2) by (rule mapE_all) (auto simp: parse_Inr dest: param_value_of_ok)
  ultimately show ?thesis using kvs(1) by simp
qed

lemma unique_keys_map_of: "unique_keys (VDict kvs) \<Longrightarrow> map_of kvs k = Some v \<Longrightarrow> unique_keys v"
  by (auto dest: map_of_SomeD)

lemma indicator_of_ok:
  assumes "indicator_of lax v = Inr i" and "unique_keys v"
  shows "indicator_ok i"
proof -
  from assms(1) obtain kvs als where v: "v = VDict kvs" and als: "alias_is_identifier als = Inr (ic_alias i)"
    and "defaulted kvs ''params'' [] (params_of lax) = Inr (ic_params i)"
    by (auto simp: indicator_of_def parse_Inr)
  then have "ic_params i = [] \<or> (\<exists>p. unique_keys p \<and> params_of lax p = Inr (ic_params i))"
    using assms(2) by (auto simp: defaulted_Inr dest: unique_keys_map_of simp del: unique_keys.simps)
  with als show ?thesis
    by (auto simp: indicator_ok_def alias_is_identifier_def dest!: params_of_ok split: if_splits)
qed

lemma comparison_of_ok: "comparison_of lax kvs = Inr c \<Longrightarrow> condition_ok c"
  by (auto simp: comparison_of_def parse_Inr)

lemma logical_of_ok:
  assumes "logical_of child kvs = Inr c"
    and "\<And>vs v x. map_of kvs ''conditions'' = Some (VList vs) \<Longrightarrow> v \<in> set vs \<Longrightarrow> child v = Inr x \<Longrightarrow> condition_ok x"
  shows "condition_ok c"
proof -
  from assms(1) obtain op vs cs where vs: "map_of kvs ''conditions'' = Some (VList vs)" and cs: "mapE child vs = Inr cs"
    and c: "check_arity op cs = Inr c"
    by (auto simp: logical_of_def parse_Inr)
  from cs have "\<forall>x \<in> set cs. condition_ok x" using assms(2) [OF vs] by (rule mapE_all)
  with c show ?thesis by (auto simp: check_arity_Inr)
qed

lemma node_of_ok: "node_of lax v = Inr c \<Longrightarrow> condition_ok c"
proof (induction lax v arbitrary: c rule: node_of.induct)
  case (1 lax v)
  then obtain kvs where kvs: "fields_of v = Inr kvs" by (auto simp: node_of.simps [of lax v] bindE_eq_Inr)
  show ?case
  proof (cases "comparison_of lax kvs")
    case (Inl e)
    with "1.prems" kvs have "logical_of (node_of lax) kvs = Inr c" by (simp add: node_of.simps [of lax v])
    then show ?thesis by (rule logical_of_ok) (rule "1.IH" [OF kvs Inl])
  next
    case (Inr c')
    with "1.prems" kvs have "comparison_of lax kvs = Inr c" by (simp add: node_of.simps [of lax v])
    then show ?thesis by (rule comparison_of_ok)
  qed
qed

lemma tagged_node_of_ok: "tagged_node_of lax v = Inr c \<Longrightarrow> condition_ok c"
  by (auto simp: tagged_node_of_def parse_Inr invalid_def comparison_of_ok node_of_ok elim: logical_of_ok split: if_splits)

lemma risk_of_ok: "risk_of lax v = Inr r \<Longrightarrow> accepted (check_risk r)"
  by (auto simp: risk_of_def parse_Inr check_risk_Inr accepted_iff)

lemma check_unique_aliases_Inr:
  "check_unique_aliases d = Inr d' \<longleftrightarrow> d' = d \<and> accepted (check_unique_aliases d)"
  by (auto simp: check_unique_aliases_def)

lemma model_validate_ok:
  assumes "model_validate lax v = Inr d" and "unique_keys v"
  shows "definition_ok d"
proof -
  from assms(1) obtain kvs where v: "v = VDict kvs"
    and inds: "defaulted kvs ''indicators'' [] (items_of (indicator_of lax)) = Inr (sd_indicators d)"
    and entry: "required kvs ''entry_conditions'' (tagged_node_of lax) = Inr (sd_entry_conditions d)"
    and leave: "optional kvs ''exit_conditions'' (tagged_node_of lax) = Inr (sd_exit_conditions d)"
    and risk: "required kvs ''risk_management'' (risk_of lax) = Inr (sd_risk_management d)"
    and unique: "accepted (check_unique_aliases d)"
    by (auto simp: model_validate_def bindE_eq_Inr fields_of_Inr check_unique_aliases_Inr)
  have "\<forall>i \<in> set (sd_indicators d). indicator_ok i"
  proof (cases "map_of kvs ''indicators''")
    case (Some w)
    with inds assms(2) obtain vs where "mapE (indicator_of lax) vs = Inr (sd_indicators d)" "unique_keys (VList vs)"
      by (auto simp: defaulted_Inr items_of_Inr v dest: unique_keys_map_of simp del: unique_keys.simps)
    then show ?thesis by (elim mapE_all) (auto intro: indicator_of_ok)
  qed (use inds in \<open>simp add: defaulted_Inr\<close>)
  moreover have "case sd_exit_conditions d of None \<Rightarrow> True | Some c \<Rightarrow> condition_ok c"
    using leave by (cases "sd_exit_conditions d") (auto dest!: optional_Some dest: tagged_node_of_ok)
  ultimately show ?thesis using entry risk unique
    by (auto simp: definition_ok_def list_all_iff required_Inr tagged_node_of_ok risk_of_ok)
qed

section \<open>What is refused\<close>

text \<open>Every refusal is a \<^verbatim>\<open>ValidationError\<close>.\<close>

named_theorems refusing \<open>parsers whose only error is a validation error\<close>

definition refuses :: "'a res \<Rightarrow> bool" where
  "refuses m \<longleftrightarrow> (\<forall>e. m = Inl e \<longrightarrow> (\<exists>what. e = ValidationError what))"

lemma refuses_basic [refusing]: "refuses (Inr x)" "refuses (invalid what)"
  by (simp_all add: refuses_def invalid_def)

lemma refuses_bindE [refusing]: "refuses m \<Longrightarrow> (\<And>x. m = Inr x \<Longrightarrow> refuses (f x)) \<Longrightarrow> refuses (bindE m f)"
  by (cases m) (simp_all add: refuses_def)

lemma refuses_map_res [refusing]: "refuses m \<Longrightarrow> refuses (map_res f m)"
  by (cases m) (simp_all add: refuses_def)

lemma refuses_mapE [refusing]: "(\<And>x. x \<in> set xs \<Longrightarrow> refuses (f x)) \<Longrightarrow> refuses (mapE f xs)"
  by (induction xs) (auto intro!: refusing)

lemma refuses_fields [refusing]:
  "(\<And>v. map_of kvs k = Some v \<Longrightarrow> refuses (f v)) \<Longrightarrow> refuses (required kvs k f)"
  "(\<And>v. map_of kvs k = Some v \<Longrightarrow> refuses (f v)) \<Longrightarrow> refuses (optional kvs k f)"
  "(\<And>v. map_of kvs k = Some v \<Longrightarrow> refuses (f v)) \<Longrightarrow> refuses (defaulted kvs k x f)"
  by (auto simp: required_def optional_def defaulted_def intro: refusing split: option.splits jval.splits)

lemma refuses_leaves [refusing]:
  "refuses (text_of v)" "refuses (number_of lax v)" "refuses (fields_of v)" "refuses (literal_of names v)"
  "refuses (operand_of lax v)" "refuses (alias_is_identifier s)" "refuses (check_bounds r)" "refuses (check_arity op cs)"
  "refuses (check_risk k)" "refuses (check_unique_aliases d)"
  by (auto simp: refuses_def text_of_def number_of_def fields_of_def literal_of_def operand_of_def alias_is_identifier_def
    check_bounds_def check_arity_def check_risk_def check_unique_aliases_def invalid_def map_res_def
    split: jval.splits option.splits list.splits if_splits sum.splits prod.splits)

lemma refuses_items [refusing]: "(\<And>vs x. v = VList vs \<Longrightarrow> x \<in> set vs \<Longrightarrow> refuses (f x)) \<Longrightarrow> refuses (items_of f v)"
  by (auto simp: items_of_def intro: refusing split: jval.splits)

lemma refuses_params [refusing]: "refuses (params_of lax v)" "refuses (indicator_of lax v)" "refuses (risk_of lax v)"
proof -
  have "refuses (param_value_of lax p)" for p
    by (auto simp: param_value_of_def param_range_of_def intro!: refusing split: jval.splits)
  then show p: "refuses (params_of lax v)" for v
    by (auto simp: params_of_def intro!: refusing)
  show "refuses (indicator_of lax v)" "refuses (risk_of lax v)"
    unfolding indicator_of_def risk_of_def by (intro refusing p)+
qed

lemma refuses_comparison [refusing]: "refuses (comparison_of lax kvs)"
  unfolding comparison_of_def tag_is_def by (intro refusing)

lemma refuses_logical:
  assumes "\<And>vs v. map_of kvs ''conditions'' = Some (VList vs) \<Longrightarrow> v \<in> set vs \<Longrightarrow> refuses (child v)"
  shows "refuses (logical_of child kvs)"
  unfolding logical_of_def tag_is_def using assms by (intro refusing) simp

lemma refuses_node [refusing]: "refuses (node_of lax v)"
proof (induction lax v rule: node_of.induct)
  case (1 lax v)
  show ?case unfolding node_of.simps [of lax v]
  proof (rule refuses_bindE)
    fix kvs assume kvs: "fields_of v = Inr kvs"
    show "refuses (case comparison_of lax kvs of Inl e \<Rightarrow> logical_of (node_of lax) kvs | Inr c \<Rightarrow> Inr c)"
    proof (cases "comparison_of lax kvs")
      case (Inl e)
      from refuses_logical [OF "1.IH" [OF kvs this]] Inl show ?thesis by simp
    qed (simp add: refusing)
  qed (rule refusing)
qed

lemma refuses_tagged [refusing]: "refuses (tagged_node_of lax v)"
  unfolding tagged_node_of_def
  by (intro refuses_bindE refusing) (auto intro!: refusing refuses_logical)

lemma model_validate_refuses: "refuses (model_validate lax v)"
  unfolding model_validate_def by (intro refusing)

end
