(* ===== verification/Strategy_Properties.thy ===== *)
theory Strategy_Properties
  imports Samples Loader
begin

text \<open>
  The properties of the strategy package: what a condition tree means, what validation
  guarantees, and what the trade log of a run contains. Each has a witness on the sample inputs.
\<close>

section \<open>Definitions as data\<close>

text \<open>C29: Whatever value a parser, a request or a column hands over, validation either refuses it with a
  validation error, or builds a definition that passes every check of the schema; and what it built
  is written as a value that validates to the same definition again.\<close>

theorem validation_of_any_value:
  assumes "unique_keys v"
  shows "case model_validate lax v of
      Inl e \<Rightarrow> \<exists>what. e = ValidationError what
    | Inr d \<Rightarrow> definition_ok d \<and> model_validate lax (model_dump d) = Inr d"
  using model_validate_refuses [of lax v] model_validate_ok [OF _ assms, of lax] model_validate_dump
  by (cases "model_validate lax v") (simp_all add: refuses_def)

lemma sample_keys_once: "unique_keys (model_dump sample_strategy)"
  by (simp add: model_dump_def sample_strategy_def sample_risk_def optional_json_def indicator_json_def param_json_def
    operand_json_def risk_json_def number_json_def)

theorem validation_of_any_value_witness:
  "definition_ok sample_strategy \<and> (\<exists>what. model_validate (\<lambda>_. None) (VDict [(''name'', VInt 3)]) = Inl (ValidationError what))"
proof -
  from validation_of_any_value [OF sample_keys_once, of "\<lambda>_. None"] model_validate_dump [OF sample_definition_ok]
  have "definition_ok sample_strategy" by simp
  moreover have "model_validate (\<lambda>_. None) (VDict [(''name'', VInt 3)]) = Inl (ValidationError ''string_type'')"
    by (simp add: model_validate_def required_def text_of_def invalid_def)
  ultimately show ?thesis by blast
qed

text \<open>The suffix of a path whose last component has a stem and an extension.\<close>

lemma path_suffix_extension:
  assumes "folder = [] \<or> last folder = CHR ''/''" and "stem \<noteq> []" and "CHR ''/'' \<notin> set stem"
    and "ext \<noteq> []" and "CHR ''/'' \<notin> set ext" and "CHR ''.'' \<notin> set ext"
  shows "path_suffix (folder @ stem @ CHR ''.'' # ext) = CHR ''.'' # ext"
proof -
  let ?path = "folder @ stem @ CHR ''.'' # ext"
  have start: "dropWhile (\<lambda>c. c = CHR ''/'') (rev ?path) = rev ext @ CHR ''.'' # rev stem @ rev folder"
    using assms(4,5) by (cases "rev ext") (auto simp: rev_eq_Cons_iff)
  have "takeWhile (\<lambda>c. c \<noteq> CHR ''/'') (rev folder) = []"
    using assms(1) by (cases folder rule: rev_cases) auto
  moreover have "takeWhile (\<lambda>c. c \<noteq> CHR ''/'') ((rev ext @ CHR ''.'' # rev stem) @ rev folder) =
      (rev ext @ CHR ''.'' # rev stem) @ takeWhile (\<lambda>c. c \<noteq> CHR ''/'') (rev folder)"
    by (rule takeWhile_append2) (use assms(3,5) in auto)
  ultimately have "last_component ?path = rev ext @ CHR ''.'' # rev stem"
    using start by (simp add: last_component_def)
  moreover have "takeWhile (\<lambda>c. c \<noteq> CHR ''.'') (rev ext @ CHR ''.'' # rev stem) = rev ext"
    using assms(6) by (subst takeWhile_append2) auto
  ultimately show ?thesis using assms(2,4) by (simp add: path_suffix_def Let_def)
qed

text \<open>C30: A definition that is written to a file loads as the same definition: for every folder, stem and
  extension, if the parser of the format reads back the value that was written. The extension alone, in any
  case of letters, decides on the format: yaml and yml are YAML, and everything else is JSON.\<close>

theorem definitions_load_back:
  assumes "definition_ok d" and "folder = [] \<or> last folder = CHR ''/''" and "stem \<noteq> []" and "CHR ''/'' \<notin> set stem"
    and "ext \<noteq> []" and "CHR ''/'' \<notin> set ext" and "CHR ''.'' \<notin> set ext"
    and "fp_read P (folder @ stem @ CHR ''.'' # ext) = Inr txt"
    and "(if to_lower ext \<in> {''yaml'', ''yml''} then fp_yaml P txt else fp_json P txt) = Inr (model_dump d)"
  shows "load_strategy_definition P lax (folder @ stem @ CHR ''.'' # ext) = Inr d"
proof -
  have "to_lower (CHR ''.'' # ext) \<in> {''.yaml'', ''.yml''} \<longleftrightarrow> to_lower ext \<in> {''yaml'', ''yml''}"
    by (simp add: to_lower_def)
  then show ?thesis
    using assms path_suffix_extension [OF assms(2-7)]
    by (simp add: load_strategy_definition_def parse_file_def model_validate_dump)
qed

theorem definitions_load_back_witness:
  "load_strategy_definition \<lparr>fp_read = (\<lambda>_. Inr ''t''), fp_yaml = (\<lambda>_. Inr (model_dump sample_strategy)),
      fp_json = (\<lambda>_. Inl (ValueError ''json''))\<rparr> (\<lambda>_. None) ''strategies/ema.v2.YAML'' = Inr sample_strategy"
proof -
  have "to_lower ''YAML'' = ''yaml''" by code_simp
  then show ?thesis
    using definitions_load_back [of sample_strategy "''strategies/''" "''ema.v2''" "''YAML''", OF sample_definition_ok] by simp
qed

section \<open>Conditions\<close>

text \<open>C5: A condition tree evaluated over a frame gives one boolean per row, and the boolean of
  a row is the truth of the tree at that row: comparisons read the values of the row, the two
  crossing operators those of the row before it as well, and the logical nodes are conjunction,
  disjunction and negation.\<close>

theorem condition_tree_semantics:
  assumes "frame_ok df" and "evaluate_condition L c df = Inr s"
  shows "length s = length (fr_index df) \<and> (\<forall>i < length s. s ! i = holds_at L df i c)"
  using assms evaluate_condition_length evaluate_condition_nth by metis

theorem condition_tree_semantics_witness:
  "holds_at sample_lib sample_data 1 (sd_entry_conditions sample_strategy) \<and>
     \<not> holds_at sample_lib sample_data 0 (sd_entry_conditions sample_strategy)"
proof -
  have "frame_ok sample_data"
    using sample_frame_ok(1) by (simp add: sample_data_def sample_frame_def)
  from condition_tree_semantics [OF this sample_signals(1)]
  have "\<forall>i < 4. [False, True, False, False] ! i =
      holds_at sample_lib sample_data i (sd_entry_conditions sample_strategy)" by simp
  from this [rule_format, of 1] this [rule_format, of 0] show ?thesis by simp
qed

text \<open>C10: The entry signal does not look ahead. Two frames that share their first \<open>n\<close> rows get
  the same signal on those rows, whatever comes later, when the indicators of the library are
  trailing ones.\<close>

theorem signals_do_not_look_ahead:
  assumes "causal_lib L" and "frame_ok df" and "frame_ok df'"
    and "frame_take n df = frame_take n df'" and "0 < n"
    and "compute_indicators L df inds = Inr data" and "compute_indicators L df' inds = Inr data'"
    and "evaluate_condition L c data = Inr s" and "evaluate_condition L c data' = Inr s'"
  shows "take n s = take n s'"
proof -
  note d = compute_indicators_causal [OF assms(1,2,6)] and d' = compute_indicators_causal [OF assms(1,3,7)]
  have "frame_take n data = frame_take n data'"
    using d d' assms(4,5) by (metis sum.inject(2))
  then show ?thesis using cond.prefix assms(5,8,9) d d' by (metis sum.inject(2))
qed

text \<open>The sample frame with other prices from the third candle on, which enters there once more.\<close>

definition other_future :: frame where
  "other_future = sample_frame\<lparr>fr_columns := (fr_columns sample_frame)(''close'' \<mapsto> [Fin 95, Fin 100, Fin 105, Fin 120])\<rparr>"

lemma other_indicators: "compute_indicators sample_lib other_future (sd_indicators sample_strategy) =
    Inr (set_column other_future (''fast'', [Fin 95, Fin 100, Fin 105, Fin 120]))"
  by (simp add: compute_indicators_def add_indicator_def sample_strategy_def find_handler_def indicator_registry_def
    resolved_params_def resolve_param_def ema_compute_def get_param_def py_int_def get_column_def other_future_def
    sample_frame_def sample_lib_def)

lemma other_signals: "evaluate_condition sample_lib (sd_entry_conditions sample_strategy)
    (set_column other_future (''fast'', [Fin 95, Fin 100, Fin 105, Fin 120])) = Inr [False, True, True, True]"
  by (simp add: sample_strategy_def resolve_operand_def get_column_def other_future_def sample_frame_def
    sample_constants const_series_def apply_op_def numeral_eq_Suc)

theorem signals_do_not_look_ahead_witness:
  "take 2 [False, True, False, False] = take 2 [False, True, True, True]"
proof (rule signals_do_not_look_ahead [OF sample_lib_causal sample_frame_ok(1) _ _ _
    sample_indicators other_indicators sample_signals(1) other_signals])
  show "frame_ok other_future" by (auto simp: frame_ok_def other_future_def sample_frame_def split: if_splits)
  show "frame_take 2 sample_frame = frame_take 2 other_future"
    by (auto simp: frame_take_def other_future_def sample_frame_def fun_eq_iff)
qed simp

text \<open>During the warm-up of an indicator, where an operand is NaN, a comparison is false for
  every operator except \<open>ne\<close>, which is true. The evaluator's comment says such rows evaluate to
  false for all of them.\<close>

theorem warm_up_rows:
  assumes "\<forall>x y. is_nan x \<or> is_nan y \<longrightarrow> \<not> np_isclose L x y"
    and "is_nan x \<or> is_nan y"
  shows "op_holds L op x0 y0 x y \<longleftrightarrow> op = NE"
proof -
  have "\<not> x < y \<and> \<not> y < x \<and> \<not> x \<le> y \<and> \<not> y \<le> x"
    using assms(2) by (auto simp: is_nan_def dest: fl_le_noNaN fl_less_noNaN)
  with assms show ?thesis by (cases op) (auto simp: op_holds_def)
qed

theorem warm_up_rows_witness:
  "op_holds sample_lib NE 0 0 NaN (Fin 1) \<and> \<not> op_holds sample_lib EQ 0 0 NaN (Fin 1)"
proof -
  have "\<forall>x y. is_nan x \<or> is_nan y \<longrightarrow> \<not> np_isclose sample_lib x y"
    by (auto simp: sample_lib_def py_eq_def is_nan_def)
  from warm_up_rows [OF this, of NaN "Fin 1" _ 0 0] show ?thesis by (simp add: is_nan_def)
qed

section \<open>Validation\<close>

text \<open>C28: Validation is exact for the condition trees. When the indicators and their parameters
  are known and the frame has the price columns, a definition passes if and only if both of its
  trees evaluate on the computed data: no accepted tree asks for a missing column, and no
  rejected one would have run.\<close>

theorem validation_exact:
  assumes "definition_ok d" and "dom (fr_columns df) = set ohlcv_columns"
    and "compute_indicators L df (sd_indicators d) = Inr data"
    and "\<forall>ind \<in> set (sd_indicators d). \<exists>h. find_handler (ic_name ind) = Some h \<and>
      fst ` set (ic_params ind) \<subseteq> set (ih_param_names h)"
    and "\<forall>(label, c) \<in> set (condition_trees d). \<forall>n \<in> set (operand_consts c). \<exists>v. py_float n = Inr v"
  shows "validate_definition d = Inr () \<longleftrightarrow>
    (\<exists>en ex. evaluate_condition L (sd_entry_conditions d) data = Inr en \<and>
      exit_series L (sd_exit_conditions d) data = Inr ex)"
proof -
  have dom: "dom (fr_columns data) = available_columns d"
    using computed_columns [OF assms(3,2)] .
  have ev: "(\<exists>s. evaluate_condition L c data = Inr s) \<longleftrightarrow> set (operand_refs c) \<subseteq> available_columns d"
    if "(label, c) \<in> set (condition_trees d)" for label c
    using that assms(1,5) evaluate_condition_ok [of c data L] evaluate_condition_refs [of L c data]
    by (auto simp: dom definition_ok_def condition_trees_def split: option.splits)
  have entry: "(''entry_conditions'', sd_entry_conditions d) \<in> set (condition_trees d)"
    by (simp add: condition_trees_def)
  show ?thesis
  proof (cases "sd_exit_conditions d")
    case None
    then show ?thesis
      using assms(4) ev [OF entry] by (auto simp: validate_definition_iff condition_trees_def exit_series_def)
  next
    case (Some c)
    then have "(''exit_conditions'', c) \<in> set (condition_trees d)" by (simp add: condition_trees_def)
    from ev [OF this] ev [OF entry] assms(4) Some show ?thesis
      by (simp add: validate_definition_iff condition_trees_def exit_series_def)
  qed
qed

theorem validation_exact_witness:
  "validate_definition sample_strategy = Inr () \<longleftrightarrow>
    (\<exists>en ex. evaluate_condition sample_lib (sd_entry_conditions sample_strategy) sample_data = Inr en \<and>
      exit_series sample_lib (sd_exit_conditions sample_strategy) sample_data = Inr ex)"
proof (rule validation_exact [OF _ _ sample_indicators])
  show "definition_ok sample_strategy" by (rule sample_definition_ok)
  show "dom (fr_columns sample_frame) = set ohlcv_columns"
    by (auto simp: sample_frame_def ohlcv_columns_def)
qed (auto simp: sample_strategy_def find_handler_def indicator_registry_def condition_trees_def
    sample_constants)

text \<open>Any strategy with one indicator whose alias is a price column.\<close>

definition shadowing :: "strategy_definition \<Rightarrow> strategy_definition" where
  "shadowing d = d\<lparr>sd_indicators := [\<lparr>ic_name = ''sma'', ic_alias = ''close'',
     ic_params = [(''period'', Fixed (IntN 5))]\<rparr>],
     sd_entry_conditions := Comparison (Ref ''close'') GT (Const (IntN 0)),
     sd_exit_conditions := None\<rparr>"

text \<open>An accepted alias can replace a price column. A strategy whose indicator is called
  \<open>close\<close> passes every check, and the data its run works on has the indicator's values where the
  candles' closing prices were: entries, exits by signal and stops are computed from them.\<close>

theorem alias_replaces_price_column:
  assumes "accepted (check_risk (sd_risk_management d))" and "fr_columns df ''close'' = Some close"
    and "ta_sma L close 5 = Inr s"
  shows "definition_ok (shadowing d) \<and> validate_definition (shadowing d) = Inr () \<and>
    (\<exists>data. compute_indicators L df (sd_indicators (shadowing d)) = Inr data \<and>
      fr_columns data ''close'' = Some s)"
proof (intro conjI)
  show "definition_ok (shadowing d)"
    using assms(1)
    by (simp add: definition_ok_def shadowing_def indicator_ok_def alias_is_identifier_def
        isidentifier_def is_letter_def is_digit_def check_unique_aliases_iff)
  show "validate_definition (shadowing d) = Inr ()"
    by (simp add: validate_definition_iff shadowing_def find_handler_def indicator_registry_def
        condition_trees_def available_columns_def ohlcv_columns_def)
  show "\<exists>data. compute_indicators L df (sd_indicators (shadowing d)) = Inr data \<and>
      fr_columns data ''close'' = Some s"
    using assms(2,3)
    by (simp add: compute_indicators_def add_indicator_def shadowing_def find_handler_def
        indicator_registry_def resolved_params_def resolve_param_def sma_compute_def get_param_def
        py_int_def get_column_def)
qed

theorem alias_replaces_price_column_witness:
  "definition_ok (shadowing sample_strategy) \<and> validate_definition (shadowing sample_strategy) = Inr () \<and>
    (\<exists>data. compute_indicators (sample_lib\<lparr>ta_sma := \<lambda>xs p. Inr (replicate (length xs) (Fin 7))\<rparr>)
       sample_frame (sd_indicators (shadowing sample_strategy)) = Inr data \<and>
      fr_columns data ''close'' = Some (replicate 4 (Fin 7)))"
proof (rule alias_replaces_price_column)
  show "accepted (check_risk (sd_risk_management sample_strategy))"
    using sample_definition_ok by (simp add: definition_ok_def)
  show "fr_columns sample_frame ''close'' = Some [Fin 95, Fin 100, Fin 94, Fin 90]"
    by (simp add: sample_frame_def)
  show "ta_sma (sample_lib\<lparr>ta_sma := \<lambda>xs p. Inr (replicate (length xs) (Fin 7))\<rparr>)
      [Fin 95, Fin 100, Fin 94, Fin 90] 5 = Inr (replicate 4 (Fin 7))"
    by (simp add: numeral_eq_Suc)
qed

section \<open>The trade log\<close>

text \<open>Exits are decided in a fixed order. A decision to close names the first rule of
  stop-loss, take-profit, trailing stop and exit signal that the candle triggers, with the price
  of that rule; a decision to hold means that none of the four is triggered.\<close>

theorem exit_priority:
  assumes "exit_decision risk ex p h row = Inr hit"
  shows "case hit of
      None \<Rightarrow> \<not> stop_loss_hit risk p row \<and> \<not> take_profit_hit risk p row \<and>
        \<not> trailing_stop_hit risk h row \<and> ex (cd_time row) = Inr False
    | Some (price, StopLoss) \<Rightarrow> stop_loss_hit risk p row \<and>
        mult_num p (one_minus (rm_stop_loss_pct risk)) = Inr price
    | Some (price, TakeProfit) \<Rightarrow> take_profit_hit risk p row \<and> \<not> stop_loss_hit risk p row \<and>
        mult_num p (one_plus (rm_take_profit_pct risk)) = Inr price
    | Some (price, TrailingStop) \<Rightarrow> trailing_stop_hit risk h row \<and> \<not> stop_loss_hit risk p row \<and>
        \<not> take_profit_hit risk p row
    | Some (price, ExitSignal) \<Rightarrow> ex (cd_time row) = Inr True \<and> price = cd_close row \<and>
        \<not> stop_loss_hit risk p row \<and> \<not> take_profit_hit risk p row \<and> \<not> trailing_stop_hit risk h row"
proof (cases hit)
  case None
  with assms exit_decision_None show ?thesis by simp
next
  case (Some pr)
  obtain price reason where "pr = (price, reason)" by force
  with Some assms have d: "exit_decision risk ex p h row = Inr (Some (price, reason))" by simp
  from exit_decision_priority [OF d] exit_decision_price [OF d] Some \<open>pr = (price, reason)\<close>
  show ?thesis by (cases reason) simp_all
qed

theorem exit_priority_witness:
  "stop_loss_hit sample_risk (Fin 100) (row_at sample_data 2) \<and>
     mult_num (Fin 100) (one_minus (rm_stop_loss_pct sample_risk)) = Inr (Fin (375 / 4))"
proof -
  have row: "cd_low (row_at sample_data 2) = Fin 92"
    by (simp add: cell_def sample_data_def sample_frame_def)
  have "exit_decision sample_risk (\<lambda>_. Inr False) (Fin 100) (Fin 106) (row_at sample_data 2) =
      Inr (Some (Fin (375 / 4), StopLoss))"
    by (simp add: exit_decision_def sample_risk_def sample_arith row
        del: row_at_simps one_minus_float mult_num_float)
  from exit_priority [OF this] show ?thesis by simp
qed

text \<open>C11: The trade log is a sequence of positions. The trades of a run are spans of candles: each
  opens on a candle with an entry signal at that candle's close, holds while no exit rule fires,
  and closes on the first later candle where one does, at the price of that rule. The spans do
  not overlap, each trade starts after the one before has ended, and every candle with an entry
  signal lies inside a span or inside the position left open at the end.\<close>

theorem trade_log_is_complete:
  assumes "run_loop risk en ex rows = Inr s"
  shows "\<exists>spans opened. list_all2 (trade_span risk en ex rows) spans (st_trades s) \<and>
    sorted_wrt (\<lambda>(i, j) (i', j'). j < i') spans \<and>
    (\<forall>k < length rows. en (cd_time (rows ! k)) = Inr False \<or> (\<exists>(i, j) \<in> set spans. i \<le> k \<and> k \<le> j) \<or>
      (\<exists>i. opened = Some i \<and> i \<le> k)) \<and>
    (st_in_position s \<longleftrightarrow> opened \<noteq> None)"
proof -
  from run_loop_log [OF assms] obtain spans opened where
      l: "log_upto risk en ex rows (length rows) spans opened s" by blast
  then show ?thesis unfolding log_upto_def
    by (intro exI [of _ spans] exI [of _ opened]) (auto split: option.splits)
qed

theorem trade_log_is_complete_witness:
  "\<exists>spans opened. list_all2 (trade_span sample_risk (loc_bool [1, 2, 3, 4] [False, True, False, False])
      (loc_bool [1, 2, 3, 4] [False, False, False, False]) (iterrows sample_data)) spans [sample_trade] \<and>
    sorted_wrt (\<lambda>(i, j) (i', j'). j < i') spans"
  using trade_log_is_complete [OF sample_loop] by auto

text \<open>A stop-loss exit never books a gain and a take-profit exit never books a loss, also with
  the rounding of the arithmetic, for an accepted definition and a positive entry price.\<close>

theorem stop_and_target_signs:
  assumes "definition_ok d" and "run_strategy L d df = Inr ts" and "t \<in> set ts"
    and "is_double (Fin p)" and "0 < p" and "tr_entry_price t = Fin p"
  shows "(tr_exit_reason t = StopLoss \<longrightarrow> tr_pnl_pct t \<le> 0) \<and>
    (tr_exit_reason t = TakeProfit \<longrightarrow> 0 \<le> tr_pnl_pct t)"
proof -
  from assms(2) obtain data en ex s where
      loop: "run_loop (sd_risk_management d) (loc_bool (fr_index data) en)
        (loc_bool (fr_index data) ex) (iterrows data) = Inr s" and ts: "ts = st_trades s"
    by (rule run_strategy_Inr)
  have risk: "in_open_unit (rm_stop_loss_pct (sd_risk_management d))"
      "num_less (IntN 0) (rm_take_profit_pct (sd_risk_management d))"
    using assms(1) by (simp_all add: definition_ok_def accepted_check_risk)
  from run_loop_trade [OF loop] assms(3) ts obtain h row where
      dec: "exit_decision (sd_risk_management d) (loc_bool (fr_index data) ex) (tr_entry_price t) h row =
        Inr (Some (tr_exit_price t, tr_exit_reason t))"
      and pnl: "tr_pnl_pct t = tr_exit_price t / tr_entry_price t - 1"
    by blast
  show ?thesis
    using exit_decision_price [OF dec] assms(6) pnl
      stop_loss_price_le [OF risk(1) assms(4,5)] take_profit_price_ge [OF risk(2) assms(4,5)]
      stop_loss_pnl [OF _ _ assms(5)] take_profit_pnl [OF _ assms(5)]
    by (auto simp: zero_fl_Fin)
qed

theorem stop_and_target_signs_witness: "tr_pnl_pct sample_trade \<le> 0"
  using stop_and_target_signs [OF sample_definition_ok sample_run, of sample_trade 100]
  by (simp add: sample_trade_def is_double_Fin round64_numeral)

text \<open>Trades come out in time order and do not overlap: over an increasing index each trade
  exits after it entered, and the next one enters after that exit.\<close>

theorem trades_ordered:
  assumes "run_strategy L d df = Inr ts" and "sorted_wrt (<) (fr_index df)"
  shows "(\<forall>t \<in> set ts. tr_entry_time t < tr_exit_time t) \<and>
    sorted_wrt (\<lambda>t u. tr_exit_time t < tr_entry_time u) ts"
proof -
  from assms(1) obtain data en ex s where data: "compute_indicators L df (sd_indicators d) = Inr data"
      and loop: "run_loop (sd_risk_management d) (loc_bool (fr_index data) en)
        (loc_bool (fr_index data) ex) (iterrows data) = Inr s" and ts: "ts = st_trades s"
    by (rule run_strategy_Inr)
  from run_loop_spans [OF loop] obtain spans where
      sp: "list_all2 (trade_span (sd_risk_management d) (loc_bool (fr_index data) en)
        (loc_bool (fr_index data) ex) (iterrows data)) spans ts"
      and dis: "sorted_wrt (\<lambda>(i, j) (i', j'). j < i') spans"
    by (auto simp: ts)
  have len: "length spans = length ts" using sp by (rule list_all2_lengthD)
  have at: "fst (spans ! k) < snd (spans ! k) \<and> snd (spans ! k) < length (fr_index df) \<and>
      tr_entry_time (ts ! k) = fr_index df ! fst (spans ! k) \<and>
      tr_exit_time (ts ! k) = fr_index df ! snd (spans ! k)" if "k < length ts" for k
    using list_all2_nthD2 [OF sp that] compute_indicators_index [OF data]
    by (cases "spans ! k") (auto dest!: trade_span_times)
  note lt = sorted_wrt_nth_less [OF assms(2)]
  have "tr_entry_time (ts ! k) < tr_exit_time (ts ! k)" if "k < length ts" for k
    using at [OF that] lt [of "fst (spans ! k)" "snd (spans ! k)"] by simp
  moreover have "tr_exit_time (ts ! k) < tr_entry_time (ts ! m)" if "k < m" "m < length ts" for k m
    using at [of k] at [of m] that sorted_wrt_nth_less [OF dis that(1)] len
      lt [of "snd (spans ! k)" "fst (spans ! m)"]
    by (auto simp: case_prod_beta)
  ultimately show ?thesis by (auto simp: all_set_conv_all_nth sorted_wrt_iff_nth_less)
qed

theorem trades_ordered_witness: "tr_entry_time sample_trade < tr_exit_time sample_trade"
  using trades_ordered [OF sample_run] by (simp add: sample_frame_def)

end
