(* ===== verification/Backtest_Properties.thy ===== *)
theory Backtest_Properties
  imports Samples
begin

text \<open>
  The properties of the backtest package: the chain of capitals, the equity curve, the drawdown
  and the walk-forward windows. The library parameter of the witnesses is \<open>sample_numlib\<close>, whose
  \<^verbatim>\<open>np.empty\<close> hands out an array of NaN.
\<close>

section \<open>Sample inputs\<close>

definition sample_numlib :: numlib where
  "sample_numlib = \<lparr>nl_empty = (\<lambda>n. replicate n NaN), nl_sum = (\<lambda>xs. foldl (+) 0 xs),
     nl_mean = (\<lambda>xs. foldl (+) 0 xs / round64 (of_nat (length xs))), nl_std = (\<lambda>xs. 0),
     nl_sqrt = (\<lambda>x. x), nl_pct_change = (\<lambda>xs. []), nl_median_delta = (\<lambda>ds. 1000000000),
     nl_total_seconds = (\<lambda>n. round64 (of_int n) / Fin 1000000000)\<rparr>"

definition sample_costs :: trading_costs where
  "sample_costs = \<lparr>tc_fee_pct = 0, tc_slippage_pct = 0\<rparr>"

definition sample_cost_result :: trade_cost_result where
  "sample_cost_result = \<lparr>cr_trade = sample_trade, cr_entry_fill_price = Fin 100,
     cr_exit_fill_price = Fin (375 / 4), cr_quantity = Fin 8, cr_equity_before = Fin 800,
     cr_equity_after = Fin 750, cr_net_pnl_pct = Fin (- (1 / 16)), cr_net_pnl_abs = Fin (- 50)\<rparr>"

definition sample_args :: backtest_args where
  "sample_args = \<lparr>ba_initial_capital = Fin 800, ba_fee_pct = 0, ba_slippage_pct = 0,
     ba_risk_free_rate = 0\<rparr>"

lemma sample_apply_costs:
  "apply_costs_to_trades [sample_trade] (Fin 800) sample_costs = Inr [sample_cost_result]"
  by (simp add: cost_of_trade_def sample_trade_def sample_costs_def sample_cost_result_def
      entry_fill_price_def exit_fill_price_def Let_def fl_eval)

lemma sample_curve:
  "build_equity_curve sample_numlib sample_frame [sample_cost_result] (Fin 800) =
     Inr [Fin 800, Fin 800, Fin 750, Fin 750]"
proof -
  have "Fin 8 * Fin 100 = Fin 800" by (simp add: fl_eval)
  then show ?thesis
    by (simp add: build_equity_curve_def sample_frame_def get_column_def Let_def curve_step_def
        get_loc_def rows_at_def sample_cost_result_def sample_trade_def fill_slice_def
        sample_numlib_def upt_rec)
qed

lemma sample_drawdown_value: "drawdown_series [Fin 800, Fin 800, Fin 750, Fin 750] =
    [Fin 0, Fin 0, Fin (- (1 / 16)), Fin (- (1 / 16))]"
  by (simp add: drawdown_series_def cummax_def is_nan_def Let_def fl_eval)

lemma sample_drawdown: "compute_drawdown [1, 2, 3, 4] [Fin 800, Fin 800, Fin 750, Fin 750] =
    Inr \<lparr>dd_max_drawdown_pct = Fin (1 / 16), dd_peak_time = Some 1, dd_trough_time = Some 3,
      dd_recovery_time = None, dd_duration = 3\<rparr>"
  by (simp add: compute_drawdown_def sample_drawdown_value arg_min_def arg_max_def is_nan_def
      get_loc_def rows_at_def upt_rec)

lemma sample_backtest:
  "\<exists>r. backtest sample_lib sample_numlib sample_strategy sample_frame sample_args = Inr r \<and>
     br_trades r = [sample_cost_result] \<and> br_initial_capital r = Fin 800 \<and>
     br_equity_curve r = [(1, Fin 800), (2, Fin 800), (3, Fin 750), (4, Fin 750)]"
proof -
  have "infer_periods_per_year sample_numlib [1, 2, 3, 4] = Inr (Fin 31536000)"
    by (simp add: infer_periods_per_year_def sample_numlib_def year_ns_def fl_eval)
  moreover have "compute_return_ratios sample_numlib [Fin 800, Fin 800, Fin 750, Fin 750] x 0 = Inr (NaN, NaN)" for x
    by (simp add: compute_return_ratios_def sample_numlib_def)
  moreover have "fr_index sample_frame = [1, 2, 3, 4]" by (simp add: sample_frame_def)
  moreover have "py_div (Fin 750) (Fin 800) = Inr (Fin (15 / 16))" by (simp add: fl_eval)
  ultimately show ?thesis
    using sample_apply_costs
    by (simp add: backtest_def sample_run sample_args_def sample_costs_def sample_curve
        sample_drawdown Let_def)
qed

section \<open>Capital\<close>

text \<open>C12: Applying costs chains the capital through the trades. There is one result per trade, in
  order; the first starts from the initial capital and each later one from the capital the one
  before ended with; and the absolute and relative results are those of these two capitals.\<close>

theorem capital_chain:
  assumes "apply_costs_to_trades ts e costs = Inr rs"
  shows "map cr_trade rs = ts \<and> map cr_equity_before rs = butlast (e # map cr_equity_after rs) \<and>
    (\<forall>r \<in> set rs. cr_net_pnl_abs r = cr_equity_after r - cr_equity_before r \<and>
      cr_net_pnl_pct r = cr_equity_after r / cr_equity_before r - 1)"
  using apply_costs_trades [OF assms] apply_costs_chain [OF assms]
    cost_of_trade_fields(3,4) [OF apply_costs_each [OF assms]] by blast

theorem capital_chain_witness:
  "map cr_equity_before [sample_cost_result] = butlast (Fin 800 # map cr_equity_after [sample_cost_result])"
  using capital_chain [OF sample_apply_costs] by blast

text \<open>Costs move every fill against the strategy. For a slippage between zero and one, a buy
  fills at or above the raw price and a sell at or below it, and neither price turns negative.\<close>

theorem fills_are_adverse:
  assumes "0 \<le> tc_slippage_pct costs" and "tc_slippage_pct costs \<le> 1"
    and "is_double (Fin p)" and "0 < p"
  shows "Fin p \<le> entry_fill_price costs (Fin p) \<and> exit_fill_price costs (Fin p) \<le> Fin p \<and>
    0 \<le> exit_fill_price costs (Fin p)"
  using entry_fill_adverse [OF assms(1,3,4)] exit_fill_adverse [OF assms(1-3)] assms(4) by simp

theorem fills_are_adverse_witness:
  "Fin 100 \<le> entry_fill_price \<lparr>tc_fee_pct = 0, tc_slippage_pct = Fin (1 / 64)\<rparr> (Fin 100) \<and>
   exit_fill_price \<lparr>tc_fee_pct = 0, tc_slippage_pct = Fin (1 / 64)\<rparr> (Fin 100) \<le> Fin 100"
  using fills_are_adverse [of "\<lparr>tc_fee_pct = 0, tc_slippage_pct = Fin (1 / 64)\<rparr>" 100]
  by (simp add: zero_fl_Fin one_fl_Fin is_double_Fin round64_numeral)

section \<open>The equity curve\<close>

text \<open>C13: The equity curve of a backtest has one point per candle and every point is written: for
  an index without repeated timestamps its values are the initial capital before the first
  trade, the fill value on the entry candle, quantity times close inside a trade, the realised
  capital on the exit candle and until the next trade. They do not depend on the contents of the
  array \<^verbatim>\<open>np.empty\<close> returned.\<close>

theorem equity_curve_values:
  assumes "backtest L N d df args = Inr r" and "frame_ok df" and "distinct (fr_index df)"
    and "length (nl_empty N (length (fr_index df))) = length (fr_index df)"
  shows "\<exists>spans close. fr_columns df ''close'' = Some close \<and> placed (fr_index df) spans (br_trades r) \<and>
     br_equity_curve r = map (\<lambda>k. (fr_index df ! k, curve_value close (br_initial_capital r)
       (zip spans (br_trades r)) k)) [0..<length (fr_index df)]"
proof -
  from assms(1) obtain trades curve where run: "run_strategy L d df = Inr trades"
      and costs: "apply_costs_to_trades trades (ba_initial_capital args) (br_costs r) = Inr (br_trades r)"
      and curve: "build_equity_curve N df (br_trades r) (ba_initial_capital args) = Inr curve"
      and out: "br_equity_curve r = zip (fr_index df) curve" "br_initial_capital r = ba_initial_capital args"
    by (rule backtest_Inr)
  from curve obtain close where close: "fr_columns df ''close'' = Some close"
    by (auto simp: build_equity_curve_def py_simps)
  from run_strategy_placed [OF run apply_costs_trades [OF costs]] obtain spans where
      spans: "placed (fr_index df) spans (br_trades r)" ..
  from build_equity_curve_value [OF assms(2,3) close spans assms(4)] curve
  have "curve = map (curve_value close (br_initial_capital r) (zip spans (br_trades r)))
      [0..<length (fr_index df)]"
    by (simp add: out(2))
  then have "br_equity_curve r = map (\<lambda>k. (fr_index df ! k, curve_value close (br_initial_capital r)
       (zip spans (br_trades r)) k)) [0..<length (fr_index df)]"
    by (auto simp: out(1) intro!: nth_equalityI)
  with close spans show ?thesis by blast
qed

theorem equity_curve_values_witness:
  "\<exists>(r :: backtest_result) spans close. fr_columns sample_frame ''close'' = Some close \<and> placed [1, 2, 3, 4] spans (br_trades r) \<and>
     br_trades r = [sample_cost_result] \<and>
     map fst (br_equity_curve r) = [1, 2, 3, 4]"
proof -
  from sample_backtest obtain r where
      r: "backtest sample_lib sample_numlib sample_strategy sample_frame sample_args = Inr r"
      "br_trades r = [sample_cost_result]"
      "br_equity_curve r = [(1, Fin 800), (2, Fin 800), (3, Fin 750), (4, Fin 750)]" by blast
  have "length (nl_empty sample_numlib (length (fr_index sample_frame))) = length (fr_index sample_frame)"
    by (simp add: sample_numlib_def)
  from equity_curve_values [OF r(1) sample_frame_ok this] obtain spans close where
      "fr_columns sample_frame ''close'' = Some close"
      "placed (fr_index sample_frame) spans (br_trades r)" by blast
  moreover have "fr_index sample_frame = [1, 2, 3, 4]" by (simp add: sample_frame_def)
  ultimately have "fr_columns sample_frame ''close'' = Some close \<and> placed [1, 2, 3, 4] spans (br_trades r) \<and>
      br_trades r = [sample_cost_result] \<and> map fst (br_equity_curve r) = [1, 2, 3, 4]"
    using r(2,3) by simp
  then have "\<exists>close. fr_columns sample_frame ''close'' = Some close \<and> placed [1, 2, 3, 4] spans (br_trades r) \<and>
      br_trades r = [sample_cost_result] \<and> map fst (br_equity_curve r) = [1, 2, 3, 4]"
    by (rule exI [where x = close])
  then show ?thesis by (rule exI [where x = r, OF exI [where x = spans]])
qed

text \<open>C40: The maximum drawdown of a positive equity curve is a fraction between zero and one. It
  is measured at a trough that is no earlier than its peak, the peak is the highest value up to
  the trough, no candle has a deeper drawdown, and a recovery is the first candle from the trough
  on that regains the peak; without one the duration runs to the end of the data.\<close>

theorem drawdown_is_maximal:
  assumes "equity \<noteq> []" and "\<forall>x \<in> set equity. positive_double x"
    and "distinct index" and "length index = length equity"
  shows "\<exists>info p t c. compute_drawdown index equity = Inr info \<and> drawdown_at index equity p t info \<and>
    dd_max_drawdown_pct info = Fin c \<and> 0 \<le> c \<and> c \<le> 1"
proof -
  from compute_drawdown_at [OF assms] obtain info p t where
      i: "compute_drawdown index equity = Inr info" "drawdown_at index equity p t info" by blast
  then have "t < length equity" "dd_max_drawdown_pct info = - (drawdown_series equity ! t)"
    by (auto simp: drawdown_at_def)
  with drawdown_series_nth [OF assms(2)] obtain c where
      "dd_max_drawdown_pct info = Fin (- c)" "- 1 \<le> c" "c \<le> 0" by fastforce
  with i show ?thesis
    by (intro exI [of _ info] exI [of _ p] exI [of _ t] exI [of _ "- c"]) simp
qed

theorem drawdown_is_maximal_witness:
  "\<exists>info c. compute_drawdown [1, 2, 3, 4] [Fin 800, Fin 800, Fin 750, Fin 750] = Inr info \<and>
     dd_max_drawdown_pct info = Fin c \<and> 0 \<le> c \<and> c \<le> 1"
  using drawdown_is_maximal [of "[Fin 800, Fin 800, Fin 750, Fin 750]" "[1, 2, 3, 4]"]
  by (auto simp: positive_double_def is_double_Fin round64_numeral)

text \<open>The trade statistics of a non-empty list count it: the win rate lies between zero and
  one, and the profit factor is infinite or undefined exactly when there is no gross loss.\<close>

theorem trade_stats_bounds:
  assumes "tcs \<noteq> []" and "length tcs \<le> 2 ^ 53"
  shows "ts_num_trades (compute_trade_stats N tcs) = length tcs \<and>
    (\<exists>c. ts_win_rate (compute_trade_stats N tcs) = Fin c \<and> 0 \<le> c \<and> c \<le> 1) \<and>
    ((\<forall>tc \<in> set tcs. \<not> cr_net_pnl_abs tc < 0) \<longrightarrow>
       ts_profit_factor (compute_trade_stats N tcs) \<in> {PInf, NaN})"
proof -
  have "length (filter (\<lambda>tc. 0 < cr_net_pnl_abs tc) tcs) \<le> length tcs" by simp
  from count_ratio_unit [OF this] assms show ?thesis
    by (auto simp: compute_trade_stats_def Let_def filter_empty_conv)
qed

theorem trade_stats_bounds_witness:
  "ts_num_trades (compute_trade_stats sample_numlib [sample_cost_result]) = 1"
  using trade_stats_bounds [of "[sample_cost_result]" sample_numlib] by simp

section \<open>Walk-forward windows\<close>

text \<open>C31: With a positive step the windows are generated in finitely many rounds. The \<open>k\<close>-th window
  is shifted by \<open>k\<close> steps, its test slice starts where its train slice ends and stays inside the
  data, the train slice starts at the data's start (anchored) or spans the train period
  (rolling), and when the step is at least the test period no two test slices overlap.\<close>

theorem walk_forward_windows:
  assumes "index \<noteq> []" and "st = (case step of None \<Rightarrow> test_period | Some s \<Rightarrow> s)" and "0 < st"
  shows "\<exists>r. generate_walk_forward_windows index train_period test_period step anchored = Some r \<and>
    (\<forall>ws. r = Inr ws \<longrightarrow>
      (\<forall>w \<in> set ws. wf_test_start w = wf_train_end w \<and> wf_test_end w = wf_test_start w + test_period \<and>
         wf_test_end w \<le> last index \<and>
         (if anchored then wf_train_start w = hd index else wf_train_end w = wf_train_start w + train_period)) \<and>
      (\<forall>k < length ws. wf_test_start (ws ! k) = hd index + train_period + int k * st) \<and>
      (test_period \<le> st \<longrightarrow> sorted_wrt (\<lambda>v w. wf_test_end v \<le> wf_test_start w) ws))"
proof -
  from generate_windows [where index = index and step = step and test_period = test_period
      and train_period = train_period and anchored = anchored] assms obtain r where
      r: "generate_walk_forward_windows index train_period test_period step anchored = Some r"
      and out: "\<And>ws. r = Inr ws \<Longrightarrow> \<exists>n. ws = windows_of index train_period test_period st anchored n \<and>
        (\<forall>w \<in> set ws. wf_test_end w \<le> last index)"
    by blast
  have "(\<forall>w \<in> set ws. wf_test_start w = wf_train_end w \<and> wf_test_end w = wf_test_start w + test_period \<and>
         wf_test_end w \<le> last index \<and>
         (if anchored then wf_train_start w = hd index else wf_train_end w = wf_train_start w + train_period)) \<and>
      (\<forall>k < length ws. wf_test_start (ws ! k) = hd index + train_period + int k * st) \<and>
      (test_period \<le> st \<longrightarrow> sorted_wrt (\<lambda>v w. wf_test_end v \<le> wf_test_start w) ws)" if ws: "r = Inr ws" for ws
  proof -
    from out [OF ws] obtain n where n: "ws = windows_of index train_period test_period st anchored n"
        and last: "\<forall>w \<in> set ws. wf_test_end w \<le> last index" by blast
    have "sorted_wrt (\<lambda>v w. wf_test_end v \<le> wf_test_start w) ws" if "test_period \<le> st"
      using windows_disjoint [OF that assms(3)]
      by (auto simp: n windows_of_def sorted_wrt_iff_nth_less)
    then show ?thesis using last by (auto simp: n windows_of_def window_at_simps)
  qed
  with r show ?thesis by blast
qed

theorem walk_forward_windows_witness:
  "\<exists>r. generate_walk_forward_windows [0, 10, 100] 40 20 None False = Some r"
  using walk_forward_windows [where index = "[0, 10, 100]" and step = None and test_period = 20
      and st = 20 and train_period = 40 and anchored = False] by auto

text \<open>With a zero step, which a test period of zero gives by default, and data for one window,
  the generation never returns.\<close>

theorem walk_forward_zero_step_diverges:
  assumes "index \<noteq> []" and "stuck train_period test_period
      (case step of None \<Rightarrow> test_period | Some s \<Rightarrow> s) (last index) (hd index) (hd index + train_period)"
  shows "generate_walk_forward_windows index train_period test_period step anchored = None"
proof -
  have "time_add (hd index) train_period = Inr (hd index + train_period)"
    using assms(2) by (auto simp: stuck_def time_add_def split: if_splits)
  with assms(1) wf_loop_zero_step [OF assms(2)] show ?thesis
    by (simp add: generate_walk_forward_windows_def)
qed

theorem walk_forward_zero_step_diverges_witness:
  "generate_walk_forward_windows [0, 10, 100] 40 0 None True = None"
  using walk_forward_zero_step_diverges [where index = "[0, 10, 100]" and step = None
      and test_period = 0 and train_period = 40 and anchored = True]
  by (simp add: stuck_def time_add_def)

end
