(* ===== verification/Database.thy ===== *)
theory Database
  imports Prelude "HOL-Library.AList"
begin

text \<open>
  The database connection the storage code runs its SQL through. A table is an association list
  from its key to the rest of the row; the SQL text under \<^verbatim>\<open>freqpanda_data/db.py\<close>,
  \<^verbatim>\<open>freqpanda_execution/repository.py\<close> and \<^verbatim>\<open>freqpanda_api/repositories/\<close> is translated to functions
  on tables. The connection follows the documented transaction rules of PostgreSQL: the first
  statement opens a transaction, a statement that fails aborts it, every later statement of an
  aborted transaction is refused, and its commit is a rollback.
\<close>

section \<open>Transactions\<close>

datatype tx_status = Idle | InTx | Aborted

record 'd connection =
  cn_committed :: 'd
  cn_work :: 'd
  cn_status :: tx_status

definition fresh_connection :: "'d \<Rightarrow> 'd connection" where
  "fresh_connection d = \<lparr>cn_committed = d, cn_work = d, cn_status = Idle\<rparr>"

text \<open>\<^verbatim>\<open>cur.execute\<close> of one statement; \<^verbatim>\<open>conn.commit()\<close>; \<^verbatim>\<open>conn.rollback()\<close>\<close>

definition execute :: "('d \<Rightarrow> ('d \<times> 'a) res) \<Rightarrow> ('d connection, 'a) stm" where
  "execute stmt = (\<lambda>c. if cn_status c = Aborted
     then (c, Inl (DatabaseError ''current transaction is aborted''))
     else (case stmt (cn_work c) of
         Inl e \<Rightarrow> (c\<lparr>cn_work := cn_committed c, cn_status := Aborted\<rparr>, Inl e)
       | Inr (d, x) \<Rightarrow> (c\<lparr>cn_work := d, cn_status := InTx\<rparr>, Inr x)))"

definition commit :: "('d connection, unit) stm" where
  "commit = modifyS (\<lambda>c. if cn_status c = Aborted
     then c\<lparr>cn_work := cn_committed c, cn_status := Idle\<rparr>
     else c\<lparr>cn_committed := cn_work c, cn_status := Idle\<rparr>)"

definition rollback :: "('d connection, unit) stm" where
  "rollback = modifyS (\<lambda>c. c\<lparr>cn_work := cn_committed c, cn_status := Idle\<rparr>)"

definition query :: "('d \<Rightarrow> 'a) \<Rightarrow> ('d connection, 'a) stm" where
  "query f = execute (\<lambda>d. Inr (d, f d))"

definition dbwrite :: "('d \<Rightarrow> 'd) \<Rightarrow> ('d connection, unit) stm" where
  "dbwrite f = execute (\<lambda>d. Inr (f d, ()))"

section \<open>Tables\<close>

definition put :: "'k \<Rightarrow> 'v \<Rightarrow> ('k \<times> 'v) list \<Rightarrow> ('k \<times> 'v) list" where
  "put k v t = AList.update k v t"

definition keys_distinct :: "('k \<times> 'v) list \<Rightarrow> bool" where
  "keys_distinct t \<longleftrightarrow> distinct (map fst t)"

text \<open>The contract of a table with a unique key: what a lookup returns after an upsert.\<close>

locale keyed_table =
  fixes find :: "'t \<Rightarrow> 'k \<Rightarrow> 'v option" and upsert :: "'k \<Rightarrow> 'v \<Rightarrow> 't \<Rightarrow> 't"
    and wf :: "'t \<Rightarrow> bool"
  assumes find_upsert: "wf t \<Longrightarrow> find (upsert k v t) k' = (if k' = k then Some v else find t k')"
    and wf_upsert: "wf t \<Longrightarrow> wf (upsert k v t)"
begin

lemma wf_upserts: "wf t \<Longrightarrow> wf (foldl (\<lambda>t (k, v). upsert k v t) t kvs)"
  by (induction kvs arbitrary: t) (auto intro: wf_upsert)

text \<open>After a list of upserts the last one for a key wins, and the other keys are untouched.\<close>

lemma find_upserts:
  "wf t \<Longrightarrow> find (foldl (\<lambda>t (k, v). upsert k v t) t kvs) k' =
     (case map_of (rev kvs) k' of Some v \<Rightarrow> Some v | None \<Rightarrow> find t k')"
proof (induction kvs arbitrary: t)
  case (Cons kv kvs)
  obtain k v where kv: "kv = (k, v)" by force
  from Cons.IH [OF wf_upsert [OF Cons.prems, of k v]] show ?case
    by (auto simp: kv find_upsert [OF Cons.prems] map_add_def split: option.splits)
qed simp

lemma upserts_twice:
  assumes "wf t"
  shows "find (foldl (\<lambda>t (k, v). upsert k v t) (foldl (\<lambda>t (k, v). upsert k v t) t kvs) kvs) k' =
    find (foldl (\<lambda>t (k, v). upsert k v t) t kvs) k'"
  by (simp add: find_upserts [OF wf_upserts [OF assms]] find_upserts [OF assms] split: option.splits)

end

interpretation alist: keyed_table map_of put keys_distinct
  by unfold_locales (auto simp: put_def keys_distinct_def update_conv distinct_update)

section \<open>Connection facts\<close>

lemma run_execute [st_simps]:
  "execute stmt c = (if cn_status c = Aborted
     then (c, Inl (DatabaseError ''current transaction is aborted''))
     else (case stmt (cn_work c) of
         Inl e \<Rightarrow> (c\<lparr>cn_work := cn_committed c, cn_status := Aborted\<rparr>, Inl e)
       | Inr (d, x) \<Rightarrow> (c\<lparr>cn_work := d, cn_status := InTx\<rparr>, Inr x)))"
  by (simp add: execute_def)

lemma execute_aborted:
  "cn_status c = Aborted \<Longrightarrow> execute stmt c = (c, Inl (DatabaseError ''current transaction is aborted''))"
  by (simp add: execute_def)

lemma run_query [st_simps]:
  "query f c = (if cn_status c = Aborted
     then (c, Inl (DatabaseError ''current transaction is aborted''))
     else (c\<lparr>cn_status := InTx\<rparr>, Inr (f (cn_work c))))"
  by (simp add: query_def execute_def)

lemma run_dbwrite [st_simps]:
  "dbwrite f c = (if cn_status c = Aborted
     then (c, Inl (DatabaseError ''current transaction is aborted''))
     else (c\<lparr>cn_work := f (cn_work c), cn_status := InTx\<rparr>, Inr ()))"
  by (simp add: dbwrite_def execute_def)

lemma run_commit [st_simps]:
  "commit c = (if cn_status c = Aborted
     then c\<lparr>cn_work := cn_committed c, cn_status := Idle\<rparr>
     else c\<lparr>cn_committed := cn_work c, cn_status := Idle\<rparr>, Inr ())"
  by (simp add: commit_def)

text \<open>What is committed and what is being worked on both satisfy an invariant of the tables.\<close>

definition both :: "('d \<Rightarrow> bool) \<Rightarrow> 'd connection \<Rightarrow> bool" where
  "both P c \<longleftrightarrow> P (cn_committed c) \<and> P (cn_work c)"

lemma preserves_execute [preserve]:
  "(\<And>d d' x. P d \<Longrightarrow> stmt d = Inr (d', x) \<Longrightarrow> P d') \<Longrightarrow> preserves (both P) (execute stmt)"
  by (auto simp: preserves_def both_def execute_def split: sum.splits)

lemma preserves_query [preserve]: "preserves (both P) (query f)"
  by (auto simp: query_def intro: preserve)

lemma preserves_dbwrite [preserve]: "(\<And>d. P d \<Longrightarrow> P (f d)) \<Longrightarrow> preserves (both P) (dbwrite f)"
  by (auto simp: dbwrite_def intro: preserve)

lemma preserves_commit [preserve]: "preserves (both P) commit"
  by (auto simp: preserves_def both_def commit_def)

lemma preserves_rollback [preserve]: "preserves (both P) rollback"
  by (auto simp: preserves_def both_def rollback_def)

lemma put_simps:
  "map_of (put k v t) k' = (if k' = k then Some v else map_of t k')"
  "fst ` set (put k v t) = insert k (fst ` set t)"
  by (auto simp: put_def update_conv dom_update [symmetric] simp flip: dom_map_of_conv_image_fst)

end
