(* ===== verification/Exchange.thy ===== *)
theory Exchange
  imports Pyfloat
begin

text \<open>
  The exchange wrapper of \<^verbatim>\<open>freqpanda_data/exchange.py\<close>: paging through the candle history and the
  rule for closed candles. The exchange is a parameter \<open>fetch\<close>: the page it returns for the \<open>k\<close>-th
  call, a cursor and a page limit. The generator's \<^verbatim>\<open>while True\<close> need not end, so the list of its
  pages is a partial function; an exchange error ends it.
\<close>

record raw_candle =
  rc_ts :: int
  rc_open :: fl
  rc_high :: fl
  rc_low :: fl
  rc_close :: fl
  rc_volume :: fl

text \<open>
  A client is configured when it is made; which ids CCXT has a class for is the parameter \<open>known\<close>.
\<close>

record exchange_client =
  xc_exchange_id :: string
  xc_enable_rate_limit :: bool
  xc_api_key :: "string option"
  xc_secret :: "string option"
  xc_password :: "string option"

definition create_exchange :: "(string \<Rightarrow> bool) \<Rightarrow> string \<Rightarrow> exchange_client res" where
  "create_exchange known exchange_id =
     (if known exchange_id then Inr \<lparr>xc_exchange_id = exchange_id, xc_enable_rate_limit = True,
        xc_api_key = None, xc_secret = None, xc_password = None\<rparr>
      else Inl (ValueError ''Unknown CCXT exchange id''))"

type_synonym fetcher = "nat \<Rightarrow> int \<Rightarrow> nat \<Rightarrow> raw_candle list res"

definition default_page_limit :: nat where
  "default_page_limit = 1000"

definition is_closed_candle :: "raw_candle \<Rightarrow> int \<Rightarrow> int \<Rightarrow> bool" where
  "is_closed_candle c timeframe_ms now_ms \<longleftrightarrow> rc_ts c + timeframe_ms \<le> now_ms"

text \<open>
  One round of the loop: the page it yields, and the cursor of the next round if there is one.
\<close>

definition next_page :: "fetcher \<Rightarrow> int \<Rightarrow> nat \<Rightarrow> nat \<Rightarrow> int \<Rightarrow> (raw_candle list \<times> int option) option res" where
  "next_page fetch timeframe_ms limit k cursor =
     map_res (\<lambda>batch. if batch = [] then None
       else Some (batch, let next_cursor = rc_ts (last batch) + timeframe_ms in
         if next_cursor \<le> cursor then None
         else if length batch < limit then None
         else Some next_cursor))
     (fetch k cursor limit)"

text \<open>The pages of the generator, with the error that ended it if there was one.\<close>

partial_function (option) fetch_ohlcv_since ::
  "fetcher \<Rightarrow> int \<Rightarrow> nat \<Rightarrow> nat \<Rightarrow> int \<Rightarrow> (raw_candle list list \<times> pyerr option) option" where
  "fetch_ohlcv_since fetch timeframe_ms limit k cursor =
     (case next_page fetch timeframe_ms limit k cursor of
        Inl e \<Rightarrow> Some ([], Some e)
      | Inr None \<Rightarrow> Some ([], None)
      | Inr (Some (batch, None)) \<Rightarrow> Some ([batch], None)
      | Inr (Some (batch, Some next_cursor)) \<Rightarrow>
          Option.bind (fetch_ohlcv_since fetch timeframe_ms limit (Suc k) next_cursor)
            (\<lambda>r. Some (batch # fst r, snd r)))"

section \<open>Termination and completeness\<close>

text \<open>
  \<open>bounded_by T fetch\<close>: the exchange has no candle later than \<open>T\<close>. Each further round starts from
  a later cursor, so there are finitely many.
\<close>

definition bounded_by :: "int \<Rightarrow> fetcher \<Rightarrow> bool" where
  "bounded_by T fetch \<longleftrightarrow> (\<forall>k cursor limit batch. fetch k cursor limit = Inr batch \<longrightarrow>
     (\<forall>c \<in> set batch. rc_ts c \<le> T))"

lemma next_page_cursor:
  assumes "next_page fetch tf limit k cursor = Inr (Some (batch, Some c'))"
  shows "fetch k cursor limit = Inr batch \<and> batch \<noteq> [] \<and> c' = rc_ts (last batch) + tf \<and> cursor < c' \<and>
     limit \<le> length batch"
  using assms by (auto simp: next_page_def py_simps Let_def split: if_splits)

lemma fetch_returns:
  assumes "bounded_by T fetch"
  shows "\<exists>r. fetch_ohlcv_since fetch tf limit k cursor = Some r"
proof (induction "nat (T + tf + 1 - cursor)" arbitrary: k cursor rule: less_induct)
  case less
  show ?case
  proof (cases "next_page fetch tf limit k cursor")
    case (Inl e)
    then show ?thesis by (simp add: fetch_ohlcv_since.simps)
  next
    case (Inr p)
    show ?thesis
    proof (cases p)
      case None
      with Inr show ?thesis by (simp add: fetch_ohlcv_since.simps)
    next
      case (Some bc)
      obtain batch nc where bc: "bc = (batch, nc)" by force
      show ?thesis
      proof (cases nc)
        case None
        with Inr Some bc show ?thesis by (simp add: fetch_ohlcv_since.simps)
      next
        case nc: (Some c')
        with Inr Some bc have np: "next_page fetch tf limit k cursor = Inr (Some (batch, Some c'))"
          by simp
        from next_page_cursor [OF np] have "rc_ts (last batch) \<le> T" "c' = rc_ts (last batch) + tf" "cursor < c'"
          using assms last_in_set by (auto simp: bounded_by_def)
        then have "nat (T + tf + 1 - c') < nat (T + tf + 1 - cursor)" by linarith
        from less.hyps [OF this, of "Suc k"] np show ?thesis
          by (auto simp: fetch_ohlcv_since.simps [of fetch tf limit k])
      qed
    qed
  qed
qed

text \<open>
  \<open>serves data cap fetch\<close>: the documented behaviour of \<^verbatim>\<open>fetch_ohlcv\<close> for an exchange that holds
  \<open>data\<close>, oldest first, and returns at most \<open>cap\<close> candles a call: the first ones at or after the
  cursor.
\<close>

definition from_cursor :: "int \<Rightarrow> raw_candle list \<Rightarrow> raw_candle list" where
  "from_cursor cursor data = filter (\<lambda>c. cursor \<le> rc_ts c) data"

definition serves :: "raw_candle list \<Rightarrow> nat \<Rightarrow> fetcher \<Rightarrow> bool" where
  "serves data cap fetch \<longleftrightarrow> (\<forall>k cursor limit.
     fetch k cursor limit = Inr (take (min cap limit) (from_cursor cursor data)))"

text \<open>Candles on the grid of the timeframe: increasing, and at least one timeframe apart.\<close>

definition on_grid_of :: "int \<Rightarrow> raw_candle list \<Rightarrow> bool" where
  "on_grid_of tf data \<longleftrightarrow> sorted_wrt (\<lambda>a b. rc_ts a + tf \<le> rc_ts b) data"

lemma serves_bounded:
  assumes "serves data cap fetch" and "\<forall>c \<in> set data. rc_ts c \<le> T"
  shows "bounded_by T fetch"
  using assms by (auto simp: serves_def bounded_by_def from_cursor_def dest!: in_set_takeD)

lemma from_cursor_split:
  assumes "on_grid_of tf data" and "0 < tf" and "0 < n" and "n \<le> length (from_cursor cursor data)"
  shows "from_cursor (rc_ts (last (take n (from_cursor cursor data))) + tf) data =
     drop n (from_cursor cursor data)"
proof -
  let ?xs = "from_cursor cursor data"
  have sorted: "sorted_wrt (\<lambda>a b. rc_ts a + tf \<le> rc_ts b) ?xs"
    using assms(1) by (simp add: from_cursor_def on_grid_of_def sorted_wrt_filter)
  have last: "last (take n ?xs) = ?xs ! (n - 1)"
  proof -
    have "length (take n ?xs) = n" using assms(4) by simp
    then have "take n ?xs \<noteq> []" using assms(3) by (metis less_irrefl list.size(3))
    from last_conv_nth [OF this] \<open>length (take n ?xs) = n\<close> assms(3) show ?thesis by simp
  qed
  define t where "t = rc_ts (?xs ! (n - 1)) + tf"
  have n1: "n - 1 < length ?xs" using assms(3,4) by simp
  have ge: "cursor \<le> t"
    using nth_mem [OF n1] assms(2) by (auto simp: t_def from_cursor_def)
  have "from_cursor t data = filter (\<lambda>c. t \<le> rc_ts c) ?xs"
    using ge by (auto simp: from_cursor_def intro!: filter_cong)
  also have "\<dots> = filter (\<lambda>c. t \<le> rc_ts c) (take n ?xs) @ filter (\<lambda>c. t \<le> rc_ts c) (drop n ?xs)"
    by (metis append_take_drop_id filter_append)
  also have "filter (\<lambda>c. t \<le> rc_ts c) (take n ?xs) = []"
  proof -
    have "\<not> t \<le> rc_ts (?xs ! i)" if "i < n" for i
    proof (cases "i = n - 1")
      case True
      then show ?thesis using assms(2) by (simp add: t_def)
    next
      case False
      with that have "i < n - 1" by simp
      from sorted_wrt_nth_less [OF sorted this n1] assms(2) show ?thesis by (simp add: t_def)
    qed
    then show ?thesis by (auto simp: filter_empty_conv in_set_conv_nth)
  qed
  also have "filter (\<lambda>c. t \<le> rc_ts c) (drop n ?xs) = drop n ?xs"
  proof -
    have "t \<le> rc_ts (drop n ?xs ! i)" if "i < length (drop n ?xs)" for i
      using sorted_wrt_nth_less [OF sorted, of "n - 1" "n + i"] that assms(3) by (simp add: t_def)
    then show ?thesis by (auto simp: filter_id_conv in_set_conv_nth)
  qed
  finally show ?thesis by (simp add: t_def last)
qed

text \<open>With pages as large as requested, the pages together are the history from the cursor on.\<close>

lemma fetch_complete:
  assumes "serves data cap fetch" and "limit \<le> cap" and "0 < limit" and "0 < tf"
    and "on_grid_of tf data"
  shows "\<exists>pages. fetch_ohlcv_since fetch tf limit k cursor = Some (pages, None) \<and>
     concat pages = from_cursor cursor data"
proof (induction "length (from_cursor cursor data)" arbitrary: k cursor rule: less_induct)
  case less
  let ?xs = "from_cursor cursor data"
  have f: "fetch k cursor limit = Inr (take limit ?xs)"
    using assms(1,2) by (simp add: serves_def min_absorb2)
  show ?case
  proof (cases "?xs = []")
    case True
    then show ?thesis using f by (simp add: fetch_ohlcv_since.simps next_page_def)
  next
    case ne: False
    let ?t = "rc_ts (last (take limit ?xs)) + tf"
    have "last (take limit ?xs) \<in> set (take limit ?xs)"
      using ne assms(3) by (intro last_in_set) auto
    then have "cursor \<le> rc_ts (last (take limit ?xs))"
      by (auto simp: from_cursor_def dest!: in_set_takeD)
    then have adv: "\<not> ?t \<le> cursor" using assms(4) by simp
    show ?thesis
    proof (cases "length ?xs < limit")
      case True
      then have "next_page fetch tf limit k cursor = Inr (Some (?xs, None))"
        using f ne adv by (simp add: next_page_def Let_def)
      then show ?thesis by (simp add: fetch_ohlcv_since.simps)
    next
      case False
      have np: "next_page fetch tf limit k cursor = Inr (Some (take limit ?xs, Some ?t))"
        using f ne adv False assms(3) by (simp add: next_page_def Let_def)
      have rest: "from_cursor ?t data = drop limit ?xs"
        using from_cursor_split [OF assms(5,4,3)] False by simp
      then have "length (from_cursor ?t data) < length ?xs" using assms(3) ne by simp
      from less.hyps [OF this, of "Suc k"] obtain pages where
          "fetch_ohlcv_since fetch tf limit (Suc k) ?t = Some (pages, None)"
          "concat pages = drop limit ?xs"
        by (auto simp: rest)
      then show ?thesis using np
        by (intro exI [of _ "take limit ?xs # pages"]) (simp add: fetch_ohlcv_since.simps [of fetch tf limit k])
    qed
  qed
qed

text \<open>With smaller pages than requested the loop stops after the first one.\<close>

lemma fetch_capped:
  assumes "serves data cap fetch" and "cap < limit" and "0 < tf"
  shows "fetch_ohlcv_since fetch tf limit k cursor =
     Some (if from_cursor cursor data = [] \<or> cap = 0 then [] else [take cap (from_cursor cursor data)], None)"
  using assms
  by (auto simp: fetch_ohlcv_since.simps [of fetch tf limit k] next_page_def serves_def Let_def
      min_absorb1)

end
