(* ===== verification/Pipeline.thy ===== *)
theory Pipeline
  imports Database Exchange Frames
begin

text \<open>
  Candle storage and the incremental update: \<^verbatim>\<open>freqpanda_data/db.py\<close>, \<^verbatim>\<open>pipeline.py\<close> and
  \<^verbatim>\<open>config.py\<close>. A stored timestamp is in microseconds, as a \<^verbatim>\<open>datetime\<close> is; the conversions from and
  to the exchange's milliseconds go through floats, as in the code.
\<close>

section \<open>Configuration\<close>

record symbol_timeframe =
  sy_symbol :: string
  sy_timeframe :: string

record pipeline_config =
  pc_exchange_id :: string
  pc_pairs :: "symbol_timeframe list"
  pc_backfill_since :: string
  pc_database_url :: "string option"

definition database_url_env_vars :: "string list" where
  "database_url_env_vars = [''SUPABASE_DB_URL'', ''DATABASE_URL'']"

text \<open>The URL a connection is opened with: the argument, or the first non-empty variable.\<close>

fun first_url :: "(string \<Rightarrow> string option) \<Rightarrow> string option \<Rightarrow> string list \<Rightarrow> string option" where
  "first_url env url [] = url"
| "first_url env url (v # vs) = (case env v of
      Some (c # cs) \<Rightarrow> Some (c # cs)
    | other \<Rightarrow> first_url env other vs)"

definition connection_url :: "(string \<Rightarrow> string option) \<Rightarrow> string option \<Rightarrow> string res" where
  "connection_url env database_url =
     (let url = (case database_url of None \<Rightarrow> first_url env None database_url_env_vars | u \<Rightarrow> u) in
      case url of
        Some (c # cs) \<Rightarrow> Inr (c # cs)
      | _ \<Rightarrow> Inl (RuntimeError ''No database URL provided''))"

section \<open>Timestamps\<close>

definition exact :: "fl \<Rightarrow> rat" where
  "exact x = (case x of Fin q \<Rightarrow> q | _ \<Rightarrow> 0)"

text \<open>
  \<^verbatim>\<open>datetime.fromtimestamp(ms / 1000)\<close>: the float splits into whole seconds and a fraction, and
  the fraction is rounded to microseconds.
\<close>

definition candle_timestamp :: "int \<Rightarrow> int" where
  "candle_timestamp ms =
     (let x = exact (round64 (of_int ms / 1000)); whole = trunc_rat x; frac = x - of_int whole
      in whole * 1000000 + rhe (exact (round64 (frac * 1000000))))"

text \<open>\<^verbatim>\<open>int(latest.timestamp() * 1000)\<close>\<close>

definition timestamp_ms :: "int \<Rightarrow> int" where
  "timestamp_ms us = trunc_rat (exact (round64 (of_int us / 1000000) * Fin 1000))"

section \<open>The candle table\<close>

type_synonym candle_key = "string \<times> string \<times> string \<times> int"

record candle_cells =
  cc_open :: fl
  cc_high :: fl
  cc_low :: fl
  cc_close :: fl
  cc_volume :: fl

type_synonym candle_table = "(candle_key \<times> candle_cells) list"

definition candle_row :: "string \<Rightarrow> string \<Rightarrow> string \<Rightarrow> raw_candle \<Rightarrow> candle_key \<times> candle_cells" where
  "candle_row exchange symbol timeframe c =
     ((exchange, symbol, timeframe, candle_timestamp (rc_ts c)),
      \<lparr>cc_open = rc_open c, cc_high = rc_high c, cc_low = rc_low c, cc_close = rc_close c,
       cc_volume = rc_volume c\<rparr>)"

text \<open>
  One \<^verbatim>\<open>insert ... on conflict do update\<close>: a key twice in one statement is refused. \<^verbatim>\<open>execute_values\<close>
  sends the rows in statements of 100.
\<close>

definition upsert_statement :: "(candle_key \<times> candle_cells) list \<Rightarrow> candle_table \<Rightarrow> (candle_table \<times> unit) res" where
  "upsert_statement rows t =
     (if distinct (map fst rows) then Inr (foldl (\<lambda>t (k, v). put k v t) t rows, ())
      else Inl (DatabaseError ''ON CONFLICT DO UPDATE command cannot affect row a second time''))"

fun pages_of :: "nat \<Rightarrow> 'a list \<Rightarrow> 'a list list" where
  "pages_of n xs = (if xs = [] \<or> n = 0 then [] else take n xs # pages_of n (drop n xs))"

declare pages_of.simps [simp del]

definition upsert_candles ::
  "string \<Rightarrow> string \<Rightarrow> string \<Rightarrow> raw_candle list \<Rightarrow> (candle_table connection, nat) stm" where
  "upsert_candles exchange symbol timeframe candles =
     (if candles = [] then returnS 0
      else (let rows = map (candle_row exchange symbol timeframe) candles in
        seqS (forS (\<lambda>page. execute (upsert_statement page)) (pages_of 100 rows))
        (seqS commit (returnS (length rows)))))"

definition stored_timestamps :: "string \<Rightarrow> string \<Rightarrow> string \<Rightarrow> candle_table \<Rightarrow> int list" where
  "stored_timestamps exchange symbol timeframe t =
     map (\<lambda>((e, s, tf, ts), _). ts) (filter (\<lambda>((e, s, tf, ts), _). e = exchange \<and> s = symbol \<and> tf = timeframe) t)"

definition get_latest_timestamp_ms ::
  "string \<Rightarrow> string \<Rightarrow> string \<Rightarrow> (candle_table connection, int option) stm" where
  "get_latest_timestamp_ms exchange symbol timeframe =
     query (\<lambda>t. case stored_timestamps exchange symbol timeframe t of
         [] \<Rightarrow> None
       | ts # tss \<Rightarrow> Some (timestamp_ms (foldl max ts tss)))"

text \<open>
  The frame of the stored candles in a range, in order of time (nanoseconds); \<open>candles\<close> is the
  candle table of the database the connection is to.
\<close>

definition in_range :: "int option \<Rightarrow> int option \<Rightarrow> int \<Rightarrow> bool" where
  "in_range start stop ts \<longleftrightarrow> (case start of None \<Rightarrow> True | Some a \<Rightarrow> a \<le> ts) \<and>
     (case stop of None \<Rightarrow> True | Some b \<Rightarrow> ts \<le> b)"

definition select_candles ::
  "string \<Rightarrow> string \<Rightarrow> string \<Rightarrow> int option \<Rightarrow> int option \<Rightarrow> candle_table \<Rightarrow> (int \<times> candle_cells) list" where
  "select_candles exchange symbol timeframe start stop t =
     sort_key fst (List.map_filter (\<lambda>((e, s, tf, ts), v).
       if e = exchange \<and> s = symbol \<and> tf = timeframe \<and> in_range start stop ts then Some (ts, v) else None) t)"

definition candle_frame :: "(int \<times> candle_cells) list \<Rightarrow> frame" where
  "candle_frame rows = \<lparr>fr_index = map (\<lambda>(ts, _). ts * 1000) rows,
     fr_columns = [''open'' \<mapsto> map (cc_open \<circ> snd) rows, ''high'' \<mapsto> map (cc_high \<circ> snd) rows,
       ''low'' \<mapsto> map (cc_low \<circ> snd) rows, ''close'' \<mapsto> map (cc_close \<circ> snd) rows,
       ''volume'' \<mapsto> map (cc_volume \<circ> snd) rows]\<rparr>"

definition fetch_ohlcv_dataframe ::
  "('d \<Rightarrow> candle_table) \<Rightarrow> string \<Rightarrow> string \<Rightarrow> string \<Rightarrow> int option \<Rightarrow> int option \<Rightarrow>
     ('d connection, frame) stm" where
  "fetch_ohlcv_dataframe candles exchange symbol timeframe start stop =
     query (\<lambda>d. candle_frame (select_candles exchange symbol timeframe start stop (candles d)))"

section \<open>The incremental update\<close>

text \<open>
  The exchange object the update works with, for one pair: its pages, what \<^verbatim>\<open>parse_timeframe\<close> makes of
  the pair's timeframe (seconds, or the exception it raises), the clock at the start, and the clock it
  shows while the \<open>j\<close>-th candle of the \<open>k\<close>-th page is looked at.
\<close>

record exchange_view =
  ex_fetch :: fetcher
  ex_parse_timeframe :: "int res"
  ex_start_ms :: int
  ex_clock :: "nat \<Rightarrow> nat \<Rightarrow> int"

definition ex_timeframe_ms :: "exchange_view \<Rightarrow> int" where
  "ex_timeframe_ms ex = (case ex_parse_timeframe ex of Inr seconds \<Rightarrow> seconds * 1000 | Inl _ \<Rightarrow> 0)"

definition closed_of :: "exchange_view \<Rightarrow> nat \<Rightarrow> raw_candle list \<Rightarrow> raw_candle list" where
  "closed_of ex k batch = map snd (filter (\<lambda>(j, c). is_closed_candle c (ex_timeframe_ms ex) (ex_clock ex k j))
     (enumerate 0 batch))"

fun store_pages :: "exchange_view \<Rightarrow> string \<Rightarrow> string \<Rightarrow> string \<Rightarrow> nat \<Rightarrow> nat \<Rightarrow> raw_candle list list \<Rightarrow>
    (candle_table connection, nat) stm" where
  "store_pages ex exchange symbol timeframe k written [] = returnS written"
| "store_pages ex exchange symbol timeframe k written (batch # batches) =
     bindS (upsert_candles exchange symbol timeframe (closed_of ex k batch)) (\<lambda>n.
       store_pages ex exchange symbol timeframe (Suc k) (written + n) batches)"

text \<open>
  Where the update resumes: after the latest stored candle, else at the backfill date. A date that
  \<^verbatim>\<open>parse8601\<close> does not understand is \<^verbatim>\<open>None\<close>, and comparing it with the clock raises.
\<close>

definition resume_from :: "exchange_view \<Rightarrow> int option \<Rightarrow> int option \<Rightarrow> int res" where
  "resume_from ex default_since_ms latest = (case latest of
      Some latest_ms \<Rightarrow> Inr (latest_ms + ex_timeframe_ms ex)
    | None \<Rightarrow> (case default_since_ms of Some d \<Rightarrow> Inr d | None \<Rightarrow> Inl TypeError))"

definition update_symbol_timeframe ::
  "exchange_view \<Rightarrow> string \<Rightarrow> string \<Rightarrow> string \<Rightarrow> int option \<Rightarrow> candle_table connection \<Rightarrow>
     (candle_table connection \<times> nat res) option" where
  "update_symbol_timeframe ex exchange symbol timeframe default_since_ms c =
     (case ex_parse_timeframe ex of
        Inl e \<Rightarrow> Some (c, Inl e)
      | Inr _ \<Rightarrow> (case get_latest_timestamp_ms exchange symbol timeframe c of
            (c1, Inl e) \<Rightarrow> Some (c1, Inl e)
          | (c1, Inr latest) \<Rightarrow> (case resume_from ex default_since_ms latest of
                Inl e \<Rightarrow> Some (c1, Inl e)
              | Inr since_ms \<Rightarrow>
                  (if ex_start_ms ex \<le> since_ms then Some (c1, Inr 0)
                   else (case fetch_ohlcv_since (ex_fetch ex) (ex_timeframe_ms ex) default_page_limit 0 since_ms of
                       None \<Rightarrow> None
                     | Some (pages, err) \<Rightarrow> Some
                         (bindS (store_pages ex exchange symbol timeframe 0 0 pages) (\<lambda>written.
                           case err of None \<Rightarrow> returnS written | Some e \<Rightarrow> raiseS e) c1))))))"

text \<open>
  The loop over the pairs: a pair that raises is recorded as a failure and the loop goes on with
  the same connection. The key of a pair is \<^verbatim>\<open>SYMBOL:timeframe\<close>.
\<close>

definition pair_key :: "symbol_timeframe \<Rightarrow> string" where
  "pair_key p = sy_symbol p @ '':'' @ sy_timeframe p"

fun run_pairs :: "(symbol_timeframe \<Rightarrow> exchange_view) \<Rightarrow> string \<Rightarrow> int option \<Rightarrow> symbol_timeframe list \<Rightarrow>
    (string \<times> nat option) list \<Rightarrow> candle_table connection \<Rightarrow>
    (candle_table connection \<times> (string \<times> nat option) list) option" where
  "run_pairs view exchange default_since_ms [] results c = Some (c, results)"
| "run_pairs view exchange default_since_ms (p # ps) results c =
     (case update_symbol_timeframe (view p) exchange (sy_symbol p) (sy_timeframe p) default_since_ms c of
        None \<Rightarrow> None
      | Some (c', r) \<Rightarrow> run_pairs view exchange default_since_ms ps
          (put (pair_key p) (case r of Inl _ \<Rightarrow> None | Inr n \<Rightarrow> Some n) results) c')"

section \<open>Timestamps of whole seconds survive\<close>

definition whole_second :: "int \<Rightarrow> bool" where
  "whole_second ms \<longleftrightarrow> (\<exists>s. ms = 1000 * s \<and> \<bar>1000 * s\<bar> \<le> 2 ^ 53)"

lemma round64_int: "\<bar>i\<bar> \<le> 2 ^ 53 \<Longrightarrow> round64 (of_int i) = Fin (of_int i)"
  by (rule round64_of_int)

lemma exact_Fin [simp]: "exact (Fin q) = q"
  by (simp add: exact_def)

lemma trunc_of_int [simp]: "trunc_rat (of_int i) = i"
  by (simp add: trunc_rat_def)

lemma candle_timestamp_whole:
  assumes "\<bar>1000 * s\<bar> \<le> 2 ^ 53"
  shows "candle_timestamp (1000 * s) = 1000000 * s"
proof -
  have "\<bar>s\<bar> \<le> 2 ^ 53" using assms by simp
  then have "round64 (of_int (1000 * s) / 1000) = Fin (of_int s)" using round64_int [of s] by simp
  then show ?thesis using rhe_of_int [of 0] by (simp add: candle_timestamp_def Let_def)
qed

lemma timestamp_ms_whole:
  assumes "\<bar>1000 * s\<bar> \<le> 2 ^ 53"
  shows "timestamp_ms (1000000 * s) = 1000 * s"
proof -
  have "\<bar>s\<bar> \<le> 2 ^ 53" using assms by simp
  then have "round64 (of_int (1000000 * s) / 1000000) = Fin (of_int s)" using round64_int [of s] by simp
  moreover have "Fin (of_int s) * Fin 1000 = Fin (of_int (1000 * s))"
    using round64_int [OF assms] by (simp add: mult.commute)
  ultimately show ?thesis unfolding timestamp_ms_def by (simp only: exact_Fin trunc_of_int)
qed

lemma stored_timestamp_round_trip: "whole_second ms \<Longrightarrow> timestamp_ms (candle_timestamp ms) = ms"
  by (auto simp: whole_second_def candle_timestamp_whole timestamp_ms_whole)

lemma candle_timestamp_inj:
  "whole_second a \<Longrightarrow> whole_second b \<Longrightarrow> candle_timestamp a = candle_timestamp b \<longleftrightarrow> a = b"
  by (metis stored_timestamp_round_trip)

lemma candle_timestamp_mono:
  "whole_second a \<Longrightarrow> whole_second b \<Longrightarrow> a \<le> b \<Longrightarrow> candle_timestamp a \<le> candle_timestamp b"
  by (auto simp: whole_second_def candle_timestamp_whole)

section \<open>Invariants of the store\<close>

lemma put_keys_distinct: "keys_distinct t \<Longrightarrow> keys_distinct (put k v t)"
  by (rule alist.wf_upsert)

lemma set_put: "set (put k v t) \<subseteq> insert (k, v) (set t)"
  by (induction t) (auto simp: put_def)

lemma foldl_put_set: "set (foldl (\<lambda>t (k, v). put k v t) t kvs) \<subseteq> set t \<union> set kvs"
proof (induction kvs arbitrary: t)
  case (Cons kv kvs)
  obtain k v where "kv = (k, v)" by force
  with Cons [of "put k v t"] set_put [of k v t] show ?case by auto
qed simp

lemma upsert_statement_Inr:
  "upsert_statement rows t = Inr (t', x) \<longleftrightarrow> distinct (map fst rows) \<and>
     t' = foldl (\<lambda>t (k, v). put k v t) t rows"
  by (auto simp: upsert_statement_def)

lemma concat_pages_of: "0 < n \<Longrightarrow> concat (pages_of n xs) = xs"
proof (induction n xs rule: pages_of.induct)
  case (1 n xs)
  then show ?case by (cases "xs = []") (simp_all add: pages_of.simps [of n xs] pages_of.simps [of n "[]"])
qed

text \<open>
  A table that grew out of \<open>t\<close>: its keys are unique, none was lost, and what a key holds now it held
  before or is a row that satisfies \<open>R\<close>.
\<close>

definition grown :: "candle_table \<Rightarrow> (candle_key \<times> candle_cells \<Rightarrow> bool) \<Rightarrow> candle_table \<Rightarrow> bool" where
  "grown t R t' \<longleftrightarrow> keys_distinct t' \<and> (\<forall>k. map_of t k \<noteq> None \<longrightarrow> map_of t' k \<noteq> None) \<and>
     (\<forall>k. map_of t' k = map_of t k \<or> (\<exists>v. map_of t' k = Some v \<and> R (k, v)))"

lemma grown_refl: "keys_distinct t \<Longrightarrow> grown t R t"
  by (simp add: grown_def)

lemma grown_put: "grown t R t' \<Longrightarrow> R (k, v) \<Longrightarrow> grown t R (put k v t')"
  by (auto simp: grown_def put_keys_distinct alist.find_upsert)

lemma grown_rows:
  assumes "grown t R t'" and "row \<in> set t'"
  shows "row \<in> set t \<or> R row"
proof -
  obtain k v where row: "row = (k, v)" by (rule prod.exhaust)
  have "map_of t' k = Some v" using assms by (simp add: grown_def keys_distinct_def row)
  then show ?thesis using assms(1) unfolding grown_def row by (metis map_of_SomeD option.inject)
qed

lemma grown_puts: "grown t R t' \<Longrightarrow> \<forall>r \<in> set rows. R r \<Longrightarrow> grown t R (foldl (\<lambda>t (k, v). put k v t) t' rows)"
  by (induction rows arbitrary: t') (auto simp: grown_put)

lemma preserves_upsert:
  assumes "\<And>c. c \<in> set candles \<Longrightarrow> R (candle_row exchange symbol timeframe c)"
  shows "preserves (both (grown t R)) (upsert_candles exchange symbol timeframe candles)"
proof -
  let ?rows = "map (candle_row exchange symbol timeframe) candles"
  have page: "set page \<subseteq> set ?rows" if "page \<in> set (pages_of 100 ?rows)" for page
    using that concat_pages_of [of 100 ?rows] by (metis UN_upper set_concat zero_less_numeral)
  have "preserves (both (grown t R)) (execute (upsert_statement page))"
    if "page \<in> set (pages_of 100 ?rows)" for page
  proof (rule preserves_execute)
    fix t1 t2 x
    assume "grown t R t1" and "upsert_statement page t1 = Inr (t2, x)"
    moreover have "\<forall>r \<in> set page. R r" using page [OF that] assms by auto
    ultimately show "grown t R t2" by (simp add: upsert_statement_Inr grown_puts)
  qed
  then have "preserves (both (grown t R)) (forS (\<lambda>page. execute (upsert_statement page)) (pages_of 100 ?rows))"
    by (rule preserves_forS)
  then show ?thesis unfolding upsert_candles_def Let_def
    by (intro preserves_if preserves_returnS preserves_seqS preserves_commit)
qed

lemma closed_of_closed:
  assumes "c \<in> set (closed_of ex k batch)"
  shows "\<exists>j < length batch. c = batch ! j \<and> is_closed_candle c (ex_timeframe_ms ex) (ex_clock ex k j)"
  using assms by (auto simp: closed_of_def in_set_enumerate_eq)

lemma preserves_store:
  assumes "\<And>i j. i < length pages \<Longrightarrow> j < length (pages ! i) \<Longrightarrow>
      is_closed_candle (pages ! i ! j) (ex_timeframe_ms ex) (ex_clock ex (k + i) j) \<Longrightarrow>
      R (candle_row exchange symbol timeframe (pages ! i ! j))"
  shows "preserves (both (grown t R)) (store_pages ex exchange symbol timeframe k n pages)"
  using assms
proof (induction pages arbitrary: k n)
  case (Cons batch pages)
  have "R (candle_row exchange symbol timeframe c)" if "c \<in> set (closed_of ex k batch)" for c
    using closed_of_closed [OF that] Cons.prems [of 0] by auto
  then have "preserves (both (grown t R)) (upsert_candles exchange symbol timeframe (closed_of ex k batch))"
    by (rule preserves_upsert)
  moreover have "preserves (both (grown t R)) (store_pages ex exchange symbol timeframe (Suc k) m pages)" for m
    by (rule Cons.IH) (use Cons.prems [of "Suc i" for i] in auto)
  ultimately show ?case by (auto intro: preserve)
qed (auto intro: preserve)

section \<open>What an update commits\<close>

text \<open>
  The connection has nothing uncommitted; an update keeps it so: a failed statement throws its
  transaction away, and each page is committed before the next one is fetched.
\<close>

definition committed :: "'d connection \<Rightarrow> bool" where
  "committed c \<longleftrightarrow> cn_work c = cn_committed c"

lemma committed_fresh [simp]: "committed (fresh_connection t)"
  by (simp add: committed_def fresh_connection_def)

fun closed_candles :: "exchange_view \<Rightarrow> nat \<Rightarrow> raw_candle list list \<Rightarrow> raw_candle list" where
  "closed_candles ex k [] = []"
| "closed_candles ex k (batch # batches) = closed_of ex k batch @ closed_candles ex (Suc k) batches"

lemma page_executed:
  assumes "execute (upsert_statement page) c = (c', r)"
  shows "cn_committed c' = cn_committed c"
    and "r = Inl e \<Longrightarrow> committed c \<or> cn_status c \<noteq> Aborted \<Longrightarrow> committed c'"
    and "r = Inr u \<Longrightarrow> cn_status c' = InTx \<and> cn_work c' = foldl (\<lambda>t (k, v). put k v t) (cn_work c) page"
  using assms by (auto simp: run_execute upsert_statement_def committed_def split: if_splits)

lemma pages_executed:
  assumes "forS (\<lambda>page. execute (upsert_statement page)) pages c = (c', r)"
  shows "cn_committed c' = cn_committed c \<and> 
    (\<forall>e. r = Inl e \<longrightarrow> committed c \<or> cn_status c \<noteq> Aborted \<longrightarrow> committed c') \<and>
    (\<forall>u. r = Inr u \<longrightarrow> (pages \<noteq> [] \<longrightarrow> cn_status c' = InTx) \<and>
      cn_work c' = foldl (\<lambda>t (k, v). put k v t) (cn_work c) (concat pages))"
  using assms
proof (induction pages arbitrary: c)
  case (Cons page pages)
  obtain c1 r1 where one: "execute (upsert_statement page) c = (c1, r1)" by force
  show ?case
  proof (cases r1)
    case (Inl e)
    with Cons.prems one have "c1 = c'" "r = Inl e" by (simp_all add: run_seqS)
    with page_executed [OF one] Inl show ?thesis by simp
  next
    case (Inr u)
    with Cons.prems one have rest: "forS (\<lambda>page. execute (upsert_statement page)) pages c1 = (c', r)"
      by (simp add: run_seqS)
    with Cons.IH [OF rest] page_executed(1) [OF one] page_executed(3) [OF one Inr] show ?thesis
      by (cases "pages = []") (auto simp: run_returnS)
  qed
qed (auto simp: run_returnS)

lemma upsert_commits:
  assumes "upsert_candles exchange symbol timeframe candles c = (c', r)" and "committed c"
  shows "committed c'"
    and "r = Inr n \<Longrightarrow> n = length candles \<and>
      cn_work c' = foldl (\<lambda>t (k, v). put k v t) (cn_work c) (map (candle_row exchange symbol timeframe) candles)"
proof -
  let ?rows = "map (candle_row exchange symbol timeframe) candles"
  have "committed c' \<and> (\<forall>n. r = Inr n \<longrightarrow> n = length candles \<and>
      cn_work c' = foldl (\<lambda>t (k, v). put k v t) (cn_work c) ?rows)"
  proof (cases "candles = []")
    case False
    then have pages: "pages_of 100 ?rows \<noteq> []" and rows: "concat (pages_of 100 ?rows) = ?rows"
      using concat_pages_of [of 100 ?rows] by auto
    obtain c1 r1 where exec: "forS (\<lambda>page. execute (upsert_statement page)) (pages_of 100 ?rows) c = (c1, r1)" by force
    show ?thesis
    proof (cases r1)
      case (Inl e)
      with exec assms(1) False have "c1 = c'" "r = Inl e" by (simp_all add: upsert_candles_def Let_def run_seqS)
      with pages_executed [OF exec] Inl assms(2) show ?thesis by auto
    next
      case (Inr u)
      with pages_executed [OF exec] pages rows
      have "cn_status c1 = InTx" "cn_work c1 = foldl (\<lambda>t (k, v). put k v t) (cn_work c) ?rows" by auto
      with exec Inr assms False show ?thesis
        by (auto simp: upsert_candles_def Let_def st_simps committed_def)
    qed
  qed (use assms in \<open>auto simp: upsert_candles_def st_simps\<close>)
  then show "committed c'"
    and "r = Inr n \<Longrightarrow> n = length candles \<and> cn_work c' = foldl (\<lambda>t (k, v). put k v t) (cn_work c) ?rows"
    by auto
qed

lemma store_commits:
  assumes "store_pages ex exchange symbol timeframe k n pages c = (c', r)" and "committed c"
  shows "committed c' \<and> (\<forall>m. r = Inr m \<longrightarrow> m = n + length (closed_candles ex k pages) \<and>
    cn_work c' = foldl (\<lambda>t (k, v). put k v t) (cn_work c)
      (map (candle_row exchange symbol timeframe) (closed_candles ex k pages)))"
  using assms
proof (induction pages arbitrary: k n c)
  case (Cons batch pages)
  obtain c1 r1 where one: "upsert_candles exchange symbol timeframe (closed_of ex k batch) c = (c1, r1)" by force
  note c1 = upsert_commits [OF one Cons.prems(2)]
  show ?case
  proof (cases r1)
    case (Inl e)
    with one Cons.prems(1) have "c' = c1" "r = Inl e" by (simp_all add: run_bindS)
    with c1(1) show ?thesis by simp
  next
    case (Inr m)
    with one Cons.prems have "store_pages ex exchange symbol timeframe (Suc k) (n + m) pages c1 = (c', r)"
      by (simp add: run_bindS)
    from Cons.IH [OF this c1(1)] c1(2) [OF Inr] show ?thesis by (simp add: add.assoc)
  qed
qed (auto simp: st_simps)

section \<open>The stored frame\<close>

lemma select_candles_keys:
  assumes "keys_distinct t"
  shows "sorted_wrt (<) (map fst (select_candles exchange symbol timeframe start stop t))"
proof -
  let ?f = "\<lambda>((e, s, tf, ts), v).
       if e = exchange \<and> s = symbol \<and> tf = timeframe \<and> in_range start stop ts then Some (ts, v) else None"
  have "distinct (map fst (List.map_filter ?f t))"
    using assms
  proof (induction t)
    case (Cons r t)
    obtain e s tf ts v where r: "r = ((e, s, tf, ts), v)" by (metis prod.exhaust)
    have "ts \<notin> fst ` set (List.map_filter ?f t)" if "e = exchange \<and> s = symbol \<and> tf = timeframe"
      using Cons.prems that by (force simp: keys_distinct_def r List.map_filter_def split: if_splits)
    moreover have "keys_distinct t" using Cons.prems by (simp add: keys_distinct_def)
    ultimately show ?case using Cons.IH by (simp add: r List.map_filter_simps)
  qed (simp add: List.map_filter_simps)
  then have "distinct (map fst (sort_key fst (List.map_filter ?f t)))"
    by (simp add: distinct_map)
  moreover have "sorted (map fst (sort_key fst (List.map_filter ?f t)))" by (rule sorted_sort_key)
  ultimately show ?thesis unfolding select_candles_def strict_sorted_iff by simp
qed

lemma candle_frame_ok: "frame_ok (candle_frame rows)"
  by (auto simp: frame_ok_def candle_frame_def split: if_splits)

lemma candle_frame_index:
  "sorted_wrt (<) (map fst rows) \<Longrightarrow> sorted_wrt (<) (fr_index (candle_frame rows))"
  by (simp add: candle_frame_def sorted_wrt_map case_prod_beta)

section \<open>One failure poisons the connection\<close>

lemma update_aborted:
  assumes "cn_status c = Aborted"
  shows "\<exists>e. update_symbol_timeframe ex exchange symbol timeframe d c = Some (c, Inl e)"
  using assms by (cases "ex_parse_timeframe ex") (simp_all add: update_symbol_timeframe_def get_latest_timestamp_ms_def st_simps)

lemma run_pairs_aborted:
  assumes "cn_status c = Aborted"
  shows "run_pairs view exchange d ps results c =
     Some (c, foldl (\<lambda>rs p. put (pair_key p) None rs) results ps)"
  using assms
proof (induction ps arbitrary: results)
  case (Cons p ps)
  from update_aborted [OF Cons.prems] obtain e where
    "update_symbol_timeframe (view p) exchange (sy_symbol p) (sy_timeframe p) d c = Some (c, Inl e)" by blast
  with Cons show ?case by simp
qed simp

lemma upsert_duplicate_aborts:
  assumes "cn_status c \<noteq> Aborted" and "candles \<noteq> []" and "length candles \<le> 100"
    and "\<not> distinct (map (\<lambda>c. candle_timestamp (rc_ts c)) candles)"
  shows "cn_status (fst (upsert_candles exchange symbol timeframe candles c)) = Aborted"
proof -
  let ?rows = "map (candle_row exchange symbol timeframe) candles"
  have pages: "pages_of 100 ?rows = [?rows]"
    using assms(2,3) by (simp add: pages_of.simps [of 100 ?rows] pages_of.simps [of 100 "[]"])
  have "\<not> distinct (map fst ?rows)"
    using assms(4) by (auto simp: distinct_map candle_row_def comp_def inj_on_def)
  then show ?thesis using assms(1,2)
    by (simp add: upsert_candles_def Let_def pages st_simps upsert_statement_def)
qed

section \<open>A full update stores the history\<close>

lemma execute_pages:
  assumes "cn_status c \<noteq> Aborted" and "\<forall>page \<in> set pages. distinct (map fst page)"
  shows "\<exists>c'. forS (\<lambda>page. execute (upsert_statement page)) pages c = (c', Inr ()) \<and>
     cn_status c' \<noteq> Aborted \<and> cn_work c' = foldl (\<lambda>t (k, v). put k v t) (cn_work c) (concat pages)"
  using assms
proof (induction pages arbitrary: c)
  case (Cons page pages)
  let ?c1 = "c\<lparr>cn_work := foldl (\<lambda>t (k, v). put k v t) (cn_work c) page, cn_status := InTx\<rparr>"
  have "execute (upsert_statement page) c = (?c1, Inr ())"
    using Cons.prems by (simp add: run_execute upsert_statement_def)
  moreover from Cons.IH [of ?c1] Cons.prems(2) obtain c' where
      "forS (\<lambda>page. execute (upsert_statement page)) pages ?c1 = (c', Inr ())"
      "cn_status c' \<noteq> Aborted"
      "cn_work c' = foldl (\<lambda>t (k, v). put k v t) (cn_work ?c1) (concat pages)"
    by auto
  ultimately show ?case by (simp add: run_seqS)
qed simp

lemma upsert_candles_ok:
  assumes "cn_status c \<noteq> Aborted" and "candles \<noteq> []"
    and "distinct (map fst (map (candle_row exchange symbol timeframe) candles))"
  shows "\<exists>c'. upsert_candles exchange symbol timeframe candles c = (c', Inr (length candles)) \<and>
     cn_status c' = Idle \<and> cn_committed c' = cn_work c' \<and>
     cn_work c' = foldl (\<lambda>t (k, v). put k v t) (cn_work c) (map (candle_row exchange symbol timeframe) candles)"
proof -
  let ?rows = "map (candle_row exchange symbol timeframe) candles"
  have cp: "concat (pages_of 100 ?rows) = ?rows" by (rule concat_pages_of) simp
  have "\<forall>page \<in> set (pages_of 100 ?rows). distinct (map fst page)"
    using assms(3) distinct_concat_iff [of "map (map fst) (pages_of 100 ?rows)"] cp
    by (metis (no_types, lifting) distinct_concat_iff imageI list.set_map map_concat)
  from execute_pages [OF assms(1) this] obtain c' where
      "forS (\<lambda>page. execute (upsert_statement page)) (pages_of 100 ?rows) c = (c', Inr ())"
      "cn_status c' \<noteq> Aborted" "cn_work c' = foldl (\<lambda>t (k, v). put k v t) (cn_work c) ?rows"
    unfolding cp by blast
  then show ?thesis using assms(2) by (simp add: upsert_candles_def Let_def st_simps)
qed

lemma store_pages_ok:
  assumes "cn_status c \<noteq> Aborted"
    and "distinct (map fst (map (candle_row exchange symbol timeframe) (closed_candles ex k pages)))"
  shows "\<exists>c'. store_pages ex exchange symbol timeframe k n pages c = (c', Inr (n + length (closed_candles ex k pages))) \<and>
     cn_status c' \<noteq> Aborted \<and> (closed_candles ex k pages \<noteq> [] \<longrightarrow> cn_committed c' = cn_work c') \<and>
     (closed_candles ex k pages = [] \<longrightarrow> c' = c) \<and>
     cn_work c' = foldl (\<lambda>t (k, v). put k v t) (cn_work c)
       (map (candle_row exchange symbol timeframe) (closed_candles ex k pages))"
  using assms
proof (induction pages arbitrary: c k n)
  case (Cons batch pages)
  let ?closed = "closed_of ex k batch" and ?rest = "closed_candles ex (Suc k) pages"
  show ?case
  proof (cases "?closed = []")
    case True
    with Cons.IH [OF Cons.prems(1), of "Suc k" n] Cons.prems(2) show ?thesis
      by (simp add: run_bindS upsert_candles_def)
  next
    case False
    have "distinct (map fst (map (candle_row exchange symbol timeframe) ?closed))" using Cons.prems(2) by simp
    from upsert_candles_ok [OF Cons.prems(1) False this] obtain c1 where
        c1: "upsert_candles exchange symbol timeframe ?closed c = (c1, Inr (length ?closed))"
        "cn_status c1 = Idle" "cn_committed c1 = cn_work c1"
        "cn_work c1 = foldl (\<lambda>t (k, v). put k v t) (cn_work c) (map (candle_row exchange symbol timeframe) ?closed)"
      by blast
    have "cn_status c1 \<noteq> Aborted" "distinct (map fst (map (candle_row exchange symbol timeframe) ?rest))"
      using c1(2) Cons.prems(2) by simp_all
    from Cons.IH [OF this, of "n + length ?closed"] obtain c' where
        c': "store_pages ex exchange symbol timeframe (Suc k) (n + length ?closed) pages c1 =
          (c', Inr (n + length ?closed + length ?rest))"
        "cn_status c' \<noteq> Aborted" "?rest \<noteq> [] \<longrightarrow> cn_committed c' = cn_work c'" "?rest = [] \<longrightarrow> c' = c1"
        "cn_work c' = foldl (\<lambda>t (k, v). put k v t) (cn_work c1) (map (candle_row exchange symbol timeframe) ?rest)"
      by blast
    have "store_pages ex exchange symbol timeframe k n (batch # pages) c = (c', Inr (n + length (closed_candles ex k (batch # pages))))"
      using c1(1) c'(1) by (simp add: run_bindS add.assoc)
    moreover have "cn_committed c' = cn_work c'" using c1(3) c'(3,4) by (cases "?rest = []") auto
    ultimately show ?thesis using False c1(4) c'(2,5) by auto
  qed
qed simp

text \<open>Which timestamps are stored, by lookup.\<close>

lemma stored_timestamps_iff:
  "ts \<in> set (stored_timestamps exchange symbol timeframe t) \<longleftrightarrow>
     map_of t (exchange, symbol, timeframe, ts) \<noteq> None"
  unfolding stored_timestamps_def map_of_eq_None_iff by force

lemma foldl_max: "foldl max x xs = Max (set (x # xs))" for x :: int
  using Max.set_eq_fold [of x xs] by (simp add: foldl_conv_fold max.commute fun_eq_iff cong: fold_cong)

text \<open>The time of the latest stored candle, in milliseconds, read off the table.\<close>

definition latest_ms :: "string \<Rightarrow> string \<Rightarrow> string \<Rightarrow> candle_table \<Rightarrow> int option" where
  "latest_ms exchange symbol timeframe t = (let S = set (stored_timestamps exchange symbol timeframe t) in
     if S = {} then None else Some (timestamp_ms (Max S)))"

lemma get_latest_eq:
  assumes "cn_status c \<noteq> Aborted"
  shows "get_latest_timestamp_ms exchange symbol timeframe c =
    (c\<lparr>cn_status := InTx\<rparr>, Inr (latest_ms exchange symbol timeframe (cn_work c)))"
  using assms
  by (cases "stored_timestamps exchange symbol timeframe (cn_work c)")
    (simp_all add: get_latest_timestamp_ms_def run_query foldl_max latest_ms_def Let_def)

text \<open>An update that got as far as its pages, and one that did not.\<close>

lemma update_cases:
  assumes "update_symbol_timeframe ex exchange symbol timeframe d c = Some (c', r)"
  obtains (refused) e where "r = Inl e" "cn_work c' = cn_work c" "cn_committed c' = cn_committed c"
  | (recent) since where "resume_from ex d (latest_ms exchange symbol timeframe (cn_work c)) = Inr since"
      "ex_start_ms ex \<le> since" "r = Inr 0" "cn_work c' = cn_work c" "cn_committed c' = cn_committed c"
  | (pages) since pages err m where "resume_from ex d (latest_ms exchange symbol timeframe (cn_work c)) = Inr since"
      "\<not> ex_start_ms ex \<le> since"
      "fetch_ohlcv_since (ex_fetch ex) (ex_timeframe_ms ex) default_page_limit 0 since = Some (pages, err)"
      "store_pages ex exchange symbol timeframe 0 0 pages (c\<lparr>cn_status := InTx\<rparr>) = (c', m)"
      "r = (case m of Inl e \<Rightarrow> Inl e | Inr n \<Rightarrow> (case err of None \<Rightarrow> Inr n | Some e \<Rightarrow> Inl e))"
proof (cases "ex_parse_timeframe ex")
  case (Inl e)
  with assms show ?thesis by (intro refused [of e]) (simp_all add: update_symbol_timeframe_def)
next
  case parsed: (Inr s)
  show ?thesis
  proof (cases "cn_status c = Aborted")
    case True
    from update_aborted [OF this, of ex exchange symbol timeframe d] assms show ?thesis by (auto intro: refused)
  next
    case False
    let ?latest = "latest_ms exchange symbol timeframe (cn_work c)"
    show ?thesis
    proof (cases "resume_from ex d ?latest")
      case (Inl e)
      with assms parsed get_latest_eq [OF False] show ?thesis
        by (intro refused [of e]) (auto simp: update_symbol_timeframe_def)
    next
      case since: (Inr since)
      show ?thesis
      proof (cases "ex_start_ms ex \<le> since")
        case True
        with assms parsed since get_latest_eq [OF False] show ?thesis
          by (intro recent [of since]) (auto simp: update_symbol_timeframe_def)
      next
        case late: False
        with assms parsed since get_latest_eq [OF False] obtain pages err where
            f: "fetch_ohlcv_since (ex_fetch ex) (ex_timeframe_ms ex) default_page_limit 0 since = Some (pages, err)"
          by (auto simp: update_symbol_timeframe_def split: option.splits)
        obtain c1 m where s: "store_pages ex exchange symbol timeframe 0 0 pages (c\<lparr>cn_status := InTx\<rparr>) = (c1, m)" by force
        have "c1 = c' \<and> r = (case m of Inl e \<Rightarrow> Inl e | Inr n \<Rightarrow> (case err of None \<Rightarrow> Inr n | Some e \<Rightarrow> Inl e))"
          using assms parsed since late f s get_latest_eq [OF False]
          by (auto simp: update_symbol_timeframe_def st_simps split: sum.splits option.splits)
        with since late f s show ?thesis by (intro pages) auto
      qed
    qed
  qed
qed

lemma update_grown:
  assumes update: "update_symbol_timeframe ex exchange symbol timeframe d c = Some (c', r)"
    and before: "both (grown t R) c"
    and new: "\<And>since pages err i j. resume_from ex d (latest_ms exchange symbol timeframe (cn_work c)) = Inr since \<Longrightarrow>
      fetch_ohlcv_since (ex_fetch ex) (ex_timeframe_ms ex) default_page_limit 0 since = Some (pages, err) \<Longrightarrow>
      i < length pages \<Longrightarrow> j < length (pages ! i) \<Longrightarrow> is_closed_candle (pages ! i ! j) (ex_timeframe_ms ex) (ex_clock ex i j) \<Longrightarrow>
      R (candle_row exchange symbol timeframe (pages ! i ! j))"
  shows "both (grown t R) c'"
  using update
proof (cases rule: update_cases)
  case (pages since pages err m)
  have "preserves (both (grown t R)) (store_pages ex exchange symbol timeframe 0 0 pages)"
    using new [OF pages(1,3)] by (intro preserves_store) auto
  moreover have "both (grown t R) (c\<lparr>cn_status := InTx\<rparr>)" using before by (simp add: both_def)
  ultimately show ?thesis using pages(4) unfolding preserves_def by (metis fst_conv)
qed (use before in \<open>simp_all add: both_def\<close>)

text \<open>
  What an update that reports \<open>n\<close> candles has done to its series: the closed candles of the pages from
  where it resumed are stored, \<open>n\<close> in all, and the candles with other times are as before.
\<close>

definition updated_pair :: "exchange_view \<Rightarrow> string \<Rightarrow> int option \<Rightarrow> symbol_timeframe \<Rightarrow> candle_table \<Rightarrow> nat \<Rightarrow> candle_table \<Rightarrow> bool" where
  "updated_pair ex exchange d p t n t' \<longleftrightarrow> (\<exists>since pages.
     resume_from ex d (latest_ms exchange (sy_symbol p) (sy_timeframe p) t) = Inr since \<and>
     (if ex_start_ms ex \<le> since then pages = []
      else fetch_ohlcv_since (ex_fetch ex) (ex_timeframe_ms ex) default_page_limit 0 since = Some (pages, None)) \<and>
     n = length (closed_candles ex 0 pages) \<and>
     (\<forall>ts. map_of t' (exchange, sy_symbol p, sy_timeframe p, ts) =
       (case map_of (rev (map (candle_row exchange (sy_symbol p) (sy_timeframe p)) (closed_candles ex 0 pages)))
            (exchange, sy_symbol p, sy_timeframe p, ts) of
          Some v \<Rightarrow> Some v
        | None \<Rightarrow> map_of t (exchange, sy_symbol p, sy_timeframe p, ts))))"

lemma update_commits:
  assumes update: "update_symbol_timeframe ex exchange (sy_symbol p) (sy_timeframe p) d c = Some (c', r)"
    and c: "committed c" "keys_distinct (cn_work c)"
  shows "committed c'" and "r = Inr n \<Longrightarrow> updated_pair ex exchange d p (cn_work c) n (cn_work c')"
proof -
  have "committed c' \<and> (\<forall>n. r = Inr n \<longrightarrow> updated_pair ex exchange d p (cn_work c) n (cn_work c'))"
    using update
  proof (cases rule: update_cases)
    case (recent since)
    then show ?thesis using c(1) by (auto simp: committed_def updated_pair_def)
  next
    case (pages since pages err m)
    have "committed (c\<lparr>cn_status := InTx\<rparr>)" using c(1) by (simp add: committed_def)
    from store_commits [OF pages(4) this] have stored: "committed c'"
      "\<And>n. m = Inr n \<Longrightarrow> n = length (closed_candles ex 0 pages) \<and> cn_work c' = foldl (\<lambda>t (k, v). put k v t) (cn_work c)
        (map (candle_row exchange (sy_symbol p) (sy_timeframe p)) (closed_candles ex 0 pages))"
      by auto
    have "updated_pair ex exchange d p (cn_work c) n (cn_work c')" if "r = Inr n" for n
    proof -
      have m: "m = Inr n" "err = None" using that pages(5) by (auto split: sum.splits option.splits)
      then show ?thesis unfolding updated_pair_def
        by (intro exI [of _ since] exI [of _ pages]) (use pages(1-3) stored(2) [OF m(1)] in \<open>simp add: alist.find_upserts [OF c(2)]\<close>)
    qed
    with stored(1) show ?thesis by blast
  qed (use c in \<open>simp add: committed_def\<close>)
  then show "committed c'" and "r = Inr n \<Longrightarrow> updated_pair ex exchange d p (cn_work c) n (cn_work c')" by auto
qed

text \<open>
  The exchange of a full update: it serves \<open>data\<close> and after it \<open>forming\<close>, on the grid of the timeframe
  and in pages as large as asked for. The candles of \<open>data\<close> are of whole seconds and have closed
  whenever the clock is read; those of \<open>forming\<close> (as a rule the current candle) have not closed yet.
\<close>

definition settled :: "exchange_view \<Rightarrow> raw_candle list \<Rightarrow> raw_candle list \<Rightarrow> bool" where
  "settled ex data forming \<longleftrightarrow> (\<exists>cap. serves (data @ forming) cap (ex_fetch ex) \<and> default_page_limit \<le> cap) \<and>
     (\<exists>seconds. ex_parse_timeframe ex = Inr seconds \<and> 0 < seconds) \<and> on_grid_of (ex_timeframe_ms ex) (data @ forming) \<and>
     (\<forall>x \<in> set data. whole_second (rc_ts x)) \<and>
     (\<forall>x \<in> set data. \<forall>k j. is_closed_candle x (ex_timeframe_ms ex) (ex_clock ex k j)) \<and>
     (\<forall>x \<in> set forming. \<forall>k j. \<not> is_closed_candle x (ex_timeframe_ms ex) (ex_clock ex k j))"

lemma settled_timeframe: "settled ex data forming \<Longrightarrow> 0 < ex_timeframe_ms ex"
  by (auto simp: settled_def ex_timeframe_ms_def)

lemma settled_grid: "settled ex data forming \<Longrightarrow> on_grid_of (ex_timeframe_ms ex) data"
  by (simp add: settled_def on_grid_of_def sorted_wrt_append)

lemma grid_sorted: "on_grid_of tf data \<Longrightarrow> 0 < tf \<Longrightarrow> sorted_wrt (<) (map rc_ts data)"
  unfolding on_grid_of_def sorted_wrt_map by (erule sorted_wrt_mono_rel [rotated]) auto

lemma distinct_candle_keys:
  assumes "distinct (map rc_ts xs)" and "\<forall>x \<in> set xs. whole_second (rc_ts x)"
  shows "distinct (map fst (map (candle_row exchange symbol timeframe) xs))"
  using assms by (induction xs) (auto simp: candle_row_def candle_timestamp_inj)

text \<open>Which of the candles have closed does not depend on when they are looked at.\<close>

lemma closed_candles_filter:
  assumes "\<forall>x \<in> set (concat pages). \<forall>k j. is_closed_candle x (ex_timeframe_ms ex) (ex_clock ex k j) = P x"
  shows "closed_candles ex k pages = filter P (concat pages)"
  using assms
proof (induction pages arbitrary: k)
  case (Cons batch pages)
  have "filter (\<lambda>(j, x). is_closed_candle x (ex_timeframe_ms ex) (ex_clock ex k j)) (enumerate 0 batch) =
      filter (P \<circ> snd) (enumerate 0 batch)"
    using Cons.prems by (auto simp: in_set_enumerate_eq intro!: filter_cong)
  then have "closed_of ex k batch = filter P batch"
    by (simp add: closed_of_def filter_map [symmetric])
  with Cons show ?case by simp
qed simp

lemma from_cursor_append: "from_cursor since (xs @ ys) = from_cursor since xs @ from_cursor since ys"
  by (simp add: from_cursor_def)

lemma settled_pages:
  assumes "settled ex data forming"
  obtains pages where "fetch_ohlcv_since (ex_fetch ex) (ex_timeframe_ms ex) default_page_limit 0 since = Some (pages, None)"
    and "closed_candles ex 0 pages = from_cursor since data"
proof -
  from assms obtain cap where ex: "serves (data @ forming) cap (ex_fetch ex)" "default_page_limit \<le> cap"
      "on_grid_of (ex_timeframe_ms ex) (data @ forming)"
    by (auto simp: settled_def)
  have "0 < default_page_limit" by (simp add: default_page_limit_def)
  from fetch_complete [OF ex(1,2) this settled_timeframe [OF assms] ex(3), of 0 since] obtain pages where
      f: "fetch_ohlcv_since (ex_fetch ex) (ex_timeframe_ms ex) default_page_limit 0 since = Some (pages, None)"
      and cp: "concat pages = from_cursor since (data @ forming)" by blast
  have "closed_candles ex 0 pages = filter (\<lambda>x. x \<in> set data) (concat pages)"
    by (rule closed_candles_filter) (use assms in \<open>auto simp: cp from_cursor_def settled_def\<close>)
  also have "\<dots> = from_cursor since data"
  proof -
    have "x \<notin> set data" if "x \<in> set forming" for x using assms that by (auto simp: settled_def)
    then have "filter (\<lambda>x. x \<in> set data) (from_cursor since forming) = []" by (auto simp: from_cursor_def filter_empty_conv)
    moreover have "filter (\<lambda>x. x \<in> set data) (from_cursor since data) = from_cursor since data"
      by (auto simp: filter_id_conv from_cursor_def simp del: filter_filter)
    ultimately show ?thesis by (simp add: cp from_cursor_append)
  qed
  finally show ?thesis using that f by blast
qed

lemma update_stores:
  assumes "settled ex data forming" and "cn_status c \<noteq> Aborted" and "keys_distinct (cn_work c)"
    and "stored_timestamps exchange symbol timeframe (cn_work c) = []" and "d < ex_start_ms ex"
  shows "\<exists>c'. update_symbol_timeframe ex exchange symbol timeframe (Some d) c =
       Some (c', Inr (length (from_cursor d data))) \<and> cn_status c' \<noteq> Aborted \<and>
     (from_cursor d data \<noteq> [] \<longrightarrow> cn_committed c' = cn_work c') \<and>
     cn_work c' = foldl (\<lambda>t (k, v). put k v t) (cn_work c)
       (map (candle_row exchange symbol timeframe) (from_cursor d data))"
proof -
  from assms(1) obtain seconds where parsed: "ex_parse_timeframe ex = Inr seconds" by (auto simp: settled_def)
  from settled_pages [OF assms(1), of d] obtain pages where
      f: "fetch_ohlcv_since (ex_fetch ex) (ex_timeframe_ms ex) default_page_limit 0 d = Some (pages, None)"
      and closed: "closed_candles ex 0 pages = from_cursor d data" by blast
  let ?c1 = "c\<lparr>cn_status := InTx\<rparr>"
  have "distinct (map rc_ts data)"
    using grid_sorted [OF settled_grid settled_timeframe] assms(1) by (blast intro: sorted_wrt_less_distinct)
  then have "distinct (map rc_ts (from_cursor d data))" by (simp add: from_cursor_def distinct_map inj_on_def)
  then have dk: "distinct (map fst (map (candle_row exchange symbol timeframe) (closed_candles ex 0 pages)))"
    unfolding closed by (rule distinct_candle_keys) (use assms(1) in \<open>auto simp: settled_def from_cursor_def\<close>)
  have st: "cn_status ?c1 \<noteq> Aborted" by simp
  from store_pages_ok [OF st dk, of 0]
  obtain c' where s: "store_pages ex exchange symbol timeframe 0 0 pages ?c1 = (c', Inr (length (from_cursor d data)))"
      "cn_status c' \<noteq> Aborted" "from_cursor d data \<noteq> [] \<longrightarrow> cn_committed c' = cn_work c'"
      "cn_work c' = foldl (\<lambda>t (k, v). put k v t) (cn_work c) (map (candle_row exchange symbol timeframe) (from_cursor d data))"
    by (auto simp: closed)
  have "get_latest_timestamp_ms exchange symbol timeframe c = (?c1, Inr None)"
    using assms(2,4) by (simp add: get_latest_eq latest_ms_def)
  then have "update_symbol_timeframe ex exchange symbol timeframe (Some d) c =
      Some (c', Inr (length (from_cursor d data)))"
    using assms(5) f s(1) parsed by (simp add: update_symbol_timeframe_def resume_from_def run_bindS)
  then show ?thesis using s(2-4) by blast
qed

text \<open>Running it again finds nothing newer that has closed.\<close>

lemma update_again:
  assumes "settled ex data forming" and "cn_status c \<noteq> Aborted" and "x \<in> set data"
    and "map_of (cn_work c) (exchange, symbol, timeframe, candle_timestamp (rc_ts x)) \<noteq> None"
    and "\<And>ts. map_of (cn_work c) (exchange, symbol, timeframe, ts) \<noteq> None \<Longrightarrow> ts \<le> candle_timestamp (rc_ts x)"
    and "\<forall>y \<in> set data. rc_ts y \<le> rc_ts x"
  shows "update_symbol_timeframe ex exchange symbol timeframe d c = Some (c\<lparr>cn_status := InTx\<rparr>, Inr 0)"
proof -
  let ?S = "set (stored_timestamps exchange symbol timeframe (cn_work c))"
  let ?ts = "candle_timestamp (rc_ts x)"
  have "?ts \<in> ?S" and le: "\<And>ts. ts \<in> ?S \<Longrightarrow> ts \<le> ?ts"
    using assms(4,5) by (simp_all add: stored_timestamps_iff)
  then have max: "Max ?S = ?ts" and ne: "?S \<noteq> {}" by (auto intro: Max_eqI)
  have "timestamp_ms ?ts = rc_ts x"
    using assms(1,3) by (auto simp: settled_def intro: stored_timestamp_round_trip)
  then have latest: "get_latest_timestamp_ms exchange symbol timeframe c =
      (c\<lparr>cn_status := InTx\<rparr>, Inr (Some (rc_ts x)))"
    using get_latest_eq [OF assms(2)] max ne by (simp add: latest_ms_def)
  from assms(1) obtain seconds where parsed: "ex_parse_timeframe ex = Inr seconds" by (auto simp: settled_def)
  have "from_cursor (rc_ts x + ex_timeframe_ms ex) data = []"
    using settled_timeframe [OF assms(1)] assms(6) by (auto simp: from_cursor_def filter_empty_conv)
  with settled_pages [OF assms(1), of "rc_ts x + ex_timeframe_ms ex"] obtain pages where
      f: "fetch_ohlcv_since (ex_fetch ex) (ex_timeframe_ms ex) default_page_limit 0 (rc_ts x + ex_timeframe_ms ex) = Some (pages, None)"
      and closed: "closed_candles ex 0 pages = []" by metis
  have "store_pages ex exchange symbol timeframe 0 0 pages (c\<lparr>cn_status := InTx\<rparr>) = (c\<lparr>cn_status := InTx\<rparr>, Inr 0)"
    using store_pages_ok [of "c\<lparr>cn_status := InTx\<rparr>" exchange symbol timeframe ex 0 pages 0] closed by simp
  with latest f parsed show ?thesis by (simp add: update_symbol_timeframe_def resume_from_def run_bindS)
qed

text \<open>
  The first update of a pair: what it stores, that the other series are as before, and that from then on
  an update finds nothing newer, whatever happens to the other series.
\<close>

lemma update_new_pair:
  assumes "settled ex data forming" and "cn_status c \<noteq> Aborted" and "keys_distinct (cn_work c)"
    and "stored_timestamps exchange symbol timeframe (cn_work c) = []" and "d < ex_start_ms ex" and "from_cursor d data \<noteq> []"
  obtains c' where "update_symbol_timeframe ex exchange symbol timeframe (Some d) c = Some (c', Inr (length (from_cursor d data)))"
    and "cn_status c' \<noteq> Aborted" and "cn_committed c' = cn_work c'" and "keys_distinct (cn_work c')"
    and "\<forall>x \<in> set (from_cursor d data). map_of (cn_work c') (fst (candle_row exchange symbol timeframe x)) =
      Some (snd (candle_row exchange symbol timeframe x))"
    and "\<And>ts. map_of (cn_work c') (exchange, symbol, timeframe, ts) \<noteq> None \<Longrightarrow>
      \<exists>x \<in> set (from_cursor d data). ts = candle_timestamp (rc_ts x)"
    and "\<And>e' s' tf' ts. (e', s', tf') \<noteq> (exchange, symbol, timeframe) \<Longrightarrow>
      map_of (cn_work c') (e', s', tf', ts) = map_of (cn_work c) (e', s', tf', ts)"
    and "\<And>c2. cn_status c2 \<noteq> Aborted \<Longrightarrow>
      (\<And>ts. map_of (cn_work c2) (exchange, symbol, timeframe, ts) = map_of (cn_work c') (exchange, symbol, timeframe, ts)) \<Longrightarrow>
      update_symbol_timeframe ex exchange symbol timeframe (Some d) c2 = Some (c2\<lparr>cn_status := InTx\<rparr>, Inr 0)"
proof -
  let ?rows = "map (candle_row exchange symbol timeframe) (from_cursor d data)"
  have ex: "0 < ex_timeframe_ms ex" "on_grid_of (ex_timeframe_ms ex) data"
      "\<forall>x \<in> set data. whole_second (rc_ts x)"
    using settled_timeframe [OF assms(1)] settled_grid [OF assms(1)] assms(1) by (simp_all add: settled_def)
  from update_stores [OF assms(1-5)] assms(6) obtain c' where
      u: "update_symbol_timeframe ex exchange symbol timeframe (Some d) c =
        Some (c', Inr (length (from_cursor d data)))"
      "cn_status c' \<noteq> Aborted" "cn_committed c' = cn_work c'"
      "cn_work c' = foldl (\<lambda>t (k, v). put k v t) (cn_work c) ?rows"
    by blast
  have incr: "sorted_wrt (<) (map rc_ts (from_cursor d data))"
    using grid_sorted [OF ex(2,1)] by (simp add: from_cursor_def sorted_wrt_map sorted_wrt_filter)
  have dk: "distinct (map fst ?rows)"
    using incr ex(3) by (intro distinct_candle_keys sorted_wrt_less_distinct) (auto simp: from_cursor_def)
  have look: "map_of (cn_work c') k = (case map_of ?rows k of Some v \<Rightarrow> Some v | None \<Rightarrow> map_of (cn_work c) k)" for k
    using alist.find_upserts [OF assms(3), of ?rows k] dk by (simp add: u(4) distinct_map_of_rev)
  have none: "map_of (cn_work c) (exchange, symbol, timeframe, ts) = None" for ts
    using stored_timestamps_iff [of ts exchange symbol timeframe "cn_work c"] assms(4) by auto
  define x where "x = last (from_cursor d data)"
  have x: "x \<in> set (from_cursor d data)" using assms(6) by (simp add: x_def)
  have stored: "map_of (cn_work c') (fst (candle_row exchange symbol timeframe y)) =
      Some (snd (candle_row exchange symbol timeframe y))" if "y \<in> set (from_cursor d data)" for y
  proof -
    have "(fst (candle_row exchange symbol timeframe y), snd (candle_row exchange symbol timeframe y)) \<in> set ?rows"
      using that by simp
    from map_of_is_SomeI [OF dk this] show ?thesis by (simp only: look option.case)
  qed
  have only: "\<exists>y \<in> set (from_cursor d data). ts = candle_timestamp (rc_ts y)"
    if "map_of (cn_work c') (exchange, symbol, timeframe, ts) \<noteq> None" for ts
    using that by (auto simp: look none candle_row_def split: option.splits dest!: map_of_SomeD)
  have last: "rc_ts y \<le> rc_ts x" if "y \<in> set (from_cursor d data)" for y
    using sorted_wrt_last [OF incr that assms(6)] by (simp add: x_def)
  have all: "\<forall>y \<in> set data. rc_ts y \<le> rc_ts x"
  proof
    fix y assume "y \<in> set data"
    then show "rc_ts y \<le> rc_ts x"
      using last [of y] x by (cases "d \<le> rc_ts y") (auto simp: from_cursor_def)
  qed
  show ?thesis
  proof (rule that [OF u(1-3)])
    show "keys_distinct (cn_work c')" unfolding u(4) by (rule alist.wf_upserts [OF assms(3)])
    show "\<forall>x \<in> set (from_cursor d data). map_of (cn_work c') (fst (candle_row exchange symbol timeframe x)) =
        Some (snd (candle_row exchange symbol timeframe x))" using stored by blast
    show "\<exists>x \<in> set (from_cursor d data). ts = candle_timestamp (rc_ts x)"
      if "map_of (cn_work c') (exchange, symbol, timeframe, ts) \<noteq> None" for ts using only [OF that] .
    show "map_of (cn_work c') (e', s', tf', ts) = map_of (cn_work c) (e', s', tf', ts)"
      if "(e', s', tf') \<noteq> (exchange, symbol, timeframe)" for e' s' tf' ts
      using that by (auto simp: look candle_row_def split: option.splits dest!: map_of_SomeD)
    show "update_symbol_timeframe ex exchange symbol timeframe (Some d) c2 = Some (c2\<lparr>cn_status := InTx\<rparr>, Inr 0)"
      if c2: "cn_status c2 \<noteq> Aborted"
        "\<And>ts. map_of (cn_work c2) (exchange, symbol, timeframe, ts) = map_of (cn_work c') (exchange, symbol, timeframe, ts)" for c2
    proof (rule update_again [OF assms(1) c2(1)])
      show "x \<in> set data" using x by (simp add: from_cursor_def)
      show "map_of (cn_work c2) (exchange, symbol, timeframe, candle_timestamp (rc_ts x)) \<noteq> None"
        using stored [OF x] c2(2) by (simp add: candle_row_def)
      fix ts
      assume "map_of (cn_work c2) (exchange, symbol, timeframe, ts) \<noteq> None"
      then obtain y where y: "y \<in> set (from_cursor d data)" "ts = candle_timestamp (rc_ts y)"
        using only by (auto simp: c2(2))
      with last [OF y(1)] ex(3) x show "ts \<le> candle_timestamp (rc_ts x)"
        by (auto simp: from_cursor_def intro!: candle_timestamp_mono)
    qed (rule all)
  qed
qed

end
