(* ===== verification/Settings.thy ===== *)
theory Settings
  imports Loader
begin

text \<open>
  The settings of the processes, read from environment variables: \<^verbatim>\<open>freqpanda_api/config.py\<close> and
  \<^verbatim>\<open>freqpanda_execution/config.py\<close>, with what Python's \<^verbatim>\<open>int\<close> and \<^verbatim>\<open>float\<close> read from a text. The
  environment is a map \<open>env\<close>. Texts are ASCII.
\<close>

section \<open>Texts\<close>

definition is_space :: "char \<Rightarrow> bool" where
  "is_space c \<longleftrightarrow> (let n = of_char c :: nat in 9 \<le> n \<and> n \<le> 13 \<or> 28 \<le> n \<and> n \<le> 32 \<or> n = 133 \<or> n = 160)"

definition strip :: "string \<Rightarrow> string" where
  "strip s = rev (dropWhile is_space (rev (dropWhile is_space s)))"

fun split_on :: "char \<Rightarrow> string \<Rightarrow> string list" where
  "split_on c [] = [[]]"
| "split_on c (x # xs) = (if x = c then [] # split_on c xs
     else (case split_on c xs of [] \<Rightarrow> [[x]] | w # ws \<Rightarrow> (x # w) # ws))"

definition split_csv :: "string option \<Rightarrow> string list" where
  "split_csv v = (case v of
      None \<Rightarrow> []
    | Some s \<Rightarrow> if s = [] then []
        else map strip (filter (\<lambda>item. strip item \<noteq> []) (split_on (CHR '','') s)))"

section \<open>Numbers\<close>

text \<open>Digits, where a single underscore may stand between two of them.\<close>

definition digit_value :: "char \<Rightarrow> nat" where
  "digit_value c = of_char c - 48"

fun digits_of :: "nat \<Rightarrow> string \<Rightarrow> nat option" where
  "digits_of n [] = Some n"
| "digits_of n (c # cs) =
     (if is_digit c then digits_of (10 * n + digit_value c) cs
      else (case cs of
          d # ds \<Rightarrow> if c = CHR ''_'' \<and> is_digit d then digits_of (10 * n + digit_value d) ds else None
        | [] \<Rightarrow> None))"

definition natural_of :: "string \<Rightarrow> nat option" where
  "natural_of s = (case s of c # cs \<Rightarrow> if is_digit c then digits_of (digit_value c) cs else None | [] \<Rightarrow> None)"

text \<open>A sign, or none.\<close>

definition signed :: "string \<Rightarrow> bool \<times> string" where
  "signed s = (case s of
      c # cs \<Rightarrow> if c = CHR ''-'' then (True, cs) else if c = CHR ''+'' then (False, cs) else (False, s)
    | [] \<Rightarrow> (False, []))"

definition integer_of :: "string \<Rightarrow> int option" where
  "integer_of s = (case signed s of (negative, digits) \<Rightarrow>
     map_option (\<lambda>n. if negative then - int n else int n) (natural_of digits))"

definition int_of_text :: "string \<Rightarrow> int res" where
  "int_of_text s = (case integer_of (strip s) of
      None \<Rightarrow> Inl (ValueError ''invalid literal for int()'') | Some i \<Rightarrow> Inr i)"

text \<open>
  A float: a decimal number with an optional fraction and exponent, rounded once, or one of the names
  of the values that are not finite.
\<close>

definition span_before :: "(char \<Rightarrow> bool) \<Rightarrow> string \<Rightarrow> string \<times> string option" where
  "span_before p s = (takeWhile (\<lambda>c. \<not> p c) s,
     case dropWhile (\<lambda>c. \<not> p c) s of [] \<Rightarrow> None | _ # cs \<Rightarrow> Some cs)"

definition fraction_digits :: "string \<Rightarrow> nat" where
  "fraction_digits s = length (filter is_digit s)"

definition mantissa_of :: "string \<Rightarrow> rat option" where
  "mantissa_of s = (case span_before (\<lambda>c. c = CHR ''.'') s of
      (whole, None) \<Rightarrow> map_option of_nat (natural_of whole)
    | (whole, Some fraction) \<Rightarrow>
        if whole = [] \<and> fraction = [] then None
        else (case (if whole = [] then Some 0 else natural_of whole, if fraction = [] then Some 0 else natural_of fraction) of
            (Some w, Some f) \<Rightarrow> Some (of_nat w + of_nat f / 10 ^ fraction_digits fraction)
          | _ \<Rightarrow> None))"

definition power_of_ten :: "int \<Rightarrow> rat" where
  "power_of_ten e = (if 0 \<le> e then 10 ^ nat e else 1 / 10 ^ nat (- e))"

definition decimal_of :: "string \<Rightarrow> rat option" where
  "decimal_of s = (case span_before (\<lambda>c. c = CHR ''e'' \<or> c = CHR ''E'') s of
      (m, None) \<Rightarrow> mantissa_of m
    | (m, Some e) \<Rightarrow> (case (mantissa_of m, integer_of e) of
          (Some q, Some i) \<Rightarrow> Some (q * power_of_ten i) | _ \<Rightarrow> None))"

definition float_of_text :: "string \<Rightarrow> fl res" where
  "float_of_text s = (case signed (strip s) of (negative, t) \<Rightarrow>
     if to_lower t \<in> {''inf'', ''infinity''} then Inr (if negative then NInf else PInf)
     else if to_lower t = ''nan'' then Inr NaN
     else (case decimal_of t of
         None \<Rightarrow> Inl (ValueError ''could not convert string to float'')
       | Some q \<Rightarrow> Inr (round64 (if negative then - q else q))))"

section \<open>The environment\<close>

type_synonym environ = "string \<Rightarrow> string option"

definition getenv :: "environ \<Rightarrow> string \<Rightarrow> string \<Rightarrow> string" where
  "getenv env name dflt = (case env name of None \<Rightarrow> dflt | Some v \<Rightarrow> v)"

text \<open>\<^verbatim>\<open>os.environ.get(a) or os.environ.get(b)\<close>\<close>

definition either_env :: "environ \<Rightarrow> string \<Rightarrow> string \<Rightarrow> string option" where
  "either_env env a b = (case env a of Some (c # cs) \<Rightarrow> Some (c # cs) | _ \<Rightarrow> env b)"

record api_settings =
  as_database_url :: "string option"
  as_redis_url :: string
  as_api_keys :: "string list"
  as_default_exchange_id :: string
  as_job_queue_name :: string
  as_job_timeout_seconds :: int

definition get_api_settings :: "environ \<Rightarrow> api_settings res" where
  "get_api_settings env =
     map_res (\<lambda>timeout. \<lparr>as_database_url = either_env env ''SUPABASE_DB_URL'' ''DATABASE_URL'',
         as_redis_url = getenv env ''REDIS_URL'' ''redis://localhost:6379/0'',
         as_api_keys = split_csv (env ''API_KEYS''),
         as_default_exchange_id = getenv env ''DEFAULT_EXCHANGE_ID'' ''binance'',
         as_job_queue_name = getenv env ''JOB_QUEUE_NAME'' ''freqpanda'',
         as_job_timeout_seconds = timeout\<rparr>)
       (int_of_text (getenv env ''JOB_TIMEOUT_SECONDS'' ''1800''))"

record settings =
  ss_database_url :: "string option"
  ss_execution_master_key :: "string option"
  ss_supervisor_poll_interval_seconds :: fl
  ss_heartbeat_interval_seconds :: fl
  ss_poll_interval_seconds :: fl
  ss_max_restarts_in_window :: int
  ss_crash_loop_window_seconds :: fl

definition get_settings :: "environ \<Rightarrow> settings res" where
  "get_settings env =
     bindE (float_of_text (getenv env ''SUPERVISOR_POLL_INTERVAL_SECONDS'' ''5'')) (\<lambda>poll.
     bindE (float_of_text (getenv env ''HEARTBEAT_INTERVAL_SECONDS'' ''15'')) (\<lambda>heartbeat.
     bindE (float_of_text (getenv env ''FEED_POLL_INTERVAL_SECONDS'' ''5'')) (\<lambda>feed_poll.
     bindE (int_of_text (getenv env ''MAX_RESTARTS_IN_WINDOW'' ''3'')) (\<lambda>restarts.
     map_res (\<lambda>window. \<lparr>ss_database_url = either_env env ''SUPABASE_DB_URL'' ''DATABASE_URL'',
         ss_execution_master_key = env ''EXECUTION_MASTER_KEY'',
         ss_supervisor_poll_interval_seconds = poll, ss_heartbeat_interval_seconds = heartbeat,
         ss_poll_interval_seconds = feed_poll, ss_max_restarts_in_window = restarts,
         ss_crash_loop_window_seconds = window\<rparr>)
       (float_of_text (getenv env ''CRASH_LOOP_WINDOW_SECONDS'' ''300''))))))"

section \<open>Facts\<close>

lemma get_settings_Inr:
  assumes "get_settings env = Inr s"
  shows "ss_execution_master_key s = env ''EXECUTION_MASTER_KEY''"
    and "int_of_text (getenv env ''MAX_RESTARTS_IN_WINDOW'' ''3'') = Inr (ss_max_restarts_in_window s)"
    and "float_of_text (getenv env ''CRASH_LOOP_WINDOW_SECONDS'' ''300'') = Inr (ss_crash_loop_window_seconds s)"
  using assms by (auto simp: get_settings_def bindE_eq_Inr map_res_eq_Inr)

lemma digits_of_plain: "(\<forall>c \<in> set cs. is_digit c) \<Longrightarrow> digits_of n cs = Some (foldl (\<lambda>m c. 10 * m + digit_value c) n cs)"
  by (induction cs arbitrary: n) simp_all

lemma default_settings:
  "get_settings (\<lambda>_. None) = Inr \<lparr>ss_database_url = None, ss_execution_master_key = None,
     ss_supervisor_poll_interval_seconds = Fin 5, ss_heartbeat_interval_seconds = Fin 15,
     ss_poll_interval_seconds = Fin 5, ss_max_restarts_in_window = 3, ss_crash_loop_window_seconds = Fin 300\<rparr>"
proof -
  have r: "round64 5 = Fin 5" "round64 15 = Fin 15" "round64 300 = Fin 300"
    using round64_of_int [of 5] round64_of_int [of 15] round64_of_int [of 300] by simp_all
  have t: "decimal_of ''5'' = Some 5" "decimal_of ''15'' = Some 15" "decimal_of ''300'' = Some 300"
      "strip ''5'' = ''5''" "strip ''15'' = ''15''" "strip ''300'' = ''300''" "strip ''3'' = ''3''"
      "integer_of ''3'' = Some 3"
    by code_simp+
  show ?thesis
    by (simp add: get_settings_def getenv_def either_env_def float_of_text_def int_of_text_def t r signed_def to_lower_def)
qed

end
