(* ===== verification/Pipeline_Main.thy ===== *)
theory Pipeline_Main
  imports Pipeline Settings
begin

text \<open>
  A run of the data pipeline from its command line: the configuration file
  (\<^verbatim>\<open>freqpanda_data/config.py\<close>), \<^verbatim>\<open>run_pipeline\<close> with its exchange and its connection
  (\<^verbatim>\<open>pipeline.py\<close>), and the script \<^verbatim>\<open>scripts/run_pipeline.py\<close> with its exit code. The exchange library,
  the file system, the JSON parser and the database server are the \<open>pipeline_host\<close>. The fields of the
  configuration are texts; another value is refused here with the \<^verbatim>\<open>TypeError\<close> its first use would raise.
\<close>

record pipeline_host =
  ph_environ :: environ
  ph_read :: "string \<Rightarrow> string res"
  ph_json :: "string \<Rightarrow> jval res"
  ph_knows :: "string \<Rightarrow> bool"
  ph_parse8601 :: "string \<Rightarrow> int option"
  ph_connect :: "string \<Rightarrow> unit res"
  ph_view :: "exchange_client \<Rightarrow> symbol_timeframe \<Rightarrow> exchange_view"

section \<open>Configuration\<close>

definition text_argument :: "jval \<Rightarrow> string res" where
  "text_argument v = (case v of VStr s \<Rightarrow> Inr s | _ \<Rightarrow> Inl TypeError)"

text \<open>A keyword argument of a dataclass: given, or its default; one that is no field is a \<^verbatim>\<open>TypeError\<close>.\<close>

definition keyword :: "fields \<Rightarrow> string \<Rightarrow> 'a res \<Rightarrow> (jval \<Rightarrow> 'a res) \<Rightarrow> 'a res" where
  "keyword kvs k dflt f = (case map_of kvs k of None \<Rightarrow> dflt | Some v \<Rightarrow> f v)"

definition only_keywords :: "string list \<Rightarrow> fields \<Rightarrow> unit res" where
  "only_keywords ks kvs = (if fst ` set kvs \<subseteq> set ks then Inr () else Inl TypeError)"

definition pair_of :: "jval \<Rightarrow> symbol_timeframe res" where
  "pair_of v = (case v of
      VDict kvs \<Rightarrow>
        bindE (only_keywords [''symbol'', ''timeframe''] kvs) (\<lambda>_.
        bindE (keyword kvs ''symbol'' (Inl TypeError) text_argument) (\<lambda>symbol.
        map_res (\<lambda>timeframe. \<lparr>sy_symbol = symbol, sy_timeframe = timeframe\<rparr>)
          (keyword kvs ''timeframe'' (Inl TypeError) text_argument)))
    | _ \<Rightarrow> Inl TypeError)"

definition pairs_of :: "jval \<Rightarrow> symbol_timeframe list res" where
  "pairs_of v = (case v of VList vs \<Rightarrow> mapE pair_of vs | VDict [] \<Rightarrow> Inr [] | VStr [] \<Rightarrow> Inr [] | _ \<Rightarrow> Inl TypeError)"

definition from_dict :: "jval \<Rightarrow> pipeline_config res" where
  "from_dict raw = (case raw of
      VDict kvs \<Rightarrow>
        bindE (keyword kvs ''pairs'' (Inr []) pairs_of) (\<lambda>pairs.
        let kwargs = filter (\<lambda>(k, v). k \<noteq> ''pairs'') kvs in
        bindE (only_keywords [''exchange_id'', ''backfill_since'', ''database_url''] kwargs) (\<lambda>_.
        bindE (keyword kwargs ''exchange_id'' (Inr ''binance'') text_argument) (\<lambda>exchange_id.
        bindE (keyword kwargs ''backfill_since'' (Inr ''2020-01-01T00:00:00Z'') text_argument) (\<lambda>backfill_since.
        map_res (\<lambda>database_url. \<lparr>pc_exchange_id = exchange_id, pc_pairs = pairs, pc_backfill_since = backfill_since,
            pc_database_url = database_url\<rparr>)
          (keyword kwargs ''database_url'' (Inr None)
            (\<lambda>v. case v of VNone \<Rightarrow> Inr None | _ \<Rightarrow> map_res Some (text_argument v)))))))
    | _ \<Rightarrow> Inl (AttributeError ''get''))"

definition load_pipeline_config :: "pipeline_host \<Rightarrow> string \<Rightarrow> pipeline_config res" where
  "load_pipeline_config H path = bindE (ph_read H path) (\<lambda>txt. bindE (ph_json H txt) from_dict)"

section \<open>The run\<close>

text \<open>What is not committed when the connection is closed is lost.\<close>

definition run_pipeline :: "pipeline_host \<Rightarrow> pipeline_config \<Rightarrow> candle_table \<Rightarrow>
    (candle_table \<times> (string \<times> nat option) list res) option" where
  "run_pipeline H config stored =
     (case create_exchange (ph_knows H) (pc_exchange_id config) of
        Inl e \<Rightarrow> Some (stored, Inl e)
      | Inr ex \<Rightarrow>
          (case bindE (connection_url (ph_environ H) (pc_database_url config)) (ph_connect H) of
             Inl e \<Rightarrow> Some (stored, Inl e)
           | Inr _ \<Rightarrow> map_option (\<lambda>(c, results). (cn_committed c, Inr results))
               (run_pairs (ph_view H ex) (pc_exchange_id config) (ph_parse8601 H (pc_backfill_since config))
                 (pc_pairs config) [] (fresh_connection stored))))"

definition failed_keys :: "(string \<times> nat option) list \<Rightarrow> string list" where
  "failed_keys results = map fst (filter (\<lambda>(k, written). written = None) results)"

text \<open>The script: the table it leaves behind and its exit code. An exception that escapes exits with 1.\<close>

definition pipeline_script :: "pipeline_host \<Rightarrow> string list \<Rightarrow> candle_table \<Rightarrow> (candle_table \<times> int) option" where
  "pipeline_script H argv stored = (case argv of
      [prog, path] \<Rightarrow>
        (case load_pipeline_config H path of
           Inl e \<Rightarrow> Some (stored, 1)
         | Inr config \<Rightarrow> map_option (\<lambda>(t, r). (t, case r of
               Inl e \<Rightarrow> 1 | Inr results \<Rightarrow> if failed_keys results \<noteq> [] then 1 else 0))
             (run_pipeline H config stored))
    | _ \<Rightarrow> Some (stored, 1))"

text \<open>What comes before the first pair.\<close>

definition pipeline_setup :: "pipeline_host \<Rightarrow> string \<Rightarrow> (pipeline_config \<times> exchange_client) res" where
  "pipeline_setup H path =
     bindE (load_pipeline_config H path) (\<lambda>config.
     bindE (create_exchange (ph_knows H) (pc_exchange_id config)) (\<lambda>ex.
     map_res (\<lambda>_. (config, ex)) (bindE (connection_url (ph_environ H) (pc_database_url config)) (ph_connect H))))"

definition pairs_run :: "pipeline_host \<Rightarrow> pipeline_config \<Rightarrow> exchange_client \<Rightarrow> candle_table \<Rightarrow>
    (candle_table connection \<times> (string \<times> nat option) list) option" where
  "pairs_run H config ex t = run_pairs (ph_view H ex) (pc_exchange_id config) (ph_parse8601 H (pc_backfill_since config))
     (pc_pairs config) [] (fresh_connection t)"

lemma pipeline_script_setup:
  "pipeline_script H [prog, path] t = (case pipeline_setup H path of
      Inl e \<Rightarrow> Some (t, 1)
    | Inr (config, ex) \<Rightarrow> (case pairs_run H config ex t of
          None \<Rightarrow> None
        | Some (c, results) \<Rightarrow> Some (cn_committed c, if failed_keys results = [] then 0 else 1)))"
  by (cases "load_pipeline_config H path")
    (auto simp: pipeline_script_def run_pipeline_def pipeline_setup_def pairs_run_def map_res_def bindE_def split: sum.splits option.splits)

section \<open>The results of a run\<close>

lemma run_pairs_keys:
  assumes "run_pairs view exchange d ps results c = Some (c', results')"
  shows "fst ` set results' = pair_key ` set ps \<union> fst ` set results"
    and "keys_distinct results \<Longrightarrow> keys_distinct results'"
proof -
  have "fst ` set results' = pair_key ` set ps \<union> fst ` set results \<and> (keys_distinct results \<longrightarrow> keys_distinct results')"
    using assms
  proof (induction ps arbitrary: results c)
    case (Cons p ps)
    then obtain c1 w where "run_pairs view exchange d ps (put (pair_key p) w results) c1 = Some (c', results')"
      by (auto split: option.splits)
    from Cons.IH [OF this] show ?case by (simp add: put_simps alist.wf_upsert)
  qed simp
  then show "fst ` set results' = pair_key ` set ps \<union> fst ` set results"
    and "keys_distinct results \<Longrightarrow> keys_distinct results'" by simp_all
qed

lemma no_failed_keys: "failed_keys results = [] \<longleftrightarrow> (\<forall>(k, written) \<in> set results. written \<noteq> None)"
  by (auto simp: failed_keys_def filter_empty_conv)

lemma run_pairs_failed:
  assumes "run_pairs view exchange d ps [] c = Some (c', results)"
  shows "failed_keys results = [] \<longleftrightarrow> (\<forall>p \<in> set ps. \<exists>n. map_of results (pair_key p) = Some (Some n))"
proof -
  have keys: "fst ` set results = pair_key ` set ps" "distinct (map fst results)"
    using run_pairs_keys [OF assms] by (simp_all add: keys_distinct_def)
  have "(\<forall>(k, w) \<in> set results. w \<noteq> None) \<longleftrightarrow> (\<forall>k \<in> fst ` set results. \<exists>n. map_of results k = Some (Some n))"
  proof
    assume all: "\<forall>(k, w) \<in> set results. w \<noteq> None"
    show "\<forall>k \<in> fst ` set results. \<exists>n. map_of results k = Some (Some n)"
      using all map_of_is_SomeI [OF keys(2)] by fastforce
  next
    assume "\<forall>k \<in> fst ` set results. \<exists>n. map_of results k = Some (Some n)"
    then show "\<forall>(k, w) \<in> set results. w \<noteq> None"
      using map_of_is_SomeI [OF keys(2)] by fastforce
  qed
  then show ?thesis by (simp add: no_failed_keys keys(1))
qed

section \<open>A backfill of several pairs\<close>

definition new_pair :: "exchange_view \<Rightarrow> string \<Rightarrow> int \<Rightarrow> raw_candle list \<Rightarrow> raw_candle list \<Rightarrow> symbol_timeframe \<Rightarrow>
    candle_table \<Rightarrow> bool" where
  "new_pair ex exchange d data forming p t \<longleftrightarrow> settled ex data forming \<and> from_cursor d data \<noteq> [] \<and> d < ex_start_ms ex \<and>
     stored_timestamps exchange (sy_symbol p) (sy_timeframe p) t = []"

text \<open>The series holds the candles of \<open>data\<close> from \<open>d\<close> on with their values, and no others.\<close>

definition stored_pair :: "string \<Rightarrow> int \<Rightarrow> raw_candle list \<Rightarrow> symbol_timeframe \<Rightarrow> candle_table \<Rightarrow> bool" where
  "stored_pair exchange d data p t \<longleftrightarrow> (\<forall>x \<in> set (from_cursor d data).
     map_of t (fst (candle_row exchange (sy_symbol p) (sy_timeframe p) x)) =
       Some (snd (candle_row exchange (sy_symbol p) (sy_timeframe p) x))) \<and>
     (\<forall>ts. map_of t (exchange, sy_symbol p, sy_timeframe p, ts) \<noteq> None \<longrightarrow>
       (\<exists>x \<in> set (from_cursor d data). ts = candle_timestamp (rc_ts x)))"

definition same_series :: "string \<Rightarrow> symbol_timeframe \<Rightarrow> candle_table \<Rightarrow> candle_table \<Rightarrow> bool" where
  "same_series exchange p t t' \<longleftrightarrow> (\<forall>ts. map_of t' (exchange, sy_symbol p, sy_timeframe p, ts) =
     map_of t (exchange, sy_symbol p, sy_timeframe p, ts))"

lemma same_series_trans: "same_series e p t t1 \<Longrightarrow> same_series e p t1 t2 \<Longrightarrow> same_series e p t t2"
  by (simp add: same_series_def)

lemma same_series_stored: "same_series e p t t' \<Longrightarrow> stored_pair e d data p t \<Longrightarrow> stored_pair e d data p t'"
  by (simp add: same_series_def stored_pair_def candle_row_def)

lemma same_series_new:
  assumes "same_series e p t t'" and "new_pair ex e d data forming p t"
  shows "new_pair ex e d data forming p t'"
proof -
  have "set (stored_timestamps e (sy_symbol p) (sy_timeframe p) t') = set (stored_timestamps e (sy_symbol p) (sy_timeframe p) t)"
    using assms(1) by (auto simp: stored_timestamps_iff same_series_def)
  with assms(2) show ?thesis by (simp add: new_pair_def)
qed

text \<open>What a pair does in a run is seen in its series alone.\<close>

lemma same_series_latest: "same_series e p t t' \<Longrightarrow> latest_ms e (sy_symbol p) (sy_timeframe p) t' = latest_ms e (sy_symbol p) (sy_timeframe p) t"
proof -
  assume "same_series e p t t'"
  then have "set (stored_timestamps e (sy_symbol p) (sy_timeframe p) t') = set (stored_timestamps e (sy_symbol p) (sy_timeframe p) t)"
    by (auto simp: stored_timestamps_iff same_series_def)
  then show ?thesis by (simp add: latest_ms_def)
qed

lemma same_series_updated:
  assumes "same_series e p t t1" and "updated_pair ex e d p t1 n t2" and "same_series e p t2 t'"
  shows "updated_pair ex e d p t n t'"
proof -
  have "map_of t1 (e, sy_symbol p, sy_timeframe p, ts) = map_of t (e, sy_symbol p, sy_timeframe p, ts)"
    and "map_of t' (e, sy_symbol p, sy_timeframe p, ts) = map_of t2 (e, sy_symbol p, sy_timeframe p, ts)" for ts
    using assms(1,3) by (simp_all add: same_series_def)
  then show ?thesis using assms(2) by (simp only: updated_pair_def same_series_latest [OF assms(1)])
qed

lemma update_others:
  assumes update: "update_symbol_timeframe ex exchange (sy_symbol p) (sy_timeframe p) d c = Some (c', r)"
    and c: "committed c" "keys_distinct (cn_work c)"
  shows "keys_distinct (cn_work c')" and "q \<noteq> p \<Longrightarrow> same_series exchange q (cn_work c) (cn_work c')"
proof -
  let ?own = "\<lambda>((e, s, tf, ts), v :: candle_cells). e = exchange \<and> s = sy_symbol p \<and> tf = sy_timeframe p"
  have "both (grown (cn_work c) ?own) c" using c by (simp add: both_def committed_def grown_refl)
  from update_grown [OF update this] have g: "grown (cn_work c) ?own (cn_work c')"
    by (auto simp: both_def candle_row_def)
  then show "keys_distinct (cn_work c')" by (simp add: grown_def)
  show "same_series exchange q (cn_work c) (cn_work c')" if "q \<noteq> p"
    unfolding same_series_def
  proof
    fix ts
    from g have "map_of (cn_work c') (exchange, sy_symbol q, sy_timeframe q, ts) = map_of (cn_work c) (exchange, sy_symbol q, sy_timeframe q, ts) \<or>
        sy_symbol q = sy_symbol p \<and> sy_timeframe q = sy_timeframe p"
      unfolding grown_def by blast
    with that show "map_of (cn_work c') (exchange, sy_symbol q, sy_timeframe q, ts) = map_of (cn_work c) (exchange, sy_symbol q, sy_timeframe q, ts)"
      by (cases q; cases p) auto
  qed
qed

lemma run_pairs_result:
  assumes "run_pairs view exchange d ps results c = Some (c', results')" and "k \<notin> pair_key ` set ps"
  shows "map_of results' k = map_of results k"
  using assms
proof (induction ps arbitrary: results c)
  case (Cons p ps)
  then obtain c1 w where "run_pairs view exchange d ps (put (pair_key p) w results) c1 = Some (c', results')"
    by (auto split: option.splits)
  from Cons.IH [OF this] Cons.prems(2) show ?case by (simp add: put_simps)
qed simp

lemma run_pairs_commits:
  assumes "run_pairs view exchange d ps results c = Some (c', results')" and "distinct (map pair_key ps)"
    and "committed c" and "keys_distinct (cn_work c)"
  shows "committed c' \<and> (\<forall>q. q \<notin> set ps \<longrightarrow> same_series exchange q (cn_work c) (cn_work c')) \<and>
    (\<forall>p \<in> set ps. \<forall>n. map_of results' (pair_key p) = Some (Some n) \<longrightarrow>
      updated_pair (view p) exchange d p (cn_work c) n (cn_work c'))"
  using assms
proof (induction ps arbitrary: results c)
  case Nil
  then show ?case by (simp add: same_series_def)
next
  case (Cons p ps)
  from Cons.prems(1) obtain c1 r where one: "update_symbol_timeframe (view p) exchange (sy_symbol p) (sy_timeframe p) d c = Some (c1, r)"
      and rest: "run_pairs view exchange d ps (put (pair_key p) (case r of Inl _ \<Rightarrow> None | Inr n \<Rightarrow> Some n) results) c1 = Some (c', results')"
    by (auto split: option.splits)
  note c1 = update_commits [OF one Cons.prems(3,4)] update_others [OF one Cons.prems(3,4)]
  have fresh: "pair_key p \<notin> pair_key ` set ps" "p \<notin> set ps" using Cons.prems(2) by auto
  have "map_of results' (pair_key p) = Some (case r of Inl _ \<Rightarrow> None | Inr n \<Rightarrow> Some n)"
    using run_pairs_result [OF rest fresh(1)] by (simp add: put_simps)
  then have r: "r = Inr n" if "map_of results' (pair_key p) = Some (Some n)" for n
    using that by (auto split: sum.splits)
  have "distinct (map pair_key ps)" using Cons.prems(2) by simp
  note IH = Cons.IH [OF rest this c1(1,3)]
  have "updated_pair (view p) exchange d p (cn_work c) n (cn_work c')" if "map_of results' (pair_key p) = Some (Some n)" for n
    by (rule same_series_updated [OF _ c1(2) [OF r [OF that]]]) (use IH fresh(2) in \<open>auto simp: same_series_def\<close>)
  moreover have "updated_pair (view q) exchange d q (cn_work c) n (cn_work c')"
    if "q \<in> set ps" "map_of results' (pair_key q) = Some (Some n)" for q n
  proof -
    have "q \<noteq> p" using that(1) fresh(2) by auto
    from same_series_updated [OF c1(4) [OF this]] IH that show ?thesis by (auto simp: same_series_def)
  qed
  moreover have "same_series exchange q (cn_work c) (cn_work c')" if "q \<notin> set (p # ps)" for q
    using that c1(4) [of q] IH by (auto intro: same_series_trans)
  ultimately show ?case using IH by simp
qed

text \<open>A pair that is up to date in the table: an update finds nothing newer.\<close>

definition up_to_date :: "(symbol_timeframe \<Rightarrow> exchange_view) \<Rightarrow> string \<Rightarrow> int option \<Rightarrow> symbol_timeframe \<Rightarrow> candle_table \<Rightarrow> bool" where
  "up_to_date view exchange d p t \<longleftrightarrow> (\<forall>c. cn_status c \<noteq> Aborted \<longrightarrow> same_series exchange p t (cn_work c) \<longrightarrow>
     update_symbol_timeframe (view p) exchange (sy_symbol p) (sy_timeframe p) d c = Some (c\<lparr>cn_status := InTx\<rparr>, Inr 0))"

lemma same_series_up_to_date: "same_series e p t t' \<Longrightarrow> up_to_date view e d p t \<Longrightarrow> up_to_date view e d p t'"
  unfolding up_to_date_def by (blast intro: same_series_trans)

lemma update_one:
  assumes "new_pair (view p) exchange d data forming p (cn_work c)" and "cn_status c \<noteq> Aborted" and "keys_distinct (cn_work c)"
  obtains c' where "update_symbol_timeframe (view p) exchange (sy_symbol p) (sy_timeframe p) (Some d) c =
      Some (c', Inr (length (from_cursor d data)))"
    and "cn_status c' \<noteq> Aborted" and "cn_committed c' = cn_work c'" and "keys_distinct (cn_work c')"
    and "stored_pair exchange d data p (cn_work c')" and "up_to_date view exchange (Some d) p (cn_work c')"
    and "\<And>q. q \<noteq> p \<Longrightarrow> same_series exchange q (cn_work c) (cn_work c')"
proof -
  have n: "settled (view p) data forming" "stored_timestamps exchange (sy_symbol p) (sy_timeframe p) (cn_work c) = []"
      "d < ex_start_ms (view p)" "from_cursor d data \<noteq> []"
    using assms(1) by (simp_all add: new_pair_def)
  from n(1) assms(2,3) n(2-4) show ?thesis
  proof (rule update_new_pair)
    fix c'
    assume run: "update_symbol_timeframe (view p) exchange (sy_symbol p) (sy_timeframe p) (Some d) c =
          Some (c', Inr (length (from_cursor d data)))"
      "cn_status c' \<noteq> Aborted" "cn_committed c' = cn_work c'" "keys_distinct (cn_work c')"
      and stored: "\<forall>x \<in> set (from_cursor d data). map_of (cn_work c') (fst (candle_row exchange (sy_symbol p) (sy_timeframe p) x)) =
        Some (snd (candle_row exchange (sy_symbol p) (sy_timeframe p) x))"
      and only: "\<And>ts. map_of (cn_work c') (exchange, sy_symbol p, sy_timeframe p, ts) \<noteq> None \<Longrightarrow>
        \<exists>x \<in> set (from_cursor d data). ts = candle_timestamp (rc_ts x)"
      and other: "\<And>e' s' tf' ts. (e', s', tf') \<noteq> (exchange, sy_symbol p, sy_timeframe p) \<Longrightarrow>
        map_of (cn_work c') (e', s', tf', ts) = map_of (cn_work c) (e', s', tf', ts)"
      and again: "\<And>c2. cn_status c2 \<noteq> Aborted \<Longrightarrow> (\<And>ts. map_of (cn_work c2) (exchange, sy_symbol p, sy_timeframe p, ts) =
          map_of (cn_work c') (exchange, sy_symbol p, sy_timeframe p, ts)) \<Longrightarrow>
        update_symbol_timeframe (view p) exchange (sy_symbol p) (sy_timeframe p) (Some d) c2 = Some (c2\<lparr>cn_status := InTx\<rparr>, Inr 0)"
    have "up_to_date view exchange (Some d) p (cn_work c')"
      unfolding up_to_date_def same_series_def using again by blast
    moreover have "same_series exchange q (cn_work c) (cn_work c')" if "q \<noteq> p" for q
      using that by (cases q; cases p) (auto simp: same_series_def other)
    ultimately show ?thesis using that run stored only by (simp add: stored_pair_def)
  qed
qed

text \<open>A first run over pairs that are new.\<close>

lemma run_pairs_new:
  assumes "distinct ps" and "\<forall>p \<in> set ps. new_pair (view p) exchange d (data p) (forming p) p (cn_work c)"
    and "cn_status c \<noteq> Aborted" and "keys_distinct (cn_work c)" and "cn_committed c = cn_work c"
  shows "\<exists>c'. run_pairs view exchange (Some d) ps results c =
      Some (c', foldl (\<lambda>rs p. put (pair_key p) (Some (length (from_cursor d (data p)))) rs) results ps) \<and>
    cn_committed c' = cn_work c' \<and>
    (\<forall>p \<in> set ps. stored_pair exchange d (data p) p (cn_work c') \<and> up_to_date view exchange (Some d) p (cn_work c')) \<and>
    (\<forall>q. q \<notin> set ps \<longrightarrow> same_series exchange q (cn_work c) (cn_work c'))"
  using assms
proof (induction ps arbitrary: c results)
  case Nil
  then show ?case by (simp add: same_series_def)
next
  case (Cons p ps)
  have p: "new_pair (view p) exchange d (data p) (forming p) p (cn_work c)" "p \<notin> set ps" using Cons.prems(1,2) by simp_all
  from p(1) Cons.prems(3,4) obtain c1 where one: "update_symbol_timeframe (view p) exchange (sy_symbol p) (sy_timeframe p) (Some d) c =
        Some (c1, Inr (length (from_cursor d (data p))))"
      "cn_status c1 \<noteq> Aborted" "cn_committed c1 = cn_work c1" "keys_distinct (cn_work c1)"
      "stored_pair exchange d (data p) p (cn_work c1)" "up_to_date view exchange (Some d) p (cn_work c1)"
      and others: "\<And>q. q \<noteq> p \<Longrightarrow> same_series exchange q (cn_work c) (cn_work c1)"
    by (rule update_one) blast
  have "\<forall>q \<in> set ps. new_pair (view q) exchange d (data q) (forming q) q (cn_work c1)"
    using Cons.prems(2) p(2) others by (metis list.set_intros(2) same_series_new)
  from Cons.IH [OF _ this one(2,4,3), of "put (pair_key p) (Some (length (from_cursor d (data p)))) results"] Cons.prems(1)
  obtain c' where
    rest: "run_pairs view exchange (Some d) ps (put (pair_key p) (Some (length (from_cursor d (data p)))) results) c1 =
        Some (c', foldl (\<lambda>rs p. put (pair_key p) (Some (length (from_cursor d (data p)))) rs)
          (put (pair_key p) (Some (length (from_cursor d (data p)))) results) ps)"
      "cn_committed c' = cn_work c'"
      "\<forall>q \<in> set ps. stored_pair exchange d (data q) q (cn_work c') \<and> up_to_date view exchange (Some d) q (cn_work c')"
      "\<forall>q. q \<notin> set ps \<longrightarrow> same_series exchange q (cn_work c1) (cn_work c')"
    by auto
  have "same_series exchange p (cn_work c1) (cn_work c')" using rest(4) p(2) by blast
  with one(5,6) have "stored_pair exchange d (data p) p (cn_work c') \<and> up_to_date view exchange (Some d) p (cn_work c')"
    by (blast intro: same_series_stored same_series_up_to_date)
  moreover have "same_series exchange q (cn_work c) (cn_work c')" if "q \<notin> set (p # ps)" for q
    using that others [of q] rest(4) by (auto intro: same_series_trans)
  ultimately show ?case using rest one(1) by (intro exI [of _ c']) auto
qed

text \<open>A run over pairs that are up to date.\<close>

lemma run_pairs_up_to_date:
  assumes "\<forall>p \<in> set ps. up_to_date view exchange d p (cn_work c)" and "cn_status c \<noteq> Aborted"
  shows "\<exists>c'. run_pairs view exchange d ps results c = Some (c', foldl (\<lambda>rs p. put (pair_key p) (Some 0) rs) results ps) \<and>
    cn_work c' = cn_work c \<and> cn_committed c' = cn_committed c"
  using assms
proof (induction ps arbitrary: c results)
  case (Cons p ps)
  have "update_symbol_timeframe (view p) exchange (sy_symbol p) (sy_timeframe p) d c = Some (c\<lparr>cn_status := InTx\<rparr>, Inr 0)"
    using Cons.prems by (simp add: up_to_date_def same_series_def)
  with Cons.IH [of "c\<lparr>cn_status := InTx\<rparr>"] Cons.prems(1) show ?case by simp
qed simp

lemma put_all: "p \<in> set ps \<Longrightarrow> map_of (foldl (\<lambda>rs p. put (pair_key p) w rs) results ps) (pair_key p) = Some w"
proof (induction ps arbitrary: results rule: rev_induct)
  case (snoc q ps)
  then show ?case by (cases "pair_key p = pair_key q") (auto simp: put_simps)
qed simp

lemma no_failed_puts: "failed_keys results = [] \<Longrightarrow> failed_keys (foldl (\<lambda>rs p. put (pair_key p) (Some (f p)) rs) results ps) = []"
proof (induction ps arbitrary: results)
  case (Cons p ps)
  from Cons.prems have "failed_keys (put (pair_key p) (Some (f p)) results) = []"
    using set_put [of "pair_key p" "Some (f p)" results] unfolding no_failed_keys by blast
  from Cons.IH [OF this] show ?case by simp
qed simp

end
