(* ===== verification/Data_Properties.thy ===== *)
theory Data_Properties
  imports Pipeline_Main
begin

text \<open>
  The properties of the data package: paging through the exchange's history, the incremental
  update of the candle table, and the frame that is read back. The witnesses use an exchange that
  serves two hourly candles that have closed and a third one that is still forming.
\<close>

section \<open>Sample inputs\<close>

definition sample_candles :: "raw_candle list" where
  "sample_candles =
     [\<lparr>rc_ts = 3600000, rc_open = 1, rc_high = 1, rc_low = 1, rc_close = 1, rc_volume = 1\<rparr>,
      \<lparr>rc_ts = 7200000, rc_open = 1, rc_high = 1, rc_low = 1, rc_close = 1, rc_volume = 1\<rparr>]"

definition sample_forming :: "raw_candle list" where
  "sample_forming = [\<lparr>rc_ts = 10800000, rc_open = 1, rc_high = 1, rc_low = 1, rc_close = 1, rc_volume = 1\<rparr>]"

definition serve :: "raw_candle list \<Rightarrow> nat \<Rightarrow> fetcher" where
  "serve data cap k cursor limit = Inr (take (min cap limit) (from_cursor cursor data))"

definition sample_exchange :: exchange_view where
  "sample_exchange = \<lparr>ex_fetch = serve (sample_candles @ sample_forming) 1000, ex_parse_timeframe = Inr 3600,
     ex_start_ms = 12000000, ex_clock = (\<lambda>k j. 12000000)\<rparr>"

lemma sample_timeframe [simp]: "ex_timeframe_ms sample_exchange = 3600000"
  by (simp add: ex_timeframe_ms_def sample_exchange_def)

lemma serve_serves: "serves data cap (serve data cap)"
  by (simp add: serves_def serve_def)

lemma sample_settled: "settled sample_exchange sample_candles sample_forming"
proof -
  have "whole_second 3600000" "whole_second 7200000"
    by (auto simp: whole_second_def intro: exI [of _ 3600] exI [of _ 7200])
  then show ?thesis
    by (auto simp: settled_def) (auto simp: sample_exchange_def sample_candles_def sample_forming_def on_grid_of_def
        is_closed_candle_def default_page_limit_def intro: exI [of _ 1000] serve_serves)
qed

section \<open>Paging\<close>

text \<open>C25: Paging is complete. Over an exchange that holds its candles on the grid of the timeframe
  and returns pages as large as it is asked for, the generator ends, no page is missing, and the
  pages together are the candles from the start cursor on, each once and in order.\<close>

theorem paging_is_complete:
  assumes "serves data cap fetch" and "limit \<le> cap" and "0 < limit" and "0 < tf"
    and "on_grid_of tf data"
  shows "\<exists>pages. fetch_ohlcv_since fetch tf limit 0 since = Some (pages, None) \<and>
    concat pages = from_cursor since data"
  using fetch_complete [OF assms] by blast

theorem paging_is_complete_witness:
  "\<exists>pages. fetch_ohlcv_since (serve sample_candles 1) 3600000 1 0 0 = Some (pages, None) \<and>
     concat pages = from_cursor 0 sample_candles"
  by (rule paging_is_complete [OF serve_serves])
    (simp_all add: on_grid_of_def sample_candles_def)

text \<open>An exchange that caps its pages below the requested limit is read for one page only: the
  generator takes the short page for the end of the data and returns, however many candles
  follow.\<close>

theorem capped_exchange_gives_one_page:
  assumes "serves data cap fetch" and "cap < limit" and "0 < cap" and "0 < tf"
    and "from_cursor since data \<noteq> []"
  shows "fetch_ohlcv_since fetch tf limit 0 since = Some ([take cap (from_cursor since data)], None)"
  using fetch_capped [OF assms(1,2,4)] assms(3,5) by simp

theorem capped_exchange_gives_one_page_witness:
  "fetch_ohlcv_since (serve sample_candles 1) 3600000 1000 0 0 = Some ([[hd sample_candles]], None)"
  using capped_exchange_gives_one_page [OF serve_serves, of 1 1000 3600000 0 sample_candles]
  by (simp add: from_cursor_def sample_candles_def)

section \<open>The incremental update\<close>

text \<open>The update is incremental and idempotent. The first update of a pair writes every candle
  from the backfill date on and reports their number; afterwards each of them is stored under its
  time with its values, and running the update again writes nothing and leaves the table as it
  is. The timestamps survive the trip through the floats of the two conversions.\<close>

theorem incremental_update:
  assumes "settled ex data forming" and "cn_status c = Idle" and "keys_distinct (cn_work c)"
    and "stored_timestamps exchange symbol timeframe (cn_work c) = []" and "d < ex_start_ms ex"
    and "from_cursor d data \<noteq> []"
  shows "\<exists>c'. update_symbol_timeframe ex exchange symbol timeframe (Some d) c =
      Some (c', Inr (length (from_cursor d data))) \<and> cn_committed c' = cn_work c' \<and>
    (\<forall>x \<in> set (from_cursor d data). map_of (cn_work c') (fst (candle_row exchange symbol timeframe x)) =
      Some (snd (candle_row exchange symbol timeframe x))) \<and>
    update_symbol_timeframe ex exchange symbol timeframe (Some d) c' = Some (c'\<lparr>cn_status := InTx\<rparr>, Inr 0)"
proof -
  have "cn_status c \<noteq> Aborted" using assms(2) by simp
  from assms(1) this assms(3-6) show ?thesis
    by (rule update_new_pair) auto
qed

theorem incremental_update_witness:
  "\<exists>c'. update_symbol_timeframe sample_exchange ''binance'' ''BTC/USDT'' ''1h'' (Some 0) (fresh_connection []) =
     Some (c', Inr 2) \<and>
     update_symbol_timeframe sample_exchange ''binance'' ''BTC/USDT'' ''1h'' (Some 0) c' = Some (c'\<lparr>cn_status := InTx\<rparr>, Inr 0)"
  using incremental_update [OF sample_settled, of "fresh_connection []" "''binance''" "''BTC/USDT''" "''1h''" 0]
  by (auto simp: fresh_connection_def keys_distinct_def stored_timestamps_def sample_exchange_def
      from_cursor_def sample_candles_def)

text \<open>C24: Only closed candles are stored. Whatever the exchange returns, and whether or not the
  update fails half-way, each row of the table was there before or is the \<open>j\<close>-th candle of the \<open>k\<close>-th
  page fetched, under its own key, whose interval had ended by the clock read for it; no key is
  stored twice, none is lost, and the other series of the table are as before.\<close>

theorem only_closed_candles_stored:
  assumes "update_symbol_timeframe ex exchange symbol timeframe d c = Some (c', r)"
    and "cn_committed c = t" and "cn_work c = t" and "keys_distinct t"
  shows "keys_distinct (cn_committed c') \<and>
    (\<forall>row \<in> set (cn_committed c'). row \<in> set t \<or>
      (\<exists>since pages err k j. resume_from ex d (latest_ms exchange symbol timeframe t) = Inr since \<and>
         fetch_ohlcv_since (ex_fetch ex) (ex_timeframe_ms ex) default_page_limit 0 since = Some (pages, err) \<and>
         k < length pages \<and> j < length (pages ! k) \<and> row = candle_row exchange symbol timeframe (pages ! k ! j) \<and>
         rc_ts (pages ! k ! j) + ex_timeframe_ms ex \<le> ex_clock ex k j)) \<and>
    (\<forall>key. map_of t key \<noteq> None \<longrightarrow> map_of (cn_committed c') key \<noteq> None) \<and>
    (\<forall>e s tf ts. (e, s, tf) \<noteq> (exchange, symbol, timeframe) \<longrightarrow>
      map_of (cn_committed c') (e, s, tf, ts) = map_of t (e, s, tf, ts))"
proof -
  let ?R = "\<lambda>row. \<exists>since pages err k j. resume_from ex d (latest_ms exchange symbol timeframe t) = Inr since \<and>
         fetch_ohlcv_since (ex_fetch ex) (ex_timeframe_ms ex) default_page_limit 0 since = Some (pages, err) \<and>
         k < length pages \<and> j < length (pages ! k) \<and> row = candle_row exchange symbol timeframe (pages ! k ! j) \<and>
         rc_ts (pages ! k ! j) + ex_timeframe_ms ex \<le> ex_clock ex k j"
  have "both (grown t ?R) c" using assms(2-4) by (simp add: both_def grown_refl)
  from update_grown [OF assms(1) this] have g: "grown t ?R (cn_committed c')"
    unfolding assms(3) is_closed_candle_def both_def by blast
  have "row \<in> set t \<or> ?R row" if "row \<in> set (cn_committed c')" for row
    by (rule grown_rows [OF g that])
  moreover have "map_of (cn_committed c') (e, s, tf, ts) = map_of t (e, s, tf, ts)"
    if "(e, s, tf) \<noteq> (exchange, symbol, timeframe)" for e s tf ts
  proof (rule ccontr)
    assume "map_of (cn_committed c') (e, s, tf, ts) \<noteq> map_of t (e, s, tf, ts)"
    then obtain v where "?R ((e, s, tf, ts), v)" using g unfolding grown_def by blast
    with that show False by (auto simp: candle_row_def)
  qed
  ultimately show ?thesis using g by (simp add: grown_def)
qed

theorem only_closed_candles_stored_witness:
  "\<exists>c'. update_symbol_timeframe sample_exchange ''binance'' ''BTC/USDT'' ''1h'' (Some 0) (fresh_connection []) = Some (c', Inr 2) \<and>
     map_of (cn_committed c') (''binance'', ''BTC/USDT'', ''1h'', candle_timestamp 3600000) \<noteq> None \<and>
     keys_distinct (cn_committed c')"
proof -
  let ?c = "fresh_connection [] :: candle_table connection"
  have new: "cn_status ?c \<noteq> Aborted" "keys_distinct (cn_work ?c)"
      "stored_timestamps ''binance'' ''BTC/USDT'' ''1h'' (cn_work ?c) = []" "0 < ex_start_ms sample_exchange"
      "from_cursor 0 sample_candles \<noteq> []"
    by (simp_all add: fresh_connection_def keys_distinct_def stored_timestamps_def sample_exchange_def from_cursor_def sample_candles_def)
  from sample_settled new obtain c' where u: "update_symbol_timeframe sample_exchange ''binance'' ''BTC/USDT'' ''1h'' (Some 0) ?c =
        Some (c', Inr (length (from_cursor 0 sample_candles)))" "cn_committed c' = cn_work c'"
      "\<forall>x \<in> set (from_cursor 0 sample_candles). map_of (cn_work c') (fst (candle_row ''binance'' ''BTC/USDT'' ''1h'' x)) =
        Some (snd (candle_row ''binance'' ''BTC/USDT'' ''1h'' x))"
    by (rule update_new_pair) blast
  have "keys_distinct (cn_committed c')"
    using only_closed_candles_stored [OF u(1), of "[]"] by (simp add: fresh_connection_def keys_distinct_def)
  with u show ?thesis by (intro exI [of _ c']) (simp add: from_cursor_def sample_candles_def candle_row_def)
qed

text \<open>C23: A run of the script completes the history of every pair and may be repeated. On a connection that opens,
  for pairs that have no candles yet and an exchange that serves their history and after it candles
  that are still forming, the script exits with 0 and commits every closed candle of every pair from the
  backfill date on and no other one, the other series of the table are as before, and a second run
  exits with 0, reports no candle written for any pair and leaves the table as it is.\<close>

theorem backfill_is_complete_and_repeatable:
  assumes prepared: "pipeline_setup H path = Inr (config, ex)" and pairs: "distinct (pc_pairs config)" and table: "keys_distinct t"
    and since: "ph_parse8601 H (pc_backfill_since config) = Some d"
    and new: "\<forall>p \<in> set (pc_pairs config). new_pair (ph_view H ex p) (pc_exchange_id config) d (data p) (forming p) p t"
  shows "\<exists>t'. pipeline_script H [prog, path] t = Some (t', 0) \<and>
    (\<forall>p \<in> set (pc_pairs config). stored_pair (pc_exchange_id config) d (data p) p t') \<and>
    (\<forall>q. q \<notin> set (pc_pairs config) \<longrightarrow> same_series (pc_exchange_id config) q t t') \<and>
    pipeline_script H [prog, path] t' = Some (t', 0) \<and>
    (\<exists>c results. pairs_run H config ex t' = Some (c, results) \<and> cn_committed c = t' \<and>
      (\<forall>p \<in> set (pc_pairs config). map_of results (pair_key p) = Some (Some 0)))"
proof -
  let ?e = "pc_exchange_id config" and ?ps = "pc_pairs config"
  have none: "failed_keys ([] :: (string \<times> nat option) list) = []" by (simp add: failed_keys_def)
  note script = pipeline_script_setup [of H prog path] prepared pairs_run_def since no_failed_puts [OF none]
  have new': "\<forall>p \<in> set ?ps. new_pair (ph_view H ex p) ?e d (data p) (forming p) p (cn_work (fresh_connection t))"
    using new by (simp add: fresh_connection_def)
  from run_pairs_new [OF pairs new', of "[]"] table obtain c' where
    run: "run_pairs (ph_view H ex) ?e (Some d) ?ps [] (fresh_connection t) =
        Some (c', foldl (\<lambda>rs p. put (pair_key p) (Some (length (from_cursor d (data p)))) rs) [] ?ps)"
      "cn_committed c' = cn_work c'"
      "\<forall>p \<in> set ?ps. stored_pair ?e d (data p) p (cn_work c') \<and> up_to_date (ph_view H ex) ?e (Some d) p (cn_work c')"
      "\<forall>q. q \<notin> set ?ps \<longrightarrow> same_series ?e q t (cn_work c')"
    by (auto simp: fresh_connection_def)
  have "\<forall>p \<in> set ?ps. up_to_date (ph_view H ex) ?e (Some d) p (cn_work (fresh_connection (cn_work c')))"
    using run(3) by (simp add: fresh_connection_def)
  from run_pairs_up_to_date [OF this, of "[]"] obtain c2 where
    "run_pairs (ph_view H ex) ?e (Some d) ?ps [] (fresh_connection (cn_work c')) = Some (c2, foldl (\<lambda>rs p. put (pair_key p) (Some 0) rs) [] ?ps)"
    "cn_committed c2 = cn_work c'"
    by (auto simp: fresh_connection_def)
  with run show ?thesis by (intro exI [of _ "cn_work c'"]) (simp add: script put_all)
qed

definition sample_host :: pipeline_host where
  "sample_host = \<lparr>ph_environ = (\<lambda>_. Some ''postgres''), ph_read = (\<lambda>_. Inr ''t''),
     ph_json = (\<lambda>_. Inr (VDict [(''pairs'', VList [VDict [(''symbol'', VStr ''BTC/USDT''), (''timeframe'', VStr ''1h'')],
       VDict [(''symbol'', VStr ''ETH/USDT''), (''timeframe'', VStr ''1h'')]])])),
     ph_knows = (\<lambda>x. x = ''binance''), ph_parse8601 = (\<lambda>_. Some 0), ph_connect = (\<lambda>_. Inr ()), ph_view = (\<lambda>_ _. sample_exchange)\<rparr>"

definition sample_config :: pipeline_config where
  "sample_config = \<lparr>pc_exchange_id = ''binance'', pc_pairs = [\<lparr>sy_symbol = ''BTC/USDT'', sy_timeframe = ''1h''\<rparr>,
     \<lparr>sy_symbol = ''ETH/USDT'', sy_timeframe = ''1h''\<rparr>], pc_backfill_since = ''2020-01-01T00:00:00Z'', pc_database_url = None\<rparr>"

lemma sample_config_loads: "load_pipeline_config sample_host path = Inr sample_config"
  by (simp add: load_pipeline_config_def sample_host_def from_dict_def keyword_def pairs_of_def pair_of_def only_keywords_def
    text_argument_def sample_config_def)

lemma sample_prepared:
  obtains ex where "pipeline_setup sample_host ''config.json'' = Inr (sample_config, ex)"
  by (simp add: pipeline_setup_def sample_config_loads)
    (simp add: sample_config_def sample_host_def create_exchange_def connection_url_def database_url_env_vars_def)

lemma sample_new: "\<forall>p \<in> set (pc_pairs sample_config).
    new_pair (ph_view sample_host ex p) (pc_exchange_id sample_config) 0 sample_candles sample_forming p []"
  using sample_settled
  by (auto simp: sample_host_def new_pair_def stored_timestamps_def sample_candles_def from_cursor_def)
    (auto simp: sample_exchange_def)

theorem backfill_is_complete_and_repeatable_witness:
  "\<exists>t'. pipeline_script sample_host [''run_pipeline'', ''config.json''] [] = Some (t', 0) \<and>
     pipeline_script sample_host [''run_pipeline'', ''config.json''] t' = Some (t', 0) \<and>
     map_of t' (''binance'', ''ETH/USDT'', ''1h'', candle_timestamp (rc_ts (hd sample_candles))) \<noteq> None \<and>
     map_of t' (''binance'', ''ETH/USDT'', ''1h'', candle_timestamp (rc_ts (hd sample_forming))) = None"
proof -
  let ?p = "\<lparr>sy_symbol = ''ETH/USDT'', sy_timeframe = ''1h''\<rparr>"
  obtain ex where prepared: "pipeline_setup sample_host ''config.json'' = Inr (sample_config, ex)"
    by (rule sample_prepared)
  have p: "distinct (pc_pairs sample_config)" "?p \<in> set (pc_pairs sample_config)" "pc_exchange_id sample_config = ''binance''"
    by (simp_all add: sample_config_def)
  have x: "hd sample_candles \<in> set (from_cursor 0 sample_candles)" "from_cursor 0 sample_candles \<noteq> []" "0 < ex_start_ms sample_exchange"
    by (simp_all add: sample_candles_def from_cursor_def sample_exchange_def)
  have v: "ph_view sample_host ex q = sample_exchange" "ph_parse8601 sample_host s = Some 0" for q s by (simp_all add: sample_host_def)
  from backfill_is_complete_and_repeatable [OF prepared p(1) _ v(2) sample_new, of "''run_pipeline''"] obtain t' where
      t': "pipeline_script sample_host [''run_pipeline'', ''config.json''] [] = Some (t', 0)"
      "pipeline_script sample_host [''run_pipeline'', ''config.json''] t' = Some (t', 0)"
      "\<forall>p \<in> set (pc_pairs sample_config). stored_pair ''binance'' 0 sample_candles p t'"
    by (auto simp: keys_distinct_def p(3))
  from t'(3) p(2) have stored: "stored_pair ''binance'' 0 sample_candles ?p t'" by blast
  have "candle_timestamp (rc_ts (hd sample_forming)) \<noteq> candle_timestamp (rc_ts x)" if "x \<in> set sample_candles" for x
    using that candle_timestamp_whole [of 3600] candle_timestamp_whole [of 7200] candle_timestamp_whole [of 10800]
    by (auto simp: sample_candles_def sample_forming_def)
  then have "map_of t' (''binance'', ''ETH/USDT'', ''1h'', candle_timestamp (rc_ts (hd sample_forming))) = None"
    using stored by (fastforce simp: stored_pair_def from_cursor_def)
  moreover have "map_of t' (''binance'', ''ETH/USDT'', ''1h'', candle_timestamp (rc_ts (hd sample_candles))) \<noteq> None"
    using stored x(1) by (simp add: stored_pair_def candle_row_def)
  ultimately show ?thesis using t'(1,2) by blast
qed

text \<open>C27: The exit code of the script tells failures, and the table holds what the updated pairs wrote. A
  configuration, an exchange or a connection that cannot be had exits with 1 and leaves the table alone;
  otherwise the exit code is 0 exactly if every configured pair was updated. For each pair that is
  reported with \<open>n\<close> candles, the \<open>n\<close> closed candles that were fetched from where it resumed are
  committed in the table the script leaves, and the rest of its series is as before; the series of
  no configured pair are untouched.\<close>

theorem exit_code_tells_failures:
  assumes script: "pipeline_script H [prog, path] t = Some (t', code)" and table: "keys_distinct t"
  shows "case pipeline_setup H path of
      Inl e \<Rightarrow> code = 1 \<and> t' = t
    | Inr (config, ex) \<Rightarrow> \<exists>c results. pairs_run H config ex t = Some (c, results) \<and> t' = cn_committed c \<and>
        code = (if \<forall>p \<in> set (pc_pairs config). \<exists>n. map_of results (pair_key p) = Some (Some n) then 0 else 1) \<and>
        (distinct (map pair_key (pc_pairs config)) \<longrightarrow>
          (\<forall>p \<in> set (pc_pairs config). \<forall>n. map_of results (pair_key p) = Some (Some n) \<longrightarrow>
            updated_pair (ph_view H ex p) (pc_exchange_id config) (ph_parse8601 H (pc_backfill_since config)) p t n t') \<and>
          (\<forall>q. q \<notin> set (pc_pairs config) \<longrightarrow> same_series (pc_exchange_id config) q t t'))"
proof (cases "pipeline_setup H path")
  case (Inr config_ex)
  with script obtain config ex c results where run: "config_ex = (config, ex)" "pairs_run H config ex t = Some (c, results)"
    "t' = cn_committed c" "code = (if failed_keys results = [] then 0 else 1)"
    by (auto simp: pipeline_script_setup split: prod.splits option.splits)
  have "cn_work (fresh_connection t) = t" by (simp add: fresh_connection_def)
  with run_pairs_commits [OF run(2) [unfolded pairs_run_def] _ committed_fresh] table
  have "distinct (map pair_key (pc_pairs config)) \<Longrightarrow> committed c \<and>
      (\<forall>q. q \<notin> set (pc_pairs config) \<longrightarrow> same_series (pc_exchange_id config) q t (cn_work c)) \<and>
      (\<forall>p \<in> set (pc_pairs config). \<forall>n. map_of results (pair_key p) = Some (Some n) \<longrightarrow>
        updated_pair (ph_view H ex p) (pc_exchange_id config) (ph_parse8601 H (pc_backfill_since config)) p t n (cn_work c))"
    by simp
  then show ?thesis using Inr run run_pairs_failed by (auto simp: pairs_run_def committed_def)
qed (use script in \<open>simp add: pipeline_script_setup\<close>)

theorem exit_code_tells_failures_witness:
  "\<exists>t'. pipeline_script sample_host [''run_pipeline'', ''config.json''] [] = Some (t', 0) \<and>
     (\<forall>p \<in> set (pc_pairs sample_config). \<exists>n. updated_pair sample_exchange ''binance'' (Some 0) p [] n t')"
proof -
  obtain ex where prepared: "pipeline_setup sample_host ''config.json'' = Inr (sample_config, ex)"
    by (rule sample_prepared)
  have pairs: "distinct (pc_pairs sample_config)" "distinct (map pair_key (pc_pairs sample_config))"
    by (simp_all add: sample_config_def pair_key_def)
  have c: "cn_status (fresh_connection []) \<noteq> Aborted" "keys_distinct (cn_work (fresh_connection ([] :: candle_table)))"
      "cn_committed (fresh_connection ([] :: candle_table)) = cn_work (fresh_connection [])"
    by (simp_all add: fresh_connection_def keys_distinct_def)
  have "\<forall>p \<in> set (pc_pairs sample_config). new_pair (ph_view sample_host ex p) (pc_exchange_id sample_config) 0
      sample_candles sample_forming p (cn_work (fresh_connection []))"
    using sample_new by (simp add: fresh_connection_def)
  from run_pairs_new [OF pairs(1) this c, of "[]"] obtain c' where
      run: "pairs_run sample_host sample_config ex [] = Some (c', foldl (\<lambda>rs p. put (pair_key p) (Some (length (from_cursor 0 sample_candles))) rs) [] (pc_pairs sample_config))"
    by (auto simp: pairs_run_def sample_host_def)
  have "failed_keys ([] :: (string \<times> nat option) list) = []" by (simp add: failed_keys_def)
  from no_failed_puts [OF this] have script:
      "pipeline_script sample_host [''run_pipeline'', ''config.json''] [] = Some (cn_committed c', 0)"
    by (simp add: pipeline_script_setup prepared run)
  have "ph_view sample_host ex p = sample_exchange" "ph_parse8601 sample_host s = Some 0" "pc_exchange_id sample_config = ''binance''" for p s
    by (simp_all add: sample_host_def sample_config_def)
  with exit_code_tells_failures [OF script] prepared run pairs(2) have
      "\<forall>p \<in> set (pc_pairs sample_config). updated_pair sample_exchange ''binance'' (Some 0) p []
        (length (from_cursor 0 sample_candles)) (cn_committed c')"
    by (simp add: put_all keys_distinct_def)
  with script show ?thesis by blast
qed

text \<open>One pair's failure does stop the others when a statement fails in the database. The
  connection is shared and never rolled back, so after a pair has left it in an aborted
  transaction every later pair is reported as failed and nothing more is stored.\<close>

theorem failed_pair_poisons_the_rest:
  assumes "update_symbol_timeframe (view p) exchange (sy_symbol p) (sy_timeframe p) d c = Some (c', Inl e)"
    and "cn_status c' = Aborted"
  shows "run_pairs view exchange d (p # ps) results c =
    Some (c', foldl (\<lambda>rs q. put (pair_key q) None rs) results (p # ps))"
  using assms by (simp add: run_pairs_aborted)

theorem failed_pair_poisons_the_rest_witness:
  "\<exists>c'. run_pairs (\<lambda>p. sample_exchange\<lparr>ex_fetch := \<lambda>k cur lim. Inr [hd sample_candles, hd sample_candles]\<rparr>)
     ''binance'' (Some 0) [\<lparr>sy_symbol = ''A'', sy_timeframe = ''1h''\<rparr>, \<lparr>sy_symbol = ''B'', sy_timeframe = ''1h''\<rparr>]
     [] (fresh_connection []) = Some (c', [(''A:1h'', None), (''B:1h'', None)])"
proof -
  let ?ex = "sample_exchange\<lparr>ex_fetch := \<lambda>k cur lim. Inr [hd sample_candles, hd sample_candles]\<rparr>"
  let ?c = "fresh_connection [] :: candle_table connection"
  have f: "fetch_ohlcv_since (ex_fetch ?ex) (ex_timeframe_ms ?ex) default_page_limit 0 0 =
      Some ([[hd sample_candles, hd sample_candles]], None)"
    by (subst fetch_ohlcv_since.simps)
      (simp add: next_page_def ex_timeframe_ms_def sample_exchange_def sample_candles_def default_page_limit_def)
  have u: "\<exists>e. update_symbol_timeframe ?ex ''binance'' ''A'' ''1h'' (Some 0) ?c =
      Some (?c\<lparr>cn_status := Aborted\<rparr>, Inl e)"
    using f by (simp add: update_symbol_timeframe_def resume_from_def ex_timeframe_ms_def get_latest_timestamp_ms_def run_query st_simps
        fresh_connection_def stored_timestamps_def closed_of_def is_closed_candle_def sample_exchange_def
        sample_candles_def upsert_candles_def Let_def pages_of.simps candle_row_def upsert_statement_def)
  then obtain e where "update_symbol_timeframe ?ex ''binance'' ''A'' ''1h'' (Some 0) ?c =
      Some (?c\<lparr>cn_status := Aborted\<rparr>, Inl e)" ..
  from failed_pair_poisons_the_rest [where view = "\<lambda>p. ?ex" and p = "\<lparr>sy_symbol = ''A'', sy_timeframe = ''1h''\<rparr>"
      and ps = "[\<lparr>sy_symbol = ''B'', sy_timeframe = ''1h''\<rparr>]" and results = "[]"
      and exchange = "''binance''" and d = "Some 0" and c = ?c] this
  show ?thesis by (simp add: pair_key_def put_def)
qed

section \<open>Reading back\<close>

text \<open>C26: The stored frame is what the strategy code expects: for a table with unique keys it holds
  exactly the stored candles of the series in the range, its index is strictly increasing, hence
  without repeated timestamps, all columns have its length, and the columns are the five price
  columns and no others.\<close>

theorem stored_frame_is_well_formed:
  assumes "fetch_ohlcv_dataframe candles exchange symbol timeframe start stop c = (c', Inr df)"
    and "keys_distinct (candles (cn_work c))"
  shows "frame_ok df \<and> sorted_wrt (<) (fr_index df) \<and> distinct (fr_index df) \<and>
    dom (fr_columns df) = {''open'', ''high'', ''low'', ''close'', ''volume''} \<and>
    (\<exists>rows. df = candle_frame rows \<and> set rows = {(ts, v). in_range start stop ts \<and>
       ((exchange, symbol, timeframe, ts), v) \<in> set (candles (cn_work c))})"
proof -
  let ?rows = "select_candles exchange symbol timeframe start stop (candles (cn_work c))"
  have df: "df = candle_frame ?rows"
    using assms(1) by (auto simp: fetch_ohlcv_dataframe_def run_query split: if_splits)
  have s: "sorted_wrt (<) (fr_index df)"
    unfolding df using select_candles_keys [OF assms(2)] by (rule candle_frame_index)
  have cols: "dom (fr_columns df) = {''open'', ''high'', ''low'', ''close'', ''volume''}"
    by (auto simp: df candle_frame_def)
  have rows: "set ?rows = {(ts, v). in_range start stop ts \<and>
       ((exchange, symbol, timeframe, ts), v) \<in> set (candles (cn_work c))}"
  proof (rule set_eqI)
    fix p :: "int \<times> candle_cells"
    obtain ts v where p: "p = (ts, v)" by force
    let ?row = "((exchange, symbol, timeframe, ts), v)"
    have "p \<in> set ?rows \<longleftrightarrow> (\<exists>x \<in> set (candles (cn_work c)). x = ?row \<and> in_range start stop ts)"
      by (auto simp: select_candles_def set_map_filter p split: if_splits intro!: bexI [of _ ?row])
    then show "p \<in> set ?rows \<longleftrightarrow> p \<in> {(ts, v). in_range start stop ts \<and>
       ((exchange, symbol, timeframe, ts), v) \<in> set (candles (cn_work c))}"
      by (auto simp: p)
  qed
  have "frame_ok df" unfolding df by (rule candle_frame_ok)
  moreover have "\<exists>rows. df = candle_frame rows \<and> set rows = {(ts, v). in_range start stop ts \<and>
      ((exchange, symbol, timeframe, ts), v) \<in> set (candles (cn_work c))}"
    by (rule exI [of _ ?rows], rule conjI [OF df rows])
  ultimately show ?thesis using s sorted_wrt_less_distinct [OF s] cols by (intro conjI)
qed

theorem stored_frame_is_well_formed_witness:
  "\<exists>df. snd (fetch_ohlcv_dataframe (\<lambda>t. t) ''binance'' ''BTC/USDT'' ''1h'' None None
      (fresh_connection (map (candle_row ''binance'' ''BTC/USDT'' ''1h'') [hd sample_candles]))) = Inr df \<and>
    sorted_wrt (<) (fr_index df)"
proof -
  let ?c = "fresh_connection (map (candle_row ''binance'' ''BTC/USDT'' ''1h'') [hd sample_candles])"
  obtain c' df where f: "fetch_ohlcv_dataframe (\<lambda>t. t) ''binance'' ''BTC/USDT'' ''1h'' None None ?c = (c', Inr df)"
    by (simp add: fetch_ohlcv_dataframe_def run_query fresh_connection_def)
  have "keys_distinct (cn_work ?c)" by (simp add: fresh_connection_def keys_distinct_def)
  from stored_frame_is_well_formed [OF f this] f show ?thesis by auto
qed

end
