(* ===== verification/Tables.thy ===== *)
theory Tables
  imports Pipeline Loader
begin

text \<open>
  The database the execution engine and the API share, as the migrations of the repository
  declare it: one association list per table, from the primary key to the other columns. The SQL
  statements of the two repository modules become functions on this record. The constraints
  the code can run into are written out: a duplicate key, a missing referenced row, and the
  \<^verbatim>\<open>check\<close> clauses raise, and a delete removes the rows that reference the deleted one with
  \<^verbatim>\<open>on delete cascade\<close>. The column \<^verbatim>\<open>strategies.definition\<close>, which the code writes with \<^verbatim>\<open>model_dump\<close> and validates
  again when it reads it, holds the definition itself; the stored rows and that this is the same
  are the subject of the theory \<open>Rows\<close>.
\<close>

section \<open>Rows\<close>

record strategy_record =
  sr_name :: string
  sr_definition :: strategy_definition
  sr_created_by :: string
  sr_created_at :: time
  sr_updated_at :: time

datatype job_type = BacktestJob | OptimizationJob

datatype job_status = Pending | Running | Completed | Failed

type_synonym payload = "(string \<times> jval) list"

record job_record =
  jr_job_type :: job_type
  jr_status :: job_status
  jr_strategy_id :: string
  jr_payload :: payload
  jr_error :: "pyerr option"
  jr_created_by :: string
  jr_created_at :: time
  jr_started_at :: "time option"
  jr_finished_at :: "time option"

record backtest_row =
  bt_strategy_id :: string
  bt_metrics :: jval
  bt_trades :: jval
  bt_equity_curve :: jval
  bt_created_at :: time

record optimization_row =
  ot_strategy_id :: string
  ot_metric :: string
  ot_windows :: jval
  ot_mean_in_sample_score :: fl
  ot_mean_out_of_sample_score :: fl
  ot_final_params :: jval
  ot_final_definition :: jval
  ot_created_at :: time

record credential_row =
  ec_created_by :: string
  ec_exchange_id :: string
  ec_label :: string
  ec_encrypted_api_key :: string
  ec_encrypted_api_secret :: string
  ec_encrypted_password :: "string option"
  ec_created_at :: time

record bot_config =
  bc_name :: string
  bc_strategy_id :: string
  bc_exchange_id :: string
  bc_symbol :: string
  bc_timeframe :: string
  bc_mode :: string
  bc_credential_id :: "string option"
  bc_initial_capital :: fl
  bc_fee_pct :: fl
  bc_slippage_pct :: fl
  bc_max_drawdown_pct :: fl
  bc_max_position_notional_pct :: fl
  bc_max_price_deviation_pct :: fl

record bot_record = bot_config +
  bo_desired_status :: string
  bo_status :: string
  bo_status_message :: "pyerr option"
  bo_created_by :: string
  bo_created_at :: time
  bo_updated_at :: time

record bot_state =
  bs_equity :: fl
  bs_peak_equity :: fl
  bs_position :: "jval option"
  bs_last_price :: "fl option"
  bs_last_heartbeat_at :: "time option"
  bs_updated_at :: time

record bot_trade =
  bx_bot_id :: string
  bx_entry_time :: time
  bx_exit_time :: time
  bx_entry_price :: fl
  bx_exit_price :: fl
  bx_quantity :: fl
  bx_exit_reason :: string
  bx_net_pnl_pct :: fl
  bx_net_pnl_abs :: fl
  bx_entry_order_id :: "string option"
  bx_exit_order_id :: "string option"

record bot_event =
  be_bot_id :: string
  be_event_type :: string
  be_message :: string
  be_data :: "jval option"
  be_created_at :: time

section \<open>The database\<close>

record database =
  db_candles :: candle_table
  db_strategies :: "(string \<times> strategy_record) list"
  db_jobs :: "(string \<times> job_record) list"
  db_backtest_results :: "(string \<times> backtest_row) list"
  db_optimization_results :: "(string \<times> optimization_row) list"
  db_credentials :: "(string \<times> credential_row) list"
  db_bots :: "(string \<times> bot_record) list"
  db_bot_state :: "(string \<times> bot_state) list"
  db_bot_trades :: "(string \<times> bot_trade) list"
  db_bot_events :: "bot_event list"

definition empty_database :: database where
  "empty_database = \<lparr>db_candles = [], db_strategies = [], db_jobs = [], db_backtest_results = [],
     db_optimization_results = [], db_credentials = [], db_bots = [], db_bot_state = [],
     db_bot_trades = [], db_bot_events = []\<rparr>"

definition unique_violation :: "'a res" where
  "unique_violation = Inl (DatabaseError ''duplicate key value violates unique constraint'')"

definition foreign_key_violation :: "'a res" where
  "foreign_key_violation = Inl (DatabaseError ''violates foreign key constraint'')"

definition check_violation :: "'a res" where
  "check_violation = Inl (DatabaseError ''violates check constraint'')"

definition delete_key :: "'k \<Rightarrow> ('k \<times> 'v) list \<Rightarrow> ('k \<times> 'v) list" where
  "delete_key k t = filter (\<lambda>(k', v). k' \<noteq> k) t"

text \<open>\<^verbatim>\<open>on delete cascade\<close>: the state, the trades and the events of a bot; the jobs, results and bots of a strategy.\<close>

definition delete_bot_rows :: "string \<Rightarrow> database \<Rightarrow> database" where
  "delete_bot_rows i d = d\<lparr>db_bots := delete_key i (db_bots d), db_bot_state := delete_key i (db_bot_state d),
     db_bot_trades := filter (\<lambda>(k, t). bx_bot_id t \<noteq> i) (db_bot_trades d),
     db_bot_events := filter (\<lambda>e. be_bot_id e \<noteq> i) (db_bot_events d)\<rparr>"

definition bots_of_strategy :: "string \<Rightarrow> database \<Rightarrow> string list" where
  "bots_of_strategy i d = map fst (filter (\<lambda>(k, b). bc_strategy_id b = i) (db_bots d))"

definition delete_strategy_rows :: "string \<Rightarrow> database \<Rightarrow> database" where
  "delete_strategy_rows i d =
     (let d1 = fold delete_bot_rows (bots_of_strategy i d) d;
          gone = map fst (filter (\<lambda>(k, j). jr_strategy_id j = i) (db_jobs d1)) in
      d1\<lparr>db_strategies := delete_key i (db_strategies d1),
        db_jobs := filter (\<lambda>(k, j). jr_strategy_id j \<noteq> i) (db_jobs d1),
        db_backtest_results := filter (\<lambda>(k, r). k \<notin> set gone \<and> bt_strategy_id r \<noteq> i) (db_backtest_results d1),
        db_optimization_results := filter (\<lambda>(k, r). k \<notin> set gone \<and> ot_strategy_id r \<noteq> i) (db_optimization_results d1)\<rparr>)"

text \<open>\<^verbatim>\<open>order by created_at desc\<close>; \<open>rows_of\<close> keeps the rows with their keys.\<close>

definition newest_first :: "('v \<Rightarrow> time) \<Rightarrow> ('k \<times> 'v) list \<Rightarrow> ('k \<times> 'v) list" where
  "newest_first created t = sort_key (\<lambda>(k, v). - created v) t"

definition owned_by :: "('v \<Rightarrow> string) \<Rightarrow> string \<Rightarrow> ('k \<times> 'v) list \<Rightarrow> ('k \<times> 'v) list" where
  "owned_by owner who t = filter (\<lambda>(k, v). owner v = who) t"

definition find_owned :: "('v \<Rightarrow> string) \<Rightarrow> ('k \<times> 'v) list \<Rightarrow> 'k \<Rightarrow> string \<Rightarrow> ('k \<times> 'v) option" where
  "find_owned owner t k who = (case map_of t k of
      None \<Rightarrow> None | Some v \<Rightarrow> if owner v = who then Some (k, v) else None)"

definition new_id :: "string \<Rightarrow> string \<Rightarrow> string" where
  "new_id prefix uuid = prefix @ ''_'' @ uuid"

text \<open>
  Reading a \<^verbatim>\<open>jsonb\<close> value back. A number that was stored as null is refused here; the code that
  only reads it into a variable fails at its first use.
\<close>

definition as_float :: "jval \<Rightarrow> fl res" where
  "as_float v = (case v of VFloat x \<Rightarrow> Inr x | VInt i \<Rightarrow> float_of_int i | _ \<Rightarrow> Inl TypeError)"

definition as_time :: "jval \<Rightarrow> time res" where
  "as_time v = (case v of VTime t \<Rightarrow> Inr t | _ \<Rightarrow> Inl (ValueError ''timestamp''))"

section \<open>Integrity\<close>

definition references_ok :: "database \<Rightarrow> bool" where
  "references_ok d \<longleftrightarrow>
     (\<forall>(k, j) \<in> set (db_jobs d). jr_strategy_id j \<in> fst ` set (db_strategies d)) \<and>
     (\<forall>(k, r) \<in> set (db_backtest_results d). k \<in> fst ` set (db_jobs d)) \<and>
     (\<forall>(k, r) \<in> set (db_optimization_results d). k \<in> fst ` set (db_jobs d)) \<and>
     (\<forall>(k, b) \<in> set (db_bots d). bc_strategy_id b \<in> fst ` set (db_strategies d) \<and>
        (\<forall>c. bc_credential_id b = Some c \<longrightarrow> c \<in> fst ` set (db_credentials d))) \<and>
     (\<forall>(k, s) \<in> set (db_bot_state d). k \<in> fst ` set (db_bots d)) \<and>
     (\<forall>(k, t) \<in> set (db_bot_trades d). bx_bot_id t \<in> fst ` set (db_bots d)) \<and>
     (\<forall>e \<in> set (db_bot_events d). be_bot_id e \<in> fst ` set (db_bots d))"

lemma delete_key_simps [simp]:
  "fst ` set (delete_key k t) = fst ` set t - {k}"
  "map_of (delete_key k t) k' = (if k' = k then None else map_of t k')"
  "set (delete_key k t) = {kv \<in> set t. fst kv \<noteq> k}"
  by (induction t) (auto simp: delete_key_def split: prod.splits)

lemma find_owned_Some:
  "find_owned owner t k who = Some kv \<longleftrightarrow> (\<exists>v. kv = (k, v) \<and> map_of t k = Some v \<and> owner v = who)"
  by (auto simp: find_owned_def split: option.splits)

lemma find_owned_None: "find_owned owner t k who = None \<longleftrightarrow> (\<forall>v. map_of t k = Some v \<longrightarrow> owner v \<noteq> who)"
  by (auto simp: find_owned_def split: option.splits)

declare put_simps [simp]

lemma newest_first_set [simp]: "set (newest_first created t) = set t"
  by (simp add: newest_first_def)

lemma owned_by_set [simp]: "set (owned_by owner who t) = {kv \<in> set t. owner (snd kv) = who}"
  by (auto simp: owned_by_def)

end
