(* ===== verification/Exec_Repository.thy ===== *)
theory Exec_Repository
  imports Tables
begin

text \<open>
  \<^verbatim>\<open>freqpanda_execution/crypto.py\<close> and \<^verbatim>\<open>repository.py\<close>: encrypted exchange credentials, bots, their
  runtime state, trades and events. The Fernet cipher is the parameter \<open>F\<close>, the process environment
  the parameter \<open>env\<close>; random ids, the nonces of the cipher and the server's \<^verbatim>\<open>now()\<close> are arguments. A row is read back
  with its key. The messages of events and statuses are kept as their fixed part, and the text
  of an exception as the exception.
\<close>

section \<open>Secrets\<close>

record fernet =
  fe_valid_key :: "string \<Rightarrow> bool"
  fe_encrypt :: "string \<Rightarrow> string \<Rightarrow> string \<Rightarrow> string"
  fe_decrypt :: "string \<Rightarrow> string \<Rightarrow> string option"

definition master_key_env_var :: string where
  "master_key_env_var = ''EXECUTION_MASTER_KEY''"

definition get_fernet :: "fernet \<Rightarrow> (string \<Rightarrow> string option) \<Rightarrow> string res" where
  "get_fernet F env = (case env master_key_env_var of
      Some (c # cs) \<Rightarrow> if fe_valid_key F (c # cs) then Inr (c # cs)
        else Inl (RuntimeError ''EXECUTION_MASTER_KEY is not a valid Fernet key'')
    | _ \<Rightarrow> Inl (RuntimeError ''EXECUTION_MASTER_KEY is not set''))"

definition encrypt_secret :: "fernet \<Rightarrow> (string \<Rightarrow> string option) \<Rightarrow> string \<Rightarrow> string \<Rightarrow> string res" where
  "encrypt_secret F env nonce plaintext = map_res (\<lambda>key. fe_encrypt F key nonce plaintext) (get_fernet F env)"

definition decrypt_secret :: "fernet \<Rightarrow> (string \<Rightarrow> string option) \<Rightarrow> string \<Rightarrow> string res" where
  "decrypt_secret F env ciphertext =
     bindE (get_fernet F env) (\<lambda>key. case fe_decrypt F key ciphertext of
         Some plaintext \<Rightarrow> Inr plaintext
       | None \<Rightarrow> Inl (RuntimeError ''Could not decrypt credential''))"

section \<open>Strategies and credentials\<close>

definition get_strategy_definition :: "string \<Rightarrow> (database connection, strategy_definition option) stm" where
  "get_strategy_definition strategy_id =
     query (\<lambda>d. map_option sr_definition (map_of (db_strategies d) strategy_id))"

record credential_summary =
  cs_id :: string
  cs_exchange_id :: string
  cs_label :: string
  cs_created_at :: time

record decrypted_credential =
  dc_exchange_id :: string
  dc_api_key :: string
  dc_api_secret :: string
  dc_password :: "string option"

definition summary_of :: "string \<times> credential_row \<Rightarrow> credential_summary" where
  "summary_of kv = (case kv of (k, c) \<Rightarrow>
     \<lparr>cs_id = k, cs_exchange_id = ec_exchange_id c, cs_label = ec_label c, cs_created_at = ec_created_at c\<rparr>)"

definition insert_credential :: "string \<Rightarrow> credential_row \<Rightarrow> database \<Rightarrow> (database \<times> credential_summary) res" where
  "insert_credential k c d =
     (if k \<in> fst ` set (db_credentials d) \<or>
         (\<exists>(k', c') \<in> set (db_credentials d). ec_created_by c' = ec_created_by c \<and> ec_label c' = ec_label c)
      then unique_violation
      else Inr (d\<lparr>db_credentials := put k c (db_credentials d)\<rparr>, summary_of (k, c)))"

definition create_credential :: "fernet \<Rightarrow> (string \<Rightarrow> string option) \<Rightarrow> (nat \<Rightarrow> string) \<Rightarrow> string \<Rightarrow> time \<Rightarrow>
    string \<Rightarrow> string \<Rightarrow> string \<Rightarrow> string \<Rightarrow> string \<Rightarrow> string option \<Rightarrow>
    (database connection, credential_summary) stm" where
  "create_credential F env nonce uuid now created_by exchange_id label api_key api_secret password =
     bindS (liftS (encrypt_secret F env (nonce 0) api_key)) (\<lambda>enc_key.
     bindS (liftS (encrypt_secret F env (nonce 1) api_secret)) (\<lambda>enc_secret.
     bindS (liftS (case password of
           Some (c # cs) \<Rightarrow> map_res Some (encrypt_secret F env (nonce 2) (c # cs))
         | _ \<Rightarrow> Inr None)) (\<lambda>enc_password.
     bindS (execute (insert_credential (new_id ''cred'' uuid)
         \<lparr>ec_created_by = created_by, ec_exchange_id = exchange_id, ec_label = label,
          ec_encrypted_api_key = enc_key, ec_encrypted_api_secret = enc_secret,
          ec_encrypted_password = enc_password, ec_created_at = now\<rparr>)) (\<lambda>summary.
     seqS commit (returnS summary)))))"

definition list_credentials :: "string \<Rightarrow> (database connection, credential_summary list) stm" where
  "list_credentials created_by = query (\<lambda>d. map summary_of
     (newest_first ec_created_at (owned_by ec_created_by created_by (db_credentials d))))"

text \<open>\<^verbatim>\<open>bots.credential_id\<close> references the table without a cascade.\<close>

definition delete_credential_rows :: "string \<Rightarrow> string \<Rightarrow> database \<Rightarrow> (database \<times> bool) res" where
  "delete_credential_rows k created_by d = (case find_owned ec_created_by (db_credentials d) k created_by of
      None \<Rightarrow> Inr (d, False)
    | Some _ \<Rightarrow>
        if \<exists>(i, b) \<in> set (db_bots d). bc_credential_id b = Some k then foreign_key_violation
        else Inr (d\<lparr>db_credentials := delete_key k (db_credentials d)\<rparr>, True))"

definition delete_credential :: "string \<Rightarrow> string \<Rightarrow> (database connection, bool) stm" where
  "delete_credential credential_id created_by =
     bindS (execute (delete_credential_rows credential_id created_by)) (\<lambda>deleted. seqS commit (returnS deleted))"

definition get_decrypted_credential :: "fernet \<Rightarrow> (string \<Rightarrow> string option) \<Rightarrow> string \<Rightarrow>
    (database connection, decrypted_credential option) stm" where
  "get_decrypted_credential F env credential_id =
     bindS (query (\<lambda>d. map_of (db_credentials d) credential_id)) (\<lambda>row. case row of
         None \<Rightarrow> returnS None
       | Some c \<Rightarrow>
           bindS (liftS (decrypt_secret F env (ec_encrypted_api_key c))) (\<lambda>api_key.
           bindS (liftS (decrypt_secret F env (ec_encrypted_api_secret c))) (\<lambda>api_secret.
           bindS (liftS (case ec_encrypted_password c of
                 Some (x # xs) \<Rightarrow> map_res Some (decrypt_secret F env (x # xs))
               | _ \<Rightarrow> Inr None)) (\<lambda>password.
           returnS (Some \<lparr>dc_exchange_id = ec_exchange_id c, dc_api_key = api_key,
             dc_api_secret = api_secret, dc_password = password\<rparr>)))))"

section \<open>Bots\<close>

text \<open>PostgreSQL orders NaN above every number.\<close>

definition pg_less :: "fl \<Rightarrow> fl \<Rightarrow> bool" where
  "pg_less a b \<longleftrightarrow> \<not> is_nan a \<and> (is_nan b \<or> a < b)"

definition bot_checks :: "bot_config \<Rightarrow> bool" where
  "bot_checks b \<longleftrightarrow>
     (bc_mode b = ''live'' \<and> bc_credential_id b \<noteq> None \<or> bc_mode b = ''paper'' \<and> bc_credential_id b = None) \<and>
     pg_less 0 (bc_initial_capital b) \<and> \<not> pg_less (bc_fee_pct b) 0 \<and> \<not> pg_less (bc_slippage_pct b) 0 \<and>
     pg_less 0 (bc_max_drawdown_pct b) \<and> pg_less (bc_max_drawdown_pct b) 1 \<and>
     pg_less 0 (bc_max_position_notional_pct b) \<and> pg_less 0 (bc_max_price_deviation_pct b)"

definition new_bot :: "bot_config \<Rightarrow> string \<Rightarrow> time \<Rightarrow> bot_record" where
  "new_bot b created_by now = bot_config.extend b
     (bot_record.fields ''stopped'' ''stopped'' None created_by now now)"

definition insert_bot :: "string \<Rightarrow> bot_config \<Rightarrow> string \<Rightarrow> time \<Rightarrow> database \<Rightarrow>
    (database \<times> (string \<times> bot_record)) res" where
  "insert_bot k b created_by now d =
     (if \<not> bot_checks b then check_violation
      else if k \<in> fst ` set (db_bots d) then unique_violation
      else if bc_strategy_id b \<notin> fst ` set (db_strategies d) then foreign_key_violation
      else if (case bc_credential_id b of None \<Rightarrow> False | Some c \<Rightarrow> c \<notin> fst ` set (db_credentials d))
      then foreign_key_violation
      else Inr (d\<lparr>db_bots := put k (new_bot b created_by now) (db_bots d)\<rparr>, (k, new_bot b created_by now)))"

definition create_bot :: "string \<Rightarrow> time \<Rightarrow> string \<Rightarrow> bot_config \<Rightarrow>
    (database connection, string \<times> bot_record) stm" where
  "create_bot uuid now created_by b =
     bindS (execute (insert_bot (new_id ''bot'' uuid) b created_by now)) (\<lambda>row. seqS commit (returnS row))"

definition get_bot :: "string \<Rightarrow> string \<Rightarrow> (database connection, (string \<times> bot_record) option) stm" where
  "get_bot bot_id created_by = query (\<lambda>d. find_owned bo_created_by (db_bots d) bot_id created_by)"

definition get_bot_unscoped :: "string \<Rightarrow> (database connection, bot_record option) stm" where
  "get_bot_unscoped bot_id = query (\<lambda>d. map_of (db_bots d) bot_id)"

definition list_bots :: "string \<Rightarrow> (database connection, (string \<times> bot_record) list) stm" where
  "list_bots created_by =
     query (\<lambda>d. newest_first bo_created_at (owned_by bo_created_by created_by (db_bots d)))"

definition list_bots_by_desired_status :: "string \<Rightarrow> (database connection, (string \<times> bot_record) list) stm" where
  "list_bots_by_desired_status desired =
     query (\<lambda>d. filter (\<lambda>(k, b). bo_desired_status b = desired) (db_bots d))"

definition set_desired_status :: "time \<Rightarrow> string \<Rightarrow> string \<Rightarrow> string \<Rightarrow>
    (database connection, (string \<times> bot_record) option) stm" where
  "set_desired_status now bot_id created_by desired =
     bindS (execute (\<lambda>d. case find_owned bo_created_by (db_bots d) bot_id created_by of
         None \<Rightarrow> Inr (d, None)
       | Some (k, b) \<Rightarrow>
           if desired \<notin> {''running'', ''stopped''} then check_violation
           else (let b' = b\<lparr>bo_desired_status := desired, bo_updated_at := now\<rparr> in
             Inr (d\<lparr>db_bots := put k b' (db_bots d)\<rparr>, Some (k, b'))))) (\<lambda>row.
     seqS commit (returnS row))"

definition bot_statuses :: "string list" where
  "bot_statuses = [''stopped'', ''starting'', ''running'', ''stopping'', ''error'', ''circuit_broken'']"

definition update_status :: "time \<Rightarrow> string \<Rightarrow> string \<Rightarrow> pyerr option \<Rightarrow> (database connection, unit) stm" where
  "update_status now bot_id new_status message =
     seqS (execute (\<lambda>d. case map_of (db_bots d) bot_id of
         None \<Rightarrow> Inr (d, ())
       | Some b \<Rightarrow>
           if new_status \<notin> set bot_statuses then check_violation
           else Inr (d\<lparr>db_bots := put bot_id (b\<lparr>bo_status := new_status, bo_status_message := message,
             bo_updated_at := now\<rparr>) (db_bots d)\<rparr>, ()))) commit"

definition delete_bot :: "string \<Rightarrow> string \<Rightarrow> (database connection, bool) stm" where
  "delete_bot bot_id created_by =
     bindS (execute (\<lambda>d. case find_owned bo_created_by (db_bots d) bot_id created_by of
         None \<Rightarrow> Inr (d, False)
       | Some _ \<Rightarrow> Inr (delete_bot_rows bot_id d, True))) (\<lambda>deleted.
     seqS commit (returnS deleted))"

section \<open>State, trades and events\<close>

definition upsert_state :: "time \<Rightarrow> string \<Rightarrow> fl \<Rightarrow> fl \<Rightarrow> jval option \<Rightarrow> fl option \<Rightarrow>
    (database connection, unit) stm" where
  "upsert_state now bot_id equity peak_equity position last_price =
     seqS (execute (\<lambda>d. if bot_id \<notin> fst ` set (db_bots d) then foreign_key_violation
       else Inr (d\<lparr>db_bot_state := put bot_id \<lparr>bs_equity = equity, bs_peak_equity = peak_equity,
           bs_position = map_option json_safe position, bs_last_price = last_price,
           bs_last_heartbeat_at = Some now, bs_updated_at = now\<rparr> (db_bot_state d)\<rparr>, ()))) commit"

definition heartbeat :: "time \<Rightarrow> string \<Rightarrow> (database connection, unit) stm" where
  "heartbeat now bot_id =
     seqS (dbwrite (\<lambda>d. case map_of (db_bot_state d) bot_id of
         None \<Rightarrow> d
       | Some s \<Rightarrow> d\<lparr>db_bot_state := put bot_id (s\<lparr>bs_last_heartbeat_at := Some now\<rparr>) (db_bot_state d)\<rparr>)) commit"

definition get_state :: "string \<Rightarrow> string \<Rightarrow> (database connection, bot_state option) stm" where
  "get_state bot_id created_by = query (\<lambda>d. case find_owned bo_created_by (db_bots d) bot_id created_by of
      None \<Rightarrow> None | Some _ \<Rightarrow> map_of (db_bot_state d) bot_id)"

definition insert_trade :: "string \<Rightarrow> bot_trade \<Rightarrow> database \<Rightarrow> (database \<times> unit) res" where
  "insert_trade k t d =
     (if k \<in> fst ` set (db_bot_trades d) then unique_violation
      else if bx_bot_id t \<notin> fst ` set (db_bots d) then foreign_key_violation
      else Inr (d\<lparr>db_bot_trades := put k t (db_bot_trades d)\<rparr>, ()))"

definition record_trade :: "string \<Rightarrow> bot_trade \<Rightarrow> (database connection, string) stm" where
  "record_trade uuid t = (let trade_id = new_id ''bottrade'' uuid in
     seqS (execute (insert_trade trade_id t)) (seqS commit (returnS trade_id)))"

text \<open>\<^verbatim>\<open>limit n\<close>, which refuses a negative number.\<close>

definition limit_rows :: "int \<Rightarrow> 'a list \<Rightarrow> 'a list res" where
  "limit_rows n xs = (if n < 0 then Inl (DatabaseError ''LIMIT must not be negative'') else Inr (take (nat n) xs))"

definition list_trades :: "string \<Rightarrow> string \<Rightarrow> int \<Rightarrow> (database connection, bot_trade list) stm" where
  "list_trades bot_id created_by n = execute (\<lambda>d. map_res (Pair d) (limit_rows n
     (case find_owned bo_created_by (db_bots d) bot_id created_by of
        None \<Rightarrow> []
      | Some _ \<Rightarrow> map snd (newest_first bx_exit_time (filter (\<lambda>(k, t). bx_bot_id t = bot_id) (db_bot_trades d))))))"

definition event_types :: "string list" where
  "event_types = [''started'', ''stopped'', ''entry'', ''exit'', ''hard_stop_loss'', ''circuit_breaker'',
     ''order_rejected'', ''error'']"

definition record_event :: "time \<Rightarrow> string \<Rightarrow> string \<Rightarrow> string \<Rightarrow> jval option \<Rightarrow>
    (database connection, unit) stm" where
  "record_event now bot_id event_type message data =
     seqS (execute (\<lambda>d. if event_type \<notin> set event_types then check_violation
       else if bot_id \<notin> fst ` set (db_bots d) then foreign_key_violation
       else Inr (d\<lparr>db_bot_events := db_bot_events d @ [\<lparr>be_bot_id = bot_id, be_event_type = event_type,
           be_message = message, be_data = map_option json_safe data, be_created_at = now\<rparr>]\<rparr>, ()))) commit"

definition list_events :: "string \<Rightarrow> string \<Rightarrow> int \<Rightarrow> (database connection, bot_event list) stm" where
  "list_events bot_id created_by n = execute (\<lambda>d. map_res (Pair d) (limit_rows n
     (case find_owned bo_created_by (db_bots d) bot_id created_by of
        None \<Rightarrow> []
      | Some _ \<Rightarrow> sort_key (\<lambda>e. - be_created_at e) (filter (\<lambda>e. be_bot_id e = bot_id) (db_bot_events d)))))"

section \<open>The operations where nothing is wrong\<close>

text \<open>
  \<open>committed f c\<close> is the connection after a statement \<open>f\<close> and a commit; \<open>ready i c\<close>: the
  transaction is usable and the bot exists.
\<close>

definition committed :: "('d \<Rightarrow> 'd) \<Rightarrow> 'd connection \<Rightarrow> 'd connection" where
  "committed f c = \<lparr>cn_committed = f (cn_work c), cn_work = f (cn_work c), cn_status = Idle\<rparr>"

definition ready :: "string \<Rightarrow> database connection \<Rightarrow> bool" where
  "ready i c \<longleftrightarrow> cn_status c \<noteq> Aborted \<and> i \<in> fst ` set (db_bots (cn_work c))"

definition add_event :: "bot_event \<Rightarrow> database \<Rightarrow> database" where
  "add_event e d = d\<lparr>db_bot_events := db_bot_events d @ [e]\<rparr>"

definition add_trade :: "string \<Rightarrow> bot_trade \<Rightarrow> database \<Rightarrow> database" where
  "add_trade k t d = d\<lparr>db_bot_trades := put k t (db_bot_trades d)\<rparr>"

definition set_state :: "string \<Rightarrow> bot_state \<Rightarrow> database \<Rightarrow> database" where
  "set_state i s d = d\<lparr>db_bot_state := put i s (db_bot_state d)\<rparr>"

definition set_bot :: "string \<Rightarrow> (bot_record \<Rightarrow> bot_record) \<Rightarrow> database \<Rightarrow> database" where
  "set_bot i f d = (case map_of (db_bots d) i of None \<Rightarrow> d | Some b \<Rightarrow> d\<lparr>db_bots := put i (f b) (db_bots d)\<rparr>)"

lemma committed_simps [simp]:
  "cn_committed (committed f c) = f (cn_work c)" "cn_work (committed f c) = f (cn_work c)"
  "cn_status (committed f c) = Idle"
  by (simp_all add: committed_def)

lemma store_simps [simp]:
  "db_bots (add_event e d) = db_bots d" "db_bots (add_trade k t d) = db_bots d"
  "db_bots (set_state i s d) = db_bots d" "db_bot_state (add_event e d) = db_bot_state d"
  "db_bot_state (add_trade k t d) = db_bot_state d" "db_bot_trades (add_event e d) = db_bot_trades d"
  "db_bot_trades (set_state i s d) = db_bot_trades d" "db_bot_events (add_trade k t d) = db_bot_events d"
  "db_bot_events (set_state i s d) = db_bot_events d" "db_bot_trades (add_trade k t d) = put k t (db_bot_trades d)"
  "db_bot_state (set_state i s d) = put i s (db_bot_state d)" "db_bot_events (add_event e d) = db_bot_events d @ [e]"
  by (simp_all add: add_event_def add_trade_def set_state_def)

lemma set_bot_simps [simp]:
  "db_bot_state (set_bot i f d) = db_bot_state d" "db_bot_trades (set_bot i f d) = db_bot_trades d"
  "db_bot_events (set_bot i f d) = db_bot_events d" "fst ` set (db_bots (set_bot i f d)) = fst ` set (db_bots d)"
  "map_of (db_bots (set_bot i f d)) j = (if j = i then map_option f (map_of (db_bots d) j) else map_of (db_bots d) j)"
  by (auto simp: set_bot_def split: option.splits) (metis image_eqI in_set_zipE map_of_SomeD fst_conv)

lemma ready_committed [simp]:
  "ready i (committed (add_event e) c) = (i \<in> fst ` set (db_bots (cn_work c)))"
  "ready i (committed (add_trade k t) c) = (i \<in> fst ` set (db_bots (cn_work c)))"
  "ready i (committed (set_state j s) c) = (i \<in> fst ` set (db_bots (cn_work c)))"
  "ready i (committed (set_bot j f) c) = (i \<in> fst ` set (db_bots (cn_work c)))"
  by (simp_all add: ready_def)

lemma ready_known: "ready i c \<Longrightarrow> i \<in> fst ` set (db_bots (cn_work c))"
  by (simp add: ready_def)

lemma run_record_event:
  "ready i c \<Longrightarrow> ty \<in> set event_types \<Longrightarrow> record_event now i ty m data c =
     (committed (add_event \<lparr>be_bot_id = i, be_event_type = ty, be_message = m,
        be_data = map_option json_safe data, be_created_at = now\<rparr>) c, Inr ())"
  by (simp add: record_event_def ready_def st_simps committed_def add_event_def)

lemma run_record_trade:
  "ready (bx_bot_id t) c \<Longrightarrow> new_id ''bottrade'' uuid \<notin> fst ` set (db_bot_trades (cn_work c)) \<Longrightarrow>
     record_trade uuid t c = (committed (add_trade (new_id ''bottrade'' uuid) t) c, Inr (new_id ''bottrade'' uuid))"
  by (simp add: record_trade_def insert_trade_def ready_def st_simps committed_def add_trade_def Let_def)

lemma run_upsert_state:
  "ready i c \<Longrightarrow> upsert_state now i e p pos lp c =
     (committed (set_state i \<lparr>bs_equity = e, bs_peak_equity = p, bs_position = map_option json_safe pos,
        bs_last_price = lp, bs_last_heartbeat_at = Some now, bs_updated_at = now\<rparr>) c, Inr ())"
  by (simp add: upsert_state_def ready_def st_simps committed_def set_state_def)

lemma run_update_status:
  "ready i c \<Longrightarrow> st \<in> set bot_statuses \<Longrightarrow> update_status now i st m c =
     (committed (set_bot i (\<lambda>b. b\<lparr>bo_status := st, bo_status_message := m, bo_updated_at := now\<rparr>)) c, Inr ())"
  by (auto simp: update_status_def ready_def st_simps committed_def set_bot_def split: option.splits)

lemma run_heartbeat:
  "cn_status c \<noteq> Aborted \<Longrightarrow> heartbeat now i c =
     (committed (\<lambda>d. case map_of (db_bot_state d) i of None \<Rightarrow> d
        | Some s \<Rightarrow> set_state i (s\<lparr>bs_last_heartbeat_at := Some now\<rparr>) d) c, Inr ())"
  by (auto simp: heartbeat_def st_simps committed_def set_state_def split: option.splits)

text \<open>A statement on an aborted transaction is refused and changes nothing.\<close>

lemma aborted_refused:
  assumes "cn_status c = Aborted"
  shows "record_event now i ty m data c = (c, Inl (DatabaseError ''current transaction is aborted''))"
    and "update_status now i st msg c = (c, Inl (DatabaseError ''current transaction is aborted''))"
    and "upsert_state now i e p pos lp c = (c, Inl (DatabaseError ''current transaction is aborted''))"
    and "heartbeat now i c = (c, Inl (DatabaseError ''current transaction is aborted''))"
    and "record_trade uuid t c = (c, Inl (DatabaseError ''current transaction is aborted''))"
  using assms by (simp_all add: record_event_def update_status_def upsert_state_def heartbeat_def
      record_trade_def st_simps Let_def)

end
