(* ===== verification/Broker.thy ===== *)
theory Broker
  imports Equity Exchange
begin

text \<open>
  The brokers of \<^verbatim>\<open>freqpanda_execution/broker.py\<close>. The paper broker computes its fills with the cost
  model of the backtest; the live one sends market orders to the exchange, whose answers are an
  input of the model: \<open>report\<close> is what the exchange returned for the order, a dictionary whose
  entries may be absent. The locale \<open>broker_contract\<close> is the contract the bot relies on: a fill it books
  has a price and a quantity, and an opening fill spends the capital.
\<close>

record fill =
  fi_price :: fl
  fi_quantity :: fl
  fi_order_id :: "string option"

record order_report =
  or_average :: "fl option"
  or_price :: "fl option"
  or_filled :: "fl option"
  or_id :: string

datatype broker_kind = PaperBroker trading_costs | LiveBroker exchange_client

text \<open>Python's \<^verbatim>\<open>a or b\<close> on optional floats: zero counts as absent.\<close>

definition or_else :: "fl option \<Rightarrow> fl option \<Rightarrow> fl option" where
  "or_else a b = (case a of None \<Rightarrow> b | Some x \<Rightarrow> if py_eq x 0 then b else Some x)"

definition fill_from_order :: "order_report \<Rightarrow> fl \<Rightarrow> fill res" where
  "fill_from_order order requested_quantity =
     (case or_else (or_average order) (or_price order) of
        None \<Rightarrow> Inl (RuntimeError ''Exchange did not report a fill price'')
      | Some price \<Rightarrow> Inr \<lparr>fi_price = price,
          fi_quantity = (case or_else (or_filled order) (Some requested_quantity) of
              Some q \<Rightarrow> q | None \<Rightarrow> requested_quantity),
          fi_order_id = Some (or_id order)\<rparr>)"

text \<open>
  \<open>report q\<close> is the exchange's answer to a market order for \<open>q\<close>, or the error it raised.
\<close>

definition paper_open_long :: "trading_costs \<Rightarrow> fl \<Rightarrow> fl \<Rightarrow> fill res" where
  "paper_open_long costs equity reference_price =
     (let fill_price = entry_fill_price costs reference_price in
      map_res (\<lambda>quantity. \<lparr>fi_price = fill_price, fi_quantity = quantity, fi_order_id = None\<rparr>)
        (py_div (equity * (1 - tc_fee_pct costs)) fill_price))"

definition paper_close_long :: "trading_costs \<Rightarrow> fl \<Rightarrow> fl \<Rightarrow> fill res" where
  "paper_close_long costs quantity reference_price =
     Inr \<lparr>fi_price = exit_fill_price costs reference_price, fi_quantity = quantity, fi_order_id = None\<rparr>"

definition live_open_long :: "(fl \<Rightarrow> order_report res) \<Rightarrow> fl \<Rightarrow> fl \<Rightarrow> fl \<Rightarrow> fill res" where
  "live_open_long report equity fee_pct reference_price =
     bindE (py_div (equity * (1 - fee_pct)) reference_price) (\<lambda>estimated_quantity.
     bindE (report estimated_quantity) (\<lambda>order. fill_from_order order estimated_quantity))"

definition live_close_long :: "(fl \<Rightarrow> order_report res) \<Rightarrow> fl \<Rightarrow> fill res" where
  "live_close_long report quantity = bindE (report quantity) (\<lambda>order. fill_from_order order quantity)"

text \<open>The two methods of the abstract class, dispatched on the broker the bot was built with.\<close>

definition open_long :: "broker_kind \<Rightarrow> (fl \<Rightarrow> order_report res) \<Rightarrow> fl \<Rightarrow> fl \<Rightarrow> fl \<Rightarrow> fill res" where
  "open_long broker report equity fee_pct reference_price = (case broker of
      PaperBroker costs \<Rightarrow> paper_open_long costs equity reference_price
    | LiveBroker client \<Rightarrow> live_open_long report equity fee_pct reference_price)"

definition close_long :: "broker_kind \<Rightarrow> (fl \<Rightarrow> order_report res) \<Rightarrow> fl \<Rightarrow> fl \<Rightarrow> fill res" where
  "close_long broker report quantity reference_price = (case broker of
      PaperBroker costs \<Rightarrow> paper_close_long costs quantity reference_price
    | LiveBroker client \<Rightarrow> live_close_long report quantity)"

lemmas broker_defs = open_long_def close_long_def paper_open_long_def paper_close_long_def
  live_open_long_def live_close_long_def

definition get_quote_balance :: "(string \<rightharpoonup> fl option) \<Rightarrow> string \<Rightarrow> fl" where
  "get_quote_balance balance currency = (case balance currency of
      Some (Some free) \<Rightarrow> free | _ \<Rightarrow> 0)"

section \<open>Facts\<close>

lemma fill_from_order_price:
  "fill_from_order order q = Inr f \<Longrightarrow> or_average order = Some (fi_price f) \<or> or_price order = Some (fi_price f)"
  by (auto simp: fill_from_order_def or_else_def split: option.splits if_splits)

text \<open>An order that reports nothing filled is booked with the quantity that was asked for.\<close>

lemma fill_of_unfilled:
  assumes "or_filled order = Some 0" and "fill_from_order order q = Inr f"
  shows "fi_quantity f = q"
  using assms by (auto simp: fill_from_order_def or_else_def py_eq_def zero_fl_def split: option.splits)

section \<open>The contract of a broker\<close>

locale broker_contract =
  fixes opens :: "(fl \<Rightarrow> order_report res) \<Rightarrow> fl \<Rightarrow> fl \<Rightarrow> fl \<Rightarrow> fill res"
    and closes :: "(fl \<Rightarrow> order_report res) \<Rightarrow> fl \<Rightarrow> fl \<Rightarrow> fill res"
    and simulated :: bool
  assumes no_order: "simulated \<Longrightarrow> opens r e f p = opens r' e f p \<and> closes r q p = closes r' q p"
    and no_id: "simulated \<Longrightarrow> opens r e f p = Inr fl1 \<Longrightarrow> fi_order_id fl1 = None"
    and live_id: "\<not> simulated \<Longrightarrow> opens r e f p = Inr fl1 \<Longrightarrow> fi_order_id fl1 \<noteq> None"
    and sells_all: "simulated \<Longrightarrow> closes r q p = Inr fl1 \<Longrightarrow> fi_quantity fl1 = q"
begin

text \<open>A simulated broker books a round trip without the exchange.\<close>

lemma round_trip_offline:
  assumes "simulated"
  shows "bindE (opens r e f p) (\<lambda>a. closes r (fi_quantity a) x) =
    bindE (opens r' e f p) (\<lambda>a. closes r' (fi_quantity a) x)"
  using no_order [OF assms, of r e f p r'] no_order [OF assms, where r = r and r' = r']
  by (auto simp: bindE_def split: sum.splits)

end

definition is_paper :: "broker_kind \<Rightarrow> bool" where
  "is_paper b = (case b of PaperBroker _ \<Rightarrow> True | LiveBroker _ \<Rightarrow> False)"

interpretation model_broker: broker_contract "open_long b" "close_long b" "is_paper b" for b
  by unfold_locales
    (auto simp: is_paper_def broker_defs Let_def py_simps fill_from_order_def
      split: broker_kind.splits option.splits)

text \<open>A paper round trip books what the backtest books for the same prices.\<close>

lemma paper_round_trip:
  assumes "cost_of_trade costs equity t = Inr r"
  shows "open_long (PaperBroker costs) report equity fee (tr_entry_price t) = Inr \<lparr>fi_price = cr_entry_fill_price r,
      fi_quantity = cr_quantity r, fi_order_id = None\<rparr>"
    and "close_long (PaperBroker costs) report (cr_quantity r) (tr_exit_price t) = Inr \<lparr>
      fi_price = cr_exit_fill_price r, fi_quantity = cr_quantity r, fi_order_id = None\<rparr>"
  using assms by (simp_all add: broker_defs cost_of_trade_Inr Let_def py_div_def)

end
