(* ===== verification/Feed.thy ===== *)
theory Feed
  imports Exchange Frames
begin

text \<open>
  The realtime feed, \<^verbatim>\<open>freqpanda_execution/feed.py\<close>: the rolling history, the rule that a candle is
  delivered only when it is newer than the last one kept, and the two loops that read candles
  from the exchange. The callback is an argument: stateful code that may raise, run once per
  delivered candle. The history is the list of its rows; \<open>history_frame\<close> is the data frame.
\<close>

record bar =
  bar_time :: time
  bar_open :: fl
  bar_high :: fl
  bar_low :: fl
  bar_close :: fl
  bar_volume :: fl

definition history_frame :: "bar list \<Rightarrow> frame" where
  "history_frame bars = \<lparr>fr_index = map bar_time bars,
     fr_columns = [''open'' \<mapsto> map bar_open bars, ''high'' \<mapsto> map bar_high bars, ''low'' \<mapsto> map bar_low bars,
       ''close'' \<mapsto> map bar_close bars, ''volume'' \<mapsto> map bar_volume bars]\<rparr>"

record feed =
  fd_history :: "bar list"
  fd_max_history :: nat

text \<open>\<^verbatim>\<open>iloc[-n:]\<close>, which keeps everything for \<^verbatim>\<open>n = 0\<close>\<close>

definition last_n :: "nat \<Rightarrow> 'a list \<Rightarrow> 'a list" where
  "last_n n xs = (if n = 0 then xs else drop (length xs - n) xs)"

definition default_max_history :: nat where
  "default_max_history = 500"

definition init_feed :: "bar list \<Rightarrow> nat \<Rightarrow> feed res" where
  "init_feed history max_history =
     (if history = [] then Inl (ValueError ''RealtimeFeed needs at least one seed candle'')
      else Inr \<lparr>fd_history = last_n max_history history, fd_max_history = max_history\<rparr>)"

definition bar_of :: "raw_candle \<Rightarrow> bar" where
  "bar_of c = \<lparr>bar_time = rc_ts c * 1000000, bar_open = rc_open c, bar_high = rc_high c,
     bar_low = rc_low c, bar_close = rc_close c, bar_volume = rc_volume c\<rparr>"

definition append_candle :: "feed \<Rightarrow> raw_candle \<Rightarrow> feed \<times> bar list option" where
  "append_candle f c =
     (if fd_history f \<noteq> [] \<and> bar_time (bar_of c) \<le> bar_time (last (fd_history f)) then (f, None)
      else (let history = last_n (fd_max_history f) (fd_history f @ [bar_of c]) in
        (f\<lparr>fd_history := history\<rparr>, Some history)))"

text \<open>
  Reading one candle: a candle that has not closed is skipped, a stale one is dropped, and any
  other is appended and handed to the callback. The state is the feed beside the callback's.
\<close>

definition read_candle ::
  "(bar list \<Rightarrow> ('s, unit) stm) \<Rightarrow> int \<Rightarrow> raw_candle \<times> int \<Rightarrow> (feed \<times> 's, unit) stm" where
  "read_candle on_candle_close timeframe_ms cn = (\<lambda>(f, s). case cn of (c, now_ms) \<Rightarrow>
     if \<not> is_closed_candle c timeframe_ms now_ms then ((f, s), Inr ())
     else (case append_candle f c of
         (f', None) \<Rightarrow> ((f', s), Inr ())
       | (f', Some history) \<Rightarrow> (case on_candle_close history s of (s', r) \<Rightarrow> ((f', s'), r))))"

text \<open>
  One round of the websocket loop: all candles of a message are judged at the same clock. One
  round of polling fetches only when the next candle may have started, and reads the clock before
  each candle (\<open>clock k j\<close> for candle \<open>j\<close> of page \<open>k\<close>). \<open>seconds\<close> is pandas'
  \<^verbatim>\<open>Timestamp.timestamp()\<close>. A round of polling is \<open>None\<close> when the paging never ends.
\<close>

definition websocket_round ::
  "(bar list \<Rightarrow> ('s, unit) stm) \<Rightarrow> int \<Rightarrow> raw_candle list \<Rightarrow> int \<Rightarrow> (feed \<times> 's, unit) stm" where
  "websocket_round cb timeframe_ms candles now_ms = forS (\<lambda>c. read_candle cb timeframe_ms (c, now_ms)) candles"

definition poll_since :: "(time \<Rightarrow> fl) \<Rightarrow> int \<Rightarrow> feed \<Rightarrow> int res" where
  "poll_since seconds timeframe_ms f = (if fd_history f = [] then Inl IndexError
     else map_res (\<lambda>ms. ms + timeframe_ms) (py_int (FloatN (seconds (bar_time (last (fd_history f))) * Fin 1000))))"

definition clocked :: "(nat \<Rightarrow> nat \<Rightarrow> int) \<Rightarrow> raw_candle list list \<Rightarrow> (raw_candle \<times> int) list" where
  "clocked clock pages = concat (map (\<lambda>(k, page). map (\<lambda>(j, c). (c, clock k j)) (enumerate 0 page)) (enumerate 0 pages))"

definition polling_round ::
  "(bar list \<Rightarrow> ('s, unit) stm) \<Rightarrow> (time \<Rightarrow> fl) \<Rightarrow> int \<Rightarrow> int \<Rightarrow> fetcher \<Rightarrow> (nat \<Rightarrow> nat \<Rightarrow> int) \<Rightarrow>
     feed \<times> 's \<Rightarrow> ((feed \<times> 's) \<times> unit res) option" where
  "polling_round cb seconds timeframe_ms now_ms fetch clock fs =
     (case poll_since seconds timeframe_ms (fst fs) of
        Inl e \<Rightarrow> Some (fs, Inl e)
      | Inr since_ms \<Rightarrow>
          if since_ms < now_ms then
            (case fetch_ohlcv_since fetch timeframe_ms default_page_limit 0 since_ms of
               None \<Rightarrow> None
             | Some (pages, err) \<Rightarrow> Some (seqS (forS (read_candle cb timeframe_ms) (clocked clock pages))
                 (case err of None \<Rightarrow> returnS () | Some e \<Rightarrow> raiseS e) fs))
          else Some (fs, Inr ()))"

text \<open>A run of the feed until the stop event: the rounds it made, in order.\<close>

datatype feed_round =
    WebsocketMessage "raw_candle list" int
  | PollingRound int fetcher "nat \<Rightarrow> nat \<Rightarrow> int"

definition feed_step ::
  "(bar list \<Rightarrow> ('s, unit) stm) \<Rightarrow> (time \<Rightarrow> fl) \<Rightarrow> int \<Rightarrow> feed_round \<Rightarrow>
     feed \<times> 's \<Rightarrow> ((feed \<times> 's) \<times> unit res) option" where
  "feed_step cb seconds timeframe_ms r fs = (case r of
      WebsocketMessage candles now_ms \<Rightarrow> Some (websocket_round cb timeframe_ms candles now_ms fs)
    | PollingRound now_ms fetch clock \<Rightarrow> polling_round cb seconds timeframe_ms now_ms fetch clock fs)"

fun feed_run ::
  "(bar list \<Rightarrow> ('s, unit) stm) \<Rightarrow> (time \<Rightarrow> fl) \<Rightarrow> int \<Rightarrow> feed_round list \<Rightarrow>
     feed \<times> 's \<Rightarrow> ((feed \<times> 's) \<times> unit res) option" where
  "feed_run cb seconds timeframe_ms [] fs = Some (fs, Inr ())"
| "feed_run cb seconds timeframe_ms (r # rs) fs =
     (case feed_step cb seconds timeframe_ms r fs of
        None \<Rightarrow> None
      | Some (fs', Inl e) \<Rightarrow> Some (fs', Inl e)
      | Some (fs', Inr u) \<Rightarrow> feed_run cb seconds timeframe_ms rs fs')"

text \<open>
  \<^verbatim>\<open>run\<close> takes the websocket when CCXT Pro can be imported, has a class for the exchange, and that class
  can watch candles (\<open>pro\<close> answers the three questions), and polls otherwise. The websocket client is
  closed however the loop ends; an error of closing it replaces the outcome.
\<close>

record feed_inputs =
  fn_messages :: "(raw_candle list \<times> int) list"
  fn_polls :: "(int \<times> fetcher \<times> (nat \<Rightarrow> nat \<Rightarrow> int)) list"
  fn_close :: "unit res"

definition make_pro_exchange :: "(string \<Rightarrow> bool option) option \<Rightarrow> string \<Rightarrow> bool option" where
  "make_pro_exchange pro exchange_id = (case pro of None \<Rightarrow> None | Some classes \<Rightarrow> classes exchange_id)"

definition run_websocket ::
  "(bar list \<Rightarrow> ('s, unit) stm) \<Rightarrow> (time \<Rightarrow> fl) \<Rightarrow> int \<Rightarrow> (raw_candle list \<times> int) list \<Rightarrow>
     feed \<times> 's \<Rightarrow> ((feed \<times> 's) \<times> unit res) option" where
  "run_websocket cb seconds timeframe_ms messages =
     feed_run cb seconds timeframe_ms (map (\<lambda>(candles, now_ms). WebsocketMessage candles now_ms) messages)"

definition run_polling ::
  "(bar list \<Rightarrow> ('s, unit) stm) \<Rightarrow> (time \<Rightarrow> fl) \<Rightarrow> int \<Rightarrow> (int \<times> fetcher \<times> (nat \<Rightarrow> nat \<Rightarrow> int)) list \<Rightarrow>
     feed \<times> 's \<Rightarrow> ((feed \<times> 's) \<times> unit res) option" where
  "run_polling cb seconds timeframe_ms polls =
     feed_run cb seconds timeframe_ms (map (\<lambda>(now_ms, fetch, clock). PollingRound now_ms fetch clock) polls)"

definition realtime_run ::
  "(string \<Rightarrow> bool option) option \<Rightarrow> string \<Rightarrow> (bar list \<Rightarrow> ('s, unit) stm) \<Rightarrow> (time \<Rightarrow> fl) \<Rightarrow> int \<Rightarrow> feed_inputs \<Rightarrow>
     feed \<times> 's \<Rightarrow> ((feed \<times> 's) \<times> unit res) option" where
  "realtime_run pro exchange_id cb seconds timeframe_ms i fs =
     (if make_pro_exchange pro exchange_id = Some True
      then map_option (\<lambda>(fs', r). (fs', case fn_close i of Inl e \<Rightarrow> Inl e | Inr _ \<Rightarrow> r))
        (run_websocket cb seconds timeframe_ms (fn_messages i) fs)
      else run_polling cb seconds timeframe_ms (fn_polls i) fs)"

text \<open>Either way it is a run over rounds, the rounds of one kind.\<close>

definition realtime_rounds :: "(string \<Rightarrow> bool option) option \<Rightarrow> string \<Rightarrow> feed_inputs \<Rightarrow> feed_round list" where
  "realtime_rounds pro exchange_id i =
     (if make_pro_exchange pro exchange_id = Some True
      then map (\<lambda>(candles, now_ms). WebsocketMessage candles now_ms) (fn_messages i)
      else map (\<lambda>(now_ms, fetch, clock). PollingRound now_ms fetch clock) (fn_polls i))"

lemma realtime_run_rounds:
  "map_option fst (realtime_run pro x cb seconds tf i fs) = map_option fst (feed_run cb seconds tf (realtime_rounds pro x i) fs)"
  "fn_close i = Inr () \<Longrightarrow> realtime_run pro x cb seconds tf i fs = feed_run cb seconds tf (realtime_rounds pro x i) fs"
  by (auto simp: realtime_run_def realtime_rounds_def run_websocket_def run_polling_def option.map_comp comp_def
    option.map_ident split_def intro!: option.map_cong)

section \<open>The history\<close>

definition feed_ok :: "feed \<Rightarrow> bool" where
  "feed_ok f \<longleftrightarrow> fd_history f \<noteq> [] \<and> sorted_wrt (<) (map bar_time (fd_history f)) \<and>
     (0 < fd_max_history f \<longrightarrow> length (fd_history f) \<le> fd_max_history f)"

lemma last_n_simps:
  "0 < n \<Longrightarrow> length (last_n n xs) = min n (length xs)"
  "set (last_n n xs) \<subseteq> set xs"
  "xs \<noteq> [] \<Longrightarrow> last_n n xs \<noteq> [] \<and> last (last_n n xs) = last xs"
  by (auto simp: last_n_def dest: in_set_dropD simp flip: length_greater_0_conv)

lemma sorted_last_n: "sorted_wrt r (map f xs) \<Longrightarrow> sorted_wrt r (map f (last_n n xs))"
  by (simp add: last_n_def drop_map [symmetric] sorted_wrt_drop)

lemma init_feed_ok:
  assumes "init_feed history n = Inr f" and "sorted_wrt (<) (map bar_time history)"
  shows "feed_ok f"
  using assms last_n_simps(1) [of n history] last_n_simps(3) [of history n]
  by (auto simp: init_feed_def feed_ok_def sorted_last_n split: if_splits)

lemma append_candle_None: "append_candle f c = (f', None) \<Longrightarrow> f' = f"
  by (auto simp: append_candle_def Let_def split: if_splits)

lemma append_candle_Some:
  assumes "append_candle f c = (f', Some h)" and "feed_ok f"
  shows "feed_ok f'" and "fd_history f' = h" and "last h = bar_of c"
    and "bar_time (last (fd_history f)) < bar_time (last h)"
proof -
  from assms have h: "h = last_n (fd_max_history f) (fd_history f @ [bar_of c])"
      and f': "f' = f\<lparr>fd_history := h\<rparr>" and newer: "bar_time (last (fd_history f)) < bar_time (bar_of c)"
    by (auto simp: append_candle_def Let_def feed_ok_def split: if_splits)
  have l: "h \<noteq> [] \<and> last h = bar_of c"
    using last_n_simps(3) [of "fd_history f @ [bar_of c]" "fd_max_history f"] by (simp add: h)
  have "\<forall>b \<in> set (fd_history f). bar_time b < bar_time (bar_of c)"
    using sorted_wrt_last [of bar_time "fd_history f"] assms(2) newer by (force simp: feed_ok_def)
  then have "sorted_wrt (<) (map bar_time (fd_history f @ [bar_of c]))"
    using assms(2) by (simp add: feed_ok_def sorted_wrt_append)
  then have s: "sorted_wrt (<) (map bar_time h)" unfolding h by (rule sorted_last_n)
  have "0 < fd_max_history f \<Longrightarrow> length h \<le> fd_max_history f"
    using last_n_simps(1) [of "fd_max_history f" "fd_history f @ [bar_of c]"] by (simp add: h)
  with l s f' show "feed_ok f'" by (simp add: feed_ok_def)
  show "fd_history f' = h" "last h = bar_of c" using f' l by simp_all
  with newer show "bar_time (last (fd_history f)) < bar_time (last h)" by simp
qed

lemma history_frame_ok: "frame_ok (history_frame bars)"
  by (auto simp: frame_ok_def history_frame_def split: if_splits)

lemma history_frame_index: "fr_index (history_frame bars) = map bar_time bars"
  by (simp add: history_frame_def)

section \<open>Deliveries\<close>

text \<open>
  \<open>recording cb\<close> is a callback with a log of the candles it was handed, written before it runs.
  The invariant ties the log to the history, whatever the callback does.
\<close>

definition recording :: "(bar list \<Rightarrow> ('s, unit) stm) \<Rightarrow> bar list \<Rightarrow> ('s \<times> bar list, unit) stm" where
  "recording cb history = (\<lambda>(s, seen). case cb history s of (s', r) \<Rightarrow> ((s', seen @ [last history]), r))"

definition delivered_ok :: "bar \<Rightarrow> feed \<times> 's \<times> bar list \<Rightarrow> bool" where
  "delivered_ok b0 fl = (case fl of (f, s, seen) \<Rightarrow> feed_ok f \<and>
     sorted_wrt (<) (map bar_time (b0 # seen)) \<and> last (fd_history f) = last (b0 # seen))"

lemma read_candle_recording:
  assumes "is_closed_candle c tf now" and "append_candle f c = (f', Some h)"
  shows "read_candle (recording cb) tf (c, now) (f, s, seen) =
    ((f', fst (cb h s), seen @ [last h]), snd (cb h s))"
  using assms by (simp add: read_candle_def recording_def split: prod.splits)

lemma read_candle_skips:
  assumes "\<not> is_closed_candle c tf now \<or> append_candle f c = (f, None)"
  shows "read_candle cb tf (c, now) (f, s) = ((f, s), Inr ())"
  using assms by (auto simp: read_candle_def)

lemma read_candle_delivers:
  fixes cb :: "bar list \<Rightarrow> ('s, unit) stm"
  shows "preserves (delivered_ok b0) (read_candle (recording cb) tf cn)"
  unfolding preserves_def
proof (intro allI impI)
  fix fl :: "feed \<times> 's \<times> bar list" assume ok: "delivered_ok b0 fl"
  obtain f s seen where fl: "fl = (f, s, seen)" by (cases fl)
  obtain c now where cn: "cn = (c, now)" by force
  from ok fl have f: "feed_ok f" "last (fd_history f) = last (b0 # seen)"
      and s: "sorted_wrt (<) (map bar_time (b0 # seen))"
    by (auto simp: delivered_ok_def)
  obtain f' r where a: "append_candle f c = (f', r)" by force
  show "delivered_ok b0 (fst (read_candle (recording cb) tf cn fl))"
  proof (cases "is_closed_candle c tf now \<and> r \<noteq> None")
    case True
    then obtain h where h: "append_candle f c = (f', Some h)" using a by auto
    note ap = append_candle_Some [OF h f(1)]
    have "\<forall>b \<in> set (b0 # seen). bar_time b < bar_time (last h)"
      using sorted_wrt_last [OF s] ap(4) f(2) by force
    then have "sorted_wrt (<) (map bar_time (b0 # seen @ [last h]))"
      using s by (auto simp: sorted_wrt_append)
    with ap read_candle_recording [OF conjunct1 [OF True] h, of cb s seen] show ?thesis
      by (simp add: fl cn delivered_ok_def)
  next
    case False
    then have "\<not> is_closed_candle c tf now \<or> append_candle f c = (f, None)"
      using a append_candle_None by (cases r) auto
    from read_candle_skips [OF this, of "recording cb" "(s, seen)"] ok show ?thesis by (simp add: fl cn)
  qed
qed

lemma feed_step_delivers:
  assumes "feed_step (recording cb) seconds tf r fs = Some (fs', x)" and "delivered_ok b0 fs"
  shows "delivered_ok b0 fs'"
proof (cases r)
  case (WebsocketMessage candles now)
  have "preserves (delivered_ok b0) (websocket_round (recording cb) tf candles now)"
    unfolding websocket_round_def by (intro preserve read_candle_delivers)
  then show ?thesis using assms WebsocketMessage by (auto simp: feed_step_def elim: preservesD)
next
  case (PollingRound now fetch clock)
  have "preserves (delivered_ok b0) (seqS (forS (read_candle (recording cb) tf) cs)
      (case err of None \<Rightarrow> returnS () | Some e \<Rightarrow> raiseS e))" for cs err
    by (cases err) (auto intro!: preserve read_candle_delivers)
  note this [THEN preservesD]
  with assms PollingRound show ?thesis
    by (auto simp: feed_step_def polling_round_def split: sum.splits if_splits option.splits prod.splits)
qed

lemma feed_run_delivers:
  "feed_run (recording cb) seconds tf rounds fs = Some (fs', r) \<Longrightarrow> delivered_ok b0 fs \<Longrightarrow> delivered_ok b0 fs'"
  by (induction rounds arbitrary: fs)
    (auto split: option.splits prod.splits sum.splits dest: feed_step_delivers)

text \<open>
  Nothing is missed: in a message whose candles come in order, every closed candle that is newer
  than the history is handed over, as long as the callback does not raise.
\<close>

definition fresh_bars :: "feed \<Rightarrow> int \<Rightarrow> int \<Rightarrow> raw_candle list \<Rightarrow> bar list" where
  "fresh_bars f tf now cs = map bar_of (filter (\<lambda>c. is_closed_candle c tf now \<and>
     bar_time (last (fd_history f)) < bar_time (bar_of c)) cs)"

lemma websocket_delivers_all:
  assumes "sorted_wrt (<) (map rc_ts cs)" and "feed_ok f" and "\<And>h s. snd (cb h s) = Inr ()"
  shows "\<exists>f' s'. websocket_round (recording cb) tf cs now (f, s, seen) =
    ((f', s', seen @ fresh_bars f tf now cs), Inr ())"
  using assms(1,2)
proof (induction cs arbitrary: f s seen)
  case Nil
  then show ?case by (simp add: websocket_round_def fresh_bars_def)
next
  case (Cons c cs)
  obtain f' r where a: "append_candle f c = (f', r)" by force
  show ?case
  proof (cases "is_closed_candle c tf now \<and> r \<noteq> None")
    case True
    then obtain h where h: "append_candle f c = (f', Some h)" using a by auto
    note ap = append_candle_Some [OF h Cons.prems(2)]
    have "fresh_bars f tf now (c # cs) = last h # fresh_bars f' tf now cs"
    proof -
      have "bar_time (last h) < bar_time (bar_of d)" if "d \<in> set cs" for d
        using Cons.prems(1) that by (simp add: ap(3) bar_of_def)
      moreover have "bar_time (last (fd_history f)) < bar_time (bar_of d)" if "d \<in> set cs" for d
        using calculation [OF that] ap(4) by simp
      ultimately show ?thesis
        using True ap by (auto simp: fresh_bars_def intro!: arg_cong [of _ _ "map bar_of"] filter_cong)
    qed
    moreover from Cons.IH [of f' "fst (cb h s)" "seen @ [last h]"] Cons.prems(1) ap(1)
    obtain f2 s2 where "websocket_round (recording cb) tf cs now (f', fst (cb h s), seen @ [last h]) =
        ((f2, s2, (seen @ [last h]) @ fresh_bars f' tf now cs), Inr ())" by auto
    ultimately show ?thesis
      using True read_candle_recording [OF _ h, of tf now cb s seen] assms(3)
      by (simp add: websocket_round_def st_simps)
  next
    case False
    then have skip: "\<not> is_closed_candle c tf now \<or> append_candle f c = (f, None)"
      using a append_candle_None by (cases r) auto
    then have "fresh_bars f tf now (c # cs) = fresh_bars f tf now cs"
      using Cons.prems(2)
      by (auto simp: fresh_bars_def append_candle_def Let_def feed_ok_def split: if_splits)
    with Cons.IH [of f s seen] Cons.prems read_candle_skips [OF skip, of "recording cb" "(s, seen)"] show ?thesis
      by (auto simp: websocket_round_def st_simps)
  qed
qed

text \<open>The feed always comes back when the exchange's candles stay below a bound.\<close>

definition bounded_round :: "feed_round \<Rightarrow> bool" where
  "bounded_round r \<longleftrightarrow> (case r of WebsocketMessage _ _ \<Rightarrow> True
     | PollingRound _ fetch _ \<Rightarrow> \<exists>bound. bounded_by bound fetch)"

lemma feed_step_returns:
  assumes "bounded_round r"
  shows "feed_step cb seconds tf r fs \<noteq> None"
proof (cases r)
  case (WebsocketMessage candles now)
  then show ?thesis by (simp add: feed_step_def)
next
  case (PollingRound now fetch clock)
  with assms obtain bound where b: "bounded_by bound fetch" by (auto simp: bounded_round_def)
  have "fetch_ohlcv_since fetch tf default_page_limit 0 c \<noteq> None" for c
    using fetch_returns [OF b, of tf default_page_limit 0 c] by auto
  then show ?thesis
    by (cases "poll_since seconds tf (fst fs)")
      (auto simp: PollingRound feed_step_def polling_round_def simp del: not_None_eq split: option.splits)
qed

lemma feed_run_returns:
  "(\<And>r. r \<in> set rounds \<Longrightarrow> bounded_round r) \<Longrightarrow> feed_run cb seconds tf rounds fs \<noteq> None"
proof (induction rounds arbitrary: fs)
  case (Cons r rounds)
  have "feed_step cb seconds tf r fs \<noteq> None" using Cons.prems by (intro feed_step_returns) simp
  with Cons.IH Cons.prems show ?case
    by (auto simp del: not_None_eq split: option.splits prod.splits sum.splits)
qed simp

end
