(* ===== verification/Risk.thy ===== *)
theory Risk
  imports Pyfloat
begin

text \<open>
  The risk middleware, \<^verbatim>\<open>freqpanda_execution/risk.py\<close>: the limits with their constructor checks,
  the stop-loss test, the drawdown circuit breaker and the order checks. \<open>update_equity\<close> raises
  after it has moved the peak, so it returns its state beside the outcome.
\<close>

record risk_limits =
  rl_max_drawdown_pct :: fl
  rl_max_position_notional_pct :: fl
  rl_max_price_deviation_pct :: fl
  rl_min_seconds_between_orders :: fl

definition post_init_limits :: "risk_limits \<Rightarrow> risk_limits res" where
  "post_init_limits l =
     (if \<not> (0 < rl_max_drawdown_pct l \<and> rl_max_drawdown_pct l < 1)
      then Inl (ValueError ''max_drawdown_pct must be between 0 and 1'')
      else if rl_max_position_notional_pct l \<le> 0
      then Inl (ValueError ''max_position_notional_pct must be positive'')
      else if rl_max_price_deviation_pct l \<le> 0
      then Inl (ValueError ''max_price_deviation_pct must be positive'')
      else if rl_min_seconds_between_orders l < 0
      then Inl (ValueError ''min_seconds_between_orders must not be negative'')
      else Inr l)"

text \<open>The dataclass defaults, which the bot overrides except for the last.\<close>

definition default_min_seconds :: fl where
  "default_min_seconds = 1"

record risk_middleware =
  rk_limits :: risk_limits
  rk_peak_equity :: fl
  rk_last_order_at :: "fl option"

definition init_middleware :: "risk_limits \<Rightarrow> fl \<Rightarrow> risk_middleware res" where
  "init_middleware limits initial_equity =
     (if initial_equity \<le> 0 then Inl (ValueError ''initial_equity must be positive'')
      else Inr \<lparr>rk_limits = limits, rk_peak_equity = initial_equity, rk_last_order_at = None\<rparr>)"

definition check_hard_stop_loss :: "fl \<Rightarrow> number \<Rightarrow> fl \<Rightarrow> bool res" where
  "check_hard_stop_loss entry_price stop_loss_pct current_price =
     map_res (\<lambda>stop_price. current_price \<le> stop_price) (mult_num entry_price (one_minus stop_loss_pct))"

definition update_equity :: "fl \<Rightarrow> (risk_middleware, unit) stm" where
  "update_equity equity =
     seqS (modifyS (\<lambda>r. if rk_peak_equity r < equity then r\<lparr>rk_peak_equity := equity\<rparr> else r))
     (bindS (getS (\<lambda>r. r)) (\<lambda>r.
      bindS (liftS (py_div (rk_peak_equity r - equity) (rk_peak_equity r))) (\<lambda>drawdown.
      if rl_max_drawdown_pct (rk_limits r) \<le> drawdown then raiseS CircuitBreakerTripped
      else returnS ())))"

definition check_order ::
  "fl \<Rightarrow> fl \<Rightarrow> fl \<Rightarrow> fl option \<Rightarrow> fl option \<Rightarrow> (risk_middleware, unit) stm" where
  "check_order quantity price equity reference_price now =
     bindS (getS (\<lambda>r. r)) (\<lambda>r.
     if quantity \<le> 0 then raiseS (OrderRejected ''quantity must be positive'')
     else if price \<le> 0 then raiseS (OrderRejected ''price must be positive'')
     else if equity * rl_max_position_notional_pct (rk_limits r) < quantity * price
     then raiseS (OrderRejected ''notional'')
     else bindS (case reference_price of
           Some ref \<Rightarrow> if 0 < ref then liftS (map_res Some (py_div \<bar>price - ref\<bar> ref)) else returnS None
         | None \<Rightarrow> returnS None) (\<lambda>deviation.
       if (case deviation of None \<Rightarrow> False | Some x \<Rightarrow> rl_max_price_deviation_pct (rk_limits r) < x)
       then raiseS (OrderRejected ''price deviation'')
       else if (case (now, rk_last_order_at r) of
             (Some t, Some prev) \<Rightarrow> t - prev < rl_min_seconds_between_orders (rk_limits r)
           | _ \<Rightarrow> False)
       then raiseS (OrderRejected ''minimum spacing'')
       else (case now of
           Some t \<Rightarrow> modifyS (\<lambda>r. r\<lparr>rk_last_order_at := Some t\<rparr>)
         | None \<Rightarrow> returnS ())))"

section \<open>Facts\<close>

definition limits_ok :: "risk_limits \<Rightarrow> bool" where
  "limits_ok l \<longleftrightarrow> post_init_limits l = Inr l"

lemma limits_ok_iff:
  "limits_ok l \<longleftrightarrow> 0 < rl_max_drawdown_pct l \<and> rl_max_drawdown_pct l < 1 \<and>
     \<not> rl_max_position_notional_pct l \<le> 0 \<and> \<not> rl_max_price_deviation_pct l \<le> 0 \<and>
     \<not> rl_min_seconds_between_orders l < 0"
  by (auto simp: limits_ok_def post_init_limits_def)

text \<open>The peak after an update, and when the breaker trips.\<close>

definition new_peak :: "risk_middleware \<Rightarrow> fl \<Rightarrow> fl" where
  "new_peak r equity = (if rk_peak_equity r < equity then equity else rk_peak_equity r)"

lemma update_equity_state:
  "fst (update_equity equity r) = r\<lparr>rk_peak_equity := new_peak r equity\<rparr>"
  by (auto simp: update_equity_def st_simps new_peak_def split: prod.splits sum.splits)

lemma update_equity_outcome:
  "snd (update_equity equity r) =
     bindE (py_div (new_peak r equity - equity) (new_peak r equity)) (\<lambda>drawdown.
       if rl_max_drawdown_pct (rk_limits r) \<le> drawdown then Inl CircuitBreakerTripped else Inr ())"
  by (auto simp: update_equity_def st_simps new_peak_def py_div_def split: prod.splits sum.splits)

lemma new_peak_ge: "rk_peak_equity r \<noteq> NaN \<Longrightarrow> rk_peak_equity r \<le> new_peak r equity"
  by (auto simp: new_peak_def fl_less_imp_le)

lemma positive_peak_ge: "0 < rk_peak_equity r \<Longrightarrow> 0 < new_peak r equity"
  by (auto simp: new_peak_def intro: fl_less_trans)

lemma check_order_state:
  "fst (check_order q p e ref now r) = r \<or>
     (\<exists>t. now = Some t \<and> fst (check_order q p e ref now r) = r\<lparr>rk_last_order_at := Some t\<rparr>)"
  by (auto simp: check_order_def st_simps split: prod.splits sum.splits option.splits)

lemma check_order_accepts:
  assumes "snd (check_order q p e ref now r) = Inr ()"
  shows "\<not> q \<le> 0 \<and> \<not> p \<le> 0 \<and> \<not> e * rl_max_position_notional_pct (rk_limits r) < q * p \<and>
    (\<forall>x. ref = Some x \<longrightarrow> 0 < x \<longrightarrow> \<not> rl_max_price_deviation_pct (rk_limits r) < \<bar>p - x\<bar> / x) \<and>
    (\<forall>t l. now = Some t \<longrightarrow> rk_last_order_at r = Some l \<longrightarrow>
       \<not> t - l < rl_min_seconds_between_orders (rk_limits r)) \<and>
    fst (check_order q p e ref now r) =
      (case now of None \<Rightarrow> r | Some t \<Rightarrow> r\<lparr>rk_last_order_at := Some t\<rparr>)"
proof -
  have "x \<noteq> 0" if "0 < x" for x :: fl using that by auto
  with assms show ?thesis
    by (auto simp: check_order_def st_simps py_div_def split: prod.splits sum.splits option.splits if_splits)
qed

end
