(* ===== verification/Bot.thy ===== *)
theory Bot
  imports Exec_Repository Broker Feed Risk Live Backtest
begin

text \<open>
  One bot, \<^verbatim>\<open>freqpanda_execution/bot.py\<close>: how it is assembled from its stored configuration, what it
  does when a candle closes, and how a run ends. The state of a run is the connection beside the
  bot's own attributes; the feed keeps its history itself. The world a candle meets is a function
  of the history the feed hands over, which no two deliveries share: the exchange's answers to the
  two market orders, the monotonic clock, the server's \<^verbatim>\<open>now()\<close> and the random id.
\<close>

record bot =
  bm_id :: string
  bm_record :: bot_record
  bm_definition :: strategy_definition
  bm_broker :: broker_kind
  bm_costs :: trading_costs
  bm_tracker :: tracker
  bm_equity :: fl
  bm_equity_at_entry :: fl
  bm_current_quantity :: fl
  bm_entry_order_id :: "string option"
  bm_risk :: risk_middleware
  bm_exchange :: exchange_client

type_synonym bot_state_of_run = "database connection \<times> bot"

record candle_env =
  ce_buy :: "fl \<Rightarrow> order_report res"
  ce_sell :: "fl \<Rightarrow> order_report res"
  ce_monotonic :: fl
  ce_now :: time
  ce_uuid :: string

definition dbS :: "(database connection, 'a) stm \<Rightarrow> (bot_state_of_run, 'a) stm" where
  "dbS m = zoomS fst (\<lambda>c (_, b). (c, b)) m"

definition riskS :: "(risk_middleware, 'a) stm \<Rightarrow> (bot_state_of_run, 'a) stm" where
  "riskS m = zoomS (\<lambda>(_, b). bm_risk b) (\<lambda>r (c, b). (c, b\<lparr>bm_risk := r\<rparr>)) m"

definition botS :: "(bot \<Rightarrow> bot) \<Rightarrow> (bot_state_of_run, unit) stm" where
  "botS f = modifyS (\<lambda>(c, b). (c, f b))"

definition set_position :: "open_position option \<Rightarrow> bot \<Rightarrow> bot" where
  "set_position p b = b\<lparr>bm_tracker := (bm_tracker b)\<lparr>tk_position := p\<rparr>\<rparr>"

section \<open>Saving and resuming\<close>

definition position_json :: "bot \<Rightarrow> jval option" where
  "position_json b = map_option (\<lambda>p. VDict
     [(''entry_time'', VTime (op_entry_time p)),
      (''entry_price'', VFloat (op_entry_price p)),
      (''highest_since_entry'', VFloat (op_highest_since_entry p)),
      (''quantity'', VFloat (bm_current_quantity b)),
      (''equity_at_entry'', VFloat (bm_equity_at_entry b)),
      (''entry_order_id'', case bm_entry_order_id b of None \<Rightarrow> VNone | Some i \<Rightarrow> VStr i)])
     (tk_position (bm_tracker b))"

definition save_state :: "time \<Rightarrow> bar list \<Rightarrow> (bot_state_of_run, unit) stm" where
  "save_state now history =
     bindS (getS snd) (\<lambda>b. dbS (upsert_state now (bm_id b) (bm_equity b) (rk_peak_equity (bm_risk b))
       (position_json b) (if history = [] then None else Some (bar_close (last history)))))"

definition resume_from_state :: "bot_state \<Rightarrow> bot \<Rightarrow> bot res" where
  "resume_from_state s b0 =
     (let b = b0\<lparr>bm_equity := bs_equity s, bm_risk := (bm_risk b0)\<lparr>rk_peak_equity := bs_peak_equity s\<rparr>\<rparr> in
      case bs_position s of
        None \<Rightarrow> Inr b
      | Some (VDict p) \<Rightarrow>
          bindE (bindE (json_get p ''entry_time'') as_time) (\<lambda>entry_time.
          bindE (bindE (json_get p ''entry_price'') as_float) (\<lambda>entry_price.
          bindE (bindE (json_get p ''highest_since_entry'') as_float) (\<lambda>highest.
          bindE (bindE (json_get p ''quantity'') as_float) (\<lambda>quantity.
          bindE (case map_of p ''equity_at_entry'' of None \<Rightarrow> Inr (bs_equity s) | Some v \<Rightarrow> as_float v)
            (\<lambda>equity_at_entry.
          Inr ((set_position (Some \<lparr>op_entry_time = entry_time, op_entry_price = entry_price,
              op_highest_since_entry = highest\<rparr>) b)
            \<lparr>bm_current_quantity := quantity, bm_equity_at_entry := equity_at_entry,
             bm_entry_order_id := (case map_of p ''entry_order_id'' of Some (VStr i) \<Rightarrow> Some i | _ \<Rightarrow> None)\<rparr>))))))
      | Some _ \<Rightarrow> Inl TypeError)"

section \<open>Assembling a bot\<close>

definition bars_of :: "frame \<Rightarrow> bar list" where
  "bars_of df = map (\<lambda>i. \<lparr>bar_time = fr_index df ! i, bar_open = cell df ''open'' i, bar_high = cell df ''high'' i,
     bar_low = cell df ''low'' i, bar_close = cell df ''close'' i, bar_volume = cell df ''volume'' i\<rparr>)
     [0..<length (fr_index df)]"

definition make_bot :: "string \<Rightarrow> bot_record \<Rightarrow> strategy_definition \<Rightarrow> broker_kind \<Rightarrow> trading_costs \<Rightarrow>
    risk_limits \<Rightarrow> exchange_client \<Rightarrow> bar list \<Rightarrow> (feed \<times> bot) res" where
  "make_bot bot_id r d broker costs limits exchange history =
     bindE (init_middleware limits (bc_initial_capital r)) (\<lambda>risk.
     map_res (\<lambda>f. (f, \<lparr>bm_id = bot_id, bm_record = r, bm_definition = d, bm_broker = broker, bm_costs = costs,
         bm_tracker = \<lparr>tk_risk_management = sd_risk_management d, tk_position = None\<rparr>,
         bm_equity = bc_initial_capital r, bm_equity_at_entry = bc_initial_capital r,
         bm_current_quantity = 0, bm_entry_order_id = None, bm_risk = risk, bm_exchange = exchange\<rparr>))
       (init_feed history default_max_history))"

text \<open>Unlike \<^verbatim>\<open>create_exchange\<close>, this one lets the failed attribute lookup through. An empty password is none.\<close>

definition create_authenticated_exchange :: "(string \<Rightarrow> bool) \<Rightarrow> string \<Rightarrow> string \<Rightarrow> string \<Rightarrow> string option \<Rightarrow>
    exchange_client res" where
  "create_authenticated_exchange known exchange_id api_key api_secret password =
     (if known exchange_id then Inr \<lparr>xc_exchange_id = exchange_id, xc_enable_rate_limit = True,
        xc_api_key = Some api_key, xc_secret = Some api_secret,
        xc_password = (if password = Some [] then None else password)\<rparr>
      else Inl (AttributeError exchange_id))"

definition choose_broker :: "fernet \<Rightarrow> (string \<Rightarrow> string option) \<Rightarrow> (string \<Rightarrow> bool) \<Rightarrow> bot_record \<Rightarrow>
    trading_costs \<Rightarrow> (database connection, broker_kind) stm" where
  "choose_broker F env known r costs =
     (if bc_mode r = ''paper'' then returnS (PaperBroker costs)
      else (case bc_credential_id r of
          None \<Rightarrow> raiseS (ValueError ''Live bot has no exchange_credential configured'')
        | Some cred \<Rightarrow> bindS (get_decrypted_credential F env cred) (\<lambda>credential. case credential of
              None \<Rightarrow> raiseS (ValueError ''Credential not found'')
            | Some dc \<Rightarrow> liftS (map_res LiveBroker (create_authenticated_exchange known (dc_exchange_id dc)
                (dc_api_key dc) (dc_api_secret dc) (dc_password dc))))))"

definition build_bot :: "fernet \<Rightarrow> (string \<Rightarrow> string option) \<Rightarrow> (string \<Rightarrow> bool) \<Rightarrow> string \<Rightarrow>
    (database connection, feed \<times> bot) stm" where
  "build_bot F env known bot_id =
     bindS (get_bot_unscoped bot_id) (\<lambda>row. case row of
       None \<Rightarrow> raiseS (ValueError ''Bot not found'')
     | Some r \<Rightarrow>
     bindS (get_strategy_definition (bc_strategy_id r)) (\<lambda>found. case found of
       None \<Rightarrow> raiseS (ValueError ''Strategy not found'')
     | Some d \<Rightarrow>
     bindS (fetch_ohlcv_dataframe db_candles (bc_exchange_id r) (bc_symbol r) (bc_timeframe r) None None) (\<lambda>history.
     if fr_index history = [] then raiseS (ValueError ''No stored OHLCV data'')
     else bindS (liftS (create_exchange known (bc_exchange_id r))) (\<lambda>exchange.
     let costs = \<lparr>tc_fee_pct = bc_fee_pct r,
                tc_slippage_pct = (if bc_mode r = ''paper'' then bc_slippage_pct r else 0)\<rparr> in
     bindS (choose_broker F env known r costs) (\<lambda>broker.
     bindS (liftS (post_init_limits \<lparr>rl_max_drawdown_pct = bc_max_drawdown_pct r,
         rl_max_position_notional_pct = bc_max_position_notional_pct r,
         rl_max_price_deviation_pct = bc_max_price_deviation_pct r,
         rl_min_seconds_between_orders = default_min_seconds\<rparr>)) (\<lambda>limits.
     bindS (liftS (make_bot bot_id r d broker costs limits exchange (bars_of history))) (\<lambda>(f, b).
     bindS (get_state bot_id (bo_created_by r)) (\<lambda>saved. case saved of
         None \<Rightarrow> returnS (f, b)
       | Some s \<Rightarrow> liftS (map_res (Pair f) (resume_from_state s b)))))))))) "

section \<open>Entries and exits\<close>

definition event :: "time \<Rightarrow> string \<Rightarrow> string \<Rightarrow> jval option \<Rightarrow> (bot_state_of_run, unit) stm" where
  "event now event_type message data =
     bindS (getS snd) (\<lambda>b. dbS (record_event now (bm_id b) event_type message data))"

definition order_id_json :: "string option \<Rightarrow> jval" where
  "order_id_json i = (case i of None \<Rightarrow> VNone | Some s \<Rightarrow> VStr s)"

definition book_entry :: "fill \<Rightarrow> bot \<Rightarrow> bot" where
  "book_entry f b =
     (set_position (map_option (\<lambda>p. p\<lparr>op_entry_price := fi_price f, op_highest_since_entry := fi_price f\<rparr>)
        (tk_position (bm_tracker b))) b)
     \<lparr>bm_current_quantity := fi_quantity f, bm_entry_order_id := fi_order_id f,
      bm_equity_at_entry := bm_equity b, bm_equity := fi_quantity f * fi_price f\<rparr>"

definition execute_entry :: "candle_env \<Rightarrow> snapshot \<Rightarrow> (bot_state_of_run, unit) stm" where
  "execute_entry w sg =
     bindS (getS snd) (\<lambda>b.
     bindS (liftS (py_div (bm_equity b * (1 - tc_fee_pct (bm_costs b))) (sg_close sg))) (\<lambda>estimated_quantity.
     bindS (catchS (seqS (riskS (check_order estimated_quantity (sg_close sg) (bm_equity b) (Some (sg_close sg))
               (Some (ce_monotonic w)))) (returnS True))
         (\<lambda>e. case e of
             OrderRejected _ \<Rightarrow> seqS (event (ce_now w) ''order_rejected'' ''order rejected'' None)
               (seqS (botS (set_position None)) (returnS False))
           | _ \<Rightarrow> raiseS e)) (\<lambda>accepted_order.
     if \<not> accepted_order then returnS ()
     else bindS (liftS (open_long (bm_broker b) (ce_buy w) (bm_equity b) (tc_fee_pct (bm_costs b)) (sg_close sg))) (\<lambda>f.
       seqS (botS (book_entry f))
         (event (ce_now w) ''entry'' ''Entered'' (Some (VDict [(''price'', VFloat (fi_price f)),
            (''quantity'', VFloat (fi_quantity f)), (''order_id'', order_id_json (fi_order_id f))])))))))"

definition close_position_bot :: "candle_env \<Rightarrow> open_position \<Rightarrow> fl \<Rightarrow> string \<Rightarrow> time \<Rightarrow>
    (bot_state_of_run, unit) stm" where
  "close_position_bot w position exit_price exit_reason exit_time =
     bindS (getS snd) (\<lambda>b. let quantity = bm_current_quantity b in
     bindS (liftS (close_long (bm_broker b) (ce_sell w) quantity exit_price)) (\<lambda>f.
     let proceeds = fi_quantity f * fi_price f;
         equity_after = proceeds * (1 - tc_fee_pct (bm_costs b));
         net_pnl_abs = equity_after - bm_equity_at_entry b in
     bindS (liftS (py_div equity_after (bm_equity_at_entry b))) (\<lambda>ratio.
     seqS (dbS (bindS (record_trade (ce_uuid w) \<lparr>bx_bot_id = bm_id b, bx_entry_time = op_entry_time position,
         bx_exit_time = exit_time, bx_entry_price = op_entry_price position, bx_exit_price = fi_price f,
         bx_quantity = quantity, bx_exit_reason = exit_reason, bx_net_pnl_pct = ratio - 1,
         bx_net_pnl_abs = net_pnl_abs, bx_entry_order_id = bm_entry_order_id b,
         bx_exit_order_id = fi_order_id f\<rparr>) (\<lambda>_. returnS ())))
     (seqS (event (ce_now w) ''exit'' ''Exited'' (Some (VDict [(''price'', VFloat (fi_price f)),
         (''quantity'', VFloat quantity), (''reason'', VStr exit_reason),
         (''order_id'', order_id_json (fi_order_id f))])))
     (seqS (botS (\<lambda>b. b\<lparr>bm_equity := equity_after, bm_current_quantity := 0, bm_entry_order_id := None\<rparr>))
       (riskS (update_equity equity_after)))))))"

section \<open>A closed candle\<close>

definition hard_stop :: "snapshot \<Rightarrow> bot \<Rightarrow> bool res" where
  "hard_stop sg b = (case tk_position (bm_tracker b) of
      None \<Rightarrow> Inr False
    | Some p \<Rightarrow> check_hard_stop_loss (op_entry_price p)
        (rm_stop_loss_pct (sd_risk_management (bm_definition b))) (sg_close sg))"

definition close_at_hard_stop :: "candle_env \<Rightarrow> bar list \<Rightarrow> snapshot \<Rightarrow> open_position \<Rightarrow> (bot_state_of_run, unit) stm" where
  "close_at_hard_stop w history sg p =
     seqS (event (ce_now w) ''hard_stop_loss'' ''Independent hard stop-loss triggered''
         (Some (VDict [(''entry_price'', VFloat (op_entry_price p)), (''trigger_price'', VFloat (sg_close sg))])))
     (seqS (close_position_bot w p (sg_close sg) ''hard_stop_loss'' (sg_timestamp sg))
     (seqS (botS (set_position None)) (save_state (ce_now w) history)))"

definition follow_tracker :: "candle_env \<Rightarrow> bar list \<Rightarrow> snapshot \<Rightarrow> (bot_state_of_run, unit) stm" where
  "follow_tracker w history sg =
     bindS (getS snd) (\<lambda>b. let position_before = tk_position (bm_tracker b) in
     bindS (liftS (process (bm_tracker b) sg)) (\<lambda>(t, action).
     seqS (botS (\<lambda>b. b\<lparr>bm_tracker := t\<rparr>))
     (case action of
        None \<Rightarrow> dbS (heartbeat (ce_now w) (bm_id b))
      | Some (Enter price) \<Rightarrow> seqS (execute_entry w sg) (save_state (ce_now w) history)
      | Some (Exit price reason) \<Rightarrow> (case position_before of
            None \<Rightarrow> raiseS TypeError
          | Some p \<Rightarrow> seqS (close_position_bot w p price (reason_name reason) (sg_timestamp sg))
              (save_state (ce_now w) history)))))"

definition on_candle_close :: "extlib \<Rightarrow> (bar list \<Rightarrow> candle_env) \<Rightarrow> bar list \<Rightarrow> (bot_state_of_run, unit) stm" where
  "on_candle_close L env history =
     (let w = env history in
      bindS (getS snd) (\<lambda>b.
      bindS (liftS (latest_signal L (bm_definition b) (history_frame history))) (\<lambda>sg.
      bindS (liftS (hard_stop sg b)) (\<lambda>hit.
      case tk_position (bm_tracker b) of
        Some p \<Rightarrow> if hit then close_at_hard_stop w history sg p else follow_tracker w history sg
      | None \<Rightarrow> follow_tracker w history sg))))"

section \<open>A run\<close>

text \<open>How a run starts, and how it ends with the outcome \<open>r\<close> of the feed.\<close>

definition start_run :: "time \<Rightarrow> bar list \<Rightarrow> (bot_state_of_run, unit) stm" where
  "start_run now history =
     bindS (getS snd) (\<lambda>b. seqS (dbS (update_status now (bm_id b) ''running'' None))
       (seqS (event now ''started'' ''Bot started'' None) (save_state now history)))"

definition finish_run :: "time \<Rightarrow> unit res \<Rightarrow> (bot_state_of_run, unit) stm" where
  "finish_run now r = bindS (getS snd) (\<lambda>b. case r of
      Inl CircuitBreakerTripped \<Rightarrow>
        seqS (dbS (update_status now (bm_id b) ''circuit_broken'' (Some CircuitBreakerTripped)))
          (event now ''circuit_breaker'' ''circuit breaker'' None)
    | Inl e \<Rightarrow>
        seqS (dbS (update_status now (bm_id b) ''error'' (Some e)))
          (seqS (event now ''error'' ''error'' None) (raiseS e))
    | Inr _ \<Rightarrow>
        seqS (dbS (update_status now (bm_id b) ''stopped'' None)) (event now ''stopped'' ''Bot stopped'' None))"

definition run_bot :: "extlib \<Rightarrow> (bar list \<Rightarrow> candle_env) \<Rightarrow> (time \<Rightarrow> fl) \<Rightarrow> int \<Rightarrow> feed_round list \<Rightarrow>
    time \<Rightarrow> time \<Rightarrow> feed \<times> bot_state_of_run \<Rightarrow> ((feed \<times> bot_state_of_run) \<times> unit res) option" where
  "run_bot L env seconds timeframe_ms rounds started ended fs =
     (case start_run started (fd_history (fst fs)) (snd fs) of
        (s, Inl e) \<Rightarrow> Some ((fst fs, s), Inl e)
      | (s, Inr _) \<Rightarrow>
          map_option (\<lambda>((f, s'), r). case finish_run ended r s' of (s'', out) \<Rightarrow> ((f, s''), out))
            (feed_run (on_candle_close L env) seconds timeframe_ms rounds (fst fs, s)))"

text \<open>\<^verbatim>\<open>runner.py\<close>: the exit code of the process of one bot.\<close>

definition run_process :: "fernet \<Rightarrow> (string \<Rightarrow> string option) \<Rightarrow> (string \<Rightarrow> bool) \<Rightarrow> extlib \<Rightarrow>
    (bar list \<Rightarrow> candle_env) \<Rightarrow> (time \<Rightarrow> fl) \<Rightarrow> int \<Rightarrow> feed_round list \<Rightarrow> time \<Rightarrow> time \<Rightarrow> string \<Rightarrow>
    database \<Rightarrow> (database \<times> unit res) option" where
  "run_process F env known L candle seconds timeframe_ms rounds started ended bot_id d =
     (case build_bot F env known bot_id (fresh_connection d) of
        (c, Inl e) \<Rightarrow> Some (cn_committed c, Inl e)
      | (c, Inr (f, b)) \<Rightarrow>
          map_option (\<lambda>((f', (c', b')), out). (cn_committed c', out))
            (run_bot L candle seconds timeframe_ms rounds started ended (f, (c, b))))"

definition exit_code :: "unit res \<Rightarrow> int" where
  "exit_code r = (case r of Inl _ \<Rightarrow> 1 | Inr _ \<Rightarrow> 0)"

definition runner_main :: "string list \<Rightarrow> (string \<Rightarrow> (database \<times> unit res) option) \<Rightarrow> database \<Rightarrow>
    (database \<times> int) option" where
  "runner_main argv run d = (case argv of
      [_, bot_id] \<Rightarrow> map_option (\<lambda>(d', out). (d', exit_code out)) (run bot_id)
    | _ \<Rightarrow> Some (d, 2))"

section \<open>Running the parts\<close>

lemma run_dbS [st_simps]: "dbS m (c, b) = (let (c', r) = m c in ((c', b), r))"
  by (simp add: dbS_def zoomS_def split: prod.splits)

lemma run_riskS [st_simps]: "riskS m (c, b) = (let (k, r) = m (bm_risk b) in ((c, b\<lparr>bm_risk := k\<rparr>), r))"
  by (simp add: riskS_def zoomS_def split: prod.splits)

lemma run_botS [st_simps]: "botS f (c, b) = ((c, f b), Inr ())"
  by (simp add: botS_def)

lemma run_event:
  "ready (bm_id b) c \<Longrightarrow> ty \<in> set event_types \<Longrightarrow> event now ty m data (c, b) =
     ((committed (add_event \<lparr>be_bot_id = bm_id b, be_event_type = ty, be_message = m,
        be_data = map_option json_safe data, be_created_at = now\<rparr>) c, b), Inr ())"
  by (simp add: event_def st_simps run_record_event)

definition saved_row :: "time \<Rightarrow> bar list \<Rightarrow> bot \<Rightarrow> bot_state" where
  "saved_row now history b = \<lparr>bs_equity = bm_equity b, bs_peak_equity = rk_peak_equity (bm_risk b),
     bs_position = map_option json_safe (position_json b),
     bs_last_price = (if history = [] then None else Some (bar_close (last history))),
     bs_last_heartbeat_at = Some now, bs_updated_at = now\<rparr>"

lemma run_save_state:
  "ready (bm_id b) c \<Longrightarrow> save_state now history (c, b) =
     ((committed (set_state (bm_id b) (saved_row now history b)) c, b), Inr ())"
  by (simp add: save_state_def st_simps run_upsert_state saved_row_def)

lemma set_position_simps [simp]:
  "bm_id (set_position p b) = bm_id b" "tk_position (bm_tracker (set_position p b)) = p"
  "tk_risk_management (bm_tracker (set_position p b)) = tk_risk_management (bm_tracker b)"
  "bm_equity (set_position p b) = bm_equity b" "bm_risk (set_position p b) = bm_risk b"
  "bm_current_quantity (set_position p b) = bm_current_quantity b"
  by (simp_all add: set_position_def)

lemma book_entry_simps [simp]:
  "bm_id (book_entry f b) = bm_id b" "bm_equity (book_entry f b) = fi_quantity f * fi_price f"
  "bm_current_quantity (book_entry f b) = fi_quantity f" "bm_equity_at_entry (book_entry f b) = bm_equity b"
  "bm_entry_order_id (book_entry f b) = fi_order_id f" "bm_broker (book_entry f b) = bm_broker b"
  "bm_costs (book_entry f b) = bm_costs b" "bm_risk (book_entry f b) = bm_risk b"
  "tk_position (bm_tracker (book_entry f b)) = map_option
     (\<lambda>p. p\<lparr>op_entry_price := fi_price f, op_highest_since_entry := fi_price f\<rparr>) (tk_position (bm_tracker b))"
  by (simp_all add: book_entry_def set_position_def)

lemma mult_num_errors: "mult_num x n = Inl e \<Longrightarrow> e = OverflowError"
  by (auto simp: mult_num_def py_float_def float_of_int_def bindE_eq_Inl map_res_def split: number.splits if_splits sum.splits fl.splits)

lemma process_errors: "process t sg = Inl e \<Longrightarrow> e = OverflowError"
  by (auto simp: process_def Let_def bindE_eq_Inl map_res_def dest: mult_num_errors
      split: option.splits if_splits sum.splits)

lemma hard_stop_errors: "hard_stop sg b = Inl e \<Longrightarrow> e = OverflowError"
  by (auto simp: hard_stop_def check_hard_stop_loss_def map_res_def dest: mult_num_errors
      split: option.splits sum.splits)

section \<open>Closing a position\<close>

text \<open>What closing books: the row of the trade, and the bot after it.\<close>

definition closing_row :: "bot \<Rightarrow> open_position \<Rightarrow> string \<Rightarrow> time \<Rightarrow> fill \<Rightarrow> bot_trade" where
  "closing_row b p reason t f =
     (let equity_after = (fi_quantity f * fi_price f) * (1 - tc_fee_pct (bm_costs b)) in
      \<lparr>bx_bot_id = bm_id b, bx_entry_time = op_entry_time p, bx_exit_time = t,
       bx_entry_price = op_entry_price p, bx_exit_price = fi_price f, bx_quantity = bm_current_quantity b,
       bx_exit_reason = reason, bx_net_pnl_pct = equity_after / bm_equity_at_entry b - 1,
       bx_net_pnl_abs = equity_after - bm_equity_at_entry b, bx_entry_order_id = bm_entry_order_id b,
       bx_exit_order_id = fi_order_id f\<rparr>)"

definition after_close :: "fill \<Rightarrow> bot \<Rightarrow> bot" where
  "after_close f b = (let equity_after = (fi_quantity f * fi_price f) * (1 - tc_fee_pct (bm_costs b)) in
     b\<lparr>bm_equity := equity_after, bm_current_quantity := 0, bm_entry_order_id := None,
       bm_risk := (bm_risk b)\<lparr>rk_peak_equity := new_peak (bm_risk b) equity_after\<rparr>\<rparr>)"

lemma close_cases:
  assumes "close_position_bot w p x reason t (c, b) = (s', r)" and "ready (bm_id b) c"
  obtains e where "close_long (bm_broker b) (ce_sell w) (bm_current_quantity b) x = Inl e" "s' = (c, b)" "r = Inl e"
  | "s' = (c, b)" "r = Inl ZeroDivisionError" "bm_equity_at_entry b = 0"
  | c' m where "s' = (c', b)" "r = Inl (DatabaseError m)" "cn_committed c' = cn_committed c"
      "new_id ''bottrade'' (ce_uuid w) \<in> fst ` set (db_bot_trades (cn_work c))"
  | f e where "close_long (bm_broker b) (ce_sell w) (bm_current_quantity b) x = Inr f"
      "s' = (committed (add_event e) (committed (add_trade (new_id ''bottrade'' (ce_uuid w)) (closing_row b p reason t f)) c),
         after_close f b)"
      "r = snd (update_equity (bm_equity (after_close f b)) (bm_risk b))" "bm_equity_at_entry b \<noteq> 0"
      "new_id ''bottrade'' (ce_uuid w) \<notin> fst ` set (db_bot_trades (cn_work c))" "be_event_type e = ''exit''"
proof -
  let ?k = "new_id ''bottrade'' (ce_uuid w)"
  show thesis
  proof (cases "close_long (bm_broker b) (ce_sell w) (bm_current_quantity b) x")
    case (Inl e)
    with assms(1) that(1) show thesis by (simp add: close_position_bot_def st_simps Let_def)
  next
    case (Inr f)
    show thesis
    proof (cases "bm_equity_at_entry b = 0")
      case True
      with Inr assms(1) that(2) show thesis by (simp add: close_position_bot_def st_simps Let_def py_div_def)
    next
      case nz: False
      let ?row = "closing_row b p reason t f"
      show thesis
      proof (cases "?k \<in> fst ` set (db_bot_trades (cn_work c))")
        case True
        with assms(2) have "record_trade (ce_uuid w) ?row c =
            (c\<lparr>cn_work := cn_committed c, cn_status := Aborted\<rparr>, Inl (DatabaseError ''duplicate key value violates unique constraint''))"
          by (simp add: record_trade_def insert_trade_def unique_violation_def st_simps ready_def Let_def closing_row_def)
        with Inr nz assms(1) have "s' = (c\<lparr>cn_work := cn_committed c, cn_status := Aborted\<rparr>, b)"
            "r = Inl (DatabaseError ''duplicate key value violates unique constraint'')"
          by (auto simp: close_position_bot_def st_simps Let_def py_div_def closing_row_def)
        then show thesis by (rule that(3)) (simp_all add: True)
      next
        case False
        have i: "bx_bot_id ?row = bm_id b" by (simp add: closing_row_def Let_def)
        let ?c1 = "committed (add_trade ?k ?row) c"
        have tr: "record_trade (ce_uuid w) ?row c = (?c1, Inr ?k)"
          using run_record_trade [of ?row c "ce_uuid w"] assms(2) False by (simp add: i)
        have r1: "ready (bm_id b) ?c1" using ready_known [OF assms(2)] by simp
        have ev: "event (ce_now w) ''exit'' ''Exited'' d (?c1, b) = ((committed (add_event
            \<lparr>be_bot_id = bm_id b, be_event_type = ''exit'', be_message = ''Exited'',
              be_data = map_option json_safe d, be_created_at = ce_now w\<rparr>) ?c1, b), Inr ())" for d
          using r1 by (intro run_event) (simp_all add: event_types_def)
        let ?after = "(fi_quantity f * fi_price f) * (1 - tc_fee_pct (bm_costs b))"
        obtain u where up: "update_equity ?after (bm_risk b) =
            ((bm_risk b)\<lparr>rk_peak_equity := new_peak (bm_risk b) ?after\<rparr>, u)"
          using update_equity_state [of ?after "bm_risk b"] by (metis prod.collapse)
        let ?d = "Some (VDict [(''price'', VFloat (fi_price f)), (''quantity'', VFloat (bm_current_quantity b)),
          (''reason'', VStr reason), (''order_id'', order_id_json (fi_order_id f))])"
        have "(s', r) = ((committed (add_event \<lparr>be_bot_id = bm_id b, be_event_type = ''exit'',
            be_message = ''Exited'', be_data = map_option json_safe ?d, be_created_at = ce_now w\<rparr>) ?c1, after_close f b), u)"
          using Inr nz assms(1) tr ev [of ?d] up
          by (simp add: close_position_bot_def st_simps Let_def py_div_def closing_row_def after_close_def)
        then show thesis
          using up nz False
          by (intro that(4) [OF Inr, of "\<lparr>be_bot_id = bm_id b, be_event_type = ''exit'', be_message = ''Exited'',
            be_data = map_option json_safe ?d, be_created_at = ce_now w\<rparr>"]) (simp_all add: after_close_def Let_def)
      qed
    qed
  qed
qed

section \<open>Opening a position\<close>

text \<open>
  An entry that returns was either rejected, which takes the tracker's position back, or filled.
  The order check only ever touches the time of the last order.
\<close>

lemma execute_entry_cases:
  assumes "execute_entry w sg (c, b) = ((c1, b1), Inr ())" and "ready (bm_id b) c"
  obtains e t where "b1 = set_position None (b\<lparr>bm_risk := (bm_risk b)\<lparr>rk_last_order_at := t\<rparr>\<rparr>)"
      "c1 = committed (add_event e) c" "be_event_type e = ''order_rejected''"
  | f e t where "open_long (bm_broker b) (ce_buy w) (bm_equity b) (tc_fee_pct (bm_costs b)) (sg_close sg) = Inr f"
      "b1 = book_entry f (b\<lparr>bm_risk := (bm_risk b)\<lparr>rk_last_order_at := t\<rparr>\<rparr>)"
      "c1 = committed (add_event e) c"
proof -
  from assms(1) obtain q where q: "py_div (bm_equity b * (1 - tc_fee_pct (bm_costs b))) (sg_close sg) = Inr q"
    by (cases "py_div (bm_equity b * (1 - tc_fee_pct (bm_costs b))) (sg_close sg)")
      (simp_all add: execute_entry_def st_simps)
  obtain k o1 where k: "check_order q (sg_close sg) (bm_equity b) (Some (sg_close sg)) (Some (ce_monotonic w)) (bm_risk b) = (k, o1)"
    by force
  from check_order_state [of q "sg_close sg" "bm_equity b" "Some (sg_close sg)" "Some (ce_monotonic w)" "bm_risk b"]
  obtain t where t: "k = (bm_risk b)\<lparr>rk_last_order_at := t\<rparr>" by (auto simp: k) (metis risk_middleware.surjective risk_middleware.update_convs(3))
  have ev: "event now ty m data (c, b\<lparr>bm_risk := k\<rparr>) = ((committed (add_event \<lparr>be_bot_id = bm_id b, be_event_type = ty,
      be_message = m, be_data = map_option json_safe data, be_created_at = now\<rparr>) c, b\<lparr>bm_risk := k\<rparr>), Inr ())"
    if "ty \<in> set event_types" for now ty m data
    using run_event [of "b\<lparr>bm_risk := k\<rparr>" c ty now m data] assms(2) that by simp
  have ev2: "event now ty m data (c, book_entry f (b\<lparr>bm_risk := k\<rparr>)) = ((committed (add_event \<lparr>be_bot_id = bm_id b,
      be_event_type = ty, be_message = m, be_data = map_option json_safe data, be_created_at = now\<rparr>) c,
      book_entry f (b\<lparr>bm_risk := k\<rparr>)), Inr ())"
    if "ty \<in> set event_types" for now ty m data f
    using run_event [of "book_entry f (b\<lparr>bm_risk := k\<rparr>)" c ty now m data] assms(2) that by simp
  show thesis
  proof (cases o1)
    case (Inl e)
    with assms(1) q k obtain m where e: "e = OrderRejected m"
      by (cases e) (auto simp: execute_entry_def st_simps)
    from assms(1) q k Inl e ev [of "''order_rejected''"] have
        "\<exists>ev. c1 = committed (add_event ev) c \<and> be_event_type ev = ''order_rejected'' \<and> b1 = set_position None (b\<lparr>bm_risk := k\<rparr>)"
      by (auto simp: execute_entry_def st_simps event_types_def)
    with that(1) t show thesis by blast
  next
    case (Inr u)
    with assms(1) q k obtain f where f:
        "open_long (bm_broker b) (ce_buy w) (bm_equity b) (tc_fee_pct (bm_costs b)) (sg_close sg) = Inr f"
      by (cases "open_long (bm_broker b) (ce_buy w) (bm_equity b) (tc_fee_pct (bm_costs b)) (sg_close sg)")
        (simp_all add: execute_entry_def st_simps)
    from assms(1) q k Inr f ev2 [of "''entry''"] have
        "\<exists>ev. c1 = committed (add_event ev) c \<and> b1 = book_entry f (b\<lparr>bm_risk := k\<rparr>)"
      by (auto simp: execute_entry_def st_simps event_types_def)
    with that(2) [OF f] t show thesis by blast
  qed
qed

section \<open>Where the circuit breaker comes from\<close>

text \<open>Only \<open>update_equity\<close> raises \<open>CircuitBreakerTripped\<close>; the library calls are assumed not to.\<close>

lemma avoids_execute:
  "(\<And>d. stmt d \<noteq> Inl e) \<Longrightarrow> e \<noteq> DatabaseError ''current transaction is aborted'' \<Longrightarrow> avoids e (execute stmt)"
  by (auto simp: avoids_def execute_def split: sum.splits)

lemma avoids_commit [avoid]: "avoids e commit"
  by (simp add: commit_def avoid)

lemma repository_avoids [avoid]:
  "avoids CircuitBreakerTripped (record_event now i ty m data)"
  "avoids CircuitBreakerTripped (upsert_state now i e p pos lp)"
  "avoids CircuitBreakerTripped (heartbeat now i)"
  unfolding record_event_def upsert_state_def heartbeat_def dbwrite_def
  by (auto intro!: avoid avoids_execute simp: check_violation_def foreign_key_violation_def split: if_splits)

lemma bot_avoids [avoid]:
  "avoids CircuitBreakerTripped m \<Longrightarrow> avoids CircuitBreakerTripped (dbS m)"
  "avoids CircuitBreakerTripped k \<Longrightarrow> avoids CircuitBreakerTripped (riskS k)"
  "avoids CircuitBreakerTripped (botS f)"
  unfolding dbS_def riskS_def botS_def by (auto intro: avoid)

lemma event_avoids [avoid]: "avoids CircuitBreakerTripped (event now ty msg data)"
  and save_avoids [avoid]: "avoids CircuitBreakerTripped (save_state now history)"
  unfolding event_def save_state_def by (auto intro!: avoid)

lemma py_div_not_trip: "py_div x y \<noteq> Inl CircuitBreakerTripped"
  by (simp add: py_div_def)

lemma check_order_avoids [avoid]: "avoids CircuitBreakerTripped (check_order q p e ref now)"
  unfolding check_order_def
  by (auto intro!: avoid split: option.splits if_splits simp: py_div_def map_res_def)

lemma open_long_not_trip:
  "(\<And>q. report q \<noteq> Inl CircuitBreakerTripped) \<Longrightarrow> open_long broker report e fee p \<noteq> Inl CircuitBreakerTripped"
  by (auto simp: broker_defs fill_from_order_def py_div_def bindE_eq_Inl map_res_def Let_def
      split: broker_kind.splits option.splits sum.splits if_splits)

lemma close_long_not_trip:
  "(\<And>q. report q \<noteq> Inl CircuitBreakerTripped) \<Longrightarrow> close_long broker report q p \<noteq> Inl CircuitBreakerTripped"
  by (auto simp: broker_defs fill_from_order_def bindE_eq_Inl split: broker_kind.splits option.splits)

lemma execute_entry_avoids:
  assumes "\<And>q. ce_buy w q \<noteq> Inl CircuitBreakerTripped"
  shows "avoids CircuitBreakerTripped (execute_entry w sg)"
proof -
  have handler: "avoids CircuitBreakerTripped (case e of OrderRejected x \<Rightarrow> m | _ \<Rightarrow> raiseS e)"
    if "e \<noteq> CircuitBreakerTripped" and "avoids CircuitBreakerTripped m" for e and m :: "(bot_state_of_run, bool) stm"
    using that by (cases e) (auto intro: avoid)
  show ?thesis
    unfolding execute_entry_def
    by (intro avoid handler) (simp_all add: py_div_not_trip open_long_not_trip [OF assms])
qed

lemma close_trip:
  assumes "close_position_bot w p x reason t (c, b) = ((c', b'), Inl CircuitBreakerTripped)" and "ready (bm_id b) c"
    and "\<And>q. ce_sell w q \<noteq> Inl CircuitBreakerTripped"
  obtains f where "db_bot_state (cn_committed c') = db_bot_state (cn_work c)"
    "db_bots (cn_work c') = db_bots (cn_work c)" "cn_status c' = Idle" "cn_committed c' = cn_work c'"
    "db_bot_trades (cn_committed c') = put (new_id ''bottrade'' (ce_uuid w)) (closing_row b p reason t f) (db_bot_trades (cn_work c))"
    "b' = after_close f b"
  using assms(1,2)
proof (cases rule: close_cases)
  case (1 e)
  then have "close_long (bm_broker b) (ce_sell w) (bm_current_quantity b) x = Inl CircuitBreakerTripped" by simp
  with close_long_not_trip [of "ce_sell w", OF assms(3)] show ?thesis by blast
next
  case (4 f e)
  then show ?thesis by (intro that [of f]) simp_all
qed simp_all

end
