(* ===== verification/Supervisor.thy ===== *)
theory Supervisor
  imports Tables Settings
begin

text \<open>
  The reconciliation loop, \<^verbatim>\<open>freqpanda_execution/supervisor.py\<close>, with the processes it starts and
  stops. A child is the handle of its process beside the times it was restarted at. The world of one pass
  is what the database, the operating system and the clock answer: the ids that should run (in the order
  the set is walked), the exit code of a process, whether it ends within the 30 seconds after a \<^verbatim>\<open>SIGTERM\<close>,
  the clock when a bot is reaped, whether a process could be made, and whether the error could be
  written. Most of them may raise, which ends the pass where it is.
\<close>

section \<open>Processes\<close>

text \<open>
  The operating system's side: a process is running from \<^verbatim>\<open>Popen\<close> on, signals are sent to it by \<^verbatim>\<open>terminate\<close> and
  \<^verbatim>\<open>kill\<close>, and it has ended when \<^verbatim>\<open>poll\<close> reported an exit code or \<^verbatim>\<open>wait\<close> returned.
\<close>

datatype process_state = Alive | Terminating | Killing | Exited | Killed

record bot_process =
  pc_bot :: string
  pc_state :: process_state

definition has_ended :: "process_state \<Rightarrow> bool" where
  "has_ended st \<longleftrightarrow> st = Exited \<or> st = Killed"

section \<open>The supervisor\<close>

record child =
  ch_process :: nat
  ch_restart_times :: "fl list"

text \<open>
  \<open>sv_processes\<close> is no attribute of the class: it is the table of the processes it ever made, and the
  handle of a process is its position in it.
\<close>

record supervisor =
  sv_settings :: settings
  sv_children :: "(string \<times> child) list"
  sv_given_up :: "string set"
  sv_processes :: "bot_process list"

record world =
  wo_desired :: "string list res"
  wo_poll :: "nat \<Rightarrow> int option"
  wo_exits :: "nat \<Rightarrow> bool"
  wo_monotonic :: "string \<Rightarrow> fl"
  wo_spawn :: "string \<Rightarrow> unit res"
  wo_mark_error :: "string \<Rightarrow> unit res"

definition init_supervisor :: "settings \<Rightarrow> supervisor" where
  "init_supervisor s = \<lparr>sv_settings = s, sv_children = [], sv_given_up = {}, sv_processes = []\<rparr>"

definition add_process :: "string \<Rightarrow> fl list \<Rightarrow> supervisor \<Rightarrow> supervisor" where
  "add_process bot_id restart_times s =
     s\<lparr>sv_processes := sv_processes s @ [\<lparr>pc_bot = bot_id, pc_state = Alive\<rparr>],
       sv_children := put bot_id \<lparr>ch_process = length (sv_processes s), ch_restart_times = restart_times\<rparr> (sv_children s)\<rparr>"

definition spawn :: "world \<Rightarrow> string \<Rightarrow> fl list \<Rightarrow> (supervisor, unit) stm" where
  "spawn w bot_id restart_times = bindS (liftS (wo_spawn w bot_id)) (\<lambda>_. modifyS (add_process bot_id restart_times))"

definition start_child :: "world \<Rightarrow> string \<Rightarrow> (supervisor, unit) stm" where
  "start_child w bot_id = spawn w bot_id []"

definition forget_child :: "string \<Rightarrow> supervisor \<Rightarrow> supervisor" where
  "forget_child bot_id s = s\<lparr>sv_children := delete_key bot_id (sv_children s)\<rparr>"

definition state_of :: "supervisor \<Rightarrow> nat \<Rightarrow> process_state" where
  "state_of s p = pc_state (sv_processes s ! p)"

definition set_process :: "nat \<Rightarrow> process_state \<Rightarrow> supervisor \<Rightarrow> supervisor" where
  "set_process p st s = s\<lparr>sv_processes := (sv_processes s)[p := (sv_processes s ! p)\<lparr>pc_state := st\<rparr>]\<rparr>"

definition terminate_process :: "nat \<Rightarrow> (supervisor, unit) stm" where
  "terminate_process p = modifyS (\<lambda>s. if state_of s p = Alive then set_process p Terminating s else s)"

definition kill_process :: "nat \<Rightarrow> (supervisor, unit) stm" where
  "kill_process p = modifyS (\<lambda>s. if has_ended (state_of s p) then s else set_process p Killing s)"

text \<open>\<^verbatim>\<open>wait(timeout=30)\<close>: a process ends in that time if it was killed, or if it heeds the \<^verbatim>\<open>SIGTERM\<close> it got.\<close>

definition wait_timeout :: "(nat \<Rightarrow> bool) \<Rightarrow> nat \<Rightarrow> (supervisor, unit) stm" where
  "wait_timeout exits p = bindS (getS (\<lambda>s. state_of s p)) (\<lambda>st. case st of
      Alive \<Rightarrow> raiseS TimeoutExpired
    | Terminating \<Rightarrow> if exits p then modifyS (set_process p Exited) else raiseS TimeoutExpired
    | Killing \<Rightarrow> modifyS (set_process p Killed)
    | _ \<Rightarrow> returnS ())"

text \<open>
  \<^verbatim>\<open>wait()\<close> returns when the process has ended, which a killed one does. A process that was not killed
  is left as it is: what would then be waited for is not modelled.
\<close>

definition wait_process :: "nat \<Rightarrow> (supervisor, unit) stm" where
  "wait_process p = modifyS (\<lambda>s. if state_of s p = Killing then set_process p Killed s else s)"

definition stop_child :: "(nat \<Rightarrow> bool) \<Rightarrow> string \<Rightarrow> (supervisor, unit) stm" where
  "stop_child exits bot_id = bindS (getS (\<lambda>s. map_of (sv_children s) bot_id)) (\<lambda>popped. case popped of
      None \<Rightarrow> raiseS (KeyError bot_id)
    | Some child \<Rightarrow>
        seqS (modifyS (forget_child bot_id))
        (seqS (terminate_process (ch_process child))
        (catchS (wait_timeout exits (ch_process child)) (\<lambda>e. if e = TimeoutExpired
           then seqS (kill_process (ch_process child)) (wait_process (ch_process child))
           else raiseS e))))"

definition reap_child :: "world \<Rightarrow> string set \<Rightarrow> string \<times> child \<Rightarrow> (supervisor, unit) stm" where
  "reap_child w desired_running kc = (case kc of (bot_id, child) \<Rightarrow>
     (case wo_poll w (ch_process child) of
        None \<Rightarrow> returnS ()
      | Some exit_code \<Rightarrow>
          seqS (modifyS (forget_child bot_id \<circ> set_process (ch_process child) Exited))
          (if bot_id \<notin> desired_running then returnS ()
           else bindS (getS sv_settings) (\<lambda>cfg.
             let now = wo_monotonic w bot_id;
                 recent = filter (\<lambda>t. now - t < ss_crash_loop_window_seconds cfg) (ch_restart_times child) in
             if ss_max_restarts_in_window cfg \<le> int (length recent)
             then seqS (modifyS (\<lambda>s. s\<lparr>sv_given_up := insert bot_id (sv_given_up s)\<rparr>)) (liftS (wo_mark_error w bot_id))
             else spawn w bot_id (recent @ [now])))))"

definition reap_dead_children :: "world \<Rightarrow> string set \<Rightarrow> (supervisor, unit) stm" where
  "reap_dead_children w desired_running =
     bindS (getS sv_children) (\<lambda>children. forS (reap_child w desired_running) children)"

definition start_missing :: "world \<Rightarrow> string \<Rightarrow> (supervisor, unit) stm" where
  "start_missing w bot_id = bindS (getS (\<lambda>s. s)) (\<lambda>s.
     if bot_id \<notin> fst ` set (sv_children s) \<and> bot_id \<notin> sv_given_up s then start_child w bot_id else returnS ())"

definition reconcile_once :: "world \<Rightarrow> (supervisor, unit) stm" where
  "reconcile_once w = bindS (liftS (wo_desired w)) (\<lambda>ids. let desired_running = set ids in
     seqS (modifyS (\<lambda>s. s\<lparr>sv_given_up := sv_given_up s \<inter> desired_running\<rparr>))
     (seqS (reap_dead_children w desired_running)
     (seqS (forS (start_missing w) (remdups ids))
     (bindS (getS sv_children) (\<lambda>children.
        forS (\<lambda>(bot_id, _). if bot_id \<notin> desired_running then stop_child (wo_exits w) bot_id else returnS ()) children)))))"

text \<open>\<^verbatim>\<open>run_forever\<close> after a number of passes: an exception ends its pass and is logged.\<close>

definition run_passes :: "world list \<Rightarrow> supervisor \<Rightarrow> supervisor" where
  "run_passes ws s = fold (\<lambda>w s. fst (reconcile_once w s)) ws s"

section \<open>What every step keeps\<close>

definition supervisor_ok :: "supervisor \<Rightarrow> bool" where
  "supervisor_ok s \<longleftrightarrow> keys_distinct (sv_children s) \<and> sv_given_up s \<inter> fst ` set (sv_children s) = {} \<and>
     (\<forall>(k, c) \<in> set (sv_children s). int (length (ch_restart_times c)) \<le> max 0 (ss_max_restarts_in_window (sv_settings s)))"

lemma delete_key_distinct: "keys_distinct t \<Longrightarrow> keys_distinct (delete_key k t)"
  by (simp add: keys_distinct_def delete_key_def distinct_map_filter)

lemma set_put_subset: "(k', v') \<in> set (put k v t) \<Longrightarrow> (k', v') = (k, v) \<or> (k', v') \<in> set t"
  using set_put [of k v t] by auto

lemma forget_ok: "supervisor_ok s \<Longrightarrow> supervisor_ok (forget_child k s)"
  by (auto simp: supervisor_ok_def forget_child_def delete_key_distinct)

lemma set_process_simps [simp]:
  "sv_settings (set_process p st s) = sv_settings s" "sv_children (set_process p st s) = sv_children s"
  "sv_given_up (set_process p st s) = sv_given_up s" "length (sv_processes (set_process p st s)) = length (sv_processes s)"
  by (simp_all add: set_process_def)

lemma set_process_ok [simp]: "supervisor_ok (set_process p st s) = supervisor_ok s"
  by (simp add: supervisor_ok_def)

lemma state_of_set_process [simp]: "p < length (sv_processes s) \<Longrightarrow> state_of (set_process p st s) p = st"
  by (simp add: state_of_def set_process_def)

lemma set_process_twice [simp]: "set_process p st' (set_process p st s) = set_process p st' s"
  by (cases "p < length (sv_processes s)") (simp_all add: set_process_def list_update_beyond not_less)

lemma set_process_same: "set_process p (state_of s p) s = s"
proof -
  have "(sv_processes s ! p)\<lparr>pc_state := state_of s p\<rparr> = sv_processes s ! p" by (simp add: state_of_def)
  then show ?thesis by (simp add: set_process_def)
qed

lemma forget_child_simps [simp]:
  "sv_settings (forget_child k s) = sv_settings s" "sv_given_up (forget_child k s) = sv_given_up s"
  "sv_processes (forget_child k s) = sv_processes s" "sv_children (forget_child k s) = delete_key k (sv_children s)"
  by (simp_all add: forget_child_def)

text \<open>A spawn keeps the invariant for a bot that was not given up and whose history is short enough.\<close>

lemma spawn_ok:
  assumes "supervisor_ok s" and "k \<notin> sv_given_up s"
    and "int (length ts) \<le> max 0 (ss_max_restarts_in_window (sv_settings s))"
  shows "supervisor_ok (fst (spawn w k ts s))"
  using assms by (fastforce simp: spawn_def add_process_def st_simps supervisor_ok_def put_keys_distinct
    split: sum.splits dest: set_put_subset)

text \<open>
  \<open>good w s0 (k, c)\<close>: the child was spawned in this pass, or it was there before and its process
  is alive.
\<close>

definition good :: "world \<Rightarrow> supervisor \<Rightarrow> string \<times> child \<Rightarrow> bool" where
  "good w s0 kc \<longleftrightarrow> length (sv_processes s0) \<le> ch_process (snd kc) \<or>
     kc \<in> set (sv_children s0) \<and> wo_poll w (ch_process (snd kc)) = None"

definition sane_but :: "world \<Rightarrow> supervisor \<Rightarrow> (string \<times> child) list \<Rightarrow> supervisor \<Rightarrow> bool" where
  "sane_but w s0 cs s \<longleftrightarrow> length (sv_processes s0) \<le> length (sv_processes s) \<and> (\<forall>kc \<in> set (sv_children s). good w s0 kc \<or> kc \<in> set cs)"

lemma spawn_cases:
  assumes "spawn w k ts s = (s', r)"
  obtains e where "wo_spawn w k = Inl e" "s' = s" "r = Inl e"
  | u where "wo_spawn w k = Inr u" "r = Inr ()" "s' = add_process k ts s"
  using assms by (auto simp: spawn_def st_simps split: sum.splits)

lemma reap_child_ok:
  assumes "supervisor_ok s" and "k \<notin> sv_given_up s"
    and "reap_child w D (k, c) s = (s', r)"
  shows "supervisor_ok s'" and "sv_settings s' = sv_settings s"
    and "sv_given_up s \<subseteq> sv_given_up s'" and "sv_given_up s' \<subseteq> sv_given_up s \<union> ({k} \<inter> D)"
proof -
  let ?f = "forget_child k (set_process (ch_process c) Exited s)"
  let ?recent = "filter (\<lambda>t. wo_monotonic w k - t < ss_crash_loop_window_seconds (sv_settings s)) (ch_restart_times c)"
  have f: "supervisor_ok ?f" "sv_settings ?f = sv_settings s" "sv_given_up ?f = sv_given_up s"
    using forget_ok [of "set_process (ch_process c) Exited s"] assms(1) by simp_all
  consider (alive) "s' = s" | (gone) "s' = ?f"
    | (gave_up) "k \<in> D" "s' = ?f\<lparr>sv_given_up := insert k (sv_given_up ?f)\<rparr>"
    | (again) "int (length ?recent) < ss_max_restarts_in_window (sv_settings s)"
        "spawn w k (?recent @ [wo_monotonic w k]) ?f = (s', r)"
    using assms(3) f
    by (auto simp: reap_child_def st_simps Let_def split: option.splits if_splits prod.splits)
  then have "supervisor_ok s' \<and> sv_settings s' = sv_settings s \<and> sv_given_up s \<subseteq> sv_given_up s' \<and>
    sv_given_up s' \<subseteq> sv_given_up s \<union> ({k} \<inter> D)"
  proof cases
    case gave_up
    then show ?thesis using f(1) by (auto simp: supervisor_ok_def)
  next
    case again
    from spawn_ok [OF f(1), of k "?recent @ [wo_monotonic w k]" w] again assms(2) f
    have "supervisor_ok s'" by simp
    moreover from again(2) have "sv_settings s' = sv_settings s \<and> sv_given_up s' = sv_given_up s"
      by (rule spawn_cases) (simp_all add: add_process_def)
    ultimately show ?thesis by simp
  qed (use f assms(1) in simp_all)
  then show "supervisor_ok s'" "sv_settings s' = sv_settings s" "sv_given_up s \<subseteq> sv_given_up s'"
    "sv_given_up s' \<subseteq> sv_given_up s \<union> ({k} \<inter> D)" by simp_all
qed

lemma forS_Cons_cases:
  assumes "forS f (x # xs) s = (s', r)"
  obtains e where "f x s = (s', Inl e)" "r = Inl e"
  | s1 where "f x s = (s1, Inr ())" "forS f xs s1 = (s', r)"
  using assms by (auto simp: st_simps split: prod.splits sum.splits)

lemma reap_list_ok:
  assumes "supervisor_ok s" and "distinct (map fst cs)" and "fst ` set cs \<inter> sv_given_up s = {}"
    and "forS (reap_child w D) cs s = (s', r)"
  shows "supervisor_ok s' \<and> sv_settings s' = sv_settings s \<and> sv_given_up s \<subseteq> sv_given_up s' \<and>
    sv_given_up s' \<subseteq> sv_given_up s \<union> D"
  using assms
proof (induction cs arbitrary: s)
  case (Cons kc cs)
  obtain k c where kc: "kc = (k, c)" by force
  from Cons.prems kc have k: "k \<notin> sv_given_up s" "k \<notin> fst ` set cs" by auto
  from Cons.prems(4) show ?case
  proof (cases rule: forS_Cons_cases)
    case (1 e)
    from reap_child_ok [OF Cons.prems(1) k(1) 1(1) [unfolded kc]] show ?thesis by auto
  next
    case (2 s1)
    note one = reap_child_ok [OF Cons.prems(1) k(1) 2(1) [unfolded kc]]
    have "fst ` set cs \<inter> sv_given_up s1 = {}" using one(4) Cons.prems(3) k(2) by (simp add: kc) blast
    from Cons.IH [OF one(1) _ this 2(2)] Cons.prems(2) one show ?thesis by auto
  qed
qed simp

lemma sane_but_add: "sane_but w s0 cs s \<Longrightarrow> sane_but w s0 cs (add_process k ts s)"
  by (auto simp: sane_but_def add_process_def good_def dest!: set_put_subset)

lemma reap_list_within:
  assumes "sane_but w s0 cs s" and "set cs \<subseteq> set (sv_children s0)" and "forS (reap_child w D) cs s = (s', Inr ())"
  shows "sane_but w s0 [] s'"
  using assms
proof (induction cs arbitrary: s)
  case (Cons kc cs)
  obtain k c where kc: "kc = (k, c)" by force
  from Cons.prems(3) obtain s1 where s1: "reap_child w D (k, c) s = (s1, Inr ())" "forS (reap_child w D) cs s1 = (s', Inr ())"
    unfolding kc by (cases rule: forS_Cons_cases) auto
  have "sane_but w s0 cs s1"
  proof (cases "wo_poll w (ch_process c)")
    case None
    with s1(1) have "s1 = s" by (simp add: reap_child_def st_simps)
    with Cons.prems(1,2) None kc show ?thesis by (auto simp: sane_but_def good_def)
  next
    case (Some code)
    let ?f = "forget_child k (set_process (ch_process c) Exited s)"
    have f: "sane_but w s0 cs ?f"
      using Cons.prems(1) kc by (auto simp: sane_but_def)
    have "s1 = ?f \<or> (\<exists>g. s1 = ?f\<lparr>sv_given_up := g\<rparr>) \<or> (\<exists>ts. s1 = add_process k ts ?f)"
      using s1(1) Some
      by (auto simp: reap_child_def st_simps Let_def spawn_def split: if_splits sum.splits prod.splits)
    then show ?thesis
    proof (elim disjE exE)
      fix g assume "s1 = ?f\<lparr>sv_given_up := g\<rparr>"
      with f show ?thesis by (simp add: sane_but_def)
    qed (use f sane_but_add [OF f] in simp_all)
  qed
  with Cons.IH s1(2) Cons.prems(2) show ?case by simp
qed (simp add: sane_but_def)

lemma start_list:
  assumes "forS (start_missing w) ids s = (s', r)" and "supervisor_ok s"
  shows "supervisor_ok s' \<and> sv_settings s' = sv_settings s \<and> sv_given_up s' = sv_given_up s \<and>
    fst ` set (sv_children s) \<subseteq> fst ` set (sv_children s') \<and>
    (r = Inr () \<longrightarrow> set ids \<subseteq> fst ` set (sv_children s') \<union> sv_given_up s') \<and>
    (sane_but w s0 [] s \<longrightarrow> sane_but w s0 [] s')"
  using assms
proof (induction ids arbitrary: s)
  case (Cons k ids)
  have one: "supervisor_ok s1 \<and> sv_settings s1 = sv_settings s \<and> sv_given_up s1 = sv_given_up s \<and>
      fst ` set (sv_children s) \<subseteq> fst ` set (sv_children s1) \<and>
      (x = Inr () \<longrightarrow> k \<in> fst ` set (sv_children s1) \<union> sv_given_up s1) \<and>
      (sane_but w s0 [] s \<longrightarrow> sane_but w s0 [] s1)" if m: "start_missing w k s = (s1, x)" for s1 x
  proof (cases "k \<notin> fst ` set (sv_children s) \<and> k \<notin> sv_given_up s")
    case True
    with m have sp: "spawn w k [] s = (s1, x)" by (simp add: start_missing_def start_child_def st_simps)
    have "supervisor_ok s1" using spawn_ok [OF Cons.prems(2), of k "[]" w] True sp by simp
    from sp show ?thesis
    proof (cases rule: spawn_cases)
      case (2 u)
      with \<open>supervisor_ok s1\<close> sane_but_add [of w s0 "[]" s k "[]"] show ?thesis by (auto simp: add_process_def)
    qed (use Cons.prems(2) in auto)
  qed (use m Cons.prems(2) in \<open>auto simp: start_missing_def st_simps split: if_splits\<close>)
  from Cons.prems(1) show ?case
  proof (cases rule: forS_Cons_cases)
    case (1 e)
    with one [OF 1(1)] show ?thesis by auto
  next
    case (2 s1)
    note o = one [OF 2(1)]
    from o have "supervisor_ok s1" by simp
    note i = Cons.IH [OF 2(2) this]
    have k1: "k \<in> fst ` set (sv_children s1) \<or> k \<in> sv_given_up s1"
        "fst ` set (sv_children s) \<subseteq> fst ` set (sv_children s1)" using o by blast+
    have i1: "fst ` set (sv_children s1) \<subseteq> fst ` set (sv_children s')" "sv_given_up s' = sv_given_up s1"
      using i by simp_all
    have "k \<in> fst ` set (sv_children s') \<union> sv_given_up s'" using k1(1) i1(1) unfolding i1(2) by blast
    moreover have "fst ` set (sv_children s) \<subseteq> fst ` set (sv_children s')"
      using k1(2) i1(1) by (rule subset_trans)
    moreover have "r = Inr () \<longrightarrow> set ids \<subseteq> fst ` set (sv_children s') \<union> sv_given_up s'"
      using i by blast
    moreover have "sv_given_up s' = sv_given_up s" "sv_settings s' = sv_settings s" "supervisor_ok s'"
        "sane_but w s0 [] s \<longrightarrow> sane_but w s0 [] s'"
      using o i by simp_all
    ultimately show ?thesis by simp
  qed
qed simp

text \<open>A child that is stopped: its process has ended, by itself or because it was killed.\<close>

definition stopped :: "(nat \<Rightarrow> bool) \<Rightarrow> nat \<Rightarrow> process_state \<Rightarrow> process_state" where
  "stopped exits p st = (if has_ended st then st else if st \<noteq> Killing \<and> exits p then Exited else Killed)"

lemma stop_child_returns:
  assumes "map_of (sv_children s) k = Some c"
  shows "\<exists>ps. stop_child exits k s = ((forget_child k s)\<lparr>sv_processes := ps\<rparr>, Inr ()) \<and> length ps = length (sv_processes s)"
proof -
  define f where "f = forget_child k s"
  have f: "\<exists>qs. g = f\<lparr>sv_processes := qs\<rparr> \<and> length qs = length (sv_processes s)" if "g = f" for g
    using that by (intro exI [of _ "sv_processes f"]) (simp add: f_def)
  have set: "\<exists>qs. set_process p st g = f\<lparr>sv_processes := qs\<rparr> \<and> length qs = length (sv_processes s)"
    if "\<exists>ps. g = f\<lparr>sv_processes := ps\<rparr> \<and> length ps = length (sv_processes s)" for p st g
    using that by (auto simp: set_process_def)
  show ?thesis using assms f [OF refl]
    by (auto simp: stop_child_def terminate_process_def wait_timeout_def kill_process_def wait_process_def st_simps
        f_def [symmetric] intro!: set split: process_state.splits)
qed

lemma run_stop_child:
  assumes "map_of (sv_children s) k = Some c" and "ch_process c < length (sv_processes s)"
  shows "stop_child exits k s = (set_process (ch_process c) (stopped exits (ch_process c) (state_of s (ch_process c))) (forget_child k s), Inr ())"
proof -
  have same: "state_of (forget_child k s) p = state_of s p" for p by (simp add: state_of_def)
  have keep: "set_process p st (forget_child k s) = forget_child k s" if "state_of s p = st" for p st
    using that same set_process_same by metis
  show ?thesis using assms
    by (cases "state_of s (ch_process c)")
      (simp_all add: stop_child_def terminate_process_def wait_timeout_def kill_process_def wait_process_def st_simps
        same has_ended_def stopped_def keep)
qed

lemma stop_list:
  assumes "forS (\<lambda>(k, _). if k \<notin> D then stop_child exits k else returnS ()) cs s = (s', r)"
    and "distinct (map fst cs)" and "\<forall>(k, c) \<in> set cs. map_of (sv_children s) k = Some c"
  shows "sv_given_up s' = sv_given_up s \<and> sv_settings s' = sv_settings s \<and> r = Inr () \<and>
    (supervisor_ok s \<longrightarrow> supervisor_ok s') \<and> set (sv_children s') = {kc \<in> set (sv_children s). fst kc \<in> D \<or> fst kc \<notin> fst ` set cs}"
  using assms
proof (induction cs arbitrary: s)
  case (Cons kc cs)
  obtain k c where kc: "kc = (k, c)" by force
  have "map_of (sv_children s) k = Some c" using Cons.prems(3) by (simp add: kc)
  from stop_child_returns [OF this] obtain ps where
      ps: "stop_child exits k s = ((forget_child k s)\<lparr>sv_processes := ps\<rparr>, Inr ())" by blast
  let ?s1 = "if k \<notin> D then (forget_child k s)\<lparr>sv_processes := ps\<rparr> else s"
  have "forS (\<lambda>(k, _). if k \<notin> D then stop_child exits k else returnS ()) cs ?s1 = (s', r)"
    using Cons.prems(1) ps by (auto simp: kc st_simps split: if_splits)
  moreover have "\<forall>(j, c) \<in> set cs. map_of (sv_children ?s1) j = Some c"
    using Cons.prems(2,3) by (force simp: kc)
  moreover have "supervisor_ok s \<longrightarrow> supervisor_ok ?s1" using forget_ok [of s k] by (simp add: supervisor_ok_def)
  ultimately show ?case
    using Cons.IH [of ?s1] Cons.prems(2) by (auto simp: kc)
qed auto

lemma reconcile_ok:
  assumes "supervisor_ok s" and "reconcile_once w s = (s', r)" and "wo_desired w = Inr ids"
  shows "supervisor_ok s'" and "sv_settings s' = sv_settings s" and "sv_given_up s \<inter> set ids \<subseteq> sv_given_up s'"
    and "r = Inr () \<Longrightarrow> fst ` set (sv_children s') = set ids - sv_given_up s'"
    and "r = Inr () \<Longrightarrow> kc \<in> set (sv_children s') \<Longrightarrow> good w s kc"
    and "sv_given_up s' \<subseteq> set ids"
proof -
  let ?s0 = "s\<lparr>sv_given_up := sv_given_up s \<inter> set ids\<rparr>"
  have ok0: "supervisor_ok ?s0" using assms(1) by (auto simp: supervisor_ok_def)
  have pre: "distinct (map fst (sv_children s))" "fst ` set (sv_children s) \<inter> sv_given_up ?s0 = {}"
    using assms(1) by (auto simp: supervisor_ok_def keys_distinct_def)
  obtain s1 r1 where reap: "forS (reap_child w (set ids)) (sv_children s) ?s0 = (s1, r1)" by force
  note o1 = reap_list_ok [OF ok0 pre reap]
  then have ok1: "supervisor_ok s1" by simp
  obtain s2 r2 where st: "forS (start_missing w) (remdups ids) s1 = (s2, r2)" by force
  note o2 = start_list [OF st ok1, of s]
  obtain s3 r3 where sp: "forS (\<lambda>(k, _). if k \<notin> set ids then stop_child (wo_exits w) k else returnS ()) (sv_children s2) s2 = (s3, r3)"
    by force
  have ok2: "supervisor_ok s2" using o2 by simp
  then have "distinct (map fst (sv_children s2))" by (simp add: supervisor_ok_def keys_distinct_def)
  then have o3: "sv_given_up s3 = sv_given_up s2 \<and> sv_settings s3 = sv_settings s2 \<and> r3 = Inr () \<and>
      (supervisor_ok s2 \<longrightarrow> supervisor_ok s3) \<and> set (sv_children s3) = {kc \<in> set (sv_children s2). fst kc \<in> set ids \<or> fst kc \<notin> fst ` set (sv_children s2)}"
    by (intro stop_list [OF sp]) auto
  have run: "(s', r) = (case r1 of Inl e \<Rightarrow> (s1, Inl e) | Inr _ \<Rightarrow>
      (case r2 of Inl e \<Rightarrow> (s2, Inl e) | Inr _ \<Rightarrow> (s3, r3)))"
    using assms(2,3) reap st sp
    by (simp add: reconcile_once_def reap_dead_children_def st_simps Let_def split: sum.splits)
  show "supervisor_ok s'" "sv_settings s' = sv_settings s" "sv_given_up s \<inter> set ids \<subseteq> sv_given_up s'"
    "sv_given_up s' \<subseteq> set ids"
    using run o1 o2 o3 by (auto split: sum.splits)
  have ok_runs: "r1 = Inr ()" "r2 = Inr ()" "s' = s3" if "r = Inr ()"
    using run that by (auto split: sum.splits)
  show "fst ` set (sv_children s') = set ids - sv_given_up s'" if "r = Inr ()"
  proof -
    note ok_runs = ok_runs [OF that]
    have kept: "set (sv_children s3) = {kc \<in> set (sv_children s2). fst kc \<in> set ids}" "sv_given_up s3 = sv_given_up s2"
      using o3 by auto
    have all: "set ids \<subseteq> fst ` set (sv_children s2) \<union> sv_given_up s2" using o2 ok_runs(2) set_remdups [of ids] by blast
    have "supervisor_ok s2" using o2 by simp
    then have "sv_given_up s2 \<inter> fst ` set (sv_children s2) = {}" by (simp add: supervisor_ok_def)
    with kept all show ?thesis by (auto simp: ok_runs)
  qed
  show "good w s kc" if "r = Inr ()" "kc \<in> set (sv_children s')"
  proof -
    note ok_runs = ok_runs [OF that(1)]
    have "sane_but w s (sv_children s) ?s0" by (simp add: sane_but_def)
    from reap_list_within [OF this _ reap [unfolded ok_runs]] have "sane_but w s [] s1" by simp
    with o2 have "sane_but w s [] s2" by simp
    with o3 that(2) ok_runs show ?thesis by (auto simp: sane_but_def)
  qed
qed

text \<open>A pass that gets through reaped every child; later parts of it give nothing up.\<close>

lemma pass_reaps:
  assumes "supervisor_ok s" and "reconcile_once w s = (s', Inr ())" and "wo_desired w = Inr ids"
  obtains s0 s1 where "supervisor_ok s0" "sv_settings s0 = sv_settings s" "sv_children s0 = sv_children s"
    "distinct (map fst (sv_children s))" "fst ` set (sv_children s) \<inter> sv_given_up s0 = {}"
    "forS (reap_child w (set ids)) (sv_children s) s0 = (s1, Inr ())" "sv_given_up s' = sv_given_up s1"
    "sv_given_up s0 = sv_given_up s \<inter> set ids"
proof -
  let ?s0 = "s\<lparr>sv_given_up := sv_given_up s \<inter> set ids\<rparr>"
  have ok0: "supervisor_ok ?s0" using assms(1) by (auto simp: supervisor_ok_def)
  have pre: "distinct (map fst (sv_children s))" "fst ` set (sv_children s) \<inter> sv_given_up ?s0 = {}"
    using assms(1) by (auto simp: supervisor_ok_def keys_distinct_def)
  obtain s1 r1 where reap: "forS (reap_child w (set ids)) (sv_children s) ?s0 = (s1, r1)" by force
  obtain s2 r2 where st: "forS (start_missing w) (remdups ids) s1 = (s2, r2)" by force
  obtain s3 r3 where sp: "forS (\<lambda>(k, _). if k \<notin> set ids then stop_child (wo_exits w) k else returnS ()) (sv_children s2) s2 = (s3, r3)"
    by force
  have "(s', Inr ()) = (case r1 of Inl e \<Rightarrow> (s1, Inl e) | Inr _ \<Rightarrow>
      (case r2 of Inl e \<Rightarrow> (s2, Inl e) | Inr _ \<Rightarrow> (s3, r3)))"
    using assms(2,3) reap st sp
    by (simp add: reconcile_once_def reap_dead_children_def st_simps Let_def split: sum.splits)
  then have "r1 = Inr ()" "s' = s3" by (auto split: sum.splits)
  moreover have "supervisor_ok s1" using reap_list_ok [OF ok0 pre reap] by simp
  then have "supervisor_ok s2" "sv_given_up s2 = sv_given_up s1" using start_list [OF st] by simp_all
  then have "sv_given_up s3 = sv_given_up s1"
    using stop_list [OF sp] by (auto simp: supervisor_ok_def keys_distinct_def)
  ultimately show ?thesis using that [OF ok0 _ _ pre] reap by simp
qed

text \<open>A child with restarts to spare is not given up.\<close>

lemma reap_list_other:
  assumes "supervisor_ok s" and "distinct (map fst cs)" and "fst ` set cs \<inter> sv_given_up s = {}"
    and "forS (reap_child w D) cs s = (s', r)" and "k \<notin> fst ` set cs" and "k \<notin> sv_given_up s"
  shows "k \<notin> sv_given_up s'"
  using assms
proof (induction cs arbitrary: s)
  case (Cons kc cs)
  obtain k1 c1 where kc: "kc = (k1, c1)" by force
  from Cons.prems kc have k1: "k1 \<notin> sv_given_up s" "k1 \<notin> fst ` set cs" "k \<noteq> k1" by auto
  from Cons.prems(4) show ?case
  proof (cases rule: forS_Cons_cases)
    case (1 e)
    with reap_child_ok(4) [OF Cons.prems(1) k1(1) 1(1) [unfolded kc]] Cons.prems(6) k1(3) show ?thesis by auto
  next
    case (2 s1)
    note one = reap_child_ok [OF Cons.prems(1) k1(1) 2(1) [unfolded kc]]
    have "fst ` set cs \<inter> sv_given_up s1 = {}" using one(4) Cons.prems(3) k1(2) by (simp add: kc) blast
    with Cons.IH [OF one(1) _ this 2(2)] Cons.prems(2,5,6) one(4) k1(3) show ?thesis by auto
  qed
qed simp

lemma reap_child_spares:
  assumes "reap_child w D (k, c) s = (s', r)"
    and "int (length (filter (\<lambda>t. wo_monotonic w k - t < ss_crash_loop_window_seconds (sv_settings s)) (ch_restart_times c)))
      < ss_max_restarts_in_window (sv_settings s)"
  shows "sv_given_up s' = sv_given_up s"
  using assms by (auto simp: reap_child_def spawn_def add_process_def st_simps Let_def split: option.splits if_splits sum.splits)

lemma reap_list_spares:
  assumes "supervisor_ok s" and "distinct (map fst cs)" and "fst ` set cs \<inter> sv_given_up s = {}"
    and "forS (reap_child w D) cs s = (s', r)" and "(k, c) \<in> set cs"
    and "int (length (filter (\<lambda>t. wo_monotonic w k - t < ss_crash_loop_window_seconds (sv_settings s)) (ch_restart_times c)))
      < ss_max_restarts_in_window (sv_settings s)"
  shows "k \<notin> sv_given_up s'"
  using assms
proof (induction cs arbitrary: s)
  case (Cons kc cs)
  obtain k1 c1 where kc: "kc = (k1, c1)" by force
  from Cons.prems kc have k1: "k1 \<notin> sv_given_up s" "k1 \<notin> fst ` set cs" by auto
  have k: "k \<notin> sv_given_up s" using Cons.prems(3,5) by force
  from Cons.prems(4) show ?case
  proof (cases rule: forS_Cons_cases)
    case (1 e)
    note one = reap_child_ok [OF Cons.prems(1) k1(1) 1(1) [unfolded kc]]
    show ?thesis
    proof (cases "k = k1")
      case True
      then have "c = c1" using Cons.prems(2,5) kc k1(2) by force
      with reap_child_spares [OF 1(1) [unfolded kc]] Cons.prems(6) True k show ?thesis by simp
    qed (use one(4) k in auto)
  next
    case (2 s1)
    note one = reap_child_ok [OF Cons.prems(1) k1(1) 2(1) [unfolded kc]]
    have rest: "fst ` set cs \<inter> sv_given_up s1 = {}" using one(4) Cons.prems(3) k1(2) by (simp add: kc) blast
    show ?thesis
    proof (cases "k = k1")
      case True
      then have "c = c1" using Cons.prems(2,5) kc k1(2) by force
      with reap_child_spares [OF 2(1) [unfolded kc]] Cons.prems(6) True k have "k \<notin> sv_given_up s1" by simp
      with reap_list_other [OF one(1) _ rest 2(2)] k1(2) True Cons.prems(2) show ?thesis by simp
    next
      case False
      with Cons.IH [OF one(1) _ rest 2(2)] Cons.prems(2,5,6) one(2) kc show ?thesis by auto
    qed
  qed
qed simp

lemma reconcile_failed_read:
  "wo_desired w = Inl e \<Longrightarrow> reconcile_once w s = (s, Inl e)"
  by (simp add: reconcile_once_def st_simps)

lemma run_passes_ok: "supervisor_ok s \<Longrightarrow> supervisor_ok (run_passes ws s) \<and> sv_settings (run_passes ws s) = sv_settings s"
proof (induction ws arbitrary: s)
  case (Cons w ws)
  obtain s1 r where r: "reconcile_once w s = (s1, r)" by force
  have "supervisor_ok s1 \<and> sv_settings s1 = sv_settings s"
  proof (cases "wo_desired w")
    case (Inl e)
    with r Cons.prems reconcile_failed_read [of w e s] show ?thesis by simp
  next
    case (Inr ids)
    from reconcile_ok(1,2) [OF Cons.prems r Inr] show ?thesis by simp
  qed
  with Cons.IH [of s1] r show ?case by (simp add: run_passes_def)
qed (simp add: run_passes_def)

lemma init_supervisor_ok: "supervisor_ok (init_supervisor cfg)"
  by (simp add: supervisor_ok_def init_supervisor_def keys_distinct_def)

section \<open>Which processes run\<close>

text \<open>
  The running processes of a bot, and the one its child is for. That these are the same is kept by
  every pass, also by one that an exception ends half-way.
\<close>

definition running_processes :: "supervisor \<Rightarrow> string \<Rightarrow> nat set" where
  "running_processes s bot_id =
     {p. p < length (sv_processes s) \<and> pc_bot (sv_processes s ! p) = bot_id \<and> \<not> has_ended (state_of s p)}"

definition child_process :: "supervisor \<Rightarrow> string \<Rightarrow> nat set" where
  "child_process s bot_id = (case map_of (sv_children s) bot_id of None \<Rightarrow> {} | Some c \<Rightarrow> {ch_process c})"

definition processes_ok :: "supervisor \<Rightarrow> bool" where
  "processes_ok s \<longleftrightarrow> (\<forall>k. running_processes s k = child_process s k) \<and>
     (\<forall>p < length (sv_processes s). state_of s p = Alive \<or> has_ended (state_of s p))"

text \<open>A bot that a step does not touch, and a bot whose process \<open>p\<close> has ended as \<open>st\<close> and that has no child.\<close>

definition same_bot :: "string \<Rightarrow> supervisor \<Rightarrow> supervisor \<Rightarrow> bool" where
  "same_bot k s s' \<longleftrightarrow> map_of (sv_children s') k = map_of (sv_children s) k \<and>
     length (sv_processes s) \<le> length (sv_processes s') \<and>
     (\<forall>p < length (sv_processes s). pc_bot (sv_processes s ! p) = k \<longrightarrow> sv_processes s' ! p = sv_processes s ! p)"

definition gone :: "supervisor \<Rightarrow> string \<Rightarrow> nat \<Rightarrow> process_state \<Rightarrow> bool" where
  "gone s k p st \<longleftrightarrow> map_of (sv_children s) k = None \<and> p < length (sv_processes s) \<and>
     sv_processes s ! p = \<lparr>pc_bot = k, pc_state = st\<rparr>"

lemma same_bot_refl [simp]: "same_bot k s s"
  by (simp add: same_bot_def)

lemma same_bot_trans: "same_bot k s s1 \<Longrightarrow> same_bot k s1 s2 \<Longrightarrow> same_bot k s s2"
  by (auto simp: same_bot_def)

lemma same_bot_gone: "same_bot k s s' \<Longrightarrow> gone s k p st \<Longrightarrow> gone s' k p st"
  by (auto simp: same_bot_def gone_def)

lemma same_bot_child:
  assumes "same_bot k s s'" and "p < length (sv_processes s)" and "pc_bot (sv_processes s ! p) = k"
  shows "p < length (sv_processes s') \<and> state_of s' p = state_of s p"
  using assms by (auto simp: same_bot_def state_of_def)

lemma same_bot_children:
  assumes "\<forall>(j, d) \<in> set cs. map_of (sv_children s) j = Some d" and "\<And>j. j \<in> fst ` set cs \<Longrightarrow> same_bot j s s'"
  shows "\<forall>(j, d) \<in> set cs. map_of (sv_children s') j = Some d"
proof clarify
  fix j d assume j: "(j, d) \<in> set cs"
  then have "j \<in> fst ` set cs" by force
  from assms(2) [OF this] assms(1) j show "map_of (sv_children s') j = Some d" by (auto simp: same_bot_def)
qed

lemma processes_okD:
  assumes "processes_ok s" and "map_of (sv_children s) k = Some c"
  shows "ch_process c < length (sv_processes s)" and "pc_bot (sv_processes s ! ch_process c) = k"
    and "state_of s (ch_process c) = Alive"
proof -
  have "running_processes s k = {ch_process c}" using assms by (simp add: processes_ok_def child_process_def)
  then have "ch_process c \<in> running_processes s k" by simp
  then show "ch_process c < length (sv_processes s)" "pc_bot (sv_processes s ! ch_process c) = k" "state_of s (ch_process c) = Alive"
    using assms(1) by (auto simp: running_processes_def processes_ok_def)
qed

lemma processes_ok_given_up [simp]: "processes_ok (s\<lparr>sv_given_up := g\<rparr>) = processes_ok s"
  by (simp add: processes_ok_def running_processes_def child_process_def state_of_def)

lemma same_bot_given_up [simp]: "same_bot k (s\<lparr>sv_given_up := g\<rparr>) s' = same_bot k s s'" "same_bot k s (s'\<lparr>sv_given_up := g\<rparr>) = same_bot k s s'"
  by (simp_all add: same_bot_def)

text \<open>The two ways the table changes: a process is added for a bot that has none, or one ends with its child.\<close>

lemma processes_ok_add:
  assumes "processes_ok s" and "map_of (sv_children s) k = None"
  shows "processes_ok (add_process k ts s)" and "j \<noteq> k \<Longrightarrow> same_bot j s (add_process k ts s)"
proof -
  have "running_processes (add_process k ts s) j = (if j = k then insert (length (sv_processes s)) (running_processes s j) else running_processes s j)" for j
    by (auto simp: running_processes_def add_process_def state_of_def nth_append has_ended_def less_Suc_eq)
  moreover have "running_processes s k = {}" using assms by (simp add: processes_ok_def child_process_def)
  ultimately have "running_processes (add_process k ts s) j = child_process (add_process k ts s) j" for j
    using assms(1) by (simp add: processes_ok_def) (simp add: child_process_def add_process_def put_simps)
  then show "processes_ok (add_process k ts s)"
    using assms(1) by (auto simp: processes_ok_def add_process_def state_of_def nth_append)
  show "same_bot j s (add_process k ts s)" if "j \<noteq> k"
    using that by (simp add: same_bot_def add_process_def put_simps nth_append)
qed

lemma processes_ok_end:
  assumes "processes_ok s" and "map_of (sv_children s) k = Some c" and "has_ended st"
  shows "processes_ok (forget_child k (set_process (ch_process c) st s))"
    and "gone (forget_child k (set_process (ch_process c) st s)) k (ch_process c) st"
    and "j \<noteq> k \<Longrightarrow> same_bot j s (forget_child k (set_process (ch_process c) st s))"
proof -
  let ?p = "ch_process c" and ?s = "forget_child k (set_process (ch_process c) st s)"
  note c = processes_okD [OF assms(1,2)]
  have "running_processes ?s j = running_processes s j - {?p}" for j
    using c assms(3) by (auto simp: running_processes_def state_of_def set_process_def nth_list_update)
  moreover have "child_process ?s j = child_process s j - {?p}" for j
  proof (cases "j = k")
    case False
    have "child_process s j = running_processes s j" using assms(1) by (simp add: processes_ok_def)
    then have "?p \<notin> child_process s j" using c(2) False by (simp add: running_processes_def)
    then show ?thesis using False by (simp add: child_process_def)
  qed (use assms(2) in \<open>simp add: child_process_def\<close>)
  ultimately have "running_processes ?s j = child_process ?s j" for j
    using assms(1) by (simp add: processes_ok_def)
  moreover have "state_of ?s p = (if p = ?p then st else state_of s p)" if "p < length (sv_processes s)" for p
    using that by (simp add: state_of_def set_process_def nth_list_update)
  ultimately show "processes_ok ?s" using assms(1,3) by (auto simp: processes_ok_def)
  show "gone ?s k ?p st" using c by (simp add: gone_def set_process_def)
  show "same_bot j s ?s" if "j \<noteq> k"
    using c that by (auto simp: same_bot_def set_process_def nth_list_update)
qed

lemma reap_child_processes:
  assumes run: "reap_child w D (k, c) s = (s', r)" and ok: "processes_ok s" and c: "map_of (sv_children s) k = Some c"
  shows "processes_ok s'" and "j \<noteq> k \<Longrightarrow> same_bot j s s'"
    and "wo_poll w (ch_process c) = None \<Longrightarrow> s' = s"
    and "wo_poll w (ch_process c) \<noteq> None \<Longrightarrow> k \<notin> D \<Longrightarrow> gone s' k (ch_process c) Exited"
proof -
  have "processes_ok s' \<and> (\<forall>j. j \<noteq> k \<longrightarrow> same_bot j s s') \<and>
      (if wo_poll w (ch_process c) = None then s' = s else k \<notin> D \<longrightarrow> gone s' k (ch_process c) Exited)"
  proof (cases "wo_poll w (ch_process c)")
    case None
    with run ok show ?thesis by (simp add: reap_child_def st_simps)
  next
    case (Some code)
    let ?f = "forget_child k (set_process (ch_process c) Exited s)"
    note f = processes_ok_end [OF ok c, of Exited, unfolded has_ended_def, simplified]
    consider (same) "s' = ?f" | (given_up) g where "k \<in> D" "s' = ?f\<lparr>sv_given_up := g\<rparr>" | (again) ts where "k \<in> D" "s' = add_process k ts ?f"
      using run Some
      by (auto simp: reap_child_def st_simps Let_def spawn_def split: if_splits sum.splits prod.splits)
    then show ?thesis
    proof cases
      case again
      have "map_of (sv_children ?f) k = None" by simp
      note add = processes_ok_add [OF f(1) this]
      have "same_bot j s s'" if "j \<noteq> k" for j using same_bot_trans [OF f(3) add(2)] that again(2) by simp
      then show ?thesis using add(1) again Some by simp
    qed (use f Some in auto)
  qed
  then show "processes_ok s'" and "j \<noteq> k \<Longrightarrow> same_bot j s s'"
    and "wo_poll w (ch_process c) = None \<Longrightarrow> s' = s"
    and "wo_poll w (ch_process c) \<noteq> None \<Longrightarrow> k \<notin> D \<Longrightarrow> gone s' k (ch_process c) Exited"
    by (auto split: if_splits)
qed

lemma reap_list_processes:
  assumes "forS (reap_child w D) cs s = (s', r)" and "distinct (map fst cs)"
    and "\<forall>(k, c) \<in> set cs. map_of (sv_children s) k = Some c" and "processes_ok s"
  shows "processes_ok s' \<and> (\<forall>j. j \<notin> fst ` set cs \<longrightarrow> same_bot j s s') \<and>
    (r = Inr () \<longrightarrow> (\<forall>(k, c) \<in> set cs. k \<notin> D \<longrightarrow>
      (if wo_poll w (ch_process c) = None then same_bot k s s' else gone s' k (ch_process c) Exited)))"
  using assms
proof (induction cs arbitrary: s)
  case (Cons kc cs)
  obtain k c where kc: "kc = (k, c)" by force
  have c: "map_of (sv_children s) k = Some c" using Cons.prems(3) by (simp add: kc)
  from Cons.prems(1) show ?case
  proof (cases rule: forS_Cons_cases)
    case (1 e)
    with reap_child_processes(1,2) [OF 1(1) [unfolded kc] Cons.prems(4) c] show ?thesis by (auto simp: kc)
  next
    case (2 s1)
    note one = reap_child_processes [OF 2(1) [unfolded kc] Cons.prems(4) c]
    have fresh: "k \<notin> fst ` set cs" "distinct (map fst cs)" using Cons.prems(2) by (simp_all add: kc)
    have "\<forall>(j, d) \<in> set cs. map_of (sv_children s1) j = Some d"
    proof (rule same_bot_children)
      show "\<forall>(j, d) \<in> set cs. map_of (sv_children s) j = Some d" using Cons.prems(3) by simp
      show "same_bot j s s1" if "j \<in> fst ` set cs" for j using that fresh(1) by (intro one(2)) blast
    qed
    note IH = Cons.IH [OF 2(2) fresh(2) this one(1)]
    have "same_bot k s1 s'" using IH fresh(1) by blast
    then have head: "if wo_poll w (ch_process c) = None then same_bot k s s' else gone s' k (ch_process c) Exited" if "k \<notin> D"
      using that one(3,4) same_bot_gone [OF \<open>same_bot k s1 s'\<close>] \<open>same_bot k s1 s'\<close>
      by (cases "wo_poll w (ch_process c)") auto
    have others: "same_bot j s s'" if "j \<notin> fst ` set (kc # cs)" for j
    proof (rule same_bot_trans)
      show "same_bot j s s1" using that by (intro one(2)) (simp add: kc)
      show "same_bot j s1 s'" using that IH by simp
    qed
    have tail: "if wo_poll w (ch_process d) = None then same_bot j s s' else gone s' j (ch_process d) Exited"
      if "r = Inr ()" "(j, d) \<in> set cs" "j \<notin> D" for j d
    proof -
      have "j \<in> fst ` set cs" using that(2) by (rule image_eqI [rotated]) simp
      then have "same_bot j s s1" using fresh(1) by (intro one(2)) blast
      moreover have "if wo_poll w (ch_process d) = None then same_bot j s1 s' else gone s' j (ch_process d) Exited"
        using IH that by blast
      ultimately show ?thesis using same_bot_trans [of j s s1 s'] by (cases "wo_poll w (ch_process d)") simp_all
    qed
    show ?thesis
    proof (intro conjI allI impI ballI)
      fix kd assume "r = Inr ()" "kd \<in> set (kc # cs)"
      then show "case kd of (k, c) \<Rightarrow> k \<notin> D \<longrightarrow>
          (if wo_poll w (ch_process c) = None then same_bot k s s' else gone s' k (ch_process c) Exited)"
        using head tail by (cases kd) (simp only: kc set_simps insert_iff prod.inject split: prod.split, blast)
    qed (use IH others in blast)+
  qed
qed simp

lemma start_list_processes:
  assumes "forS (start_missing w) ids s = (s', r)" and "processes_ok s"
  shows "processes_ok s' \<and> (\<forall>j. j \<notin> set ids \<longrightarrow> same_bot j s s')"
  using assms
proof (induction ids arbitrary: s)
  case (Cons k ids)
  have one: "processes_ok s1 \<and> (\<forall>j. j \<noteq> k \<longrightarrow> same_bot j s s1)" if m: "start_missing w k s = (s1, x)" for s1 x
  proof (cases "k \<notin> fst ` set (sv_children s) \<and> k \<notin> sv_given_up s")
    case True
    then have none: "map_of (sv_children s) k = None" by (simp add: map_of_eq_None_iff)
    from m True have sp: "spawn w k [] s = (s1, x)" by (simp add: start_missing_def start_child_def st_simps)
    then show ?thesis
      by (rule spawn_cases) (use Cons.prems(2) processes_ok_add [OF Cons.prems(2) none] in simp_all)
  qed (use m Cons.prems(2) in \<open>auto simp: start_missing_def st_simps split: if_splits\<close>)
  from Cons.prems(1) show ?case
  proof (cases rule: forS_Cons_cases)
    case (1 e)
    with one [OF 1(1)] show ?thesis by simp
  next
    case (2 s1)
    from one [OF 2(1)] have s1: "processes_ok s1" "\<And>j. j \<noteq> k \<Longrightarrow> same_bot j s s1" by simp_all
    note IH = Cons.IH [OF 2(2) s1(1)]
    have "same_bot j s s'" if "j \<notin> set (k # ids)" for j
      using that same_bot_trans [OF s1(2)] IH by simp
    with IH show ?thesis by blast
  qed
qed simp

lemma stop_list_processes:
  assumes "forS (\<lambda>(k, _). if k \<notin> D then stop_child exits k else returnS ()) cs s = (s', r)"
    and "distinct (map fst cs)" and "\<forall>(k, c) \<in> set cs. map_of (sv_children s) k = Some c" and "processes_ok s"
  shows "processes_ok s' \<and> (\<forall>j. j \<notin> fst ` set cs \<longrightarrow> same_bot j s s') \<and>
    (\<forall>(k, c) \<in> set cs. k \<notin> D \<longrightarrow> gone s' k (ch_process c) (if exits (ch_process c) then Exited else Killed))"
  using assms
proof (induction cs arbitrary: s)
  case (Cons kc cs)
  obtain k c where kc: "kc = (k, c)" by force
  have c: "map_of (sv_children s) k = Some c" using Cons.prems(3) by (simp add: kc)
  note child = processes_okD [OF Cons.prems(4) c]
  let ?st = "if exits (ch_process c) then Exited else Killed"
  let ?s1 = "if k \<notin> D then forget_child k (set_process (ch_process c) ?st s) else s"
  have "set_process p st (forget_child k s) = forget_child k (set_process p st s)" for p st
    by (simp add: set_process_def forget_child_def)
  then have "stop_child exits k s = (forget_child k (set_process (ch_process c) ?st s), Inr ())"
    using run_stop_child [OF c child(1), of exits] child(3) by (simp add: stopped_def has_ended_def)
  then have rest: "forS (\<lambda>(k, _). if k \<notin> D then stop_child exits k else returnS ()) cs ?s1 = (s', r)"
    using Cons.prems(1) by (auto simp: kc st_simps split: if_splits)
  have one: "processes_ok ?s1" "\<And>j. j \<noteq> k \<Longrightarrow> same_bot j s ?s1" "k \<notin> D \<Longrightarrow> gone ?s1 k (ch_process c) ?st"
    using processes_ok_end [OF Cons.prems(4) c, of ?st] Cons.prems(4) by (auto simp: has_ended_def)
  have fresh: "k \<notin> fst ` set cs" "distinct (map fst cs)" using Cons.prems(2) by (simp_all add: kc)
  have "\<forall>(j, d) \<in> set cs. map_of (sv_children ?s1) j = Some d"
  proof (rule same_bot_children)
    show "\<forall>(j, d) \<in> set cs. map_of (sv_children s) j = Some d" using Cons.prems(3) by simp
    show "same_bot j s ?s1" if "j \<in> fst ` set cs" for j using that fresh(1) by (intro one(2)) blast
  qed
  note IH = Cons.IH [OF rest fresh(2) this one(1)]
  have "same_bot k ?s1 s'" using IH fresh(1) by blast
  then have "k \<notin> D \<longrightarrow> gone s' k (ch_process c) ?st" using one(3) same_bot_gone by blast
  moreover have "same_bot j s s'" if "j \<notin> fst ` set (kc # cs)" for j
  proof (rule same_bot_trans)
    show "same_bot j s ?s1" using that by (intro one(2)) (simp add: kc)
    show "same_bot j ?s1 s'" using that IH by simp
  qed
  ultimately show ?case using IH unfolding kc by simp
qed simp

text \<open>A pass keeps it, and what it does to the process of a bot that is no longer asked for.\<close>

lemma reconcile_processes:
  assumes "supervisor_ok s" and "processes_ok s" and "reconcile_once w s = (s', r)"
  shows "processes_ok s'"
    and "r = Inr () \<Longrightarrow> wo_desired w = Inr ids \<Longrightarrow> map_of (sv_children s) k = Some c \<Longrightarrow> k \<notin> set ids \<Longrightarrow>
      gone s' k (ch_process c) (if wo_poll w (ch_process c) \<noteq> None \<or> wo_exits w (ch_process c) then Exited else Killed)"
proof -
  have "processes_ok s' \<and> (\<forall>ids k c. r = Inr () \<longrightarrow> wo_desired w = Inr ids \<longrightarrow> map_of (sv_children s) k = Some c \<longrightarrow> k \<notin> set ids \<longrightarrow>
      gone s' k (ch_process c) (if wo_poll w (ch_process c) \<noteq> None \<or> wo_exits w (ch_process c) then Exited else Killed))"
  proof (cases "wo_desired w")
    case (Inl e)
    with assms show ?thesis by (simp add: reconcile_failed_read)
  next
    case (Inr ids)
    let ?s0 = "s\<lparr>sv_given_up := sv_given_up s \<inter> set ids\<rparr>"
    have ok0: "supervisor_ok ?s0" "processes_ok ?s0" using assms(1,2) by (auto simp: supervisor_ok_def)
    have pre: "distinct (map fst (sv_children s))" "fst ` set (sv_children s) \<inter> sv_given_up ?s0 = {}"
      "\<forall>(k, c) \<in> set (sv_children s). map_of (sv_children ?s0) k = Some c"
      using assms(1) by (auto simp: supervisor_ok_def keys_distinct_def)
    obtain s1 r1 where reap: "forS (reap_child w (set ids)) (sv_children s) ?s0 = (s1, r1)" by force
    note p1 = reap_list_processes [OF reap pre(1,3) ok0(2)]
    have ok1: "supervisor_ok s1" using reap_list_ok [OF ok0(1) pre(1,2) reap] by simp
    obtain s2 r2 where st: "forS (start_missing w) (remdups ids) s1 = (s2, r2)" by force
    have p2: "processes_ok s2" "\<And>j. j \<notin> set ids \<Longrightarrow> same_bot j s1 s2" using start_list_processes [OF st] p1 by auto
    have ok2: "supervisor_ok s2" using start_list [OF st ok1] by simp
    have d2: "distinct (map fst (sv_children s2))" "\<forall>(k, c) \<in> set (sv_children s2). map_of (sv_children s2) k = Some c"
      using ok2 by (auto simp: supervisor_ok_def keys_distinct_def)
    obtain s3 r3 where sp: "forS (\<lambda>(k, _). if k \<notin> set ids then stop_child (wo_exits w) k else returnS ()) (sv_children s2) s2 = (s3, r3)"
      by force
    note p3 = stop_list_processes [OF sp d2 p2(1)]
    have run: "(s', r) = (case r1 of Inl e \<Rightarrow> (s1, Inl e) | Inr _ \<Rightarrow>
        (case r2 of Inl e \<Rightarrow> (s2, Inl e) | Inr _ \<Rightarrow> (s3, r3)))"
      using assms(3) Inr reap st sp
      by (simp add: reconcile_once_def reap_dead_children_def st_simps Let_def split: sum.splits)
    have "processes_ok s'" using run p1 p2(1) p3 by (auto split: sum.splits)
    moreover have "gone s' k (ch_process c) (if wo_poll w (ch_process c) \<noteq> None \<or> wo_exits w (ch_process c) then Exited else Killed)"
      if "r = Inr ()" and c: "map_of (sv_children s) k = Some c" and k: "k \<notin> set ids" for k c
    proof -
      have runs: "r1 = Inr ()" "s' = s3" using run that(1) by (auto split: sum.splits)
      have in_s: "(k, c) \<in> set (sv_children s)" using c by (rule map_of_SomeD)
      then have p1': "if wo_poll w (ch_process c) = None then same_bot k ?s0 s1 else gone s1 k (ch_process c) Exited"
        using p1 runs(1) k by blast
      show ?thesis
      proof (cases "wo_poll w (ch_process c)")
        case None
        with p1' have "map_of (sv_children s1) k = Some c" using c by (simp add: same_bot_def)
        with p2(2) [OF k] have "(k, c) \<in> set (sv_children s2)" by (auto simp: same_bot_def dest: map_of_SomeD)
        with p3 k None runs show ?thesis by auto
      next
        case (Some code)
        with p1' same_bot_gone [OF p2(2) [OF k]] have "gone s2 k (ch_process c) Exited" by simp
        moreover from this have "k \<notin> fst ` set (sv_children s2)" by (simp add: gone_def map_of_eq_None_iff)
        ultimately show ?thesis using p3 Some runs same_bot_gone by auto
      qed
    qed
    ultimately show ?thesis using Inr by simp
  qed
  then show "processes_ok s'"
    and "r = Inr () \<Longrightarrow> wo_desired w = Inr ids \<Longrightarrow> map_of (sv_children s) k = Some c \<Longrightarrow> k \<notin> set ids \<Longrightarrow>
      gone s' k (ch_process c) (if wo_poll w (ch_process c) \<noteq> None \<or> wo_exits w (ch_process c) then Exited else Killed)"
    by blast+
qed

lemma run_passes_processes: "supervisor_ok s \<Longrightarrow> processes_ok s \<Longrightarrow> processes_ok (run_passes ws s)"
proof (induction ws arbitrary: s)
  case (Cons w ws)
  obtain s1 r where r: "reconcile_once w s = (s1, r)" by force
  have "supervisor_ok s1" using run_passes_ok [OF Cons.prems(1), of "[w]"] r by (simp add: run_passes_def)
  with Cons.IH [of s1] reconcile_processes(1) [OF Cons.prems r] r show ?case by (simp add: run_passes_def)
qed (simp add: run_passes_def)

lemma init_processes_ok: "processes_ok (init_supervisor cfg)"
  by (simp add: processes_ok_def running_processes_def child_process_def init_supervisor_def)

end
