(* ===== verification/Execution_Properties.thy ===== *)
theory Execution_Properties
  imports Bot Supervisor Samples
begin

text \<open>
  What the execution engine promises: the risk checks, the fills, the feed, what a bot stores and
  picks up again, and what the supervisor makes of the processes.
\<close>

section \<open>Risk\<close>

text \<open>The peak and the drawdown after the first updates.\<close>

definition peak_after :: "fl \<Rightarrow> fl list \<Rightarrow> fl" where
  "peak_after = foldl (\<lambda>p e. if p < e then e else p)"

definition trips :: "risk_limits \<Rightarrow> fl \<Rightarrow> fl list \<Rightarrow> nat \<Rightarrow> bool" where
  "trips l p es n \<longleftrightarrow> (let peak = peak_after p (take (Suc n) es) in
     rl_max_drawdown_pct l \<le> (peak - es ! n) / peak)"

lemma update_equity_run:
  assumes "0 < rk_peak_equity r"
  shows "update_equity e r = (r\<lparr>rk_peak_equity := new_peak r e\<rparr>,
    if rl_max_drawdown_pct (rk_limits r) \<le> (new_peak r e - e) / new_peak r e
    then Inl CircuitBreakerTripped else Inr ())"
proof -
  have "new_peak r e \<noteq> 0" using positive_peak_ge [OF assms, of e] by auto
  then show ?thesis
    using update_equity_state [of e r] update_equity_outcome [of e r]
    by (cases "update_equity e r") (simp add: py_div_def)
qed

text \<open>C6: The circuit breaker trips exactly when it should. Over any sequence of reported equities it
  raises at the first one whose distance from the highest equity so far, the starting capital
  included, reaches the limit as a fraction of that peak, and at no other; otherwise all updates
  return and the peak is the highest value seen. The peak survives the exception.\<close>

theorem circuit_breaker_exact:
  assumes "0 < rk_peak_equity r"
  shows "forS update_equity es r =
    (case filter (trips (rk_limits r) (rk_peak_equity r) es) [0..<length es] of
       [] \<Rightarrow> (r\<lparr>rk_peak_equity := peak_after (rk_peak_equity r) es\<rparr>, Inr ())
     | n # _ \<Rightarrow> (r\<lparr>rk_peak_equity := peak_after (rk_peak_equity r) (take (Suc n) es)\<rparr>, Inl CircuitBreakerTripped))"
  using assms
proof (induction es arbitrary: r)
  case Nil
  then show ?case by (simp add: peak_after_def)
next
  case (Cons e es)
  let ?p = "new_peak r e" and ?r = "r\<lparr>rk_peak_equity := new_peak r e\<rparr>"
  have shift: "trips l p (e # es) (Suc n) = trips l (if p < e then e else p) es n" for l p n
    by (simp add: trips_def peak_after_def)
  have zero: "trips (rk_limits r) (rk_peak_equity r) (e # es) 0 \<longleftrightarrow>
      rl_max_drawdown_pct (rk_limits r) \<le> (?p - e) / ?p"
    by (simp add: trips_def peak_after_def new_peak_def Let_def)
  have later: "filter (trips (rk_limits r) (rk_peak_equity r) (e # es)) (map Suc xs) =
      map Suc (filter (trips (rk_limits r) ?p es) xs)" for xs
    by (simp add: filter_map o_def shift new_peak_def)
  have list: "[0..<length (e # es)] = 0 # map Suc [0..<length es]"
    unfolding map_Suc_upt by (simp add: upt_conv_Cons del: upt_Suc)
  have step: "peak_after (rk_peak_equity r) (e # xs) = peak_after ?p xs" for xs
    by (simp add: peak_after_def new_peak_def)
  show ?case
  proof (cases "rl_max_drawdown_pct (rk_limits r) \<le> (?p - e) / ?p")
    case True
    then show ?thesis
      using update_equity_run [OF Cons.prems, of e] zero
      unfolding list by (simp add: st_simps step) (simp add: peak_after_def)
  next
    case False
    have "0 < rk_peak_equity ?r" using positive_peak_ge [OF Cons.prems] by simp
    note ih = Cons.IH [OF this]
    have "forS update_equity (e # es) r = forS update_equity es ?r"
      using update_equity_run [OF Cons.prems, of e] False by (simp add: st_simps)
    moreover have "filter (trips (rk_limits r) (rk_peak_equity r) (e # es)) [0..<length (e # es)] =
        map Suc (filter (trips (rk_limits r) ?p es) [0..<length es])"
      using zero False unfolding list by (simp add: later)
    ultimately show ?thesis
      using ih by (cases "filter (trips (rk_limits r) ?p es) [0..<length es]") (simp_all add: step)
  qed
qed

definition sample_limits :: risk_limits where
  "sample_limits = \<lparr>rl_max_drawdown_pct = Fin (1 / 4), rl_max_position_notional_pct = 1,
     rl_max_price_deviation_pct = Fin (1 / 8), rl_min_seconds_between_orders = 1\<rparr>"

definition sample_middleware :: risk_middleware where
  "sample_middleware = \<lparr>rk_limits = sample_limits, rk_peak_equity = Fin 800, rk_last_order_at = None\<rparr>"

theorem circuit_breaker_exact_witness:
  "forS update_equity [Fin 1000, Fin 800, Fin 750, Fin 900] sample_middleware =
     (sample_middleware\<lparr>rk_peak_equity := Fin 1000\<rparr>, Inl CircuitBreakerTripped)"
proof -
  let ?es = "[Fin 1000, Fin 800, Fin 750, Fin 900]"
  have t: "\<not> trips sample_limits (Fin 800) ?es 0" "\<not> trips sample_limits (Fin 800) ?es (Suc 0)"
      "trips sample_limits (Fin 800) ?es (Suc (Suc 0))"
    by (simp_all add: trips_def peak_after_def sample_limits_def Let_def) (simp_all add: fl_eval)
  have idx: "[0..<length ?es] = [0, Suc 0, Suc (Suc 0), Suc (Suc (Suc 0))]"
    by (simp add: upt_rec)
  have peak: "peak_after (Fin 800) [Fin 1000, Fin 800, Fin 750] = Fin 1000"
    by (simp add: peak_after_def)
  have "(0::fl) < rk_peak_equity sample_middleware" by (simp add: zero_fl_def sample_middleware_def)
  from circuit_breaker_exact [OF this, of ?es] show ?thesis
    unfolding idx using t peak by (simp add: sample_middleware_def)
qed

lemma nan_arith: "\<not> x < (NaN :: fl)" "NaN - y = (NaN :: fl)" "\<bar>NaN\<bar> = (NaN :: fl)" "NaN / y = (NaN :: fl)"
  by (cases x; cases y; simp add: minus_fl_def)+

text \<open>The order check accepts an order exactly when the quantity and the price are not at or below
  zero, the notional does not exceed the allowed share of the equity, the price is not further from a
  positive reference than the allowed deviation, and the last order is long enough ago; it then notes
  the time. Every comparison is false on NaN, so an order whose quantity and price are NaN passes.\<close>

theorem order_checks_exact:
  "(check_order q p e ref now r = (r', Inr ()) \<longleftrightarrow>
     \<not> q \<le> 0 \<and> \<not> p \<le> 0 \<and> \<not> e * rl_max_position_notional_pct (rk_limits r) < q * p \<and>
     (case ref of Some x \<Rightarrow> \<not> (0 < x \<and> rl_max_price_deviation_pct (rk_limits r) < \<bar>p - x\<bar> / x) | None \<Rightarrow> True) \<and>
     (case (now, rk_last_order_at r) of
        (Some t, Some l) \<Rightarrow> \<not> t - l < rl_min_seconds_between_orders (rk_limits r) | _ \<Rightarrow> True) \<and>
     r' = (case now of None \<Rightarrow> r | Some t \<Rightarrow> r\<lparr>rk_last_order_at := Some t\<rparr>)) \<and>
   check_order NaN NaN e ref None r = (r, Inr ())"
proof
  have nz: "x \<noteq> 0" if "0 < x" for x :: fl using that by auto
  show "check_order q p e ref now r = (r', Inr ()) \<longleftrightarrow>
     \<not> q \<le> 0 \<and> \<not> p \<le> 0 \<and> \<not> e * rl_max_position_notional_pct (rk_limits r) < q * p \<and>
     (case ref of Some x \<Rightarrow> \<not> (0 < x \<and> rl_max_price_deviation_pct (rk_limits r) < \<bar>p - x\<bar> / x) | None \<Rightarrow> True) \<and>
     (case (now, rk_last_order_at r) of
        (Some t, Some l) \<Rightarrow> \<not> t - l < rl_min_seconds_between_orders (rk_limits r) | _ \<Rightarrow> True) \<and>
     r' = (case now of None \<Rightarrow> r | Some t \<Rightarrow> r\<lparr>rk_last_order_at := Some t\<rparr>)"
    by (cases ref; cases now; cases "rk_last_order_at r")
      (auto simp: check_order_def st_simps py_div_def nz)
  show "check_order NaN NaN e ref None r = (r, Inr ())"
    by (cases ref) (auto simp: check_order_def st_simps py_div_def nz nan_arith)
qed

section \<open>Fills\<close>

text \<open>C16: A paper trade earns what the backtest computes for it. When a paper bot that holds nothing
  enters at a candle's close and is not rejected, and later closes, its equity goes through the values
  of the backtest's cost model: after the entry quantity times fill price, after the exit the
  backtest's equity, and the stored trade has the backtest's quantity, profit and fill prices.\<close>

theorem paper_trade_matches_backtest:
  assumes paper: "bm_broker b = PaperBroker (bm_costs b)" and ready: "ready (bm_id b) c"
    and cost: "cost_of_trade (bm_costs b) (bm_equity b) t = Inr r"
    and entry: "sg_close sg = tr_entry_price t" "execute_entry w sg (c, b) = ((c1, b1), Inr ())"
    and opened: "tk_position (bm_tracker b1) = Some p"
    and exit: "close_position_bot w' p (tr_exit_price t) reason time (c1, b1) = ((c2, b2), out)"
    and fresh: "new_id ''bottrade'' (ce_uuid w') \<notin> fst ` set (db_bot_trades (cn_work c1))"
  shows "bm_equity b1 = cr_quantity r * cr_entry_fill_price r \<and> bm_equity b2 = cr_equity_after r \<and>
    (\<exists>row. map_of (db_bot_trades (cn_committed c2)) (new_id ''bottrade'' (ce_uuid w')) = Some row \<and>
       bx_quantity row = cr_quantity r \<and> bx_entry_price row = cr_entry_fill_price r \<and>
       bx_exit_price row = cr_exit_fill_price r \<and> bx_net_pnl_pct row = cr_net_pnl_pct r \<and>
       bx_net_pnl_abs row = cr_net_pnl_abs r)"
  using entry(2) ready
proof (cases rule: execute_entry_cases)
  case (1 e t)
  with opened show ?thesis by simp
next
  case (2 f e tm)
  have f: "f = \<lparr>fi_price = cr_entry_fill_price r, fi_quantity = cr_quantity r, fi_order_id = None\<rparr>"
    using 2(1) paper_round_trip(1) [OF cost] by (simp add: paper entry(1))
  have b1: "bm_broker b1 = PaperBroker (bm_costs b)" "bm_costs b1 = bm_costs b" "bm_id b1 = bm_id b"
      "bm_current_quantity b1 = cr_quantity r" "bm_equity_at_entry b1 = bm_equity b"
      "bm_equity b1 = cr_quantity r * cr_entry_fill_price r"
    using 2(2) f paper by simp_all
  have p: "op_entry_price p = cr_entry_fill_price r" using opened 2(2) f by auto
  have r1: "ready (bm_id b1) c1" using ready_known [OF ready] by (simp add: b1 2(3))
  have cl: "close_long (bm_broker b1) (ce_sell w') (bm_current_quantity b1) (tr_exit_price t) =
      Inr \<lparr>fi_price = cr_exit_fill_price r, fi_quantity = cr_quantity r, fi_order_id = None\<rparr>"
    using paper_round_trip(2) [OF cost] by (simp add: b1)
  have e0: "bm_equity b \<noteq> 0" using cost by (simp add: cost_of_trade_Inr)
  from exit r1 show ?thesis
  proof (cases rule: close_cases)
    case (4 f' e')
    then show ?thesis
      using cl cost
      by (simp add: b1 p after_close_def closing_row_def Let_def cost_of_trade_Inr)
  qed (use cl e0 fresh b1 in simp_all)
qed

definition sample_record :: bot_record where
  "sample_record = \<lparr>bc_name = ''b'', bc_strategy_id = ''strat_1'', bc_exchange_id = ''binance'',
     bc_symbol = ''BTC/USDT'', bc_timeframe = ''1h'', bc_mode = ''paper'', bc_credential_id = None,
     bc_initial_capital = Fin 800, bc_fee_pct = 0, bc_slippage_pct = Fin (1 / 4),
     bc_max_drawdown_pct = Fin (1 / 4), bc_max_position_notional_pct = 1,
     bc_max_price_deviation_pct = Fin (1 / 8), bo_desired_status = ''running'', bo_status = ''running'',
     bo_status_message = None, bo_created_by = ''alice'', bo_created_at = 0, bo_updated_at = 0\<rparr>"

definition sample_database :: database where
  "sample_database = empty_database\<lparr>db_bots := [(''bot_1'', sample_record)]\<rparr>"

definition sample_costs :: trading_costs where
  "sample_costs = \<lparr>tc_fee_pct = 0, tc_slippage_pct = Fin (1 / 4)\<rparr>"

definition sample_client :: exchange_client where
  "sample_client = \<lparr>xc_exchange_id = ''binance'', xc_enable_rate_limit = True, xc_api_key = None,
     xc_secret = None, xc_password = None\<rparr>"

definition sample_bot :: bot where
  "sample_bot = \<lparr>bm_id = ''bot_1'', bm_record = sample_record, bm_definition = sample_strategy,
     bm_broker = PaperBroker sample_costs, bm_costs = sample_costs,
     bm_tracker = \<lparr>tk_risk_management = sample_risk, tk_position = Some
       \<lparr>op_entry_time = 2, op_entry_price = Fin 64, op_highest_since_entry = Fin 64\<rparr>\<rparr>,
     bm_equity = Fin 800, bm_equity_at_entry = Fin 800, bm_current_quantity = 0, bm_entry_order_id = None,
     bm_risk = sample_middleware, bm_exchange = sample_client\<rparr>"

definition sample_env :: candle_env where
  "sample_env = \<lparr>ce_buy = (\<lambda>q. Inl (LibraryError ''no exchange'')), ce_sell = (\<lambda>q. Inl (LibraryError ''no exchange'')),
     ce_monotonic = 0, ce_now = 7, ce_uuid = ''0f''\<rparr>"

definition sample_snapshot :: snapshot where
  "sample_snapshot = \<lparr>sg_timestamp = 2, sg_open = Fin 64, sg_high = Fin 64, sg_low = Fin 64, sg_close = Fin 64,
     sg_entry_signal = True, sg_exit_signal = False\<rparr>"

lemma sample_ready: "ready ''bot_1'' (fresh_connection sample_database)"
  by (simp add: ready_def fresh_connection_def sample_database_def empty_database_def)

lemma sample_entry:
  "\<exists>e. execute_entry sample_env sample_snapshot (fresh_connection sample_database, sample_bot) =
     ((committed (add_event e) (fresh_connection sample_database),
       book_entry \<lparr>fi_price = Fin 80, fi_quantity = Fin 10, fi_order_id = None\<rparr>
         (sample_bot\<lparr>bm_risk := sample_middleware\<lparr>rk_last_order_at := Some 0\<rparr>\<rparr>)), Inr ())"
proof -
  have q: "py_div (Fin 800 * (1 - 0)) (Fin 64) = Inr (Fin (25 / 2))" by (simp add: fl_eval)
  have o: "check_order (Fin (25 / 2)) (Fin 64) (Fin 800) (Some (Fin 64)) (Some 0) sample_middleware =
      (sample_middleware\<lparr>rk_last_order_at := Some 0\<rparr>, Inr ())"
    by (simp add: order_checks_exact [THEN conjunct1] sample_middleware_def sample_limits_def fl_eval)
  have f: "open_long (PaperBroker sample_costs) r (Fin 800) 0 (Fin 64) =
      Inr \<lparr>fi_price = Fin 80, fi_quantity = Fin 10, fi_order_id = None\<rparr>" for r
    by (simp add: broker_defs sample_costs_def entry_fill_price_def Let_def fl_eval)
  let ?b = "book_entry \<lparr>fi_price = Fin 80, fi_quantity = Fin 10, fi_order_id = None\<rparr>
      (sample_bot\<lparr>bm_risk := sample_middleware\<lparr>rk_last_order_at := Some 0\<rparr>\<rparr>)"
  have id: "bm_id sample_bot = ''bot_1''" by (simp add: sample_bot_def)
  have ev: "event now ''entry'' m d (fresh_connection sample_database, ?b) = ((committed (add_event
      \<lparr>be_bot_id = ''bot_1'', be_event_type = ''entry'', be_message = m, be_data = map_option json_safe d,
       be_created_at = now\<rparr>) (fresh_connection sample_database), ?b), Inr ())" for now m d
    using run_event [of ?b "fresh_connection sample_database" "''entry''"] sample_ready
    by (simp add: id event_types_def)
  have b: "bm_equity sample_bot = Fin 800" "bm_costs sample_bot = sample_costs" "tc_fee_pct sample_costs = 0"
      "bm_risk sample_bot = sample_middleware" "bm_broker sample_bot = PaperBroker sample_costs"
      "sg_close sample_snapshot = Fin 64" "ce_monotonic sample_env = 0"
    by (simp_all add: sample_bot_def sample_costs_def sample_snapshot_def sample_env_def)
  show ?thesis
    by (simp add: execute_entry_def st_simps b q o f ev del: json_safe.simps) (rule exI, rule refl)
qed

theorem paper_trade_matches_backtest_witness:
  "\<exists>c1 b1 p c2 b2 out. execute_entry sample_env sample_snapshot (fresh_connection sample_database, sample_bot) =
     ((c1, b1), Inr ()) \<and> close_position_bot sample_env p (Fin 128) ''exit_signal'' 3 (c1, b1) = ((c2, b2), out) \<and>
     bm_equity b2 = Fin 960"
proof -
  let ?c = "fresh_connection sample_database"
  let ?t = "\<lparr>tr_entry_time = 2, tr_entry_price = Fin 64, tr_exit_time = 3, tr_exit_price = Fin 128,
      tr_exit_reason = ExitSignal, tr_pnl_pct = 1\<rparr>"
  obtain r where r: "cost_of_trade sample_costs (Fin 800) ?t = Inr r" "cr_equity_after r = Fin 960"
    by (simp add: cost_of_trade_def sample_costs_def entry_fill_price_def exit_fill_price_def Let_def fl_eval)
  from sample_entry obtain e where entry: "execute_entry sample_env sample_snapshot (?c, sample_bot) =
     ((committed (add_event e) ?c,
       book_entry \<lparr>fi_price = Fin 80, fi_quantity = Fin 10, fi_order_id = None\<rparr>
         (sample_bot\<lparr>bm_risk := sample_middleware\<lparr>rk_last_order_at := Some 0\<rparr>\<rparr>)), Inr ())" ..
  let ?c1 = "committed (add_event e) ?c"
  let ?b1 = "book_entry \<lparr>fi_price = Fin 80, fi_quantity = Fin 10, fi_order_id = None\<rparr>
         (sample_bot\<lparr>bm_risk := sample_middleware\<lparr>rk_last_order_at := Some 0\<rparr>\<rparr>)"
  let ?p = "\<lparr>op_entry_time = 2, op_entry_price = Fin 80, op_highest_since_entry = Fin 80\<rparr>"
  have p: "tk_position (bm_tracker ?b1) = Some ?p" by (simp add: sample_bot_def)
  obtain c2 b2 out where exit: "close_position_bot sample_env ?p (Fin 128) ''exit_signal'' 3 (?c1, ?b1) = ((c2, b2), out)"
    by (metis surj_pair)
  have eq: "bm_equity b2 = cr_equity_after r"
    using paper_trade_matches_backtest [of sample_bot ?c ?t r sample_snapshot sample_env ?c1 ?b1 ?p
        sample_env "''exit_signal''" 3 c2 b2 out] r(1) entry p exit sample_ready
    by (simp add: sample_bot_def sample_snapshot_def fresh_connection_def sample_database_def empty_database_def)
  show ?thesis
    by (rule exI [of _ ?c1], rule exI [of _ ?b1], rule exI [of _ ?p], rule exI [of _ c2], rule exI [of _ b2],
        rule exI [of _ out], intro conjI, rule entry, rule exit, simp add: eq r(2))
qed

section \<open>The feed\<close>

text \<open>C19: Each candle is handed over at most once and in order. Whatever messages and pages the feed reads,
  and whatever the callback does, also when it raises, the candles it was called with have strictly
  increasing times, all later than the seed history, the last of them is the last of the history the
  feed keeps, and that history stays sorted and within its limit.\<close>

theorem candles_delivered_in_order:
  assumes "feed_ok f" and "feed_run (recording cb) seconds tf rounds (f, s, []) = Some ((f', s', seen), r)"
  shows "sorted_wrt (<) (map bar_time (last (fd_history f) # seen)) \<and>
    last (fd_history f') = last (last (fd_history f) # seen) \<and> feed_ok f'"
proof -
  have "delivered_ok (last (fd_history f)) (f, s, [])" using assms(1) by (simp add: delivered_ok_def)
  from feed_run_delivers [OF assms(2) this] show ?thesis by (simp add: delivered_ok_def)
qed

definition sample_seed :: feed where
  "sample_seed = \<lparr>fd_history = [\<lparr>bar_time = 0, bar_open = 1, bar_high = 1, bar_low = 1, bar_close = 1, bar_volume = 1\<rparr>],
     fd_max_history = 2\<rparr>"

definition sample_candle :: "int \<Rightarrow> raw_candle" where
  "sample_candle ms = \<lparr>rc_ts = ms, rc_open = 1, rc_high = 1, rc_low = 1, rc_close = 1, rc_volume = 1\<rparr>"

lemma sample_seed_ok: "feed_ok sample_seed"
  by (simp add: feed_ok_def sample_seed_def)

theorem candles_delivered_in_order_witness:
  "\<exists>f' s' seen r. feed_run (recording (\<lambda>_. returnS ())) (\<lambda>_. 0) 60000
      [WebsocketMessage [sample_candle 60000, sample_candle 120000] 180000] (sample_seed, (), []) = Some ((f', s', seen), r) \<and>
    sorted_wrt (<) (map bar_time (last (fd_history sample_seed) # seen)) \<and> feed_ok f'"
proof -
  obtain f' s' seen r where run: "feed_run (recording (\<lambda>_. returnS ())) (\<lambda>_. 0) 60000
      [WebsocketMessage [sample_candle 60000, sample_candle 120000] 180000] (sample_seed, (), []) = Some ((f', s', seen), r)"
    using feed_run_returns [of "[WebsocketMessage [sample_candle 60000, sample_candle 120000] 180000]"
        "recording (\<lambda>_. returnS ())" "\<lambda>_. 0" 60000 "(sample_seed, (), [])"]
    by (auto simp: bounded_round_def)
  from candles_delivered_in_order [OF sample_seed_ok run] run show ?thesis by blast
qed

text \<open>No closed candle is lost. When a message brings candles in order of time and the callback does
  not raise, it is called for exactly those that have closed and are newer than the history, however
  many of them there are.\<close>

theorem fresh_candles_all_delivered:
  assumes "feed_ok f" and "sorted_wrt (<) (map rc_ts cs)" and "\<And>h s. snd (cb h s) = Inr ()"
  shows "\<exists>f' s'. feed_run (recording cb) seconds tf [WebsocketMessage cs now] (f, s, []) =
    Some ((f', s', map bar_of (filter (\<lambda>c. is_closed_candle c tf now \<and>
      bar_time (last (fd_history f)) < bar_time (bar_of c)) cs)), Inr ())"
proof -
  from websocket_delivers_all [OF assms(2,1), of cb tf now s "[]"] assms(3)
  obtain f' s' where "websocket_round (recording cb) tf cs now (f, s, []) = ((f', s', fresh_bars f tf now cs), Inr ())"
    by auto
  then show ?thesis by (simp add: feed_step_def fresh_bars_def)
qed

theorem fresh_candles_all_delivered_witness:
  "\<exists>f' s'. feed_run (recording (\<lambda>_. returnS ())) (\<lambda>_. 0) 60000
      [WebsocketMessage [sample_candle 0, sample_candle 60000, sample_candle 120000] 150000] (sample_seed, (), []) =
    Some ((f', s', [bar_of (sample_candle 60000)]), Inr ())"
proof -
  have sorted: "sorted_wrt (<) (map rc_ts [sample_candle 0, sample_candle 60000, sample_candle 120000])"
    by (simp add: sample_candle_def)
  have closed: "filter (\<lambda>c. is_closed_candle c 60000 150000 \<and> bar_time (last (fd_history sample_seed)) < bar_time (bar_of c))
      [sample_candle 0, sample_candle 60000, sample_candle 120000] = [sample_candle 60000]"
    by (simp add: is_closed_candle_def sample_candle_def sample_seed_def bar_of_def)
  from fresh_candles_all_delivered [OF sample_seed_ok sorted, of "\<lambda>_. returnS ()" "\<lambda>_. 0" 60000 150000 "()"] closed
  show ?thesis by simp
qed

section \<open>The hard stop\<close>

text \<open>C17: The hard stop decides before the tracker, at the candle's close. When a candle closes at or below
  the stop of an open position, the bot sells at that close and books the reason \<open>hard_stop_loss\<close>; the
  tracker, which follows the backtest, would have sold at the stop level, which is not below the close,
  for the reason \<open>stop_loss\<close>. It is consulted for closed candles only.\<close>

theorem hard_stop_overrides_tracker:
  assumes signal: "latest_signal L (bm_definition b) (history_frame history) = Inr sg"
    and position: "tk_position (bm_tracker b) = Some p"
    and risk: "tk_risk_management (bm_tracker b) = sd_risk_management (bm_definition b)"
    and below: "hard_stop sg b = Inr True" and candle: "sg_low sg \<le> sg_close sg"
  shows "on_candle_close L env history (c, b) = close_at_hard_stop (env history) history sg p (c, b) \<and>
    (\<exists>stop t. process (bm_tracker b) sg = Inr (t, Some (Exit stop StopLoss)) \<and> sg_close sg \<le> stop)"
proof -
  have "on_candle_close L env history (c, b) = close_at_hard_stop (env history) history sg p (c, b)"
    by (simp add: on_candle_close_def st_simps Let_def signal position below)
  moreover from below position obtain stop where
      stop: "mult_num (op_entry_price p) (one_minus (rm_stop_loss_pct (sd_risk_management (bm_definition b)))) = Inr stop"
      and le: "sg_close sg \<le> stop"
    by (auto simp: hard_stop_def check_hard_stop_loss_def map_res_eq_Inr)
  have "sg_low sg \<le> stop" using candle le by (rule fl_le_trans)
  then have "\<exists>t. process (bm_tracker b) sg = Inr (t, Some (Exit stop StopLoss))"
    using stop by (simp add: process_def position risk Let_def close_position_def)
  ultimately show ?thesis using le by blast
qed

definition sample_history :: "bar list" where
  "sample_history = [\<lparr>bar_time = 9, bar_open = Fin 58, bar_high = Fin 60, bar_low = Fin 52, bar_close = Fin 56,
     bar_volume = Fin 1\<rparr>]"

definition falling_snapshot :: snapshot where
  "falling_snapshot = \<lparr>sg_timestamp = 9, sg_open = Fin 58, sg_high = Fin 60, sg_low = Fin 52, sg_close = Fin 56,
     sg_entry_signal = False, sg_exit_signal = False\<rparr>"

lemma one_bar_signal:
  assumes "\<not> Fin 99 < bar_close x" and "\<not> bar_close x < Fin 10"
  shows "latest_signal sample_lib sample_strategy (history_frame [x]) = Inr
    \<lparr>sg_timestamp = bar_time x, sg_open = bar_open x, sg_high = bar_high x, sg_low = bar_low x, sg_close = bar_close x,
     sg_entry_signal = False, sg_exit_signal = False\<rparr>"
proof -
  let ?d = "set_column (history_frame [x]) (''fast'', [bar_close x])"
  have c: "compute_indicators sample_lib (history_frame [x]) (sd_indicators sample_strategy) = Inr ?d"
    by (simp add: compute_indicators_def add_indicator_def sample_strategy_def find_handler_def
        indicator_registry_def resolved_params_def resolve_param_def ema_compute_def get_param_def
        py_int_def get_column_def history_frame_def sample_lib_def)
  have s: "evaluate_condition sample_lib (sd_entry_conditions sample_strategy) ?d = Inr [False]"
      "exit_series sample_lib (sd_exit_conditions sample_strategy) ?d = Inr [False]"
    using assms by (simp_all add: sample_strategy_def resolve_operand_def get_column_def
      history_frame_def sample_constants const_series_def apply_op_def exit_series_def)
  have r: "rows_at [t] t = [0]" for t by (simp add: rows_at_def)
  show ?thesis
    by (simp add: latest_signal_def c s Let_def)
      (simp add: history_frame_def r read_cell_def get_column_def loc_bool_def)
qed

lemma sample_signal: "latest_signal sample_lib sample_strategy (history_frame sample_history) = Inr falling_snapshot"
  unfolding sample_history_def by (subst one_bar_signal) (simp_all add: falling_snapshot_def)

definition open_sample_bot :: bot where
  "open_sample_bot = sample_bot\<lparr>bm_current_quantity := Fin 10,
     bm_risk := sample_middleware\<lparr>rk_peak_equity := Fin 840\<rparr>\<rparr>"

theorem hard_stop_overrides_tracker_witness:
  "on_candle_close sample_lib (\<lambda>_. sample_env) sample_history (fresh_connection sample_database, open_sample_bot) =
     close_at_hard_stop sample_env sample_history falling_snapshot
       \<lparr>op_entry_time = 2, op_entry_price = Fin 64, op_highest_since_entry = Fin 64\<rparr>
       (fresh_connection sample_database, open_sample_bot)"
proof -
  have b: "bm_definition open_sample_bot = sample_strategy"
      "tk_position (bm_tracker open_sample_bot) = Some \<lparr>op_entry_time = 2, op_entry_price = Fin 64, op_highest_since_entry = Fin 64\<rparr>"
      "tk_risk_management (bm_tracker open_sample_bot) = sd_risk_management sample_strategy"
    by (simp_all add: open_sample_bot_def sample_bot_def sample_strategy_def)
  have m: "mult_num (Fin 64) (one_minus (FloatN (Fin (1 / 16)))) = Inr (Fin 60)" by (simp add: fl_eval)
  have h: "hard_stop falling_snapshot open_sample_bot = Inr True"
    using m by (simp add: hard_stop_def b check_hard_stop_loss_def sample_strategy_def sample_risk_def falling_snapshot_def
        del: one_minus_float mult_num_float)
  have s: "latest_signal sample_lib (bm_definition open_sample_bot) (history_frame sample_history) = Inr falling_snapshot"
    using sample_signal by (simp add: b)
  have "sg_low falling_snapshot \<le> sg_close falling_snapshot" by (simp add: falling_snapshot_def)
  from hard_stop_overrides_tracker [OF s b(2) _ h this, of "\<lambda>_. sample_env"] b(3) show ?thesis by (simp add: b(1))
qed

section \<open>What a restart remembers\<close>

definition same_setup :: "bot \<Rightarrow> bot \<Rightarrow> bool" where
  "same_setup b0 b \<longleftrightarrow> bm_id b0 = bm_id b \<and> bm_record b0 = bm_record b \<and> bm_definition b0 = bm_definition b \<and>
     bm_broker b0 = bm_broker b \<and> bm_exchange b0 = bm_exchange b \<and> bm_costs b0 = bm_costs b \<and>
     tk_risk_management (bm_tracker b0) = tk_risk_management (bm_tracker b) \<and>
     rk_limits (bm_risk b0) = rk_limits (bm_risk b)"

definition holds_nothing :: "bot \<Rightarrow> bool" where
  "holds_nothing b \<longleftrightarrow> tk_position (bm_tracker b) = None \<and> bm_current_quantity b = 0 \<and> bm_entry_order_id b = None"

definition finite_position :: "bot \<Rightarrow> bool" where
  "finite_position b \<longleftrightarrow> (case tk_position (bm_tracker b) of None \<Rightarrow> holds_nothing b
     | Some p \<Rightarrow> is_finite (op_entry_price p) \<and> is_finite (op_highest_since_entry p) \<and>
         is_finite (bm_current_quantity b) \<and> is_finite (bm_equity_at_entry b))"

lemma resume_saved_row:
  assumes "finite_position b" and "same_setup b0 b" and "holds_nothing b0"
  shows "resume_from_state (saved_row now history b) b0 =
    Inr (b\<lparr>bm_risk := (bm_risk b)\<lparr>rk_last_order_at := rk_last_order_at (bm_risk b0)\<rparr>,
      bm_equity_at_entry := (if tk_position (bm_tracker b) = None then bm_equity_at_entry b0 else bm_equity_at_entry b)\<rparr>)"
proof (cases "tk_position (bm_tracker b)")
  case None
  then show ?thesis
    using assms
    by (cases b, cases b0, cases "bm_tracker b", cases "bm_tracker b0", cases "bm_risk b", cases "bm_risk b0")
      (simp add: resume_from_state_def saved_row_def position_json_def finite_position_def
        holds_nothing_def same_setup_def)
next
  case (Some p)
  then show ?thesis
    using assms
    by (cases b, cases b0, cases "bm_tracker b", cases "bm_tracker b0", cases "bm_risk b", cases "bm_risk b0", cases p)
      (simp add: resume_from_state_def saved_row_def position_json_def finite_position_def
        holds_nothing_def same_setup_def json_get_def as_time_def as_float_def set_position_def
        split: option.splits)
qed

text \<open>C18: A restart picks up where the bot was. After the state is saved, reading it back for the bot's
  owner and resuming it in a bot assembled afresh from the same configuration gives the same bot:
  equity, peak, open position with its highest price, quantity, capital at entry and order id. Only
  the time of the last order and, when nothing is open, the capital of the last entry are new. It holds
  when the numbers of an open position are finite, as others cannot be stored in \<^verbatim>\<open>jsonb\<close>.\<close>

theorem resume_restores_the_bot:
  assumes "ready (bm_id b) c" and "map_of (db_bots (cn_work c)) (bm_id b) = Some rec"
    and "finite_position b" and "same_setup b0 b" and "holds_nothing b0"
  shows "\<exists>c1 c2 s. save_state now history (c, b) = ((c1, b), Inr ()) \<and>
    get_state (bm_id b) (bo_created_by rec) c1 = (c2, Inr (Some s)) \<and>
    resume_from_state s b0 =
      Inr (b\<lparr>bm_risk := (bm_risk b)\<lparr>rk_last_order_at := rk_last_order_at (bm_risk b0)\<rparr>,
        bm_equity_at_entry := (if tk_position (bm_tracker b) = None then bm_equity_at_entry b0
          else bm_equity_at_entry b)\<rparr>)"
proof -
  let ?c1 = "committed (set_state (bm_id b) (saved_row now history b)) c"
  have "get_state (bm_id b) (bo_created_by rec) ?c1 =
      (?c1\<lparr>cn_status := InTx\<rparr>, Inr (Some (saved_row now history b)))"
    using assms(2) by (simp add: get_state_def run_query find_owned_def)
  with run_save_state [OF assms(1), of now history] resume_saved_row [OF assms(3-5), of now history]
  show ?thesis by blast
qed

theorem resume_restores_the_bot_witness:
  "\<exists>c1 c2 s. save_state 7 sample_history (fresh_connection sample_database, open_sample_bot) = ((c1, open_sample_bot), Inr ()) \<and>
    get_state ''bot_1'' ''alice'' c1 = (c2, Inr (Some s)) \<and>
    map_res bm_current_quantity (resume_from_state s (set_position None sample_bot)) = Inr (Fin 10)"
proof -
  let ?c = "fresh_connection sample_database"
  have id: "bm_id open_sample_bot = ''bot_1''" by (simp add: open_sample_bot_def sample_bot_def)
  have r: "ready (bm_id open_sample_bot) ?c" unfolding id by (rule sample_ready)
  have o: "map_of (db_bots (cn_work ?c)) (bm_id open_sample_bot) = Some sample_record"
    by (simp add: id fresh_connection_def sample_database_def)
  have f: "finite_position open_sample_bot"
    by (simp add: finite_position_def open_sample_bot_def sample_bot_def is_finite_def)
  have s: "same_setup (set_position None sample_bot) open_sample_bot" "holds_nothing (set_position None sample_bot)"
    by (simp_all add: same_setup_def holds_nothing_def open_sample_bot_def sample_bot_def set_position_def)
  have q: "bo_created_by sample_record = ''alice''" "bm_current_quantity open_sample_bot = Fin 10"
    by (simp_all add: sample_record_def open_sample_bot_def)
  from resume_restores_the_bot [OF r o f s, of 7 sample_history] show ?thesis by (auto simp: id q)
qed

section \<open>How runs end\<close>

lemma close_at_hard_stop_trip:
  assumes "close_at_hard_stop w history sg p (c, b) = ((c', b'), Inl CircuitBreakerTripped)" and "ready (bm_id b) c"
  shows "\<exists>x reason t c0. close_position_bot w p x reason t (c0, b) = ((c', b'), Inl CircuitBreakerTripped) \<and>
    ready (bm_id b) c0 \<and> db_bot_state (cn_work c0) = db_bot_state (cn_work c) \<and> db_bots (cn_work c0) = db_bots (cn_work c)"
proof -
  let ?d = "Some (VDict [(''entry_price'', VFloat (op_entry_price p)), (''trigger_price'', VFloat (sg_close sg))])"
  let ?m = "''Independent hard stop-loss triggered''"
  let ?c0 = "committed (add_event \<lparr>be_bot_id = bm_id b, be_event_type = ''hard_stop_loss'', be_message = ?m,
      be_data = map_option json_safe ?d, be_created_at = ce_now w\<rparr>) c"
  have ev: "event (ce_now w) ''hard_stop_loss'' ?m ?d (c, b) = ((?c0, b), Inr ())"
    using assms(2) by (intro run_event) (simp_all add: event_types_def)
  have "seqS (close_position_bot w p (sg_close sg) ''hard_stop_loss'' (sg_timestamp sg))
      (seqS (botS (set_position None)) (save_state (ce_now w) history)) (?c0, b) = ((c', b'), Inl CircuitBreakerTripped)"
    using assms(1) by (simp add: close_at_hard_stop_def run_seqS [where m = "event w' ty m d" for w' ty m d] ev)
  then have "close_position_bot w p (sg_close sg) ''hard_stop_loss'' (sg_timestamp sg) (?c0, b) =
      ((c', b'), Inl CircuitBreakerTripped)"
    by (rule seqS_raised_first) (intro avoid)
  moreover have "ready (bm_id b) ?c0" using ready_known [OF assms(2)] by simp
  ultimately show ?thesis
    by (intro exI [of _ "sg_close sg"] exI [of _ "''hard_stop_loss''"] exI [of _ "sg_timestamp sg"] exI [of _ ?c0])
      (simp del: json_safe.simps)
qed

lemma follow_tracker_trip:
  assumes "follow_tracker w history sg (c, b) = ((c', b'), Inl CircuitBreakerTripped)"
    and "\<And>q. ce_buy w q \<noteq> Inl CircuitBreakerTripped"
  shows "\<exists>p x reason t b0. close_position_bot w p x reason t (c, b0) = ((c', b'), Inl CircuitBreakerTripped) \<and>
    bm_id b0 = bm_id b \<and> bm_current_quantity b0 = bm_current_quantity b"
proof (cases "process (bm_tracker b) sg")
  case (Inl e)
  with process_errors [OF this] assms(1) show ?thesis by (simp add: follow_tracker_def st_simps Let_def)
next
  case (Inr ta)
  obtain t action where ta: "ta = (t, action)" by force
  let ?b = "b\<lparr>bm_tracker := t\<rparr>"
  show ?thesis
  proof (cases action)
    case None
    with assms(1) Inr ta have "dbS (heartbeat (ce_now w) (bm_id b)) (c, ?b) = ((c', b'), Inl CircuitBreakerTripped)"
      by (simp add: follow_tracker_def run_bindS run_seqS run_botS Let_def)
    moreover have "avoids CircuitBreakerTripped (dbS (heartbeat (ce_now w) (bm_id b)))" by (intro avoid)
    ultimately have "Inl CircuitBreakerTripped \<noteq> (Inl CircuitBreakerTripped :: pyerr + unit)"
      by (rule avoidsD [rotated])
    then show ?thesis by simp
  next
    case (Some a)
    show ?thesis
    proof (cases a)
      case (Enter x)
      with assms(1) Inr ta Some have "seqS (execute_entry w sg) (save_state (ce_now w) history) (c, ?b) =
          ((c', b'), Inl CircuitBreakerTripped)"
        by (simp add: follow_tracker_def run_bindS run_seqS run_botS Let_def)
      moreover have "avoids CircuitBreakerTripped (seqS (execute_entry w sg) (save_state (ce_now w) history))"
        by (intro avoid execute_entry_avoids assms(2))
      ultimately have "Inl CircuitBreakerTripped \<noteq> (Inl CircuitBreakerTripped :: pyerr + unit)"
      by (rule avoidsD [rotated])
    then show ?thesis by simp
    next
      case (Exit x reason)
      show ?thesis
      proof (cases "tk_position (bm_tracker b)")
        case None
        with assms(1) Inr ta Some Exit show ?thesis
          by (simp add: follow_tracker_def run_bindS run_seqS run_botS Let_def)
      next
        case pos: (Some p)
        with assms(1) Inr ta Some Exit have "seqS (close_position_bot w p x (reason_name reason) (sg_timestamp sg))
            (save_state (ce_now w) history) (c, ?b) = ((c', b'), Inl CircuitBreakerTripped)"
          by (simp add: follow_tracker_def run_bindS run_seqS run_botS Let_def)
        then have "close_position_bot w p x (reason_name reason) (sg_timestamp sg) (c, ?b) =
            ((c', b'), Inl CircuitBreakerTripped)"
          by (rule seqS_raised_first) (rule save_avoids)
        then show ?thesis
          by (intro exI [of _ p] exI [of _ x] exI [of _ "reason_name reason"] exI [of _ "sg_timestamp sg"] exI [of _ ?b]) simp
      qed
    qed
  qed
qed

lemma finish_tripped:
  assumes "ready (bm_id b) c"
  shows "\<exists>c''. finish_run now (Inl CircuitBreakerTripped) (c, b) = ((c'', b), Inr ()) \<and>
    db_bot_state (cn_committed c'') = db_bot_state (cn_work c) \<and>
    map_of (db_bots (cn_committed c'')) (bm_id b) = map_option (\<lambda>r. r\<lparr>bo_status := ''circuit_broken'',
      bo_status_message := Some CircuitBreakerTripped, bo_updated_at := now\<rparr>) (map_of (db_bots (cn_work c)) (bm_id b))"
proof -
  let ?c1 = "committed (set_bot (bm_id b) (\<lambda>r. r\<lparr>bo_status := ''circuit_broken'',
      bo_status_message := Some CircuitBreakerTripped, bo_updated_at := now\<rparr>)) c"
  have s: "update_status now (bm_id b) ''circuit_broken'' (Some CircuitBreakerTripped) c = (?c1, Inr ())"
    using assms by (intro run_update_status) (simp_all add: bot_statuses_def)
  have "ready (bm_id b) ?c1" using ready_known [OF assms] by simp
  from run_event [OF this, of "''circuit_breaker''" now "''circuit breaker''" None] show ?thesis
    by (simp add: finish_run_def st_simps s event_types_def)
qed

text \<open>A tripped breaker leaves the sold position in the database. When the loss of a trade trips the
  circuit breaker, the trade is recorded and the bot holds nothing, but its stored state is still the
  one saved before: the save after the close is skipped by the exception. The run then ends normally,
  with status \<open>circuit_broken\<close> and exit code 0, and \<open>desired_status\<close> is left as it was. The library is
  assumed not to raise the bot's own exception.\<close>

theorem breaker_leaves_the_sold_position:
  assumes trip: "on_candle_close L env history (c, b) = ((c', b'), Inl CircuitBreakerTripped)"
    and ready: "ready (bm_id b) c"
    and lib: "latest_signal L (bm_definition b) (history_frame history) \<noteq> Inl CircuitBreakerTripped"
    and orders: "\<And>q. ce_sell (env history) q \<noteq> Inl CircuitBreakerTripped"
      "\<And>q. ce_buy (env history) q \<noteq> Inl CircuitBreakerTripped"
  shows "db_bot_state (cn_committed c') = db_bot_state (cn_work c) \<and> bm_current_quantity b' = 0 \<and>
    (\<exists>k row. map_of (db_bot_trades (cn_committed c')) k = Some row \<and> bx_bot_id row = bm_id b \<and>
       bx_quantity row = bm_current_quantity b) \<and>
    (\<exists>c''. finish_run ended (Inl CircuitBreakerTripped) (c', b') = ((c'', b'), Inr ()) \<and>
       db_bot_state (cn_committed c'') = db_bot_state (cn_work c) \<and>
       map_option bo_status (map_of (db_bots (cn_committed c'')) (bm_id b)) = Some ''circuit_broken'' \<and>
       map_option bo_desired_status (map_of (db_bots (cn_committed c'')) (bm_id b)) =
         map_option bo_desired_status (map_of (db_bots (cn_work c)) (bm_id b)))"
proof -
  let ?w = "env history"
  from trip lib obtain sg where sg: "latest_signal L (bm_definition b) (history_frame history) = Inr sg"
    by (cases "latest_signal L (bm_definition b) (history_frame history)")
      (auto simp: on_candle_close_def st_simps Let_def)
  from trip sg obtain hit where hit: "hard_stop sg b = Inr hit"
    by (cases "hard_stop sg b") (auto simp: on_candle_close_def st_simps Let_def dest: hard_stop_errors)
  have "\<exists>p x reason t c0 b0. close_position_bot ?w p x reason t (c0, b0) = ((c', b'), Inl CircuitBreakerTripped) \<and>
      ready (bm_id b0) c0 \<and> db_bot_state (cn_work c0) = db_bot_state (cn_work c) \<and> db_bots (cn_work c0) = db_bots (cn_work c) \<and>
      bm_id b0 = bm_id b \<and> bm_current_quantity b0 = bm_current_quantity b"
  proof (cases "tk_position (bm_tracker b) \<noteq> None \<and> hit")
    case True
    then obtain p where p: "tk_position (bm_tracker b) = Some p" by auto
    from trip sg hit True p have "close_at_hard_stop ?w history sg p (c, b) = ((c', b'), Inl CircuitBreakerTripped)"
      by (simp add: on_candle_close_def st_simps Let_def)
    from close_at_hard_stop_trip [OF this ready] show ?thesis by blast
  next
    case False
    with trip sg hit have "follow_tracker ?w history sg (c, b) = ((c', b'), Inl CircuitBreakerTripped)"
      by (auto simp: on_candle_close_def st_simps Let_def split: option.splits)
    from follow_tracker_trip [OF this orders(2)] obtain p x reason t b0 where
        "close_position_bot ?w p x reason t (c, b0) = ((c', b'), Inl CircuitBreakerTripped)" "bm_id b0 = bm_id b"
        "bm_current_quantity b0 = bm_current_quantity b"
      by blast
    with ready show ?thesis
      by (intro exI [of _ p] exI [of _ x] exI [of _ reason] exI [of _ t] exI [of _ c] exI [of _ b0]) simp
  qed
  then obtain p x reason t c0 b0 where
      close: "close_position_bot ?w p x reason t (c0, b0) = ((c', b'), Inl CircuitBreakerTripped)"
      and r0: "ready (bm_id b0) c0" and same: "db_bot_state (cn_work c0) = db_bot_state (cn_work c)"
        "db_bots (cn_work c0) = db_bots (cn_work c)" "bm_id b0 = bm_id b" "bm_current_quantity b0 = bm_current_quantity b"
    by blast
  from close_trip [OF close r0 orders(1)] obtain f where f:
      "db_bot_state (cn_committed c') = db_bot_state (cn_work c0)" "db_bots (cn_work c') = db_bots (cn_work c0)"
      "cn_status c' = Idle" "cn_committed c' = cn_work c'"
      "db_bot_trades (cn_committed c') = put (new_id ''bottrade'' (ce_uuid ?w)) (closing_row b0 p reason t f) (db_bot_trades (cn_work c0))"
      "b' = after_close f b0"
    by blast
  have b': "bm_id b' = bm_id b" "bm_current_quantity b' = 0" by (simp_all add: f(6) after_close_def Let_def same(3))
  have ready': "ready (bm_id b') c'"
    using ready_known [OF ready] f(2,3) same by (simp add: ready_def b')
  have trade: "map_of (db_bot_trades (cn_committed c')) (new_id ''bottrade'' (ce_uuid ?w)) = Some (closing_row b0 p reason t f)"
    by (simp add: f(5))
  obtain c'' where run: "finish_run ended (Inl CircuitBreakerTripped) (c', b') = ((c'', b'), Inr ())"
      "db_bot_state (cn_committed c'') = db_bot_state (cn_work c')"
      "map_of (db_bots (cn_committed c'')) (bm_id b) = map_option (\<lambda>r. r\<lparr>bo_status := ''circuit_broken'',
        bo_status_message := Some CircuitBreakerTripped, bo_updated_at := ended\<rparr>) (map_of (db_bots (cn_work c)) (bm_id b))"
    using finish_tripped [OF ready', of ended] f(2) same by (auto simp: b')
  from ready obtain rec where rec: "map_of (db_bots (cn_work c)) (bm_id b) = Some rec"
    by (auto simp: ready_def dest!: weak_map_of_SomeI)
  have row: "bx_bot_id (closing_row b0 p reason t f) = bm_id b"
      "bx_quantity (closing_row b0 p reason t f) = bm_current_quantity b"
    by (simp_all add: closing_row_def Let_def same)
  have state: "db_bot_state (cn_committed c') = db_bot_state (cn_work c)"
      "db_bot_state (cn_committed c'') = db_bot_state (cn_work c)"
    using f(1,4) same run(2) by simp_all
  have status: "map_option bo_status (map_of (db_bots (cn_committed c'')) (bm_id b)) = Some ''circuit_broken''"
      "map_option bo_desired_status (map_of (db_bots (cn_committed c'')) (bm_id b)) =
        map_option bo_desired_status (map_of (db_bots (cn_work c)) (bm_id b))"
    by (simp_all add: run(3) rec)
  show ?thesis
    by (intro conjI exI [of _ "new_id ''bottrade'' (ce_uuid ?w)"] exI [of _ "closing_row b0 p reason t f"]
        exI [of _ c''] state b'(2) trade row run(1) status)
qed

lemma sample_trip:
  "\<exists>c' b'. on_candle_close sample_lib (\<lambda>_. sample_env) sample_history
     (fresh_connection sample_database, open_sample_bot) = ((c', b'), Inl CircuitBreakerTripped)"
proof -
  let ?p = "\<lparr>op_entry_time = 2, op_entry_price = Fin 64, op_highest_since_entry = Fin 64\<rparr>"
  let ?c = "fresh_connection sample_database"
  let ?d = "Some (VDict [(''entry_price'', VFloat (op_entry_price ?p)), (''trigger_price'', VFloat (sg_close falling_snapshot))])"
  let ?noted = "committed (add_event \<lparr>be_bot_id = bm_id open_sample_bot, be_event_type = ''hard_stop_loss'',
      be_message = ''Independent hard stop-loss triggered'', be_data = map_option json_safe ?d,
      be_created_at = ce_now sample_env\<rparr>) ?c"
  have id: "bm_id open_sample_bot = ''bot_1''" by (simp add: open_sample_bot_def sample_bot_def)
  have b: "bm_broker open_sample_bot = PaperBroker sample_costs" "bm_costs open_sample_bot = sample_costs"
      "bm_current_quantity open_sample_bot = Fin 10" "bm_equity_at_entry open_sample_bot = Fin 800"
      "bm_risk open_sample_bot = sample_middleware\<lparr>rk_peak_equity := Fin 840\<rparr>" "sg_close falling_snapshot = Fin 56" "tc_fee_pct sample_costs = 0"
    by (simp_all add: open_sample_bot_def sample_bot_def falling_snapshot_def sample_costs_def)
  have f: "close_long (PaperBroker sample_costs) w (Fin 10) (Fin 56) =
      Inr \<lparr>fi_price = Fin 42, fi_quantity = Fin 10, fi_order_id = None\<rparr>" for w
    by (simp add: broker_defs sample_costs_def exit_fill_price_def Let_def fl_eval)
  have u: "snd (update_equity (Fin 420) (sample_middleware\<lparr>rk_peak_equity := Fin 840\<rparr>)) = Inl CircuitBreakerTripped"
    by (simp add: update_equity_run sample_middleware_def sample_limits_def new_peak_def fl_eval)
  have r: "ready (bm_id open_sample_bot) ?c" unfolding id by (rule sample_ready)
  have ev: "event (ce_now sample_env) ''hard_stop_loss'' ''Independent hard stop-loss triggered'' ?d (?c, open_sample_bot) =
      ((?noted, open_sample_bot), Inr ())"
    using r by (intro run_event) (simp_all add: event_types_def)
  have r0: "ready (bm_id open_sample_bot) ?noted" by (simp only: ready_committed) (rule ready_known [OF r])
  obtain c' b' out where close: "close_position_bot sample_env ?p (sg_close falling_snapshot) ''hard_stop_loss''
      (sg_timestamp falling_snapshot) (?noted, open_sample_bot) = ((c', b'), out)"
    by (metis surj_pair)
  have out: "out = Inl CircuitBreakerTripped"
    using close r0
  proof (cases rule: close_cases)
    case (4 f' e)
    have "bm_equity (after_close f' open_sample_bot) = Fin 420"
      using 4(1) by (auto simp: b f after_close_def Let_def fl_eval)
    then show ?thesis using 4(3) u by (simp add: b)
  qed (use b f in \<open>simp_all add: fresh_connection_def sample_database_def empty_database_def zero_fl_def del: json_safe.simps\<close>)
  have "close_at_hard_stop sample_env sample_history falling_snapshot ?p (?c, open_sample_bot) =
      ((c', b'), Inl CircuitBreakerTripped)"
    using close unfolding out close_at_hard_stop_def
    by (simp only: run_seqS ev prod.case sum.case)
  then show ?thesis
    unfolding hard_stop_overrides_tracker_witness by blast
qed

theorem breaker_leaves_the_sold_position_witness:
  "\<exists>c' b' k row. on_candle_close sample_lib (\<lambda>_. sample_env) sample_history
     (fresh_connection sample_database, open_sample_bot) = ((c', b'), Inl CircuitBreakerTripped) \<and>
     db_bot_state (cn_committed c') = [] \<and> bm_current_quantity b' = 0 \<and>
     map_of (db_bot_trades (cn_committed c')) k = Some row \<and> bx_quantity row = Fin 10"
proof -
  let ?c = "fresh_connection sample_database"
  obtain c' b' where trip: "on_candle_close sample_lib (\<lambda>_. sample_env) sample_history (?c, open_sample_bot) =
      ((c', b'), Inl CircuitBreakerTripped)"
    using sample_trip by blast
  have b: "bm_id open_sample_bot = ''bot_1''" "bm_definition open_sample_bot = sample_strategy"
      "bm_current_quantity open_sample_bot = Fin 10"
    by (simp_all add: open_sample_bot_def sample_bot_def)
  have r: "ready (bm_id open_sample_bot) ?c" unfolding b by (rule sample_ready)
  have s: "latest_signal sample_lib (bm_definition open_sample_bot) (history_frame sample_history) \<noteq> Inl CircuitBreakerTripped"
    using sample_signal by (simp add: b)
  have o: "ce_sell sample_env q \<noteq> Inl CircuitBreakerTripped" "ce_buy sample_env q \<noteq> Inl CircuitBreakerTripped" for q
    by (simp_all add: sample_env_def)
  have e: "db_bot_state (cn_work ?c) = []"
    by (simp add: fresh_connection_def sample_database_def empty_database_def)
  from breaker_leaves_the_sold_position [OF trip r s o, of 8] obtain k row where
      "db_bot_state (cn_committed c') = []" "bm_current_quantity b' = 0"
      "map_of (db_bot_trades (cn_committed c')) k = Some row" "bx_quantity row = Fin 10"
    unfolding e b(3) by blast
  with trip show ?thesis by blast
qed

end
