(* ===== verification/Service_Properties.thy ===== *)
theory Service_Properties
  imports Execution_Properties
begin

text \<open>
  What the processes around a bot promise: which bots the supervisor keeps running, who may read and
  change what is stored, what the credentials survive, and what a database error leaves behind.
\<close>

section \<open>The supervisor\<close>

text \<open>C20: The supervisor converges to what the database asks for. After any number of passes, also failed
  ones, one that gets through leaves exactly the bots that should run and were not given up, each with exactly
  one running process, which was alive when it was polled or was started in this pass, and no running
  process for any other bot; no child has more restarts noted than the limit.\<close>

theorem supervisor_converges:
  assumes "reconcile_once w (run_passes ws (init_supervisor cfg)) = (s, Inr ())" and "wo_desired w = Inr ids"
  shows "fst ` set (sv_children s) = set ids - sv_given_up s \<and> sv_given_up s \<subseteq> set ids \<and>
    distinct (map fst (sv_children s)) \<and>
    (\<forall>k. if k \<in> set ids \<and> k \<notin> sv_given_up s
      then \<exists>c. (k, c) \<in> set (sv_children s) \<and> running_processes s k = {ch_process c}
      else running_processes s k = {}) \<and>
    (\<forall>(k, c) \<in> set (sv_children s).
       (length (sv_processes (run_passes ws (init_supervisor cfg))) \<le> ch_process c \<or>
        (k, c) \<in> set (sv_children (run_passes ws (init_supervisor cfg))) \<and> wo_poll w (ch_process c) = None) \<and>
       int (length (ch_restart_times c)) \<le> max 0 (ss_max_restarts_in_window cfg))"
proof -
  let ?s0 = "run_passes ws (init_supervisor cfg)"
  have ok: "supervisor_ok ?s0" "sv_settings ?s0 = cfg" "processes_ok ?s0"
    using run_passes_ok [OF init_supervisor_ok, of ws cfg] run_passes_processes [OF init_supervisor_ok init_processes_ok]
    by (simp_all add: init_supervisor_def)
  note after = reconcile_ok [OF ok(1) assms]
  have good: "length (sv_processes ?s0) \<le> ch_process c \<or> (k, c) \<in> set (sv_children ?s0) \<and> wo_poll w (ch_process c) = None"
    if "(k, c) \<in> set (sv_children s)" for k c
    using after(5) [of "(k, c)"] that by (simp add: good_def)
  have restarts: "int (length (ch_restart_times c)) \<le> max 0 (ss_max_restarts_in_window cfg)"
      if "(k, c) \<in> set (sv_children s)" for k c
    using after(1) that by (auto simp: supervisor_ok_def after(2) ok(2))
  have children: "fst ` set (sv_children s) = set ids - sv_given_up s" using after(4) by simp
  have running: "running_processes s k = child_process s k" for k
    using reconcile_processes(1) [OF ok(1,3) assms(1)] by (simp add: processes_ok_def)
  have "if k \<in> set ids \<and> k \<notin> sv_given_up s
      then \<exists>c. (k, c) \<in> set (sv_children s) \<and> running_processes s k = {ch_process c}
      else running_processes s k = {}" for k
  proof (cases "map_of (sv_children s) k")
    case None
    then have "k \<notin> fst ` set (sv_children s)" by (simp add: map_of_eq_None_iff)
    then show ?thesis using None by (auto simp: children running child_process_def)
  next
    case (Some c)
    then have "(k, c) \<in> set (sv_children s)" by (rule map_of_SomeD)
    moreover from this have "k \<in> fst ` set (sv_children s)" by force
    ultimately show ?thesis using Some by (auto simp: children running child_process_def)
  qed
  moreover have "distinct (map fst (sv_children s))" using after(1) by (simp add: supervisor_ok_def keys_distinct_def)
  ultimately show ?thesis using children after(6) good restarts by blast
qed

definition sample_settings :: settings where
  "sample_settings = \<lparr>ss_database_url = None, ss_execution_master_key = None, ss_supervisor_poll_interval_seconds = Fin 5,
     ss_heartbeat_interval_seconds = Fin 15, ss_poll_interval_seconds = Fin 5, ss_max_restarts_in_window = 1, ss_crash_loop_window_seconds = Fin 60\<rparr>"

text \<open>A world in which process \<open>p\<close> is alive and every other one is dead.\<close>

definition sample_world :: "nat \<Rightarrow> world" where
  "sample_world p = \<lparr>wo_desired = Inr [''bot_1''], wo_poll = (\<lambda>i. if i = p then None else Some 0), wo_exits = (\<lambda>_. True),
     wo_monotonic = (\<lambda>_. Fin 0), wo_spawn = (\<lambda>_. Inr ()), wo_mark_error = (\<lambda>_. Inr ())\<rparr>"

definition sample_process :: "process_state \<Rightarrow> bot_process" where
  "sample_process st = \<lparr>pc_bot = ''bot_1'', pc_state = st\<rparr>"

lemma sample_first_pass:
  "reconcile_once (sample_world 0) (init_supervisor sample_settings) =
     (\<lparr>sv_settings = sample_settings, sv_children = [(''bot_1'', \<lparr>ch_process = 0, ch_restart_times = []\<rparr>)],
       sv_given_up = {}, sv_processes = [sample_process Alive]\<rparr>, Inr ())"
  by (simp add: reconcile_once_def reap_dead_children_def start_missing_def start_child_def spawn_def add_process_def st_simps
      sample_world_def init_supervisor_def put_def Let_def sample_process_def)

theorem supervisor_converges_witness:
  "running_processes (fst (reconcile_once (sample_world 0) (init_supervisor sample_settings))) ''bot_1'' = {0} \<and>
   running_processes (fst (reconcile_once (sample_world 0) (init_supervisor sample_settings))) ''bot_2'' = {}"
proof -
  let ?s = "fst (reconcile_once (sample_world 0) (init_supervisor sample_settings))"
  have "reconcile_once (sample_world 0) (run_passes [] (init_supervisor sample_settings)) = (?s, Inr ())"
    by (simp add: run_passes_def sample_first_pass)
  moreover have "wo_desired (sample_world 0) = Inr [''bot_1'']" by (simp add: sample_world_def)
  ultimately have "\<forall>k. if k \<in> set [''bot_1''] \<and> k \<notin> sv_given_up ?s
      then \<exists>c. (k, c) \<in> set (sv_children ?s) \<and> running_processes ?s k = {ch_process c} else running_processes ?s k = {}"
    by (blast dest: supervisor_converges)
  from this [rule_format, of "''bot_1''"] this [rule_format, of "''bot_2''"] show ?thesis
    by (simp add: sample_first_pass)
qed

lemma reap_gives_up:
  assumes "supervisor_ok s" and "distinct (map fst cs)" and "fst ` set cs \<inter> sv_given_up s = {}"
    and "forS (reap_child w D) cs s = (s', Inr ())" and "(k, c) \<in> set cs" and "k \<in> D"
    and "wo_poll w (ch_process c) = Some code"
    and "ss_max_restarts_in_window (sv_settings s) \<le> int (length (filter
       (\<lambda>t. wo_monotonic w k - t < ss_crash_loop_window_seconds (sv_settings s)) (ch_restart_times c)))"
  shows "k \<in> sv_given_up s' \<and> wo_mark_error w k = Inr ()"
  using assms
proof (induction cs arbitrary: s)
  case (Cons kc cs)
  obtain k1 c1 where kc: "kc = (k1, c1)" by force
  from Cons.prems kc have k1: "k1 \<notin> sv_given_up s" "k1 \<notin> fst ` set cs" by auto
  from Cons.prems(4) obtain s1 where
      s1: "reap_child w D (k1, c1) s = (s1, Inr ())" "forS (reap_child w D) cs s1 = (s', Inr ())"
    unfolding kc by (cases rule: forS_Cons_cases) auto
  note one = reap_child_ok [OF Cons.prems(1) k1(1) s1(1)]
  have rest: "fst ` set cs \<inter> sv_given_up s1 = {}" using one(4) Cons.prems(3) k1(2) by (simp add: kc) blast
  have later: "sv_given_up s1 \<subseteq> sv_given_up s'"
    using reap_list_ok [OF one(1) _ rest s1(2)] Cons.prems(2) by simp
  show ?case
  proof (cases "(k, c) = kc")
    case True
    with s1(1) Cons.prems(6-8) kc have "k \<in> sv_given_up s1 \<and> wo_mark_error w k = Inr ()"
      by (auto simp: reap_child_def st_simps Let_def split: sum.splits)
    with later show ?thesis by auto
  next
    case False
    with Cons.IH [OF one(1) _ rest s1(2) _ Cons.prems(6,7)] Cons.prems(2,5,8) one(2) show ?thesis by auto
  qed
qed simp

lemma pass_gives_up:
  assumes "supervisor_ok s" and "reconcile_once w s = (s', Inr ())" and "wo_desired w = Inr ids"
    and "(k, c) \<in> set (sv_children s)" and "k \<in> set ids" and "wo_poll w (ch_process c) = Some code"
    and "ss_max_restarts_in_window (sv_settings s) \<le> int (length (filter
       (\<lambda>t. wo_monotonic w k - t < ss_crash_loop_window_seconds (sv_settings s)) (ch_restart_times c)))"
  shows "k \<in> sv_given_up s' \<and> wo_mark_error w k = Inr ()"
proof -
  from assms(1-3) obtain s0 s1 where s0: "supervisor_ok s0" "sv_settings s0 = sv_settings s"
      "distinct (map fst (sv_children s))" "fst ` set (sv_children s) \<inter> sv_given_up s0 = {}"
      "forS (reap_child w (set ids)) (sv_children s) s0 = (s1, Inr ())" "sv_given_up s' = sv_given_up s1"
    by (rule pass_reaps)
  from reap_gives_up [OF s0(1,3-5) assms(4-6)] assms(7) s0(2,6) show ?thesis by simp
qed

lemma given_up_stays:
  assumes "supervisor_ok s" and "k \<in> sv_given_up s" and "\<forall>w \<in> set ws. \<forall>ids. wo_desired w = Inr ids \<longrightarrow> k \<in> set ids"
  shows "k \<in> sv_given_up (run_passes ws s) \<and> k \<notin> fst ` set (sv_children (run_passes ws s))"
  using assms
proof (induction ws arbitrary: s)
  case Nil
  then show ?case by (auto simp: run_passes_def supervisor_ok_def)
next
  case (Cons w ws)
  obtain s1 r where r: "reconcile_once w s = (s1, r)" by force
  have "supervisor_ok s1 \<and> k \<in> sv_given_up s1"
  proof (cases "wo_desired w")
    case (Inl e)
    with r Cons.prems reconcile_failed_read [of w e s] show ?thesis by simp
  next
    case (Inr ids)
    with Cons.prems reconcile_ok(1,3) [OF Cons.prems(1) r Inr] show ?thesis by auto
  qed
  with Cons.IH [of s1] Cons.prems(3) r show ?case by (simp add: run_passes_def)
qed

text \<open>C21: A crash loop ends. When the process of a bot that should run is found dead and the bot was
  restarted as often as the limit allows within the window, a pass that gets through gives it up and has
  its error written, and no later pass, whatever it meets, starts it again while it is still
  asked for.\<close>

theorem crash_loop_is_given_up:
  assumes "s = run_passes before (init_supervisor cfg)"
    and "reconcile_once w s = (s', Inr ())" and "wo_desired w = Inr ids"
    and "(k, c) \<in> set (sv_children s)" and "k \<in> set ids" and "wo_poll w (ch_process c) = Some code"
    and "ss_max_restarts_in_window cfg \<le> int (length (filter
       (\<lambda>t. wo_monotonic w k - t < ss_crash_loop_window_seconds cfg) (ch_restart_times c)))"
    and "\<forall>w \<in> set later. \<forall>ids. wo_desired w = Inr ids \<longrightarrow> k \<in> set ids"
  shows "wo_mark_error w k = Inr () \<and> k \<in> sv_given_up (run_passes later s') \<and>
    k \<notin> fst ` set (sv_children (run_passes later s'))"
proof -
  have ok: "supervisor_ok s" "sv_settings s = cfg"
    using run_passes_ok [OF init_supervisor_ok, of before cfg] by (simp_all add: assms(1) init_supervisor_def)
  from pass_gives_up [OF ok(1) assms(2-6)] assms(7) have "k \<in> sv_given_up s'" "wo_mark_error w k = Inr ()"
    by (simp_all add: ok(2))
  with given_up_stays [OF reconcile_ok(1) [OF ok(1) assms(2,3)] _ assms(8)] show ?thesis by simp
qed

text \<open>The bot is started as process 0, found dead and restarted as process 1, and given up when that is found dead too.\<close>

lemma sample_second_pass:
  "reconcile_once (sample_world 1) (fst (reconcile_once (sample_world 0) (init_supervisor sample_settings))) =
     (\<lparr>sv_settings = sample_settings, sv_children = [(''bot_1'', \<lparr>ch_process = 1, ch_restart_times = [Fin 0]\<rparr>)],
       sv_given_up = {}, sv_processes = [sample_process Exited, sample_process Alive]\<rparr>, Inr ())"
  unfolding sample_first_pass
  by (simp add: reconcile_once_def reap_dead_children_def reap_child_def start_missing_def start_child_def
      spawn_def add_process_def set_process_def st_simps sample_world_def sample_settings_def put_def forget_child_def
      delete_key_def Let_def sample_process_def)

theorem crash_loop_is_given_up_witness:
  "\<exists>s'. reconcile_once (sample_world 2) (run_passes [sample_world 0, sample_world 1] (init_supervisor sample_settings)) =
     (s', Inr ()) \<and> ''bot_1'' \<in> sv_given_up (run_passes [sample_world 3] s')"
proof -
  let ?s = "run_passes [sample_world 0, sample_world 1] (init_supervisor sample_settings)"
  have s: "?s = \<lparr>sv_settings = sample_settings, sv_children = [(''bot_1'', \<lparr>ch_process = 1, ch_restart_times = [Fin 0]\<rparr>)],
       sv_given_up = {}, sv_processes = [sample_process Exited, sample_process Alive]\<rparr>"
    by (simp add: run_passes_def sample_second_pass del: One_nat_def)
  have r: "reconcile_once (sample_world 2) ?s = (\<lparr>sv_settings = sample_settings, sv_children = [],
       sv_given_up = {''bot_1''}, sv_processes = [sample_process Exited, sample_process Exited]\<rparr>, Inr ())"
    unfolding s
    by (simp add: reconcile_once_def reap_dead_children_def reap_child_def start_missing_def st_simps
        sample_world_def sample_settings_def forget_child_def set_process_def delete_key_def Let_def fl_eval sample_process_def)
  have d: "wo_desired (sample_world p) = Inr [''bot_1'']" "wo_monotonic (sample_world p) k = Fin 0" for p k
    by (simp_all add: sample_world_def)
  have c: "(''bot_1'', \<lparr>ch_process = 1, ch_restart_times = [Fin 0]\<rparr>) \<in> set (sv_children ?s)" by (simp add: s del: One_nat_def)
  have p: "wo_poll (sample_world 2) (ch_process \<lparr>ch_process = 1, ch_restart_times = [Fin 0]\<rparr>) = Some 0"
    by (simp add: sample_world_def)
  have n: "ss_max_restarts_in_window sample_settings \<le> int (length (filter
       (\<lambda>t. wo_monotonic (sample_world 2) ''bot_1'' - t < ss_crash_loop_window_seconds sample_settings)
       (ch_restart_times \<lparr>ch_process = 1, ch_restart_times = [Fin 0]\<rparr>)))"
    by (simp add: d sample_settings_def fl_eval)
  have l: "\<forall>w \<in> set [sample_world 3]. \<forall>ids. wo_desired w = Inr ids \<longrightarrow> ''bot_1'' \<in> set ids" by (simp add: d)
  have k: "''bot_1'' \<in> set [''bot_1'']" by simp
  from crash_loop_is_given_up [OF refl r d(1) c k p n l] r show ?thesis by blast
qed

text \<open>The supervisor does not look at how a process ended. Whatever exit codes dead processes
  report, a pass does the same: a bot whose run ended normally after its circuit breaker tripped is
  restarted like one that crashed, as long as it is asked for.\<close>

theorem exit_code_is_ignored:
  "reconcile_once (w\<lparr>wo_poll := \<lambda>p. map_option (f p) (wo_poll w p)\<rparr>) s = reconcile_once w s \<and>
   exit_code (snd (finish_run now (Inl CircuitBreakerTripped) (fresh_connection sample_database, sample_bot))) = 0"
proof
  let ?w = "w\<lparr>wo_poll := \<lambda>p. map_option (f p) (wo_poll w p)\<rparr>"
  have sp: "spawn ?w = spawn w" by (simp add: spawn_def fun_eq_iff)
  have each: "reap_child ?w D kc = reap_child w D kc" for D kc
    by (cases kc; cases "wo_poll w (ch_process (snd kc))") (simp_all add: reap_child_def sp Let_def cong del: if_weak_cong)
  have "reap_child ?w = reap_child w" by (simp add: fun_eq_iff each)
  moreover have "start_missing ?w = start_missing w"
    by (simp add: start_missing_def start_child_def sp fun_eq_iff cong del: if_weak_cong)
  ultimately show "reconcile_once ?w s = reconcile_once w s"
    by (simp add: reconcile_once_def reap_dead_children_def cong del: if_weak_cong)
  show "exit_code (snd (finish_run now (Inl CircuitBreakerTripped) (fresh_connection sample_database, sample_bot))) = 0"
    using finish_tripped [of sample_bot "fresh_connection sample_database" now] sample_ready
    by (auto simp: sample_bot_def exit_code_def)
qed

section \<open>Owners\<close>

lemma committed_id: "cn_status c = Idle \<Longrightarrow> cn_committed c = cn_work c \<Longrightarrow> committed (\<lambda>d. d) c = c"
  by (simp add: committed_def)

text \<open>One user cannot reach another user's bots and credentials. With an id that is not the caller's,
  also one that exists, every scoped operation answers as for an id that does not exist, and leaves
  the database as it is.\<close>

theorem owners_are_isolated:
  assumes "cn_status c = Idle" and "cn_committed c = cn_work c"
    and "\<forall>b. map_of (db_bots (cn_work c)) i = Some b \<longrightarrow> bo_created_by b \<noteq> who"
    and "\<forall>x. map_of (db_credentials (cn_work c)) k = Some x \<longrightarrow> ec_created_by x \<noteq> who"
    and "0 \<le> n"
  shows "snd (get_bot i who c) = Inr None \<and> snd (get_state i who c) = Inr None \<and>
    snd (list_trades i who n c) = Inr [] \<and> snd (list_events i who n c) = Inr [] \<and>
    set_desired_status now i who st c = (c, Inr None) \<and> delete_bot i who c = (c, Inr False) \<and>
    delete_credential k who c = (c, Inr False) \<and>
    (\<forall>rows. snd (list_bots who c) = Inr rows \<longrightarrow> (\<forall>(j, b) \<in> set rows. bo_created_by b = who))"
proof -
  have none: "find_owned bo_created_by (db_bots (cn_work c)) i who = None"
      "find_owned ec_created_by (db_credentials (cn_work c)) k who = None"
    using assms(3,4) by (auto simp: find_owned_None)
  have same: "c\<lparr>cn_committed := cn_work c, cn_status := Idle\<rparr> = c" "c\<lparr>cn_status := Idle\<rparr> = c"
    using assms(1,2) by (cases c; simp)+
  show ?thesis
    using assms(1,2,5) none same
    by (auto simp: get_bot_def get_state_def list_trades_def list_events_def set_desired_status_def delete_bot_def
        delete_credential_def delete_credential_rows_def list_bots_def st_simps run_query limit_rows_def)
qed

theorem owners_are_isolated_witness:
  "delete_bot ''bot_1'' ''mallory'' (fresh_connection sample_database) = (fresh_connection sample_database, Inr False)"
proof -
  let ?c = "fresh_connection sample_database"
  have i: "\<forall>b. map_of (db_bots (cn_work ?c)) ''bot_1'' = Some b \<longrightarrow> bo_created_by b \<noteq> ''mallory''"
    by (simp add: fresh_connection_def sample_database_def sample_record_def)
  have k: "\<forall>x. map_of (db_credentials (cn_work ?c)) ''cred_1'' = Some x \<longrightarrow> ec_created_by x \<noteq> ''mallory''"
    by (simp add: fresh_connection_def sample_database_def empty_database_def)
  have s: "cn_status ?c = Idle" "cn_committed ?c = cn_work ?c" by (simp_all add: fresh_connection_def)
  from owners_are_isolated [OF s i k, of 0 7 "''running''"] show ?thesis by blast
qed

text \<open>A bot needs no right to its strategy. Creating a bot succeeds exactly when its settings pass
  the checks of the table, its id is new, the strategy exists and so does the credential, if one is
  named: whoever owns the strategy or the credential. The new bot is committed, and stored as stopped.\<close>

theorem create_bot_exact:
  "create_bot uuid now who b c = (c', Inr row) \<longleftrightarrow>
     cn_status c \<noteq> Aborted \<and> bot_checks b \<and> new_id ''bot'' uuid \<notin> fst ` set (db_bots (cn_work c)) \<and>
     bc_strategy_id b \<in> fst ` set (db_strategies (cn_work c)) \<and>
     bc_credential_id b \<in> insert None (Some ` fst ` set (db_credentials (cn_work c))) \<and>
     row = (new_id ''bot'' uuid, new_bot b who now) \<and>
     c' = committed (\<lambda>d. d\<lparr>db_bots := put (new_id ''bot'' uuid) (new_bot b who now) (db_bots d)\<rparr>) c"
  by (auto simp: create_bot_def insert_bot_def st_simps committed_def check_violation_def unique_violation_def
      foreign_key_violation_def split: option.splits if_splits)

section \<open>Credentials\<close>

text \<open>Credentials survive encryption. What \<open>create_credential\<close> stored is what
  \<open>get_decrypted_credential\<close> returns for it: exchange, key, secret, and the password unless it is
  empty. It rests on Fernet's own law and on its tokens not being empty.\<close>

theorem credentials_round_trip:
  assumes cipher: "\<And>key n p. fe_valid_key F key \<Longrightarrow> fe_decrypt F key (fe_encrypt F key n p) = Some p"
    and token: "\<And>key n p. fe_encrypt F key n p \<noteq> []"
    and stored: "create_credential F env nonce uuid now who exchange label key secret password c = (c', Inr summary)"
  shows "\<exists>c''. get_decrypted_credential F env (cs_id summary) c' = (c'', Inr (Some
    \<lparr>dc_exchange_id = exchange, dc_api_key = key, dc_api_secret = secret,
     dc_password = (if password = Some [] then None else password)\<rparr>))"
proof -
  from stored obtain k where k: "get_fernet F env = Inr k"
    by (cases "get_fernet F env") (auto simp: create_credential_def st_simps encrypt_secret_def)
  then have valid: "fe_valid_key F k"
    by (auto simp: get_fernet_def split: option.splits list.splits if_splits)
  have enc: "encrypt_secret F env n p = Inr (fe_encrypt F k n p)" for n p
    by (simp add: encrypt_secret_def k)
  have dec: "decrypt_secret F env (fe_encrypt F k n p) = Inr p" for n p
    by (simp add: decrypt_secret_def k cipher [OF valid])
  have pw: "(case fe_encrypt F k n p of [] \<Rightarrow> Inr None
      | y # ys \<Rightarrow> map_res Some (decrypt_secret F env (y # ys))) = Inr (Some p)" for n p
    using token [of k n p] dec [of n p] by (cases "fe_encrypt F k n p") simp_all
  consider "password = None" | "password = Some []" | x xs where "password = Some (x # xs)"
    by (cases password; cases "the password") auto
  then show ?thesis
    using stored
    by cases (auto simp: create_credential_def st_simps enc insert_credential_def summary_of_def unique_violation_def
        get_decrypted_credential_def run_query dec pw split: if_splits)
qed

definition sample_fernet :: fernet where
  "sample_fernet = \<lparr>fe_valid_key = (\<lambda>k. k = ''key''), fe_encrypt = (\<lambda>k n p. ''g'' @ p), fe_decrypt = (\<lambda>k t. Some (tl t))\<rparr>"

theorem credentials_round_trip_witness:
  "\<exists>c' c'' summary. create_credential sample_fernet (\<lambda>_. Some ''key'') (\<lambda>_. ''n'') ''0f'' 3 ''alice'' ''kraken'' ''main'' ''AK'' ''SK''
      (Some ''pw'') (fresh_connection sample_database) = (c', Inr summary) \<and>
    get_decrypted_credential sample_fernet (\<lambda>_. Some ''key'') (cs_id summary) c' = (c'', Inr (Some
      \<lparr>dc_exchange_id = ''kraken'', dc_api_key = ''AK'', dc_api_secret = ''SK'', dc_password = Some ''pw''\<rparr>))"
proof -
  have laws: "fe_decrypt sample_fernet key (fe_encrypt sample_fernet key n p) = Some p"
      "fe_encrypt sample_fernet key n p \<noteq> []" for key n p
    by (simp_all add: sample_fernet_def)
  have e: "get_fernet sample_fernet (\<lambda>_. Some ''key'') = Inr ''key''" by (simp add: get_fernet_def sample_fernet_def)
  obtain c' summary where s: "create_credential sample_fernet (\<lambda>_. Some ''key'') (\<lambda>_. ''n'') ''0f'' 3 ''alice'' ''kraken''
      ''main'' ''AK'' ''SK'' (Some ''pw'') (fresh_connection sample_database) = (c', Inr summary)"
    by (auto simp: create_credential_def encrypt_secret_def e st_simps fresh_connection_def insert_credential_def
        sample_database_def empty_database_def)
  from credentials_round_trip [OF laws s] s show ?thesis by auto
qed

section \<open>What is not written\<close>

lemma process_quiet:
  assumes "tk_position t = Some p" and "process t sg = Inr (t', None)"
  shows "t' = t\<lparr>tk_position := Some (p\<lparr>op_highest_since_entry := py_max (op_highest_since_entry p) (sg_high sg)\<rparr>)\<rparr>"
  using assms by (auto simp: process_def Let_def close_position_def bindE_eq_Inr split: if_splits option.splits)

text \<open>A quiet candle is not saved. When a candle neither opens nor closes a position, the bot only
  touches the heartbeat: the stored position keeps its old high while the tracker's high follows the
  candle. A restart resumes with the high of the last save, so that its trailing
  stop can be lower than the one of the bot that kept running.\<close>

theorem quiet_candle_not_saved:
  assumes signal: "latest_signal L (bm_definition b) (history_frame history) = Inr sg"
    and position: "tk_position (bm_tracker b) = Some p"
    and above: "hard_stop sg b = Inr False" and quiet: "process (bm_tracker b) sg = Inr (t, None)"
    and ready: "ready (bm_id b) c" and stored: "map_of (db_bot_state (cn_work c)) (bm_id b) = Some s"
  shows "\<exists>c'. on_candle_close L env history (c, b) = ((c', b\<lparr>bm_tracker := t\<rparr>), Inr ()) \<and>
    map_of (db_bot_state (cn_committed c')) (bm_id b) =
      Some (s\<lparr>bs_last_heartbeat_at := Some (ce_now (env history))\<rparr>) \<and>
    tk_position t = Some (p\<lparr>op_highest_since_entry := py_max (op_highest_since_entry p) (sg_high sg)\<rparr>)"
proof -
  have live: "cn_status c \<noteq> Aborted" using ready by (simp add: ready_def)
  show ?thesis
    using signal position above quiet process_quiet [OF position quiet] run_heartbeat [OF live] stored
    by (simp add: on_candle_close_def follow_tracker_def st_simps Let_def)
qed

definition rising_bar :: bar where
  "rising_bar = \<lparr>bar_time = 9, bar_open = Fin 65, bar_high = Fin 70, bar_low = Fin 62, bar_close = Fin 66, bar_volume = Fin 1\<rparr>"

definition saved_connection :: "database connection" where
  "saved_connection = fst (fst (save_state 7 [] (fresh_connection sample_database, open_sample_bot)))"

theorem quiet_candle_not_saved_witness:
  "\<exists>c' b'. on_candle_close sample_lib (\<lambda>_. sample_env) [rising_bar] (saved_connection, open_sample_bot) = ((c', b'), Inr ()) \<and>
    map_option op_highest_since_entry (tk_position (bm_tracker b')) = Some (Fin 70) \<and>
    map_option bs_position (map_of (db_bot_state (cn_committed c')) ''bot_1'') =
      Some (map_option json_safe (position_json open_sample_bot)) \<and>
    map_option op_highest_since_entry (tk_position (bm_tracker open_sample_bot)) = Some (Fin 64)"
proof -
  let ?c = "committed (set_state ''bot_1'' (saved_row 7 [] open_sample_bot)) (fresh_connection sample_database)"
  let ?p = "\<lparr>op_entry_time = 2, op_entry_price = Fin 64, op_highest_since_entry = Fin 64\<rparr>"
  let ?sg = "\<lparr>sg_timestamp = 9, sg_open = Fin 65, sg_high = Fin 70, sg_low = Fin 62, sg_close = Fin 66,
     sg_entry_signal = False, sg_exit_signal = False\<rparr>"
  have b: "bm_definition open_sample_bot = sample_strategy" "bm_id open_sample_bot = ''bot_1''"
      "bm_tracker open_sample_bot = \<lparr>tk_risk_management = sample_risk, tk_position = Some ?p\<rparr>"
    by (simp_all add: open_sample_bot_def sample_bot_def)
  have c: "saved_connection = ?c"
    using run_save_state [of open_sample_bot "fresh_connection sample_database" 7 "[]"] sample_ready
    by (simp add: saved_connection_def b)
  have sg: "latest_signal sample_lib (bm_definition open_sample_bot) (history_frame [rising_bar]) = Inr ?sg"
    unfolding b rising_bar_def by (subst one_bar_signal) simp_all
  have m: "mult_num (Fin 64) (one_minus (FloatN (Fin (1 / 16)))) = Inr (Fin 60)"
      "mult_num (Fin 64) (one_plus (FloatN (Fin (1 / 8)))) = Inr (Fin 72)" by (simp_all add: fl_eval)
  have h: "hard_stop ?sg open_sample_bot = Inr False"
    using m(1) by (simp add: hard_stop_def b check_hard_stop_loss_def sample_strategy_def sample_risk_def
        del: one_minus_float mult_num_float)
  obtain t where t: "process (bm_tracker open_sample_bot) ?sg = Inr (t, None)"
    using m by (simp add: process_def b sample_risk_def Let_def del: one_minus_float mult_num_float one_plus_float)
  have p: "tk_position (bm_tracker open_sample_bot) = Some ?p" by (simp add: b)
  have r: "ready (bm_id open_sample_bot) saved_connection"
    using ready_known [OF sample_ready] by (simp only: c b ready_committed)
  have st: "map_of (db_bot_state (cn_work saved_connection)) (bm_id open_sample_bot) = Some (saved_row 7 [] open_sample_bot)"
    by (simp add: c b)
  from quiet_candle_not_saved [OF sg p h t r st, of "\<lambda>_. sample_env"] show ?thesis
    by (auto simp: b py_max_def saved_row_def)
qed

end
