(* ===== verification/SearchSpace.thy ===== *)
theory SearchSpace
  imports Schema Database
begin

text \<open>
  \<^verbatim>\<open>freqpanda_optimize/search_space.py\<close>: the tunable parameters of a definition, the values one
  Optuna trial suggests for them, and the definition with these values put in. The trial is the
  library: one answer per name and bounds, as a trial gives the same value when asked again. A Python
  dictionary is an association list in insertion order.
\<close>

record param_spec =
  ps_indicator_alias :: string
  ps_param_name :: string
  ps_param_range :: param_range

definition param_key :: "string \<Rightarrow> string \<Rightarrow> string" where
  "param_key alias name = alias @ ''.'' @ name"

definition spec_key :: "param_spec \<Rightarrow> string" where
  "spec_key s = param_key (ps_indicator_alias s) (ps_param_name s)"

definition specs_of :: "indicator_config \<Rightarrow> param_spec list" where
  "specs_of i = List.map_filter (\<lambda>(name, v). case v of
       Range r \<Rightarrow> Some \<lparr>ps_indicator_alias = ic_alias i, ps_param_name = name, ps_param_range = r\<rparr>
     | Fixed _ \<Rightarrow> None) (ic_params i)"

definition build_search_space :: "strategy_definition \<Rightarrow> param_spec list" where
  "build_search_space d = concat (map specs_of (sd_indicators d))"

text \<open>\<^verbatim>\<open>isinstance(v, int) or float(v).is_integer()\<close>\<close>

definition is_whole :: "number \<Rightarrow> bool" where
  "is_whole n = (case n of IntN _ \<Rightarrow> True | FloatN (Fin q) \<Rightarrow> q = of_int \<lfloor>q\<rfloor> | FloatN _ \<Rightarrow> False)"

definition is_integer_range :: "param_range \<Rightarrow> bool" where
  "is_integer_range r = list_all is_whole
     ([pr_min r, pr_max r, pr_default r] @ (case pr_step r of None \<Rightarrow> [] | Some s \<Rightarrow> [s]))"

record optuna_trial =
  tr_suggest_int :: "string \<Rightarrow> int \<Rightarrow> int \<Rightarrow> int \<Rightarrow> int res"
  tr_suggest_float :: "string \<Rightarrow> fl \<Rightarrow> fl \<Rightarrow> number option \<Rightarrow> fl res"

type_synonym param_values = "(string \<times> number) list"

definition suggest_value :: "optuna_trial \<Rightarrow> param_spec \<Rightarrow> number res" where
  "suggest_value T s = (let r = ps_param_range s in
     if is_integer_range r
     then bindE (case pr_step r of None \<Rightarrow> Inr 1 | Some st \<Rightarrow> py_int st) (\<lambda>step.
       bindE (py_int (pr_min r)) (\<lambda>lo. bindE (py_int (pr_max r)) (\<lambda>hi.
       map_res IntN (tr_suggest_int T (spec_key s) lo hi step))))
     else bindE (py_float (pr_min r)) (\<lambda>lo. bindE (py_float (pr_max r)) (\<lambda>hi.
       map_res FloatN (tr_suggest_float T (spec_key s) lo hi (pr_step r)))))"

definition suggest_params :: "optuna_trial \<Rightarrow> param_spec list \<Rightarrow> param_values res" where
  "suggest_params T search_space =
     foldE (\<lambda>vs s. map_res (\<lambda>x. put (spec_key s) x vs) (suggest_value T s)) [] search_space"

definition override_param :: "param_values \<Rightarrow> string \<Rightarrow> string \<times> param_value \<Rightarrow> string \<times> param_value" where
  "override_param vs alias p = (case p of (name, v) \<Rightarrow>
     (case map_of vs (param_key alias name) of Some x \<Rightarrow> (name, Fixed x) | None \<Rightarrow> (name, v)))"

definition materialize_indicator :: "param_values \<Rightarrow> indicator_config \<Rightarrow> indicator_config res" where
  "materialize_indicator vs i = map_res (\<lambda>alias. \<lparr>ic_name = ic_name i, ic_alias = alias,
       ic_params = map (override_param vs (ic_alias i)) (ic_params i)\<rparr>) (alias_is_identifier (ic_alias i))"

definition materialize_definition :: "strategy_definition \<Rightarrow> param_values \<Rightarrow> strategy_definition res" where
  "materialize_definition d vs =
     map_res (\<lambda>inds. d\<lparr>sd_indicators := inds\<rparr>) (mapE (materialize_indicator vs) (sd_indicators d))"

section \<open>Keys\<close>

declare put_simps [simp]

lemma identifier_no_dot: "isidentifier a \<Longrightarrow> CHR ''.'' \<notin> set a"
  by (auto simp: isidentifier_def is_letter_def is_digit_def Let_def split: list.splits)

lemma param_key_inject:
  assumes "isidentifier a" and "isidentifier b"
  shows "param_key a m = param_key b n \<longleftrightarrow> a = b \<and> m = n"
proof -
  have before: "takeWhile (\<lambda>c. c \<noteq> CHR ''.'') (param_key x k) = x" if "isidentifier x" for x k
    using identifier_no_dot [OF that] by (simp add: param_key_def) (subst takeWhile_append2, auto)
  show ?thesis
  proof
    assume eq: "param_key a m = param_key b n"
    with before [OF assms(1), of m] before [OF assms(2), of n] have "a = b" by simp
    with eq show "a = b \<and> m = n" by (simp add: param_key_def)
  qed simp
qed

lemma indicator_ok_alias: "indicator_ok i \<Longrightarrow> isidentifier (ic_alias i)"
  by (auto simp: indicator_ok_def alias_is_identifier_def split: if_splits)

lemma specs_of_iff:
  "s \<in> set (specs_of i) \<longleftrightarrow> ps_indicator_alias s = ic_alias i \<and>
     (ps_param_name s, Range (ps_param_range s)) \<in> set (ic_params i)"
  by (cases s) (force simp: specs_of_def set_map_filter split: param_value.splits)

lemma distinct_map_filter_keys:
  "distinct (map f ps) \<Longrightarrow> (\<And>p y. g p = Some y \<Longrightarrow> h y = f p) \<Longrightarrow> distinct (map h (List.map_filter g ps))"
  by (induction ps) (force simp: List.map_filter_simps set_map_filter split: option.splits)+

lemma specs_of_keys_distinct:
  assumes "indicator_ok i"
  shows "distinct (map spec_key (specs_of i))"
proof -
  have "distinct (map ps_param_name (specs_of i))"
    unfolding specs_of_def using assms
    by (intro distinct_map_filter_keys [where f = fst]) (auto simp: indicator_ok_def split: param_value.splits)
  then have d: "distinct (map ps_param_name (specs_of i))" .
  have "map spec_key (specs_of i) = map (param_key (ic_alias i)) (map ps_param_name (specs_of i))"
    by (auto simp: spec_key_def specs_of_iff)
  moreover have "inj (param_key (ic_alias i))" by (auto simp: inj_def param_key_def)
  ultimately show ?thesis using d by (metis distinct_map inj_on_subset subset_UNIV)
qed

lemma search_space_keys_distinct:
  assumes "definition_ok d"
  shows "distinct (map spec_key (build_search_space d))"
proof -
  have "distinct (map spec_key (concat (map specs_of inds)))"
    if "list_all indicator_ok inds" "distinct (map ic_alias inds)" for inds
    using that
  proof (induction inds)
    case (Cons i inds)
    have "spec_key s \<noteq> spec_key t" if s: "s \<in> set (specs_of i)" and t: "j \<in> set inds" "t \<in> set (specs_of j)" for s t j
    proof -
      have "isidentifier (ic_alias i)" "isidentifier (ic_alias j)" "ic_alias i \<noteq> ic_alias j"
        using Cons.prems t(1) by (auto simp: list_all_iff intro: indicator_ok_alias)
      then show ?thesis using s t(2) by (simp add: spec_key_def specs_of_iff param_key_inject)
    qed
    then have "spec_key ` set (specs_of i) \<inter> spec_key ` set (concat (map specs_of inds)) = {}" by fastforce
    with Cons specs_of_keys_distinct [of i] show ?case by auto
  qed simp
  with assms show ?thesis by (simp add: definition_ok_def check_unique_aliases_iff build_search_space_def)
qed

lemma suggest_params_lookup:
  assumes "suggest_params T specs = Inr vs" and "distinct (map spec_key specs)"
  shows "fst ` set vs = spec_key ` set specs"
    and "s \<in> set specs \<Longrightarrow> \<exists>x. suggest_value T s = Inr x \<and> map_of vs (spec_key s) = Some x"
proof -
  have "fst ` set vs = fst ` set vs0 \<union> spec_key ` set specs \<and>
      (\<forall>s \<in> set specs. \<exists>x. suggest_value T s = Inr x \<and> map_of vs (spec_key s) = Some x) \<and>
      (\<forall>k. k \<notin> spec_key ` set specs \<longrightarrow> map_of vs k = map_of vs0 k)"
    if "foldE (\<lambda>vs s. map_res (\<lambda>x. put (spec_key s) x vs) (suggest_value T s)) vs0 specs = Inr vs"
      "distinct (map spec_key specs)" for vs0
    using that
  proof (induction specs arbitrary: vs0)
    case (Cons s specs)
    from Cons.prems(1) obtain x where x: "suggest_value T s = Inr x"
        "foldE (\<lambda>vs s. map_res (\<lambda>x. put (spec_key s) x vs) (suggest_value T s)) (put (spec_key s) x vs0) specs = Inr vs"
      by (auto simp: py_simps)
    from Cons.IH [OF x(2)] Cons.prems(2) x(1) show ?case by auto
  qed simp
  from this [of "[]"] assms show "fst ` set vs = spec_key ` set specs"
    "s \<in> set specs \<Longrightarrow> \<exists>x. suggest_value T s = Inr x \<and> map_of vs (spec_key s) = Some x"
    by (simp_all add: suggest_params_def)
qed

section \<open>What materializing a trial gives\<close>

text \<open>The documented behaviour of a trial: the suggestion lies between the bounds.\<close>

definition trial_in_bounds :: "optuna_trial \<Rightarrow> bool" where
  "trial_in_bounds T \<longleftrightarrow>
     (\<forall>k lo hi st x. tr_suggest_int T k lo hi st = Inr x \<longrightarrow> lo \<le> x \<and> x \<le> hi) \<and>
     (\<forall>k lo hi st x. tr_suggest_float T k lo hi st = Inr x \<longrightarrow> lo \<le> x \<and> x \<le> hi)"

definition within_range :: "param_range \<Rightarrow> number \<Rightarrow> bool" where
  "within_range r n = (case n of
      IntN x \<Rightarrow> (\<exists>lo hi. py_int (pr_min r) = Inr lo \<and> py_int (pr_max r) = Inr hi \<and> lo \<le> x \<and> x \<le> hi)
    | FloatN x \<Rightarrow> (\<exists>lo hi. py_float (pr_min r) = Inr lo \<and> py_float (pr_max r) = Inr hi \<and> lo \<le> x \<and> x \<le> hi))"

lemma suggested_within_range:
  "trial_in_bounds T \<Longrightarrow> suggest_value T s = Inr x \<Longrightarrow> within_range (ps_param_range s) x"
  by (auto simp: suggest_value_def within_range_def trial_in_bounds_def Let_def py_simps split: if_splits)

definition tuned :: "param_values \<Rightarrow> string \<Rightarrow> string \<times> param_value \<Rightarrow> string \<times> param_value \<Rightarrow> bool" where
  "tuned vs alias p p' \<longleftrightarrow> fst p' = fst p \<and> (case snd p of
      Fixed n \<Rightarrow> snd p' = Fixed n
    | Range r \<Rightarrow> (\<exists>x. map_of vs (param_key alias (fst p)) = Some x \<and> snd p' = Fixed x \<and> within_range r x))"

lemma materialize_eq:
  assumes "list_all indicator_ok (sd_indicators d)"
  shows "materialize_definition d vs = Inr (d\<lparr>sd_indicators :=
    map (\<lambda>i. i\<lparr>ic_params := map (override_param vs (ic_alias i)) (ic_params i)\<rparr>) (sd_indicators d)\<rparr>)"
proof -
  have "materialize_indicator vs i = Inr (i\<lparr>ic_params := map (override_param vs (ic_alias i)) (ic_params i)\<rparr>)"
    if "i \<in> set (sd_indicators d)" for i
    using that assms by (auto simp: materialize_indicator_def list_all_iff alias_is_identifier_def dest!: indicator_ok_alias)
  then have "mapE (materialize_indicator vs) (sd_indicators d) =
      Inr (map (\<lambda>i. i\<lparr>ic_params := map (override_param vs (ic_alias i)) (ic_params i)\<rparr>) (sd_indicators d))"
    by (intro mapE_all_Inr) auto
  then show ?thesis by (simp add: materialize_definition_def)
qed

lemma override_tuned:
  assumes "definition_ok d" and "suggest_params T (build_search_space d) = Inr vs" and "trial_in_bounds T"
    and "i \<in> set (sd_indicators d)" and "p \<in> set (ic_params i)"
  shows "tuned vs (ic_alias i) p (override_param vs (ic_alias i) p)"
proof -
  obtain n v where p: "p = (n, v)" by force
  note keys = suggest_params_lookup [OF assms(2) search_space_keys_distinct [OF assms(1)]]
  have ok: "\<forall>j \<in> set (sd_indicators d). indicator_ok j" "distinct (map ic_alias (sd_indicators d))"
    using assms(1) by (auto simp: definition_ok_def list_all_iff check_unique_aliases_iff)
  show ?thesis
  proof (cases v)
    case (Range r)
    let ?s = "\<lparr>ps_indicator_alias = ic_alias i, ps_param_name = n, ps_param_range = r\<rparr>"
    have "?s \<in> set (build_search_space d)"
      using assms(4,5) p Range by (auto simp: build_search_space_def specs_of_iff)
    from keys(2) [OF this] obtain x where "suggest_value T ?s = Inr x" "map_of vs (spec_key ?s) = Some x" by blast
    with suggested_within_range [OF assms(3)] show ?thesis
      by (force simp: tuned_def override_param_def p Range spec_key_def)
  next
    case (Fixed x)
    have "param_key (ic_alias i) n \<notin> fst ` set vs"
    proof
      assume "param_key (ic_alias i) n \<in> fst ` set vs"
      then obtain s where "s \<in> set (build_search_space d)" and key: "spec_key s = param_key (ic_alias i) n"
        unfolding keys(1) by auto
      then obtain j where j: "j \<in> set (sd_indicators d)" "s \<in> set (specs_of j)" by (auto simp: build_search_space_def)
      with key ok(1) assms(4) have "ic_alias j = ic_alias i" "ps_param_name s = n"
        by (auto simp: spec_key_def specs_of_iff param_key_inject indicator_ok_alias)
      moreover from this j assms(4) ok(2) have "j = i" by (simp add: distinct_map inj_on_def)
      ultimately have "(n, Range (ps_param_range s)) \<in> set (ic_params i)" using j(2) by (simp add: specs_of_iff)
      moreover have "distinct (map fst (ic_params i))" using ok(1) assms(4) by (auto simp: indicator_ok_def)
      ultimately show False using assms(5) p Fixed eq_key_imp_eq_value by fastforce
    qed
    then have "map_of vs (param_key (ic_alias i) n) = None" by (simp add: map_of_eq_None_iff)
    then show ?thesis by (simp add: tuned_def override_param_def p Fixed)
  qed
qed

end
