(* ===== verification/Scoring.thy ===== *)
theory Scoring
  imports Backtest "HOL-Library.Multiset" "HOL-Library.Product_Lexorder"
begin

text \<open>
  \<^verbatim>\<open>freqpanda_optimize/scoring.py\<close> and \<^verbatim>\<open>evaluate.py\<close>: the score of a backtest, and the ranking of a list
  of variants by it. \<^verbatim>\<open>getattr(result, metric)\<close> finds the fields and the methods of the result class; the
  names every Python object has, such as \<^verbatim>\<open>__class__\<close>, are left out: \<^verbatim>\<open>float\<close> refuses these objects too.
  \<^verbatim>\<open>float\<close> of a text and of a one-element series are the libraries'.
\<close>

section \<open>The score\<close>

datatype attribute = Numeric number | Text string | Series "fl list" | Object

datatype metric_like = MetricName string | MetricFun "backtest_result \<Rightarrow> number res"

definition result_attributes :: "backtest_result \<Rightarrow> (string \<times> attribute) list" where
  "result_attributes r =
     [(''strategy_name'', Text (br_strategy_name r)),
      (''initial_capital'', Numeric (FloatN (br_initial_capital r))),
      (''final_capital'', Numeric (FloatN (br_final_capital r))),
      (''total_return_pct'', Numeric (FloatN (br_total_return_pct r))),
      (''total_return_abs'', Numeric (FloatN (br_total_return_abs r))),
      (''sharpe_ratio'', Numeric (FloatN (br_sharpe_ratio r))),
      (''sortino_ratio'', Numeric (FloatN (br_sortino_ratio r))),
      (''max_drawdown_pct'', Numeric (FloatN (br_max_drawdown_pct r))),
      (''max_drawdown_duration'', Object),
      (''num_trades'', Numeric (IntN (int (br_num_trades r)))),
      (''win_rate'', Numeric (FloatN (br_win_rate r))),
      (''avg_win_pct'', Numeric (FloatN (br_avg_win_pct r))),
      (''avg_loss_pct'', Numeric (FloatN (br_avg_loss_pct r))),
      (''profit_factor'', Numeric (FloatN (br_profit_factor r))),
      (''trades'', Object),
      (''equity_curve'', Series (map snd (br_equity_curve r))),
      (''costs'', Object),
      (''metrics_dict'', Object), (''trade_records'', Object), (''equity_curve_records'', Object)]"

definition float_attribute :: "(string \<Rightarrow> fl option) \<Rightarrow> attribute \<Rightarrow> fl res" where
  "float_attribute parse a = (case a of
      Numeric n \<Rightarrow> py_float n
    | Text s \<Rightarrow> (case parse s of Some x \<Rightarrow> Inr x | None \<Rightarrow> Inl (ValueError ''could not convert string to float''))
    | Series [x] \<Rightarrow> Inr x
    | Series _ \<Rightarrow> Inl TypeError
    | Object \<Rightarrow> Inl TypeError)"

definition worst_score :: fl where
  "worst_score = NInf"

definition score_from_result :: "(string \<Rightarrow> fl option) \<Rightarrow> backtest_result \<Rightarrow> metric_like \<Rightarrow> fl res" where
  "score_from_result parse r metric =
     map_res (\<lambda>x. if is_nan x then worst_score else x)
       (case metric of
          MetricFun f \<Rightarrow> bindE (f r) py_float
        | MetricName m \<Rightarrow> (case map_of (result_attributes r) m of
              None \<Rightarrow> Inl (ValueError ''Unknown metric'')
            | Some a \<Rightarrow> float_attribute parse a))"

lemma score_not_nan: "score_from_result parse r m = Inr x \<Longrightarrow> x \<noteq> NaN"
  by (auto simp: score_from_result_def py_simps worst_score_def is_nan_def split: if_splits)

section \<open>Ranking\<close>

text \<open>
  Scores are compared as floats that are not NaN, so they are linearly ordered: the infinities are
  the ends of the rationals. NaN is put below them and does not occur.
\<close>

datatype score = Score fl

fun score_rank :: "score \<Rightarrow> nat \<times> rat" where
  "score_rank (Score NaN) = (0, 0)"
| "score_rank (Score NInf) = (1, 0)"
| "score_rank (Score (Fin q)) = (2, q)"
| "score_rank (Score PInf) = (3, 0)"

lemma score_rank_inject: "score_rank a = score_rank b \<longleftrightarrow> a = b"
proof -
  obtain x y where [simp]: "a = Score x" "b = Score y" by (cases a; cases b)
  show ?thesis by (cases x; cases y) auto
qed

instantiation score :: linorder
begin

definition less_eq_score :: "score \<Rightarrow> score \<Rightarrow> bool" where
  "less_eq_score a b \<longleftrightarrow> score_rank a \<le> score_rank b"

definition less_score :: "score \<Rightarrow> score \<Rightarrow> bool" where
  "less_score a b \<longleftrightarrow> score_rank a < score_rank b"

instance
proof
  fix a b c :: score
  show "a < b \<longleftrightarrow> a \<le> b \<and> \<not> b \<le> a" "a \<le> a" "a \<le> b \<or> b \<le> a"
    by (auto simp: less_eq_score_def less_score_def)
  show "a \<le> b \<Longrightarrow> b \<le> c \<Longrightarrow> a \<le> c" by (auto simp: less_eq_score_def)
  show "a \<le> b \<Longrightarrow> b \<le> a \<Longrightarrow> a = b" by (auto simp: less_eq_score_def simp flip: score_rank_inject)
qed

end

lemma score_le: "x \<noteq> NaN \<Longrightarrow> y \<noteq> NaN \<Longrightarrow> Score x \<le> Score y \<longleftrightarrow> x \<le> y"
  by (cases x; cases y) (auto simp: less_eq_score_def)

text \<open>
  \<^verbatim>\<open>list.sort(key=f, reverse=True)\<close>: every key is computed first, in order; the sort is stable
  also in reverse, so equal keys keep their order.
\<close>

definition sort_reverse :: "('a \<Rightarrow> score) \<Rightarrow> 'a list \<Rightarrow> 'a list" where
  "sort_reverse f xs = rev (sort_key f (rev xs))"

definition sort_by_score :: "('a \<Rightarrow> fl res) \<Rightarrow> 'a list \<Rightarrow> 'a list res" where
  "sort_by_score f xs = map_res (\<lambda>keys. map snd (sort_reverse (\<lambda>(k, x). Score k) (zip keys xs))) (mapE f xs)"

definition evaluate_variants :: "(string \<Rightarrow> fl option) \<Rightarrow> extlib \<Rightarrow> numlib \<Rightarrow> strategy_definition list \<Rightarrow>
    frame \<Rightarrow> metric_like \<Rightarrow> int option \<Rightarrow> backtest_args \<Rightarrow> (strategy_definition \<times> backtest_result) list res" where
  "evaluate_variants parse L N variants df metric max_workers args =
     bindE (run_backtests_parallel L N variants df max_workers args) (\<lambda>results.
     sort_by_score (\<lambda>(d, r). score_from_result parse r metric) (zip variants results))"

section \<open>The sort\<close>

lemma sort_reverse_mset [simp]: "mset (sort_reverse f xs) = mset xs"
  by (simp add: sort_reverse_def)

lemma sort_reverse_sorted: "sorted_wrt (\<lambda>x y. f y \<le> f x) (sort_reverse f xs)"
proof -
  have "sorted_wrt (\<le>) (map f (sort_key f (rev xs)))" by simp
  then show ?thesis by (simp add: sort_reverse_def sorted_wrt_rev sorted_wrt_map)
qed

lemma sort_reverse_stable: "filter (\<lambda>x. f x = k) (sort_reverse f xs) = filter (\<lambda>x. f x = k) xs"
  by (simp add: sort_reverse_def rev_filter [symmetric] sort_key_stable)

lemma mapE_zip: "mapE f xs = Inr ys \<Longrightarrow> (y, x) \<in> set (zip ys xs) \<Longrightarrow> f x = Inr y"
  by (induction xs arbitrary: ys) (auto simp: py_simps)

lemma sort_by_score_ok:
  assumes "sort_by_score f xs = Inr ys" and noNaN: "\<And>x k. f x = Inr k \<Longrightarrow> k \<noteq> NaN"
  shows "mset ys = mset xs"
    and "sorted_wrt (\<lambda>x y. \<exists>a b. f x = Inr a \<and> f y = Inr b \<and> b \<le> a) ys"
    and "filter (\<lambda>x. f x = Inr k) ys = filter (\<lambda>x. f x = Inr k) xs"
proof -
  from assms(1) obtain keys where keys: "mapE f xs = Inr keys"
      and ys: "ys = map snd (sort_reverse (\<lambda>(k, x). Score k) (zip keys xs))"
    by (auto simp: sort_by_score_def py_simps)
  let ?z = "sort_reverse (\<lambda>(k, x). Score k) (zip keys xs)"
  have len: "length keys = length xs" by (rule mapE_length [OF keys])
  have key: "f x = Inr k" if "(k, x) \<in> set ?z" for k x
  proof -
    have "set ?z = set (zip keys xs)" by (metis set_mset_mset sort_reverse_mset)
    with that mapE_zip [OF keys] show ?thesis by simp
  qed
  show "mset ys = mset xs"
    using len by (simp add: ys) (metis map_snd_zip mset_map)
  have "sorted_wrt (\<lambda>p q. \<exists>a b. f (snd p) = Inr a \<and> f (snd q) = Inr b \<and> b \<le> a) ?z"
  proof (rule sorted_wrt_mono_rel [OF _ sort_reverse_sorted])
    fix p q
    assume "p \<in> set ?z" "q \<in> set ?z" "(case q of (k, x) \<Rightarrow> Score k) \<le> (case p of (k, x) \<Rightarrow> Score k)"
    moreover obtain a x b y where pq: "p = (a, x)" "q = (b, y)" by (cases p; cases q)
    ultimately have "f x = Inr a" "f y = Inr b" "Score b \<le> Score a" using key by simp_all
    moreover from this have "b \<le> a" using noNaN score_le by blast
    ultimately show "\<exists>a b. f (snd p) = Inr a \<and> f (snd q) = Inr b \<and> b \<le> a" by (simp add: pq)
  qed
  then show "sorted_wrt (\<lambda>x y. \<exists>a b. f x = Inr a \<and> f y = Inr b \<and> b \<le> a) ys"
    by (simp add: ys sorted_wrt_map)
  have "filter (\<lambda>x. f x = Inr k) ys = map snd (filter (\<lambda>p. f (snd p) = Inr k) ?z)"
    by (simp add: ys filter_map o_def)
  also have "filter (\<lambda>p. f (snd p) = Inr k) ?z = filter (\<lambda>p. (case p of (k, x) \<Rightarrow> Score k) = Score k) ?z"
    using key by (intro filter_cong) auto
  also have "\<dots> = filter (\<lambda>p. (case p of (k, x) \<Rightarrow> Score k) = Score k) (zip keys xs)"
    by (rule sort_reverse_stable)
  also have "\<dots> = filter (\<lambda>p. f (snd p) = Inr k) (zip keys xs)"
    using mapE_zip [OF keys] by (intro filter_cong) auto
  also have "map snd \<dots> = filter (\<lambda>x. f x = Inr k) (map snd (zip keys xs))"
    by (simp add: filter_map o_def)
  finally show "filter (\<lambda>x. f x = Inr k) ys = filter (\<lambda>x. f x = Inr k) xs" using len by simp
qed

end
