(* ===== verification/Optimize.thy ===== *)
theory Optimize
  imports SearchSpace Scoring Walkforward
begin

text \<open>
  \<^verbatim>\<open>freqpanda_optimize/optimize.py\<close>: one Optuna study on a training slice with one backtest on the test
  slice, the walk-forward loop over it, and the final refit. Optuna is a parameter: the trials a
  sampler comes up with before the number of trials or the timeout is reached, and the choice of the
  best one. An exception in the objective leaves the study, as no exception is caught.
\<close>

type_synonym study = "(param_values \<times> fl) list"

record optuna =
  op_trials :: "int \<Rightarrow> fl option \<Rightarrow> optuna_trial list"
  op_best_params :: "study \<Rightarrow> param_values res"

record search_args =
  sa_metric :: metric_like
  sa_n_trials :: int
  sa_timeout :: "fl option"

record window_optimization_result =
  ow_window :: "wf_window option"
  ow_metric :: metric_like
  ow_best_params :: param_values
  ow_best_definition :: strategy_definition
  ow_in_sample_result :: backtest_result
  ow_out_of_sample_result :: backtest_result
  ow_study :: study

text \<open>The libraries of one run: text parsing, \<^verbatim>\<open>ta\<close>, numpy and pandas.\<close>

record libs =
  li_parse :: "string \<Rightarrow> fl option"
  li_ext :: extlib
  li_num :: numlib

definition in_sample_score :: "libs \<Rightarrow> window_optimization_result \<Rightarrow> fl res" where
  "in_sample_score Y w = score_from_result (li_parse Y) (ow_in_sample_result w) (ow_metric w)"

definition out_of_sample_score :: "libs \<Rightarrow> window_optimization_result \<Rightarrow> fl res" where
  "out_of_sample_score Y w = score_from_result (li_parse Y) (ow_out_of_sample_result w) (ow_metric w)"

definition objective :: "libs \<Rightarrow> strategy_definition \<Rightarrow> frame \<Rightarrow> metric_like \<Rightarrow> backtest_args \<Rightarrow>
    optuna_trial \<Rightarrow> (param_values \<times> fl) res" where
  "objective Y d train_df metric args T =
     bindE (suggest_params T (build_search_space d)) (\<lambda>vs.
     bindE (materialize_definition d vs) (\<lambda>candidate.
     bindE (backtest (li_ext Y) (li_num Y) candidate train_df args) (\<lambda>r.
     map_res (Pair vs) (score_from_result (li_parse Y) r metric))))"

definition optimize_single_split :: "libs \<Rightarrow> optuna \<Rightarrow> strategy_definition \<Rightarrow> frame \<Rightarrow> frame \<Rightarrow>
    search_args \<Rightarrow> backtest_args \<Rightarrow> wf_window option \<Rightarrow> window_optimization_result res" where
  "optimize_single_split Y Q d train_df test_df sa args w =
     bindE (mapE (objective Y d train_df (sa_metric sa) args) (op_trials Q (sa_n_trials sa) (sa_timeout sa))) (\<lambda>study.
     bindE (op_best_params Q study) (\<lambda>best_params.
     bindE (materialize_definition d best_params) (\<lambda>best_definition.
     bindE (backtest (li_ext Y) (li_num Y) best_definition train_df args) (\<lambda>in_sample.
     map_res (\<lambda>out_of_sample. \<lparr>ow_window = w, ow_metric = sa_metric sa, ow_best_params = best_params,
         ow_best_definition = best_definition, ow_in_sample_result = in_sample,
         ow_out_of_sample_result = out_of_sample, ow_study = study\<rparr>)
       (backtest (li_ext Y) (li_num Y) best_definition test_df args)))))"

record optimization_result =
  or_metric :: metric_like
  or_windows :: "window_optimization_result list"

definition summary_row :: "libs \<Rightarrow> window_optimization_result \<Rightarrow> (string \<times> jval) list res" where
  "summary_row Y w =
     (let cell = (\<lambda>f. case ow_window w of None \<Rightarrow> VNone | Some x \<Rightarrow> VTime (f x)) in
     bindE (in_sample_score Y w) (\<lambda>ins.
     map_res (\<lambda>outs. [(''train_start'', cell wf_train_start), (''train_end'', cell wf_train_end),
         (''test_start'', cell wf_test_start), (''test_end'', cell wf_test_end),
         (''in_sample_score'', VFloat ins), (''out_of_sample_score'', VFloat outs),
         (''num_trades_test'', VInt (int (br_num_trades (ow_out_of_sample_result w))))])
       (out_of_sample_score Y w)))"

definition summary :: "libs \<Rightarrow> optimization_result \<Rightarrow> (string \<times> jval) list list res" where
  "summary Y r = mapE (summary_row Y) (or_windows r)"

definition mean_in_sample_score :: "libs \<Rightarrow> optimization_result \<Rightarrow> fl res" where
  "mean_in_sample_score Y r = map_res (nl_mean (li_num Y)) (mapE (in_sample_score Y) (or_windows r))"

definition mean_out_of_sample_score :: "libs \<Rightarrow> optimization_result \<Rightarrow> fl res" where
  "mean_out_of_sample_score Y r = map_res (nl_mean (li_num Y)) (mapE (out_of_sample_score Y) (or_windows r))"

definition optimize_window :: "libs \<Rightarrow> (wf_window \<Rightarrow> optuna) \<Rightarrow> strategy_definition \<Rightarrow> frame \<Rightarrow>
    search_args \<Rightarrow> backtest_args \<Rightarrow> wf_window \<Rightarrow> window_optimization_result option res" where
  "optimize_window Y Q d df sa args w =
     (let train_df = slice_between (wf_train_start w) (wf_train_end w) df;
          test_df = slice_between (wf_test_start w) (wf_test_end w) df in
      if fr_index train_df = [] \<or> fr_index test_df = [] then Inr None
      else map_res Some (optimize_single_split Y (Q w) d train_df test_df sa args (Some w)))"

definition optimize :: "libs \<Rightarrow> (wf_window \<Rightarrow> optuna) \<Rightarrow> strategy_definition \<Rightarrow> frame \<Rightarrow> int \<Rightarrow> int \<Rightarrow>
    int option \<Rightarrow> bool \<Rightarrow> search_args \<Rightarrow> backtest_args \<Rightarrow> optimization_result res option" where
  "optimize Y Q d df train_period test_period step anchored sa args =
     map_option (\<lambda>ws. bindE ws (\<lambda>windows.
       if windows = [] then Inl (ValueError ''No walk-forward windows fit in the given data range'')
       else map_res (\<lambda>rs. \<lparr>or_metric = sa_metric sa, or_windows = List.map_filter (\<lambda>r. r) rs\<rparr>)
         (mapE (optimize_window Y Q d df sa args) windows)))
     (generate_walk_forward_windows (fr_index df) train_period test_period step anchored)"

definition refit_on_full_history :: "libs \<Rightarrow> optuna \<Rightarrow> strategy_definition \<Rightarrow> frame \<Rightarrow> search_args \<Rightarrow>
    backtest_args \<Rightarrow> window_optimization_result res" where
  "refit_on_full_history Y Q d df sa args = optimize_single_split Y Q d df df sa args None"

section \<open>The documented behaviour of a study\<close>

text \<open>
  \<^verbatim>\<open>best_params\<close> are the parameters of a trial with the highest value, and there is one unless no trial
  was run.
\<close>

definition best_law :: "optuna \<Rightarrow> bool" where
  "best_law Q \<longleftrightarrow> (\<forall>st p. op_best_params Q st = Inr p \<longrightarrow>
     (\<exists>v. (p, v) \<in> set st \<and> (\<forall>(p', v') \<in> set st. v' \<le> v)))"

lemma single_split_Inr:
  assumes "optimize_single_split Y Q d train_df test_df sa args w = Inr r"
  shows "mapE (objective Y d train_df (sa_metric sa) args) (op_trials Q (sa_n_trials sa) (sa_timeout sa)) = Inr (ow_study r)"
    and "op_best_params Q (ow_study r) = Inr (ow_best_params r)"
    and "materialize_definition d (ow_best_params r) = Inr (ow_best_definition r)"
    and "backtest (li_ext Y) (li_num Y) (ow_best_definition r) train_df args = Inr (ow_in_sample_result r)"
    and "backtest (li_ext Y) (li_num Y) (ow_best_definition r) test_df args = Inr (ow_out_of_sample_result r)"
    and "ow_metric r = sa_metric sa" and "ow_window r = w"
  using assms by (auto simp: optimize_single_split_def py_simps)

lemma mapE_member: "mapE f xs = Inr ys \<Longrightarrow> y \<in> set ys \<Longrightarrow> \<exists>x \<in> set xs. f x = Inr y"
  by (induction xs arbitrary: ys) (auto simp: py_simps)

lemma trial_reproduced:
  assumes "objective Y d train_df metric args T = Inr (vs, v)"
  obtains c r where "materialize_definition d vs = Inr c"
    and "backtest (li_ext Y) (li_num Y) c train_df args = Inr r"
    and "score_from_result (li_parse Y) r metric = Inr v"
  using assms that by (auto simp: objective_def py_simps)

end
