(* ===== verification/Generate.thy ===== *)
theory Generate
  imports Validation
begin

text \<open>
  \<^verbatim>\<open>freqpanda_optimize/generate.py\<close>: random strategy definitions within bounds. The generator is the
  state of Python's \<^verbatim>\<open>random.Random\<close>, seen through the two primitives the used methods draw from;
  \<^verbatim>\<open>choice\<close>, \<^verbatim>\<open>choices\<close> and \<^verbatim>\<open>uniform\<close> are written out over them, and so are \<^verbatim>\<open>round\<close> and the
  formatting of the index. Constructing a Pydantic model runs its checks.
\<close>

section \<open>Random numbers, rounding and text\<close>

record 'g rng =
  rg_below :: "nat \<Rightarrow> 'g \<Rightarrow> 'g \<times> nat"
  rg_random :: "'g \<Rightarrow> 'g \<times> fl"

definition random_float :: "'g rng \<Rightarrow> ('g, fl) stm" where
  "random_float R = (\<lambda>g. case rg_random R g of (g', x) \<Rightarrow> (g', Inr x))"

definition element :: "'a list \<Rightarrow> int \<Rightarrow> 'a res" where
  "element xs i = (if 0 \<le> i \<and> i < int (length xs) then Inr (xs ! nat i) else Inl IndexError)"

definition choice :: "'g rng \<Rightarrow> 'a list \<Rightarrow> ('g, 'a) stm" where
  "choice R xs = (if xs = [] then raiseS IndexError
     else (\<lambda>g. case rg_below R (length xs) g of (g', i) \<Rightarrow> (g', element xs (int i))))"

definition floor_index :: "fl \<Rightarrow> int res" where
  "floor_index x = (case x of Fin q \<Rightarrow> Inr \<lfloor>q\<rfloor> | NaN \<Rightarrow> Inl (ValueError ''NaN'') | _ \<Rightarrow> Inl OverflowError)"

definition choices_one :: "'g rng \<Rightarrow> 'a list \<Rightarrow> ('g, 'a) stm" where
  "choices_one R xs = bindS (random_float R) (\<lambda>x.
     liftS (bindE (floor_index (x * Fin (of_nat (length xs)))) (element xs)))"

definition uniform :: "'g rng \<Rightarrow> fl \<times> fl \<Rightarrow> ('g, fl) stm" where
  "uniform R ab = bindS (random_float R) (\<lambda>x. returnS (fst ab + (snd ab - fst ab) * x))"

definition round_digits :: "nat \<Rightarrow> fl \<Rightarrow> fl" where
  "round_digits n x = (case x of Fin q \<Rightarrow> round64 (of_int (rhe (q * 10 ^ n)) / 10 ^ n) | _ \<Rightarrow> x)"

definition round_int :: "fl \<Rightarrow> int res" where
  "round_int x = (case x of
      Fin q \<Rightarrow> Inr (rhe q)
    | NaN \<Rightarrow> Inl (ValueError ''cannot convert float NaN to integer'')
    | _ \<Rightarrow> Inl OverflowError)"

definition digit :: "nat \<Rightarrow> char" where
  "digit n = char_of (48 + n)"

fun decimal :: "nat \<Rightarrow> string" where
  "decimal n = (if n < 10 then [digit n] else decimal (n div 10) @ [digit (n mod 10)])"

declare decimal.simps [simp del]

definition decimal_padded :: "nat \<Rightarrow> nat \<Rightarrow> string" where
  "decimal_padded w n = (let s = decimal n in replicate (w - length s) (CHR ''0'') @ s)"

section \<open>Bounds\<close>

type_synonym param_bounds = "(string \<times> (number \<times> number \<times> number option)) list"

record indicator_bounds =
  ib_name :: string
  ib_param_ranges :: param_bounds
  ib_threshold_range :: "(fl \<times> fl) option"

record generation_bounds =
  gb_crossover_indicators :: "indicator_bounds list"
  gb_threshold_indicators :: "indicator_bounds list"
  gb_stop_loss_pct_range :: "fl \<times> fl"
  gb_take_profit_pct_range :: "fl \<times> fl"
  gb_trailing_stop_pct_range :: "(fl \<times> fl) option"
  gb_trailing_stop_probability :: fl

definition default_bounds :: generation_bounds where
  "default_bounds = \<lparr>gb_crossover_indicators = [], gb_threshold_indicators = [],
     gb_stop_loss_pct_range = (lit (1 / 100), lit (5 / 100)), gb_take_profit_pct_range = (lit (2 / 100), lit (10 / 100)),
     gb_trailing_stop_pct_range = Some (lit (1 / 100), lit (5 / 100)), gb_trailing_stop_probability = lit (3 / 10)\<rparr>"

definition is_int :: "number \<Rightarrow> bool" where
  "is_int n = (case n of IntN _ \<Rightarrow> True | FloatN _ \<Rightarrow> False)"

definition num_sub :: "number \<Rightarrow> number \<Rightarrow> number res" where
  "num_sub a b = (case (a, b) of
      (IntN i, IntN j) \<Rightarrow> Inr (IntN (i - j))
    | _ \<Rightarrow> bindE (py_float a) (\<lambda>x. map_res (\<lambda>y. FloatN (x - y)) (py_float b)))"

text \<open>\<^verbatim>\<open>n / 2\<close>; a quotient of integers is rounded once and overflows with an exception.\<close>

definition num_half :: "number \<Rightarrow> fl res" where
  "num_half n = (case n of
      IntN i \<Rightarrow> (case round64 (of_int i / 2) of Fin q \<Rightarrow> Inr (Fin q) | _ \<Rightarrow> Inl OverflowError)
    | FloatN x \<Rightarrow> Inr (x / Fin 2))"

definition ranged_param :: "number \<times> number \<times> number option \<Rightarrow> param_range res" where
  "ranged_param b = (case b of (lo, hi, step) \<Rightarrow>
     bindE (num_sub hi lo) (\<lambda>width.
     bindE (num_half width) (\<lambda>half.
     bindE (py_float lo) (\<lambda>low.
     bindE (if is_int lo \<and> is_int hi \<and> (case step of None \<Rightarrow> True | Some s \<Rightarrow> is_int s)
            then map_res IntN (round_int (low + half)) else Inr (FloatN (low + half))) (\<lambda>dflt.
     check_bounds \<lparr>pr_default = dflt, pr_min = lo, pr_max = hi, pr_step = step\<rparr>)))))"

definition ranged_params :: "param_bounds \<Rightarrow> (string \<times> param_value) list res" where
  "ranged_params bs = mapE (\<lambda>(name, b). map_res (\<lambda>r. (name, Range r)) (ranged_param b)) bs"

section \<open>The templates\<close>

definition random_risk_management :: "'g rng \<Rightarrow> generation_bounds \<Rightarrow> ('g, risk_management) stm" where
  "random_risk_management R b =
     bindS (uniform R (gb_stop_loss_pct_range b)) (\<lambda>sl.
     bindS (uniform R (gb_take_profit_pct_range b)) (\<lambda>tp.
     bindS (case gb_trailing_stop_pct_range b of
         None \<Rightarrow> returnS None
       | Some bounds \<Rightarrow> bindS (random_float R) (\<lambda>x. if x < gb_trailing_stop_probability b
           then bindS (uniform R bounds) (\<lambda>ts. returnS (Some (FloatN (round_digits 4 ts)))) else returnS None))
       (\<lambda>trailing.
     liftS (check_risk \<lparr>rm_stop_loss_pct = FloatN (round_digits 4 sl),
       rm_take_profit_pct = FloatN (round_digits 4 tp), rm_trailing_stop_pct = trailing\<rparr>))))"

definition make_indicator :: "indicator_bounds \<Rightarrow> string \<Rightarrow> indicator_config res" where
  "make_indicator ib alias = bindE (ranged_params (ib_param_ranges ib)) (\<lambda>ps.
     map_res (\<lambda>a. \<lparr>ic_name = ib_name ib, ic_alias = a, ic_params = ps\<rparr>) (alias_is_identifier alias))"

definition generate_crossover_variant :: "'g rng \<Rightarrow> generation_bounds \<Rightarrow> nat \<Rightarrow> ('g, strategy_definition) stm" where
  "generate_crossover_variant R b index =
     bindS (choices_one R (gb_crossover_indicators b)) (\<lambda>ind_a.
     bindS (choices_one R (gb_crossover_indicators b)) (\<lambda>ind_b.
     let alias_a = ib_name ind_a @ ''_a_'' @ decimal index; alias_b = ib_name ind_b @ ''_b_'' @ decimal index in
     bindS (liftS (make_indicator ind_a alias_a)) (\<lambda>ia.
     bindS (liftS (make_indicator ind_b alias_b)) (\<lambda>ib.
     bindS (random_risk_management R b) (\<lambda>rm.
     liftS (check_unique_aliases \<lparr>sd_name = ''generated_crossover_'' @ decimal_padded 3 index @ ''_'' @
           ib_name ind_a @ ''_'' @ ib_name ind_b,
         sd_description = Some (''Randomly generated crossover variant: '' @ alias_a @ '' vs '' @ alias_b @ ''.''),
         sd_timeframe = None, sd_indicators = [ia, ib],
         sd_entry_conditions = Comparison (Ref alias_a) CrossesAbove (Ref alias_b),
         sd_exit_conditions = Some (Comparison (Ref alias_a) CrossesBelow (Ref alias_b)),
         sd_risk_management = rm\<rparr>))))))"

definition generate_threshold_variant :: "'g rng \<Rightarrow> generation_bounds \<Rightarrow> nat \<Rightarrow> ('g, strategy_definition) stm" where
  "generate_threshold_variant R b index =
     bindS (choice R (gb_threshold_indicators b)) (\<lambda>ind.
     case ib_threshold_range ind of
       None \<Rightarrow> raiseS (ValueError ''threshold_indicators entry needs a threshold_range'')
     | Some (low, high) \<Rightarrow>
     let alias = ib_name ind @ ''_'' @ decimal index; band = (high - low) * lit (4 / 10) in
     bindS (uniform R (low, low + band)) (\<lambda>entry.
     bindS (uniform R (high - band, high)) (\<lambda>exit.
     bindS (liftS (make_indicator ind alias)) (\<lambda>i.
     bindS (random_risk_management R b) (\<lambda>rm.
     liftS (check_unique_aliases \<lparr>sd_name = ''generated_threshold_'' @ decimal_padded 3 index @ ''_'' @ ib_name ind,
         sd_description = Some (''Randomly generated mean-reversion variant on '' @ alias @ ''.''),
         sd_timeframe = None, sd_indicators = [i],
         sd_entry_conditions = Comparison (Ref alias) LT (Const (FloatN (round_digits 2 entry))),
         sd_exit_conditions = Some (Comparison (Ref alias) GT (Const (FloatN (round_digits 2 exit)))),
         sd_risk_management = rm\<rparr>))))))"

datatype template = Crossover | Threshold

definition templates_of :: "generation_bounds \<Rightarrow> template list" where
  "templates_of b = (if gb_crossover_indicators b \<noteq> [] then [Crossover] else []) @
     (if gb_threshold_indicators b \<noteq> [] then [Threshold] else [])"

definition generate_one :: "'g rng \<Rightarrow> generation_bounds \<Rightarrow> nat \<Rightarrow> ('g, strategy_definition) stm" where
  "generate_one R b i = bindS (choice R (templates_of b)) (\<lambda>t. case t of
      Crossover \<Rightarrow> generate_crossover_variant R b i
    | Threshold \<Rightarrow> generate_threshold_variant R b i)"

fun generate_list :: "'g rng \<Rightarrow> generation_bounds \<Rightarrow> nat list \<Rightarrow> ('g, strategy_definition list) stm" where
  "generate_list R b [] = returnS []"
| "generate_list R b (i # is) = bindS (generate_one R b i) (\<lambda>v. bindS (generate_list R b is) (\<lambda>vs. returnS (v # vs)))"

definition generate_variants :: "'g rng \<Rightarrow> generation_bounds \<Rightarrow> int \<Rightarrow> ('g, strategy_definition list) stm" where
  "generate_variants R b n = (if templates_of b = []
     then raiseS (ValueError ''GenerationBounds needs at least one of crossover_indicators/threshold_indicators'')
     else generate_list R b [0..<nat n])"

section \<open>What is generated\<close>

text \<open>
  \<open>usable ib\<close>: the bounds are a dictionary, name a registered indicator with one output column, and
  bound parameters it has.
\<close>

definition usable :: "indicator_bounds \<Rightarrow> bool" where
  "usable ib \<longleftrightarrow> (case find_handler (ib_name ib) of None \<Rightarrow> False
     | Some h \<Rightarrow> ih_outputs h = single_output \<and> set (map fst (ib_param_ranges ib)) \<subseteq> set (ih_param_names h))"

definition bounds_ok :: "generation_bounds \<Rightarrow> bool" where
  "bounds_ok b \<longleftrightarrow> (\<forall>ib \<in> set (gb_crossover_indicators b) \<union> set (gb_threshold_indicators b).
     distinct (map fst (ib_param_ranges ib)))"

definition bounds_usable :: "generation_bounds \<Rightarrow> bool" where
  "bounds_usable b \<longleftrightarrow> (\<forall>ib \<in> set (gb_crossover_indicators b) \<union> set (gb_threshold_indicators b). usable ib)"

lemma element_Inr: "element xs i = Inr x \<Longrightarrow> x \<in> set xs"
  by (auto simp: element_def split: if_splits)

lemma choice_Inr: "choice R xs g = (g', Inr x) \<Longrightarrow> x \<in> set xs"
  by (auto simp: choice_def dest: element_Inr split: if_splits prod.splits)

lemma choices_one_Inr: "choices_one R xs g = (g', Inr x) \<Longrightarrow> x \<in> set xs"
  by (auto simp: choices_one_def bindS_Inr py_simps dest: element_Inr)

lemma ranged_params_ok:
  assumes "ranged_params bs = Inr ps"
  shows "map fst ps = map fst bs" and "(k, v) \<in> set ps \<Longrightarrow> \<exists>r. v = Range r \<and> check_bounds r = Inr r"
proof -
  have fix_bounds: "ranged_param b = Inr r \<Longrightarrow> check_bounds r = Inr r" for b r
    by (auto simp: ranged_param_def py_simps check_bounds_Inr split: prod.splits)
  have "map fst ps = map fst bs \<and> (\<forall>(k, v) \<in> set ps. \<exists>r. v = Range r \<and> check_bounds r = Inr r)"
    using assms unfolding ranged_params_def
  proof (induction bs arbitrary: ps)
    case (Cons nb bs)
    obtain n b where nb: "nb = (n, b)" by (cases nb)
    from Cons.prems obtain r qs where r: "ranged_param b = Inr r" "ps = (n, Range r) # qs"
        "mapE (\<lambda>(name, b). map_res (\<lambda>r. (name, Range r)) (ranged_param b)) bs = Inr qs"
      by (auto simp: nb py_simps)
    from Cons.IH [OF r(3)] fix_bounds [OF r(1)] show ?case by (simp add: r(2) nb)
  qed simp
  then show "map fst ps = map fst bs" "(k, v) \<in> set ps \<Longrightarrow> \<exists>r. v = Range r \<and> check_bounds r = Inr r"
    by auto
qed

lemma make_indicator_ok:
  assumes "make_indicator ib alias = Inr i" and "distinct (map fst (ib_param_ranges ib))"
  shows "indicator_ok i" and "ic_alias i = alias" and "ic_name i = ib_name ib"
    and "usable ib \<Longrightarrow> indicator_issues i = [] \<and> (\<exists>h. find_handler (ic_name i) = Some h \<and> ih_outputs h alias = [alias])"
proof -
  from assms(1) obtain ps where ps: "ranged_params (ib_param_ranges ib) = Inr ps"
      and i: "i = \<lparr>ic_name = ib_name ib, ic_alias = alias, ic_params = ps\<rparr>" "isidentifier alias"
    by (auto simp: make_indicator_def py_simps alias_is_identifier_def split: if_splits)
  note keys = ranged_params_ok [OF ps]
  show "ic_alias i = alias" "ic_name i = ib_name ib" by (simp_all add: i(1))
  show "indicator_ok i"
    using keys assms(2) i by (fastforce simp: indicator_ok_def alias_is_identifier_def)
  show "indicator_issues i = [] \<and> (\<exists>h. find_handler (ic_name i) = Some h \<and> ih_outputs h alias = [alias])" if "usable ib"
    using that keys(1) by (auto simp: usable_def indicator_issues_def i(1) single_output_def filter_empty_conv
        split: option.splits)
qed

lemma risk_generated: "random_risk_management R b g = (g', Inr rm) \<Longrightarrow> check_risk rm = Inr rm"
  by (auto simp: random_risk_management_def bindS_Inr check_risk_Inr)

lemma no_issues:
  assumes "\<forall>i \<in> set (sd_indicators d). indicator_issues i = []"
    and "\<forall>(n, t) \<in> set (condition_trees d). set (operand_refs t) \<subseteq> available_columns d"
  shows "validate_definition d = Inr ()"
  using assms by (auto simp: validate_definition_def column_issues_def filter_empty_conv Let_def split_beta)

lemma crossover_ok:
  assumes "generate_crossover_variant R b n g = (g', Inr d)" and "bounds_ok b"
  shows "definition_ok d" and "bounds_usable b \<Longrightarrow> validate_definition d = Inr ()"
proof -
  from assms(1) obtain ia ib a1 a2 rm where
      mem: "ia \<in> set (gb_crossover_indicators b)" "ib \<in> set (gb_crossover_indicators b)"
      and ind: "make_indicator ia (ib_name ia @ ''_a_'' @ decimal n) = Inr a1"
        "make_indicator ib (ib_name ib @ ''_b_'' @ decimal n) = Inr a2"
      and rm: "check_risk rm = Inr rm" and uniq: "accepted (check_unique_aliases d)"
      and d: "sd_indicators d = [a1, a2]" "sd_risk_management d = rm"
        "sd_entry_conditions d = Comparison (Ref (ib_name ia @ ''_a_'' @ decimal n)) CrossesAbove (Ref (ib_name ib @ ''_b_'' @ decimal n))"
        "sd_exit_conditions d = Some (Comparison (Ref (ib_name ia @ ''_a_'' @ decimal n)) CrossesBelow (Ref (ib_name ib @ ''_b_'' @ decimal n)))"
    by (auto simp: generate_crossover_variant_def bindS_Inr Let_def check_unique_aliases_def
        dest!: choices_one_Inr risk_generated split: if_splits)
  have dist: "distinct (map fst (ib_param_ranges ia))" "distinct (map fst (ib_param_ranges ib))"
    using assms(2) mem by (auto simp: bounds_ok_def)
  note a1 = make_indicator_ok [OF ind(1) dist(1)] and a2 = make_indicator_ok [OF ind(2) dist(2)]
  show "definition_ok d" using a1(1) a2(1) rm uniq by (simp add: definition_ok_def d)
  show "validate_definition d = Inr ()" if u: "bounds_usable b"
  proof -
    have "usable ia" "usable ib" using u mem by (auto simp: bounds_usable_def)
    from a1(4) [OF this(1)] a2(4) [OF this(2)] show ?thesis
      by (intro no_issues) (auto simp: d condition_trees_def available_columns_fold available_columns_def a1(2) a2(2))
  qed
qed

lemma threshold_ok:
  assumes "generate_threshold_variant R b n g = (g', Inr d)" and "bounds_ok b"
  shows "definition_ok d" and "bounds_usable b \<Longrightarrow> validate_definition d = Inr ()"
proof -
  from assms(1) obtain ib i rm x y where
      mem: "ib \<in> set (gb_threshold_indicators b)"
      and ind: "make_indicator ib (ib_name ib @ ''_'' @ decimal n) = Inr i"
      and rm: "check_risk rm = Inr rm" and uniq: "accepted (check_unique_aliases d)"
      and d: "sd_indicators d = [i]" "sd_risk_management d = rm"
        "sd_entry_conditions d = Comparison (Ref (ib_name ib @ ''_'' @ decimal n)) LT (Const x)"
        "sd_exit_conditions d = Some (Comparison (Ref (ib_name ib @ ''_'' @ decimal n)) GT (Const y))"
    by (auto simp: generate_threshold_variant_def bindS_Inr Let_def check_unique_aliases_def
        dest!: choice_Inr risk_generated split: if_splits option.splits)
  have "distinct (map fst (ib_param_ranges ib))" using assms(2) mem by (auto simp: bounds_ok_def)
  note i = make_indicator_ok [OF ind this]
  show "definition_ok d" using i(1) rm uniq by (simp add: definition_ok_def d)
  show "validate_definition d = Inr ()" if "bounds_usable b"
  proof -
    have "usable ib" using that mem by (auto simp: bounds_usable_def)
    from i(4) [OF this] show ?thesis
      by (intro no_issues) (auto simp: d condition_trees_def available_columns_fold available_columns_def i(2))
  qed
qed

lemma generate_list_ok:
  assumes "generate_list R b is g = (g', Inr vs)" and "bounds_ok b"
  shows "length vs = length is \<and> (\<forall>v \<in> set vs. definition_ok v \<and> (bounds_usable b \<longrightarrow> validate_definition v = Inr ()))"
  using assms(1)
proof (induction "is" arbitrary: g vs)
  case (Cons i "is")
  from Cons.prems obtain v us g1 where v: "generate_one R b i g = (g1, Inr v)"
      and us: "generate_list R b is g1 = (g', Inr us)" and vs: "vs = v # us"
    by (auto simp: bindS_Inr)
  from v obtain t g2 where t: "(case t of Crossover \<Rightarrow> generate_crossover_variant R b i
      | Threshold \<Rightarrow> generate_threshold_variant R b i) g2 = (g1, Inr v)"
    unfolding generate_one_def bindS_Inr by blast
  have "definition_ok v \<and> (bounds_usable b \<longrightarrow> validate_definition v = Inr ())"
  proof (cases t)
    case Crossover
    with t crossover_ok [OF _ assms(2), of R i g2 g1 v] show ?thesis by simp
  next
    case Threshold
    with t threshold_ok [OF _ assms(2), of R i g2 g1 v] show ?thesis by simp
  qed
  with Cons.IH [OF us] vs show ?case by simp
qed simp

end
