(* ===== verification/Optimize_Properties.thy ===== *)
theory Optimize_Properties
  imports Optimize Generate Backtest_Properties
begin

text \<open>
  What the optimizer promises: the search space and the definitions made from it, the ranking of
  variants, the choice of parameters per window, and the definitions the generator makes.
\<close>

section \<open>Parameters\<close>

lemma indicator_ok_fixed:
  assumes "indicator_ok i" and "map fst ps = map fst (ic_params i)" and "\<And>k v. (k, v) \<in> set ps \<Longrightarrow> \<exists>x. v = Fixed x"
  shows "indicator_ok (i\<lparr>ic_params := ps\<rparr>)"
  using assms(1,2) by (auto simp: indicator_ok_def dest!: assms(3))

text \<open>C33: A trial turns into a definition that can be run. For a definition Pydantic accepted, the
  suggested values are one per tunable parameter, under keys that never collide; putting them in
  succeeds and gives an accepted definition with nothing left to tune, in which exactly the tunable
  parameters are replaced, each by the value suggested for it, inside its bounds, and everything else
  is as before. Optuna is assumed to suggest values between the bounds it is given.\<close>

theorem search_space_round_trip:
  assumes ok: "definition_ok d" and trial: "trial_in_bounds T"
    and suggested: "suggest_params T (build_search_space d) = Inr vs"
  shows "distinct (map spec_key (build_search_space d)) \<and> fst ` set vs = spec_key ` set (build_search_space d) \<and>
    (\<exists>d'. materialize_definition d vs = Inr d' \<and> definition_ok d' \<and> build_search_space d' = [] \<and>
      d' = d\<lparr>sd_indicators := sd_indicators d'\<rparr> \<and>
      list_all2 (\<lambda>i i'. ic_name i' = ic_name i \<and> ic_alias i' = ic_alias i \<and>
        list_all2 (tuned vs (ic_alias i)) (ic_params i) (ic_params i')) (sd_indicators d) (sd_indicators d'))"
proof -
  let ?f = "\<lambda>i. i\<lparr>ic_params := map (override_param vs (ic_alias i)) (ic_params i)\<rparr>"
  let ?d = "d\<lparr>sd_indicators := map ?f (sd_indicators d)\<rparr>"
  have inds: "list_all indicator_ok (sd_indicators d)" using ok by (simp add: definition_ok_def)
  have tuned: "tuned vs (ic_alias i) p (override_param vs (ic_alias i) p)"
    if "i \<in> set (sd_indicators d)" "p \<in> set (ic_params i)" for i p
    by (rule override_tuned [OF ok suggested trial that])
  then have fixed: "\<exists>x. snd (override_param vs (ic_alias i) p) = Fixed x \<and> fst (override_param vs (ic_alias i) p) = fst p"
    if "i \<in> set (sd_indicators d)" "p \<in> set (ic_params i)" for i p
    using tuned [OF that] by (auto simp: tuned_def split: param_value.splits)
  have "indicator_ok (?f i)" if i: "i \<in> set (sd_indicators d)" for i
  proof -
    have "map fst (map (override_param vs (ic_alias i)) (ic_params i)) = map fst (ic_params i)"
      using fixed [OF i] by auto
    moreover have "indicator_ok i" using inds i by (simp add: list_all_iff)
    moreover have "\<exists>x. v = Fixed x" if "(k, v) \<in> set (map (override_param vs (ic_alias i)) (ic_params i))" for k v
    proof -
      from that obtain p where "p \<in> set (ic_params i)" "override_param vs (ic_alias i) p = (k, v)" by auto
      with fixed [OF i this(1)] show ?thesis by auto
    qed
    ultimately show ?thesis by (intro indicator_ok_fixed)
  qed
  then have "definition_ok ?d"
    using ok by (simp add: definition_ok_def list_all_iff check_unique_aliases_iff o_def)
  moreover have "specs_of (?f i) = []" if i: "i \<in> set (sd_indicators d)" for i
  proof -
    have False if "s \<in> set (specs_of (?f i))" for s
    proof -
      from that obtain p where "p \<in> set (ic_params i)"
          "override_param vs (ic_alias i) p = (ps_param_name s, Range (ps_param_range s))"
        by (auto simp: specs_of_iff)
      with fixed [OF i this(1)] show False by simp
    qed
    then show ?thesis by (cases "specs_of (?f i)") auto
  qed
  then have "build_search_space ?d = []" by (simp add: build_search_space_def)
  moreover have "list_all2 (\<lambda>i i'. ic_name i' = ic_name i \<and> ic_alias i' = ic_alias i \<and>
      list_all2 (tuned vs (ic_alias i)) (ic_params i) (ic_params i')) (sd_indicators d) (map ?f (sd_indicators d))"
    using tuned by (simp add: list_all2_map2 list_all2_same)
  ultimately show ?thesis
    using materialize_eq [OF inds, of vs] search_space_keys_distinct [OF ok]
      suggest_params_lookup(1) [OF suggested search_space_keys_distinct [OF ok]]
    by (intro conjI exI [of _ ?d]) simp_all
qed

definition tunable_strategy :: strategy_definition where
  "tunable_strategy = sample_strategy\<lparr>sd_indicators := [\<lparr>ic_name = ''ema'', ic_alias = ''fast'',
     ic_params = [(''period'', Range \<lparr>pr_default = IntN 5, pr_min = IntN 2, pr_max = IntN 9, pr_step = None\<rparr>)]\<rparr>]\<rparr>"

definition lowest_trial :: optuna_trial where
  "lowest_trial = \<lparr>tr_suggest_int = (\<lambda>k lo hi st. if lo \<le> hi then Inr lo else Inl (ValueError ''low > high'')),
     tr_suggest_float = (\<lambda>k lo hi st. if lo \<le> hi then Inr lo else Inl (ValueError ''low > high''))\<rparr>"

lemma lowest_trial_in_bounds: "trial_in_bounds lowest_trial"
  by (auto simp: trial_in_bounds_def lowest_trial_def dest: fl_le_noNaN)

theorem search_space_round_trip_witness:
  "\<exists>d'. materialize_definition tunable_strategy [(''fast.period'', IntN 2)] = Inr d' \<and> build_search_space d' = [] \<and>
     definition_ok d'"
proof -
  have ok: "definition_ok tunable_strategy"
    using sample_definition_ok
    by (simp add: definition_ok_def tunable_strategy_def sample_strategy_def indicator_ok_def check_bounds_def
        check_unique_aliases_iff num_less_def num_le_def exact_value_def)
  have s: "suggest_params lowest_trial (build_search_space tunable_strategy) = Inr [(''fast.period'', IntN 2)]"
    by (simp add: build_search_space_def specs_of_def tunable_strategy_def List.map_filter_simps suggest_params_def
        suggest_value_def is_integer_range_def is_whole_def py_int_def lowest_trial_def spec_key_def param_key_def put_def)
  from search_space_round_trip [OF ok lowest_trial_in_bounds s] show ?thesis by blast
qed

section \<open>Ranking\<close>

text \<open>C34: Variants come back best first. The result of \<open>evaluate_variants\<close> is a reordering of the variants
  with their backtests; every score is a number, never NaN, and no variant scores better than one before
  it; variants with equal scores keep their order.\<close>

theorem variants_ranked:
  assumes "evaluate_variants parse L N variants df metric max_workers args = Inr ranked"
  shows "\<exists>results. run_backtests_parallel L N variants df max_workers args = Inr results \<and>
    mset ranked = mset (zip variants results) \<and>
    sorted_wrt (\<lambda>p q. \<exists>a b. score_from_result parse (snd p) metric = Inr a \<and>
       score_from_result parse (snd q) metric = Inr b \<and> b \<le> a) ranked \<and>
    (\<forall>k. filter (\<lambda>p. score_from_result parse (snd p) metric = Inr k) ranked =
       filter (\<lambda>p. score_from_result parse (snd p) metric = Inr k) (zip variants results))"
proof -
  let ?f = "\<lambda>p :: strategy_definition \<times> backtest_result. score_from_result parse (snd p) metric"
  from assms obtain results where results: "run_backtests_parallel L N variants df max_workers args = Inr results"
      and sort: "sort_by_score ?f (zip variants results) = Inr ranked"
    by (auto simp: evaluate_variants_def py_simps case_prod_unfold)
  have "mset ranked = mset (zip variants results)" and "sorted_wrt (\<lambda>p q. \<exists>a b. ?f p = Inr a \<and> ?f q = Inr b \<and> b \<le> a) ranked"
    and "filter (\<lambda>p. ?f p = Inr k) ranked = filter (\<lambda>p. ?f p = Inr k) (zip variants results)" for k
    by (rule sort_by_score_ok [OF sort]; rule score_not_nan; assumption)+
  with results show ?thesis by blast
qed

lemma sample_one_backtest:
  obtains r where "backtest sample_lib sample_numlib sample_strategy sample_frame sample_args = Inr r"
    and "score_from_result (\<lambda>_. None) r (MetricName ''initial_capital'') = Inr (Fin 800)"
proof -
  from sample_backtest obtain r where "backtest sample_lib sample_numlib sample_strategy sample_frame sample_args = Inr r"
      "br_initial_capital r = Fin 800" by blast
  moreover from this(2) have "score_from_result (\<lambda>_. None) r (MetricName ''initial_capital'') = Inr (Fin 800)"
    by (simp add: score_from_result_def result_attributes_def float_attribute_def py_float_def is_nan_def)
  ultimately show thesis using that by blast
qed

theorem variants_ranked_witness:
  "\<exists>ranked results. evaluate_variants (\<lambda>_. None) sample_lib sample_numlib [sample_strategy, sample_strategy] sample_frame
     (MetricName ''initial_capital'') None sample_args = Inr ranked \<and>
     mset ranked = mset (zip [sample_strategy, sample_strategy] results)"
proof -
  obtain r where r: "backtest sample_lib sample_numlib sample_strategy sample_frame sample_args = Inr r"
      "score_from_result (\<lambda>_. None) r (MetricName ''initial_capital'') = Inr (Fin 800)"
    by (rule sample_one_backtest)
  then have "\<exists>ranked. evaluate_variants (\<lambda>_. None) sample_lib sample_numlib [sample_strategy, sample_strategy] sample_frame
     (MetricName ''initial_capital'') None sample_args = Inr ranked"
    by (simp add: evaluate_variants_def run_backtests_parallel_def run_one_def init_worker_def sort_by_score_def)
  then obtain ranked where "evaluate_variants (\<lambda>_. None) sample_lib sample_numlib [sample_strategy, sample_strategy]
      sample_frame (MetricName ''initial_capital'') None sample_args = Inr ranked" ..
  from variants_ranked [OF this] this show ?thesis by blast
qed

section \<open>The search\<close>


definition sample_optuna :: optuna where
  "sample_optuna = \<lparr>op_trials = (\<lambda>n timeout. replicate (nat n) lowest_trial),
     op_best_params = (\<lambda>st. case filter (\<lambda>(p, v). \<forall>(p', v') \<in> set st. v' \<le> v) st of
        [] \<Rightarrow> Inl (ValueError ''No trials are completed yet.'') | (p, v) # _ \<Rightarrow> Inr p)\<rparr>"


definition sample_libs :: libs where
  "sample_libs = \<lparr>li_parse = (\<lambda>_. None), li_ext = sample_lib, li_num = sample_numlib\<rparr>"

definition sample_search :: search_args where
  "sample_search = \<lparr>sa_metric = MetricName ''initial_capital'', sa_n_trials = 2, sa_timeout = None\<rparr>"


text \<open>Windows without candles are dropped one by one, also all of them. When the data has windows but
  each lacks candles in its training or its test slice, \<open>optimize\<close> does not raise: it returns a result
  without windows, whose mean scores are those of an empty list.\<close>

theorem empty_windows_are_dropped:
  assumes "generate_walk_forward_windows (fr_index df) train_period test_period step anchored = Some (Inr ws)"
    and "ws \<noteq> []"
    and "\<And>w. w \<in> set ws \<Longrightarrow> fr_index (slice_between (wf_train_start w) (wf_train_end w) df) = [] \<or>
      fr_index (slice_between (wf_test_start w) (wf_test_end w) df) = []"
  shows "optimize Y Q d df train_period test_period step anchored sa args =
      Some (Inr \<lparr>or_metric = sa_metric sa, or_windows = []\<rparr>) \<and>
    mean_out_of_sample_score Y \<lparr>or_metric = sa_metric sa, or_windows = []\<rparr> = Inr (nl_mean (li_num Y) [])"
proof -
  have "mapE (optimize_window Y Q d df sa args) ws = Inr (map (\<lambda>_. None) ws)"
    using assms(3) by (intro mapE_all_Inr) (simp add: optimize_window_def Let_def)
  moreover have "List.map_filter (\<lambda>r. r) (map (\<lambda>_. None) ws) = ([] :: window_optimization_result list)"
    by (simp add: List.map_filter_def filter_empty_conv)
  ultimately show ?thesis
    using assms(1,2) by (simp add: optimize_def mean_out_of_sample_score_def)
qed

definition gap_frame :: frame where
  "gap_frame = \<lparr>fr_index = [0, 100], fr_columns = fr_columns sample_frame\<rparr>"

lemma gap_windows: "generate_walk_forward_windows [0, 100] 10 10 (Some 50) False = Some (Inr
    [\<lparr>wf_train_start = 0, wf_train_end = 10, wf_test_start = 10, wf_test_end = 20\<rparr>,
     \<lparr>wf_train_start = 50, wf_train_end = 60, wf_test_start = 60, wf_test_end = 70\<rparr>])"
  by (simp add: generate_walk_forward_windows_def wf_loop.simps time_add_def next_train_def)

theorem empty_windows_are_dropped_witness:
  "optimize sample_libs (\<lambda>_. sample_optuna) sample_strategy gap_frame 10 10 (Some 50) False sample_search sample_args =
     Some (Inr \<lparr>or_metric = MetricName ''initial_capital'', or_windows = []\<rparr>)"
proof -
  let ?ws = "[\<lparr>wf_train_start = 0, wf_train_end = 10, wf_test_start = 10, wf_test_end = 20\<rparr>,
     \<lparr>wf_train_start = 50, wf_train_end = 60, wf_test_start = 60, wf_test_end = 70\<rparr>] :: wf_window list"
  have idx: "fr_index gap_frame = [0, 100]" by (simp add: gap_frame_def)
  have gen: "generate_walk_forward_windows (fr_index gap_frame) 10 10 (Some 50) False = Some (Inr ?ws)"
    unfolding idx by (rule gap_windows)
  have none: "fr_index (slice_between (wf_train_start w) (wf_train_end w) gap_frame) = [] \<or>
      fr_index (slice_between (wf_test_start w) (wf_test_end w) gap_frame) = []" if "w \<in> set ?ws" for w
    using that by (auto simp: slice_between_index idx)
  from empty_windows_are_dropped [OF gen _ none, of sample_libs "\<lambda>_. sample_optuna" sample_strategy sample_search sample_args]
  show ?thesis by (simp add: sample_search_def)
qed

section \<open>Generated definitions\<close>

text \<open>C35: Everything the generator returns can be run. Whatever the random numbers, \<open>n\<close> requested variants
  that come back are \<open>n\<close> definitions every Pydantic check accepts; when the bounds name registered
  indicators with one output and parameters they have, each also passes the semantic validation.\<close>

theorem generated_variants_are_valid:
  assumes "generate_variants R b n g = (g', Inr vs)" and "bounds_ok b"
  shows "int (length vs) = max 0 n \<and> (\<forall>v \<in> set vs. definition_ok v \<and>
    (bounds_usable b \<longrightarrow> validate_definition v = Inr ()))"
proof -
  from assms(1) have "generate_list R b [0..<nat n] g = (g', Inr vs)"
    by (simp add: generate_variants_def split: if_splits)
  from generate_list_ok [OF this assms(2)] show ?thesis by auto
qed

definition sample_bounds :: generation_bounds where
  "sample_bounds = \<lparr>gb_crossover_indicators = [], gb_threshold_indicators = [\<lparr>ib_name = ''rsi'',
       ib_param_ranges = [(''period'', IntN 6, IntN 22, None)], ib_threshold_range = Some (Fin 0, Fin 64)\<rparr>],
     gb_stop_loss_pct_range = (Fin (1 / 4), Fin (1 / 4)), gb_take_profit_pct_range = (Fin (1 / 4), Fin (1 / 4)),
     gb_trailing_stop_pct_range = None, gb_trailing_stop_probability = Fin 0\<rparr>"

definition zero_rng :: "unit rng" where
  "zero_rng = \<lparr>rg_below = (\<lambda>n g. (g, 0)), rg_random = (\<lambda>g. (g, Fin 0))\<rparr>"

lemma sample_generated: "\<exists>v. generate_variants zero_rng sample_bounds 1 () = ((), Inr [v])"
proof -
  have i: "make_indicator \<lparr>ib_name = ''rsi'', ib_param_ranges = [(''period'', IntN 6, IntN 22, None)],
      ib_threshold_range = Some (Fin 0, Fin 64)\<rparr> ''rsi_0'' = Inr \<lparr>ic_name = ''rsi'', ic_alias = ''rsi_0'', ic_params =
      [(''period'', Range \<lparr>pr_default = IntN 14, pr_min = IntN 6, pr_max = IntN 22, pr_step = None\<rparr>)]\<rparr>"
    by (simp add: make_indicator_def ranged_params_def ranged_param_def num_sub_def num_half_def py_float_def
        float_of_int_def is_int_def round_int_def alias_is_identifier_def isidentifier_def is_letter_def is_digit_def
        check_bounds_def num_less_def num_le_def exact_value_def fl_eval)
  have u: "uniform zero_rng ab () = ((), Inr (fst ab + (snd ab - fst ab) * Fin 0))" for ab
    by (simp add: uniform_def random_float_def zero_rng_def st_simps)
  have r: "random_risk_management zero_rng sample_bounds () = ((), Inr \<lparr>rm_stop_loss_pct = FloatN (Fin (1 / 4)),
      rm_take_profit_pct = FloatN (Fin (1 / 4)), rm_trailing_stop_pct = None\<rparr>)"
    by (simp add: random_risk_management_def u st_simps sample_bounds_def round_digits_def check_risk_def in_open_unit_def
        num_less_def exact_value_def fl_eval)
  have d: "decimal 0 = ''0''" by code_simp
  have t: "templates_of sample_bounds = [Threshold]" "gb_threshold_indicators sample_bounds =
      [\<lparr>ib_name = ''rsi'', ib_param_ranges = [(''period'', IntN 6, IntN 22, None)], ib_threshold_range = Some (Fin 0, Fin 64)\<rparr>]"
    by (simp_all add: templates_of_def sample_bounds_def)
  have c2: "choice zero_rng [Threshold] () = ((), Inr Threshold)" "choice zero_rng (gb_threshold_indicators sample_bounds) () =
      ((), Inr \<lparr>ib_name = ''rsi'', ib_param_ranges = [(''period'', IntN 6, IntN 22, None)], ib_threshold_range = Some (Fin 0, Fin 64)\<rparr>)"
    by (simp_all add: choice_def zero_rng_def element_def t)
  have "\<exists>v. generate_threshold_variant zero_rng sample_bounds 0 () = ((), Inr v)"
    using i by (simp add: generate_threshold_variant_def st_simps c2 u r d Let_def check_unique_aliases_def)
  then show ?thesis
    by (auto simp: generate_variants_def generate_one_def st_simps t(1) c2(1))
qed

theorem generated_variants_are_valid_witness:
  "\<exists>v. generate_variants zero_rng sample_bounds 1 () = ((), Inr [v]) \<and> definition_ok v \<and> validate_definition v = Inr ()"
proof -
  obtain v where v: "generate_variants zero_rng sample_bounds 1 () = ((), Inr [v])" using sample_generated by blast
  have ok: "bounds_ok sample_bounds" by (simp add: bounds_ok_def sample_bounds_def)
  have "bounds_usable sample_bounds"
    by (simp add: bounds_usable_def sample_bounds_def usable_def find_handler_def indicator_registry_def)
  with generated_variants_are_valid [OF v ok] v show ?thesis by auto
qed

end
