(* ===== verification/Api_Repository.thy ===== *)
theory Api_Repository
  imports Tables Backtest
begin

text \<open>
  The three repositories of the API, \<^verbatim>\<open>freqpanda_api/repositories/\<close>: strategies, jobs and results, as
  statements on the shared database. Random ids and the server's \<^verbatim>\<open>now()\<close> are arguments; a row is
  returned with its key. A \<^verbatim>\<open>jsonb\<close> column refuses a value with an infinity or a NaN in it, a
  \<^verbatim>\<open>double precision\<close> column does not.
\<close>

section \<open>What fits into a json column\<close>

definition json_column :: "jval \<Rightarrow> jval res" where
  "json_column v = (if json_ok v then Inr v else Inl (DatabaseError ''invalid input syntax for type json''))"

definition definition_column :: "strategy_definition \<Rightarrow> strategy_definition res" where
  "definition_column d = map_res (\<lambda>_. d) (json_column (model_dump d))"

section \<open>Strategies\<close>

definition name_taken :: "string \<Rightarrow> string \<Rightarrow> string \<Rightarrow> database \<Rightarrow> bool" where
  "name_taken k owner name d \<longleftrightarrow>
     (\<exists>(k', s) \<in> set (db_strategies d). k' \<noteq> k \<and> sr_created_by s = owner \<and> sr_name s = name)"

definition insert_strategy :: "string \<Rightarrow> strategy_record \<Rightarrow> database \<Rightarrow> (database \<times> (string \<times> strategy_record)) res" where
  "insert_strategy k s d =
     (if k \<in> fst ` set (db_strategies d) \<or> name_taken k (sr_created_by s) (sr_name s) d then unique_violation
      else Inr (d\<lparr>db_strategies := put k s (db_strategies d)\<rparr>, (k, s)))"

definition create_strategy :: "string \<Rightarrow> time \<Rightarrow> strategy_definition \<Rightarrow> string \<Rightarrow>
    (database connection, string \<times> strategy_record) stm" where
  "create_strategy uuid now definition created_by =
     bindS (execute (\<lambda>d. bindE (definition_column definition) (\<lambda>stored. insert_strategy (new_id ''strat'' uuid)
       \<lparr>sr_name = sd_name definition, sr_definition = stored, sr_created_by = created_by,
        sr_created_at = now, sr_updated_at = now\<rparr> d))) (\<lambda>row. seqS commit (returnS row))"

definition get_strategy :: "string \<Rightarrow> string \<Rightarrow> (database connection, (string \<times> strategy_record) option) stm" where
  "get_strategy strategy_id created_by =
     query (\<lambda>d. find_owned sr_created_by (db_strategies d) strategy_id created_by)"

definition list_strategies :: "string \<Rightarrow> (database connection, (string \<times> strategy_record) list) stm" where
  "list_strategies created_by =
     query (\<lambda>d. newest_first sr_created_at (owned_by sr_created_by created_by (db_strategies d)))"

definition update_strategy :: "time \<Rightarrow> string \<Rightarrow> string \<Rightarrow> strategy_definition \<Rightarrow>
    (database connection, (string \<times> strategy_record) option) stm" where
  "update_strategy now strategy_id created_by definition =
     bindS (execute (\<lambda>d. bindE (definition_column definition) (\<lambda>_.
         case find_owned sr_created_by (db_strategies d) strategy_id created_by of
         None \<Rightarrow> Inr (d, None)
       | Some (k, s) \<Rightarrow>
           if name_taken k created_by (sd_name definition) d then unique_violation
           else (let s' = s\<lparr>sr_name := sd_name definition, sr_definition := definition, sr_updated_at := now\<rparr> in
             Inr (d\<lparr>db_strategies := put k s' (db_strategies d)\<rparr>, Some (k, s')))))) (\<lambda>row.
     seqS commit (returnS row))"

definition delete_strategy :: "string \<Rightarrow> string \<Rightarrow> (database connection, bool) stm" where
  "delete_strategy strategy_id created_by =
     bindS (execute (\<lambda>d. case find_owned sr_created_by (db_strategies d) strategy_id created_by of
         None \<Rightarrow> Inr (d, False)
       | Some _ \<Rightarrow> Inr (delete_strategy_rows strategy_id d, True))) (\<lambda>deleted.
     seqS commit (returnS deleted))"

section \<open>Jobs\<close>

definition insert_job :: "string \<Rightarrow> job_record \<Rightarrow> database \<Rightarrow> (database \<times> (string \<times> job_record)) res" where
  "insert_job k j d =
     (if k \<in> fst ` set (db_jobs d) then unique_violation
      else if jr_strategy_id j \<notin> fst ` set (db_strategies d) then foreign_key_violation
      else Inr (d\<lparr>db_jobs := put k j (db_jobs d)\<rparr>, (k, j)))"

definition create_job :: "string \<Rightarrow> time \<Rightarrow> job_type \<Rightarrow> string \<Rightarrow> payload \<Rightarrow> string \<Rightarrow>
    (database connection, string \<times> job_record) stm" where
  "create_job uuid now job_type strategy_id payload created_by =
     bindS (execute (\<lambda>d. bindE (json_column (VDict payload)) (\<lambda>_. insert_job (new_id ''job'' uuid)
       \<lparr>jr_job_type = job_type, jr_status = Pending, jr_strategy_id = strategy_id, jr_payload = payload,
        jr_error = None, jr_created_by = created_by, jr_created_at = now, jr_started_at = None,
        jr_finished_at = None\<rparr> d))) (\<lambda>row. seqS commit (returnS row))"

definition get_job :: "string \<Rightarrow> string \<Rightarrow> (database connection, (string \<times> job_record) option) stm" where
  "get_job job_id created_by = query (\<lambda>d. find_owned jr_created_by (db_jobs d) job_id created_by)"

definition get_job_unscoped :: "string \<Rightarrow> (database connection, job_record option) stm" where
  "get_job_unscoped job_id = query (\<lambda>d. map_of (db_jobs d) job_id)"

definition jobs_of :: "string \<Rightarrow> job_type \<Rightarrow> string \<Rightarrow> database \<Rightarrow> (string \<times> job_record) list" where
  "jobs_of strategy_id job_type created_by d = newest_first jr_created_at
     (filter (\<lambda>(k, j). jr_strategy_id j = strategy_id \<and> jr_job_type j = job_type \<and> jr_created_by j = created_by) (db_jobs d))"

definition list_jobs :: "string \<Rightarrow> job_type \<Rightarrow> string \<Rightarrow> (database connection, (string \<times> job_record) list) stm" where
  "list_jobs strategy_id job_type created_by = query (jobs_of strategy_id job_type created_by)"

text \<open>\<^verbatim>\<open>update jobs set ... where id = ...\<close>\<close>

definition set_job :: "string \<Rightarrow> (job_record \<Rightarrow> job_record) \<Rightarrow> database \<Rightarrow> database" where
  "set_job job_id f d = (case map_of (db_jobs d) job_id of
      None \<Rightarrow> d | Some j \<Rightarrow> d\<lparr>db_jobs := put job_id (f j) (db_jobs d)\<rparr>)"

definition mark_running :: "time \<Rightarrow> string \<Rightarrow> (database connection, unit) stm" where
  "mark_running now job_id =
     seqS (dbwrite (set_job job_id (\<lambda>j. j\<lparr>jr_status := Running, jr_started_at := Some now\<rparr>))) commit"

definition mark_completed :: "time \<Rightarrow> string \<Rightarrow> (database connection, unit) stm" where
  "mark_completed now job_id =
     seqS (dbwrite (set_job job_id (\<lambda>j. j\<lparr>jr_status := Completed, jr_finished_at := Some now\<rparr>))) commit"

definition mark_failed :: "time \<Rightarrow> string \<Rightarrow> pyerr \<Rightarrow> (database connection, unit) stm" where
  "mark_failed now job_id error =
     seqS (dbwrite (set_job job_id (\<lambda>j. j\<lparr>jr_status := Failed, jr_error := Some error, jr_finished_at := Some now\<rparr>)))
       commit"

section \<open>Results\<close>

definition upsert_backtest_row :: "string \<Rightarrow> backtest_row \<Rightarrow> database \<Rightarrow> (database \<times> unit) res" where
  "upsert_backtest_row k r d = (case map_of (db_backtest_results d) k of
      Some old \<Rightarrow> Inr (d\<lparr>db_backtest_results := put k (old\<lparr>bt_metrics := bt_metrics r, bt_trades := bt_trades r,
          bt_equity_curve := bt_equity_curve r\<rparr>) (db_backtest_results d)\<rparr>, ())
    | None \<Rightarrow>
        if k \<notin> fst ` set (db_jobs d) \<or> bt_strategy_id r \<notin> fst ` set (db_strategies d) then foreign_key_violation
        else Inr (d\<lparr>db_backtest_results := put k r (db_backtest_results d)\<rparr>, ()))"

definition backtest_row_of :: "numlib \<Rightarrow> time \<Rightarrow> string \<Rightarrow> backtest_result \<Rightarrow> backtest_row" where
  "backtest_row_of N now strategy_id r = \<lparr>bt_strategy_id = strategy_id,
     bt_metrics = json_safe (VDict (metrics_dict N r)),
     bt_trades = json_safe (VList (map VDict (trade_records r))),
     bt_equity_curve = json_safe (VList (map VDict (equity_curve_records r))), bt_created_at = now\<rparr>"

definition save_backtest_result :: "numlib \<Rightarrow> time \<Rightarrow> string \<Rightarrow> string \<Rightarrow> backtest_result \<Rightarrow>
    (database connection, unit) stm" where
  "save_backtest_result N now job_id strategy_id r =
     (let row = backtest_row_of N now strategy_id r in
      seqS (execute (\<lambda>d. bindE (json_column (bt_metrics row)) (\<lambda>_. bindE (json_column (bt_trades row)) (\<lambda>_.
          bindE (json_column (bt_equity_curve row)) (\<lambda>_. upsert_backtest_row job_id row d))))) commit)"

definition get_backtest_result :: "string \<Rightarrow> (database connection, backtest_row option) stm" where
  "get_backtest_result job_id = query (\<lambda>d. map_of (db_backtest_results d) job_id)"

text \<open>\<^verbatim>\<open>jobs left join results\<close>: each job with what its result has, if there is one.\<close>

definition list_backtest_summaries :: "string \<Rightarrow> string \<Rightarrow>
    (database connection, (string \<times> job_record \<times> jval option) list) stm" where
  "list_backtest_summaries strategy_id created_by = query (\<lambda>d. map (\<lambda>(k, j).
     (k, j, map_option bt_metrics (map_of (db_backtest_results d) k))) (jobs_of strategy_id BacktestJob created_by d))"

definition upsert_optimization_row :: "string \<Rightarrow> optimization_row \<Rightarrow> database \<Rightarrow> (database \<times> unit) res" where
  "upsert_optimization_row k r d = (case map_of (db_optimization_results d) k of
      Some old \<Rightarrow> Inr (d\<lparr>db_optimization_results := put k (r\<lparr>ot_strategy_id := ot_strategy_id old,
          ot_created_at := ot_created_at old\<rparr>) (db_optimization_results d)\<rparr>, ())
    | None \<Rightarrow>
        if k \<notin> fst ` set (db_jobs d) \<or> ot_strategy_id r \<notin> fst ` set (db_strategies d) then foreign_key_violation
        else Inr (d\<lparr>db_optimization_results := put k r (db_optimization_results d)\<rparr>, ()))"

definition save_optimization_result :: "time \<Rightarrow> string \<Rightarrow> string \<Rightarrow> string \<Rightarrow> jval \<Rightarrow> fl \<Rightarrow> fl \<Rightarrow> jval \<Rightarrow> jval \<Rightarrow>
    (database connection, unit) stm" where
  "save_optimization_result now job_id strategy_id metric windows mean_in mean_out params definition =
     (let row = \<lparr>ot_strategy_id = strategy_id, ot_metric = metric, ot_windows = json_safe windows,
          ot_mean_in_sample_score = mean_in, ot_mean_out_of_sample_score = mean_out,
          ot_final_params = json_safe params, ot_final_definition = json_safe definition, ot_created_at = now\<rparr> in
      seqS (execute (\<lambda>d. bindE (json_column (ot_windows row)) (\<lambda>_. bindE (json_column (ot_final_params row)) (\<lambda>_.
          bindE (json_column (ot_final_definition row)) (\<lambda>_. upsert_optimization_row job_id row d))))) commit)"

definition get_optimization_result :: "string \<Rightarrow> (database connection, optimization_row option) stm" where
  "get_optimization_result job_id = query (\<lambda>d. map_of (db_optimization_results d) job_id)"

definition list_optimization_summaries :: "string \<Rightarrow> string \<Rightarrow>
    (database connection, (string \<times> job_record \<times> (fl \<times> fl) option) list) stm" where
  "list_optimization_summaries strategy_id created_by = query (\<lambda>d. map (\<lambda>(k, j).
     (k, j, map_option (\<lambda>r. (ot_mean_in_sample_score r, ot_mean_out_of_sample_score r))
        (map_of (db_optimization_results d) k))) (jobs_of strategy_id OptimizationJob created_by d))"

end
