(* ===== verification/Api.thy ===== *)
theory Api
  imports Api_Repository Exec_Repository Validation Settings
begin

text \<open>
  The HTTP interface, \<^verbatim>\<open>freqpanda_api/\<close>: API keys, the request models with their checks,
  and one function per route. A route works on the connection of its request and returns what the
  response model keeps, or raises; \<open>http_status\<close> is the status the client sees. Parsing a request into
  its model, the header lookup and sending the response are the framework. SHA-256 is the parameter
  \<open>sha\<close>, putting a job id on the queue the parameter \<open>enqueue\<close>.
\<close>

section \<open>Keys\<close>

definition is_ascii :: "string \<Rightarrow> bool" where
  "is_ascii s \<longleftrightarrow> (\<forall>c \<in> set s. (of_char c :: nat) < 128)"

text \<open>\<^verbatim>\<open>hmac.compare_digest\<close> on two texts takes ASCII only.\<close>

definition compare_digest :: "string \<Rightarrow> string \<Rightarrow> bool res" where
  "compare_digest a b = (if is_ascii a \<and> is_ascii b then Inr (a = b) else Inl TypeError)"

fun match_key :: "(string \<Rightarrow> string) \<Rightarrow> string list \<Rightarrow> string \<Rightarrow> string res" where
  "match_key sha [] key = Inl (HTTPException 401 ''Invalid API key'')"
| "match_key sha (k # ks) key =
     bindE (compare_digest k key) (\<lambda>same. if same then Inr (sha k) else match_key sha ks key)"

definition require_api_key :: "(string \<Rightarrow> string) \<Rightarrow> string list \<Rightarrow> string \<Rightarrow> string res" where
  "require_api_key sha api_keys x_api_key =
     (if api_keys = [] then Inl (HTTPException 500 ''No API keys configured on the server (set API_KEYS).'')
      else match_key sha api_keys x_api_key)"

definition http_status :: "pyerr \<Rightarrow> int" where
  "http_status e = (case e of HTTPException n _ \<Rightarrow> n | StrategyValidationError _ _ \<Rightarrow> 422 | _ \<Rightarrow> 500)"

section \<open>Requests\<close>

text \<open>A bound of a float field is checked by the comparison that refuses, so NaN passes.\<close>

record backtest_request =
  bq_exchange :: string
  bq_symbol :: string
  bq_timeframe :: string
  bq_start :: "time option"
  bq_end :: "time option"
  bq_initial_capital :: fl
  bq_fee_pct :: fl
  bq_slippage_pct :: fl

definition check_backtest_request :: "backtest_request \<Rightarrow> backtest_request res" where
  "check_backtest_request q =
     (if bq_fee_pct q < 0 then Inl (ValidationError ''fee_pct'')
      else if bq_slippage_pct q < 0 then Inl (ValidationError ''slippage_pct'') else Inr q)"

definition time_json :: "time option \<Rightarrow> jval" where
  "time_json t = (case t of None \<Rightarrow> VNone | Some x \<Rightarrow> VTime x)"

definition backtest_payload :: "backtest_request \<Rightarrow> payload" where
  "backtest_payload q =
     [(''exchange'', VStr (bq_exchange q)), (''symbol'', VStr (bq_symbol q)), (''timeframe'', VStr (bq_timeframe q)),
      (''start'', time_json (bq_start q)), (''end'', time_json (bq_end q)),
      (''initial_capital'', VFloat (bq_initial_capital q)), (''fee_pct'', VFloat (bq_fee_pct q)),
      (''slippage_pct'', VFloat (bq_slippage_pct q))]"

record optimization_request = backtest_request +
  oq_train_period_days :: fl
  oq_test_period_days :: fl
  oq_metric :: string
  oq_n_trials :: int
  oq_timeout_seconds :: "fl option"

definition check_optimization_request :: "optimization_request \<Rightarrow> optimization_request res" where
  "check_optimization_request q =
     (if oq_train_period_days q \<le> 0 then Inl (ValidationError ''train_period_days'')
      else if oq_test_period_days q \<le> 0 then Inl (ValidationError ''test_period_days'')
      else if oq_n_trials q \<le> 0 then Inl (ValidationError ''n_trials'')
      else if (case oq_timeout_seconds q of None \<Rightarrow> False | Some t \<Rightarrow> t \<le> 0) then Inl (ValidationError ''timeout_seconds'')
      else if bq_fee_pct q < 0 then Inl (ValidationError ''fee_pct'')
      else if bq_slippage_pct q < 0 then Inl (ValidationError ''slippage_pct'') else Inr q)"

definition optimization_payload :: "optimization_request \<Rightarrow> payload" where
  "optimization_payload q =
     [(''exchange'', VStr (bq_exchange q)), (''symbol'', VStr (bq_symbol q)), (''timeframe'', VStr (bq_timeframe q)),
      (''start'', time_json (bq_start q)), (''end'', time_json (bq_end q)),
      (''train_period_days'', VFloat (oq_train_period_days q)), (''test_period_days'', VFloat (oq_test_period_days q)),
      (''metric'', VStr (oq_metric q)), (''n_trials'', VInt (oq_n_trials q)),
      (''timeout_seconds'', case oq_timeout_seconds q of None \<Rightarrow> VNone | Some t \<Rightarrow> VFloat t),
      (''initial_capital'', VFloat (bq_initial_capital q)), (''fee_pct'', VFloat (bq_fee_pct q)),
      (''slippage_pct'', VFloat (bq_slippage_pct q))]"

record bot_create_request =
  bb_config :: bot_config
  bb_confirm_live :: bool

definition check_live_transition :: "bot_create_request \<Rightarrow> bot_create_request res" where
  "check_live_transition q =
     (if bc_mode (bb_config q) = ''live''
      then (if bc_credential_id (bb_config q) = None then Inl (ValidationError ''mode=live requires a credential_id'')
            else if \<not> bb_confirm_live q then Inl (ValidationError ''mode=live requires confirm_live=true'')
            else Inr q)
      else if bc_credential_id (bb_config q) \<noteq> None then Inl (ValidationError ''mode=paper must not have a credential_id'')
      else Inr q)"

definition check_bot_request :: "bot_create_request \<Rightarrow> bot_create_request res" where
  "check_bot_request q = (let b = bb_config q in
     if bc_mode b \<noteq> ''paper'' \<and> bc_mode b \<noteq> ''live'' then Inl (ValidationError ''mode'')
     else if bc_initial_capital b \<le> 0 then Inl (ValidationError ''initial_capital'')
     else if bc_fee_pct b < 0 then Inl (ValidationError ''fee_pct'')
     else if bc_slippage_pct b < 0 then Inl (ValidationError ''slippage_pct'')
     else if bc_max_drawdown_pct b \<le> 0 \<or> 1 \<le> bc_max_drawdown_pct b then Inl (ValidationError ''max_drawdown_pct'')
     else if bc_max_position_notional_pct b \<le> 0 then Inl (ValidationError ''max_position_notional_pct'')
     else if bc_max_price_deviation_pct b \<le> 0 then Inl (ValidationError ''max_price_deviation_pct'')
     else check_live_transition q)"

section \<open>Responses\<close>

record strategy_response =
  rs_id :: string
  rs_name :: string
  rs_definition :: strategy_definition
  rs_created_at :: time
  rs_updated_at :: time

definition strategy_to_response :: "string \<times> strategy_record \<Rightarrow> strategy_response" where
  "strategy_to_response ks = (case ks of (k, s) \<Rightarrow> \<lparr>rs_id = k, rs_name = sr_name s, rs_definition = sr_definition s,
     rs_created_at = sr_created_at s, rs_updated_at = sr_updated_at s\<rparr>)"

record job_response =
  rj_id :: string
  rj_job_type :: job_type
  rj_status :: job_status
  rj_strategy_id :: string
  rj_error :: "pyerr option"
  rj_created_at :: time
  rj_started_at :: "time option"
  rj_finished_at :: "time option"

definition job_to_response :: "string \<times> job_record \<Rightarrow> job_response" where
  "job_to_response kj = (case kj of (k, j) \<Rightarrow> \<lparr>rj_id = k, rj_job_type = jr_job_type j, rj_status = jr_status j,
     rj_strategy_id = jr_strategy_id j, rj_error = jr_error j, rj_created_at = jr_created_at j,
     rj_started_at = jr_started_at j, rj_finished_at = jr_finished_at j\<rparr>)"

record bot_response =
  rb_id :: string
  rb_config :: bot_config
  rb_desired_status :: string
  rb_status :: string
  rb_status_message :: "pyerr option"
  rb_created_at :: time
  rb_updated_at :: time

definition bot_to_response :: "string \<times> bot_record \<Rightarrow> bot_response" where
  "bot_to_response kb = (case kb of (k, b) \<Rightarrow> \<lparr>rb_id = k, rb_config = bot_config.truncate b,
     rb_desired_status = bo_desired_status b, rb_status = bo_status b, rb_status_message = bo_status_message b,
     rb_created_at = bo_created_at b, rb_updated_at = bo_updated_at b\<rparr>)"

text \<open>
  A backtest in full extends the job with its result, which is null until there is one; a summary has
  the job without its payload and the part of the result that fits into a list.
\<close>

record backtest_detail = job_response +
  rd_metrics :: "jval option"
  rd_trades :: "jval option"
  rd_equity_curve :: "jval option"

definition backtest_detail_of :: "string \<times> job_record \<Rightarrow> backtest_row option \<Rightarrow> backtest_detail" where
  "backtest_detail_of kj row = job_response.extend (job_to_response kj)
     \<lparr>rd_metrics = map_option bt_metrics row, rd_trades = map_option bt_trades row,
      rd_equity_curve = map_option bt_equity_curve row\<rparr>"

record job_summary =
  ru_job_id :: string
  ru_status :: job_status
  ru_created_at :: time
  ru_started_at :: "time option"
  ru_finished_at :: "time option"
  ru_error :: "pyerr option"

definition job_summary_of :: "string \<Rightarrow> job_record \<Rightarrow> job_summary" where
  "job_summary_of k j = \<lparr>ru_job_id = k, ru_status = jr_status j, ru_created_at = jr_created_at j,
     ru_started_at = jr_started_at j, ru_finished_at = jr_finished_at j, ru_error = jr_error j\<rparr>"

record backtest_summary = job_summary +
  ru_metrics :: "jval option"

definition backtest_summary_of :: "string \<times> job_record \<times> jval option \<Rightarrow> backtest_summary" where
  "backtest_summary_of row = (case row of (k, j, metrics) \<Rightarrow>
     job_summary.extend (job_summary_of k j) \<lparr>ru_metrics = metrics\<rparr>)"

record optimization_summary = job_summary +
  ru_mean_in_sample_score :: "fl option"
  ru_mean_out_of_sample_score :: "fl option"

definition optimization_summary_of :: "string \<times> job_record \<times> (fl \<times> fl) option \<Rightarrow> optimization_summary" where
  "optimization_summary_of row = (case row of (k, j, means) \<Rightarrow>
     job_summary.extend (job_summary_of k j)
       \<lparr>ru_mean_in_sample_score = map_option fst means, ru_mean_out_of_sample_score = map_option snd means\<rparr>)"

text \<open>What a client sees of a credential, and of the state, the trades and the events of a bot.\<close>

record credential_response =
  re_id :: string
  re_exchange_id :: string
  re_label :: string
  re_created_at :: time

definition credential_to_response :: "credential_summary \<Rightarrow> credential_response" where
  "credential_to_response c = \<lparr>re_id = cs_id c, re_exchange_id = cs_exchange_id c, re_label = cs_label c,
     re_created_at = cs_created_at c\<rparr>"

record bot_state_response =
  rt_equity :: fl
  rt_peak_equity :: fl
  rt_position :: "jval option"
  rt_last_price :: "fl option"
  rt_last_heartbeat_at :: "time option"
  rt_updated_at :: time

definition state_to_response :: "bot_state \<Rightarrow> bot_state_response" where
  "state_to_response s = \<lparr>rt_equity = bs_equity s, rt_peak_equity = bs_peak_equity s, rt_position = bs_position s,
     rt_last_price = bs_last_price s, rt_last_heartbeat_at = bs_last_heartbeat_at s, rt_updated_at = bs_updated_at s\<rparr>"

record bot_trade_response =
  rx_entry_time :: time
  rx_exit_time :: time
  rx_entry_price :: fl
  rx_exit_price :: fl
  rx_quantity :: fl
  rx_exit_reason :: string
  rx_net_pnl_pct :: fl
  rx_net_pnl_abs :: fl
  rx_entry_order_id :: "string option"
  rx_exit_order_id :: "string option"

definition trade_to_response :: "bot_trade \<Rightarrow> bot_trade_response" where
  "trade_to_response t = \<lparr>rx_entry_time = bx_entry_time t, rx_exit_time = bx_exit_time t,
     rx_entry_price = bx_entry_price t, rx_exit_price = bx_exit_price t, rx_quantity = bx_quantity t,
     rx_exit_reason = bx_exit_reason t, rx_net_pnl_pct = bx_net_pnl_pct t, rx_net_pnl_abs = bx_net_pnl_abs t,
     rx_entry_order_id = bx_entry_order_id t, rx_exit_order_id = bx_exit_order_id t\<rparr>"

record bot_event_response =
  rv_event_type :: string
  rv_message :: string
  rv_data :: "jval option"
  rv_created_at :: time

definition event_to_response :: "bot_event \<Rightarrow> bot_event_response" where
  "event_to_response e = \<lparr>rv_event_type = be_event_type e, rv_message = be_message e, rv_data = be_data e,
     rv_created_at = be_created_at e\<rparr>"

text \<open>\<^verbatim>\<open>if record is None: raise HTTPException(404)\<close>\<close>

definition or_404 :: "string \<Rightarrow> ('s, 'a option) stm \<Rightarrow> ('s, 'a) stm" where
  "or_404 what m = bindS m (\<lambda>x. case x of None \<Rightarrow> raiseS (HTTPException 404 what) | Some y \<Rightarrow> returnS y)"

section \<open>Strategies\<close>

definition post_strategy :: "string \<Rightarrow> time \<Rightarrow> strategy_definition \<Rightarrow> string \<Rightarrow> (database connection, strategy_response) stm" where
  "post_strategy uuid now definition created_by =
     bindS (liftS (validate_definition definition)) (\<lambda>_.
     mapS strategy_to_response (create_strategy uuid now definition created_by))"

definition list_strategies_route :: "string \<Rightarrow> (database connection, strategy_response list) stm" where
  "list_strategies_route created_by = mapS (map strategy_to_response) (list_strategies created_by)"

definition get_strategy_route :: "string \<Rightarrow> string \<Rightarrow> (database connection, strategy_response) stm" where
  "get_strategy_route strategy_id created_by =
     mapS strategy_to_response (or_404 ''Strategy not found'' (get_strategy strategy_id created_by))"

definition put_strategy :: "time \<Rightarrow> string \<Rightarrow> strategy_definition \<Rightarrow> string \<Rightarrow> (database connection, strategy_response) stm" where
  "put_strategy now strategy_id definition created_by =
     bindS (liftS (validate_definition definition)) (\<lambda>_.
     mapS strategy_to_response (or_404 ''Strategy not found'' (update_strategy now strategy_id created_by definition)))"

definition delete_strategy_route :: "string \<Rightarrow> string \<Rightarrow> (database connection, unit) stm" where
  "delete_strategy_route strategy_id created_by = bindS (delete_strategy strategy_id created_by) (\<lambda>deleted.
     if deleted then returnS () else raiseS (HTTPException 404 ''Strategy not found''))"

section \<open>Backtests and optimizations\<close>

definition start_job :: "(string \<Rightarrow> unit res) \<Rightarrow> string \<Rightarrow> time \<Rightarrow> job_type \<Rightarrow> payload \<Rightarrow> string \<Rightarrow> string \<Rightarrow>
    (database connection, job_response) stm" where
  "start_job enqueue uuid now job_type payload strategy_id created_by =
     bindS (or_404 ''Strategy not found'' (get_strategy strategy_id created_by)) (\<lambda>(k, s).
     bindS (create_job uuid now job_type k payload created_by) (\<lambda>(job_id, j).
     bindS (liftS (enqueue job_id)) (\<lambda>_. returnS (job_to_response (job_id, j)))))"

definition post_backtest :: "(string \<Rightarrow> unit res) \<Rightarrow> string \<Rightarrow> time \<Rightarrow> string \<Rightarrow> backtest_request \<Rightarrow> string \<Rightarrow>
    (database connection, job_response) stm" where
  "post_backtest enqueue uuid now strategy_id q created_by =
     start_job enqueue uuid now BacktestJob (backtest_payload q) strategy_id created_by"

definition post_optimization :: "(string \<Rightarrow> unit res) \<Rightarrow> string \<Rightarrow> time \<Rightarrow> string \<Rightarrow> optimization_request \<Rightarrow> string \<Rightarrow>
    (database connection, job_response) stm" where
  "post_optimization enqueue uuid now strategy_id q created_by =
     start_job enqueue uuid now OptimizationJob (optimization_payload q) strategy_id created_by"

definition list_backtests :: "string \<Rightarrow> string \<Rightarrow> (database connection, backtest_summary list) stm" where
  "list_backtests strategy_id created_by =
     bindS (or_404 ''Strategy not found'' (get_strategy strategy_id created_by)) (\<lambda>_.
     mapS (map backtest_summary_of) (list_backtest_summaries strategy_id created_by))"

definition list_optimizations :: "string \<Rightarrow> string \<Rightarrow> (database connection, optimization_summary list) stm" where
  "list_optimizations strategy_id created_by =
     bindS (or_404 ''Strategy not found'' (get_strategy strategy_id created_by)) (\<lambda>_.
     mapS (map optimization_summary_of) (list_optimization_summaries strategy_id created_by))"

definition job_of_type :: "job_type \<Rightarrow> string \<Rightarrow> string \<Rightarrow> string \<Rightarrow> (database connection, string \<times> job_record) stm" where
  "job_of_type ty what job_id created_by = bindS (get_job job_id created_by) (\<lambda>job. case job of
      None \<Rightarrow> raiseS (HTTPException 404 what)
    | Some kj \<Rightarrow> if jr_job_type (snd kj) \<noteq> ty then raiseS (HTTPException 404 what) else returnS kj)"

definition get_backtest :: "string \<Rightarrow> string \<Rightarrow> (database connection, backtest_detail) stm" where
  "get_backtest job_id created_by =
     bindS (job_of_type BacktestJob ''Backtest job not found'' job_id created_by) (\<lambda>kj.
     mapS (backtest_detail_of kj) (get_backtest_result job_id))"

record optimization_detail = job_response +
  rd_metric :: jval
  rd_windows :: jval
  rd_mean_in_sample_score :: jval
  rd_mean_out_of_sample_score :: jval
  rd_final_params :: jval
  rd_final_definition :: jval

definition optimization_detail_of :: "string \<times> job_record \<Rightarrow> optimization_row option \<Rightarrow> optimization_detail" where
  "optimization_detail_of kj row = (let cell = (\<lambda>f. case row of None \<Rightarrow> VNone | Some r \<Rightarrow> f r) in
     job_response.extend (job_to_response kj)
     \<lparr>rd_metric = cell (\<lambda>r. VStr (ot_metric r)), rd_windows = cell ot_windows,
      rd_mean_in_sample_score = cell (\<lambda>r. VFloat (ot_mean_in_sample_score r)),
      rd_mean_out_of_sample_score = cell (\<lambda>r. VFloat (ot_mean_out_of_sample_score r)),
      rd_final_params = cell ot_final_params, rd_final_definition = cell ot_final_definition\<rparr>)"

definition get_optimization :: "string \<Rightarrow> string \<Rightarrow> (database connection, optimization_detail) stm" where
  "get_optimization job_id created_by =
     bindS (job_of_type OptimizationJob ''Optimization job not found'' job_id created_by) (\<lambda>kj.
     mapS (optimization_detail_of kj) (get_optimization_result job_id))"

section \<open>Comparison\<close>

record compare_row =
  rc_job_id :: string
  rc_strategy_id :: string
  rc_strategy_name :: string
  rc_metrics :: jval

definition compare_one :: "string \<Rightarrow> string \<Rightarrow> (database connection, compare_row) stm" where
  "compare_one created_by job_id =
     bindS (job_of_type BacktestJob ''Backtest job not found'' job_id created_by) (\<lambda>(k, j).
     if jr_status j \<noteq> Completed then raiseS (HTTPException 409 ''Backtest job is not completed yet'')
     else bindS (get_backtest_result job_id) (\<lambda>row.
       bindS (get_strategy (jr_strategy_id j) created_by) (\<lambda>s.
       case row of None \<Rightarrow> raiseS TypeError
       | Some r \<Rightarrow> returnS \<lparr>rc_job_id = job_id, rc_strategy_id = jr_strategy_id j,
           rc_strategy_name = (case s of None \<Rightarrow> ''(deleted)'' | Some (_, sr) \<Rightarrow> sr_name sr), rc_metrics = bt_metrics r\<rparr>)))"

fun compare_list :: "string \<Rightarrow> string list \<Rightarrow> (database connection, compare_row list) stm" where
  "compare_list created_by [] = returnS []"
| "compare_list created_by (i # is) = bindS (compare_one created_by i) (\<lambda>r.
     mapS (Cons r) (compare_list created_by is))"

definition compare_backtests :: "string list \<Rightarrow> string \<Rightarrow> (database connection, compare_row list) stm" where
  "compare_backtests job_ids created_by =
     (if job_ids = [] then raiseS (ValidationError ''job_ids'') else compare_list created_by job_ids)"

section \<open>Credentials and bots\<close>

definition require_owned_credential :: "string \<Rightarrow> string \<Rightarrow> (database connection, unit) stm" where
  "require_owned_credential credential_id created_by = bindS (list_credentials created_by) (\<lambda>owned.
     if credential_id \<notin> cs_id ` set owned then raiseS (HTTPException 404 ''Exchange credential not found'') else returnS ())"

definition delete_credential_route :: "string \<Rightarrow> string \<Rightarrow> (database connection, unit) stm" where
  "delete_credential_route credential_id created_by = bindS (delete_credential credential_id created_by) (\<lambda>deleted.
     if deleted then returnS () else raiseS (HTTPException 404 ''Exchange credential not found''))"

definition post_bot :: "string \<Rightarrow> time \<Rightarrow> bot_create_request \<Rightarrow> string \<Rightarrow> (database connection, bot_response) stm" where
  "post_bot uuid now q created_by =
     seqS (case bc_credential_id (bb_config q) of None \<Rightarrow> returnS () | Some c \<Rightarrow> require_owned_credential c created_by)
       (mapS bot_to_response (create_bot uuid now created_by (bb_config q)))"

definition list_bots_route :: "string \<Rightarrow> (database connection, bot_response list) stm" where
  "list_bots_route created_by = mapS (map bot_to_response) (list_bots created_by)"

definition get_bot_route :: "string \<Rightarrow> string \<Rightarrow> (database connection, bot_response) stm" where
  "get_bot_route bot_id created_by = mapS bot_to_response (or_404 ''Bot not found'' (get_bot bot_id created_by))"

definition delete_bot_route :: "string \<Rightarrow> string \<Rightarrow> (database connection, unit) stm" where
  "delete_bot_route bot_id created_by =
     bindS (or_404 ''Bot not found'' (get_bot bot_id created_by)) (\<lambda>(k, b).
     if bo_desired_status b = ''running'' then raiseS (HTTPException 409 ''Stop the bot before deleting it'')
     else bindS (delete_bot bot_id created_by) (\<lambda>_. returnS ()))"

definition start_bot :: "time \<Rightarrow> string \<Rightarrow> string \<Rightarrow> (database connection, bot_response) stm" where
  "start_bot now bot_id created_by =
     bindS (or_404 ''Bot not found'' (get_bot bot_id created_by)) (\<lambda>(k, b).
     seqS (if bc_mode b = ''live''
           then (case bc_credential_id b of
               None \<Rightarrow> raiseS (HTTPException 404 ''Exchange credential not found'')
             | Some c \<Rightarrow> require_owned_credential c created_by)
           else returnS ())
     (bindS (set_desired_status now bot_id created_by ''running'') (\<lambda>updated. case updated of
        None \<Rightarrow> raiseS (AttributeError ''id'') | Some row \<Rightarrow> returnS (bot_to_response row))))"

definition stop_bot :: "time \<Rightarrow> string \<Rightarrow> string \<Rightarrow> (database connection, bot_response) stm" where
  "stop_bot now bot_id created_by =
     mapS bot_to_response (or_404 ''Bot not found'' (set_desired_status now bot_id created_by ''stopped''))"

definition get_bot_state_route :: "string \<Rightarrow> string \<Rightarrow> (database connection, bot_state_response) stm" where
  "get_bot_state_route bot_id created_by =
     mapS state_to_response (or_404 ''Bot has no runtime state yet'' (get_state bot_id created_by))"

definition list_bot_trades_route :: "string \<Rightarrow> int \<Rightarrow> string \<Rightarrow> (database connection, bot_trade_response list) stm" where
  "list_bot_trades_route bot_id limit created_by = mapS (map trade_to_response) (list_trades bot_id created_by limit)"

definition list_bot_events_route :: "string \<Rightarrow> int \<Rightarrow> string \<Rightarrow> (database connection, bot_event_response list) stm" where
  "list_bot_events_route bot_id limit created_by = mapS (map event_to_response) (list_events bot_id created_by limit)"

end
