(* ===== verification/Api_App.thy ===== *)
theory Api_App
  imports Api
begin

text \<open>
  The application, \<^verbatim>\<open>freqpanda_api/main.py\<close>: which request reaches which route, with the API key checked
  first on every route but the health check, then the request model, and the status a client sees. The
  environment of one request holds the settings, the parameters of the libraries and what is
  random about it.
\<close>

record api_env =
  ae_api_keys :: "string option"
  ae_sha :: "string \<Rightarrow> string"
  ae_fernet :: fernet
  ae_environ :: "string \<Rightarrow> string option"
  ae_nonce :: "nat \<Rightarrow> string"
  ae_uuid :: string
  ae_now :: time
  ae_enqueue :: "string \<Rightarrow> unit res"

record credential_request =
  cq_exchange_id :: string
  cq_label :: string
  cq_api_key :: string
  cq_api_secret :: string
  cq_password :: "string option"

datatype request =
    Health
  | PostStrategy strategy_definition
  | GetStrategies
  | GetStrategy string
  | PutStrategy string strategy_definition
  | DeleteStrategy string
  | PostBacktest string backtest_request
  | GetBacktests string
  | GetBacktest string
  | PostOptimization string optimization_request
  | GetOptimizations string
  | GetOptimization string
  | CompareBacktests "string list"
  | PostCredential credential_request
  | GetCredentials
  | DeleteCredential string
  | PostBot bot_create_request
  | GetBots
  | GetBot string
  | DeleteBot string
  | StartBot string
  | StopBot string
  | GetBotState string
  | GetBotTrades string int
  | GetBotEvents string int

definition check_request :: "request \<Rightarrow> unit res" where
  "check_request q = (case q of
      PostStrategy d \<Rightarrow> if definition_ok d then Inr () else Inl (ValidationError ''definition'')
    | PutStrategy i d \<Rightarrow> if definition_ok d then Inr () else Inl (ValidationError ''definition'')
    | PostBacktest i b \<Rightarrow> map_res (\<lambda>_. ()) (check_backtest_request b)
    | PostOptimization i r \<Rightarrow> map_res (\<lambda>_. ()) (check_optimization_request r)
    | CompareBacktests is \<Rightarrow> if is = [] then Inl (ValidationError ''job_ids'') else Inr ()
    | PostBot b \<Rightarrow> map_res (\<lambda>_. ()) (check_bot_request b)
    | _ \<Rightarrow> Inr ())"

definition discard :: "('s, 'a) stm \<Rightarrow> ('s, unit) stm" where
  "discard m = mapS (\<lambda>_. ()) m"

definition post_credential :: "api_env \<Rightarrow> credential_request \<Rightarrow> string \<Rightarrow> (database connection, credential_response) stm" where
  "post_credential E q created_by = mapS credential_to_response
     (create_credential (ae_fernet E) (ae_environ E) (ae_nonce E) (ae_uuid E) (ae_now E) created_by
       (cq_exchange_id q) (cq_label q) (cq_api_key q) (cq_api_secret q) (cq_password q))"

definition list_credentials_route :: "string \<Rightarrow> (database connection, credential_response list) stm" where
  "list_credentials_route created_by = mapS (map credential_to_response) (list_credentials created_by)"

definition handle :: "api_env \<Rightarrow> string \<Rightarrow> request \<Rightarrow> (database connection, unit) stm" where
  "handle E who q = (case q of
      Health \<Rightarrow> returnS ()
    | PostStrategy d \<Rightarrow> discard (post_strategy (ae_uuid E) (ae_now E) d who)
    | GetStrategies \<Rightarrow> discard (list_strategies_route who)
    | GetStrategy i \<Rightarrow> discard (get_strategy_route i who)
    | PutStrategy i d \<Rightarrow> discard (put_strategy (ae_now E) i d who)
    | DeleteStrategy i \<Rightarrow> delete_strategy_route i who
    | PostBacktest i b \<Rightarrow> discard (post_backtest (ae_enqueue E) (ae_uuid E) (ae_now E) i b who)
    | GetBacktests i \<Rightarrow> discard (list_backtests i who)
    | GetBacktest i \<Rightarrow> discard (get_backtest i who)
    | PostOptimization i r \<Rightarrow> discard (post_optimization (ae_enqueue E) (ae_uuid E) (ae_now E) i r who)
    | GetOptimizations i \<Rightarrow> discard (list_optimizations i who)
    | GetOptimization i \<Rightarrow> discard (get_optimization i who)
    | CompareBacktests is \<Rightarrow> discard (compare_backtests is who)
    | PostCredential c \<Rightarrow> discard (post_credential E c who)
    | GetCredentials \<Rightarrow> discard (list_credentials_route who)
    | DeleteCredential i \<Rightarrow> delete_credential_route i who
    | PostBot b \<Rightarrow> discard (post_bot (ae_uuid E) (ae_now E) b who)
    | GetBots \<Rightarrow> discard (list_bots_route who)
    | GetBot i \<Rightarrow> discard (get_bot_route i who)
    | DeleteBot i \<Rightarrow> delete_bot_route i who
    | StartBot i \<Rightarrow> discard (start_bot (ae_now E) i who)
    | StopBot i \<Rightarrow> discard (stop_bot (ae_now E) i who)
    | GetBotState i \<Rightarrow> discard (get_bot_state_route i who)
    | GetBotTrades i n \<Rightarrow> discard (list_bot_trades_route i n who)
    | GetBotEvents i n \<Rightarrow> discard (list_bot_events_route i n who))"

definition success_status :: "request \<Rightarrow> int" where
  "success_status q = (case q of
      PostStrategy _ \<Rightarrow> 201 | PostCredential _ \<Rightarrow> 201 | PostBot _ \<Rightarrow> 201
    | PostBacktest _ _ \<Rightarrow> 202 | PostOptimization _ _ \<Rightarrow> 202
    | DeleteStrategy _ \<Rightarrow> 204 | DeleteCredential _ \<Rightarrow> 204 | DeleteBot _ \<Rightarrow> 204
    | _ \<Rightarrow> 200)"

definition answer :: "request \<Rightarrow> database connection \<times> unit res \<Rightarrow> database connection \<times> int" where
  "answer q cr = (case cr of (c, Inl e) \<Rightarrow> (c, http_status e) | (c, Inr _) \<Rightarrow> (c, success_status q))"

definition serve :: "api_env \<Rightarrow> string \<Rightarrow> request \<Rightarrow> database connection \<Rightarrow> database connection \<times> int" where
  "serve E key q c =
     (if q = Health then (c, 200)
      else (case require_api_key (ae_sha E) (split_csv (ae_api_keys E)) key of
          Inl e \<Rightarrow> (c, http_status e)
        | Inr who \<Rightarrow> (case check_request q of
              Inl e \<Rightarrow> (c, 422)
            | Inr _ \<Rightarrow> answer q (handle E who q c))))"

section \<open>Keys\<close>

lemma match_key_Inr:
  "match_key sha ks key = Inr who \<Longrightarrow> key \<in> set ks \<and> who = sha key"
  by (induction ks) (auto simp: py_simps compare_digest_def split: if_splits)

lemma match_key_complete:
  "\<forall>k \<in> set ks. is_ascii k \<Longrightarrow> key \<in> set ks \<Longrightarrow> match_key sha ks key = Inr (sha key)"
  by (induction ks) (auto simp: compare_digest_def)

lemma match_key_Inl:
  "match_key sha ks key = Inl e \<Longrightarrow> e = TypeError \<or> e = HTTPException 401 ''Invalid API key''"
  by (induction ks) (auto simp: bindE_eq_Inl compare_digest_def split: if_splits)

end
