(* ===== verification/Requests.thy ===== *)
theory Requests
  imports Api_App
begin

text \<open>
  Invariants of the database under requests. A component states what its invariant needs of each
  repository operation a route may run; that every route, and so every request with any key, keeps the
  invariant is proved here once. \<open>owner_invariant\<close> is about the requests of one owner, and may leave
  requests out; \<open>request_invariant\<close> is about all of them. A definition reaches a repository only after
  its model and the semantic validation accepted it.
\<close>

section \<open>Reads\<close>

lemma list_trades_reads [preserve]: "preserves (both P) (list_trades i who n)"
  unfolding list_trades_def by (rule preserves_execute) (auto simp: py_simps)

lemma list_events_reads [preserve]: "preserves (both P) (list_events i who n)"
  unfolding list_events_def by (rule preserves_execute) (auto simp: py_simps)

lemma or_404_preserve [preserve]: "preserves P m \<Longrightarrow> preserves P (or_404 what m)"
  unfolding or_404_def by (intro preserve)

lemma discard_preserve [preserve]: "preserves P m \<Longrightarrow> preserves P (discard m)"
  unfolding discard_def by (intro preserve)

lemma compare_one_reads [preserve]: "preserves (both P) (compare_one who i)"
  unfolding compare_one_def job_of_type_def get_job_def get_backtest_result_def get_strategy_def by (intro preserve)

lemma compare_list_reads [preserve]: "preserves (both P) (compare_list who is)"
  by (induction "is"; unfold compare_list.simps; intro preserve)

section \<open>The interface\<close>

locale owner_invariant =
  fixes P :: "database \<Rightarrow> bool" and E :: api_env and who :: string and allowed :: "request \<Rightarrow> bool"
  assumes new_strategy: "definition_ok d \<Longrightarrow> validate_definition d = Inr () \<Longrightarrow>
      preserves (both P) (create_strategy (ae_uuid E) (ae_now E) d who)"
    and changed_strategy: "definition_ok d \<Longrightarrow> validate_definition d = Inr () \<Longrightarrow>
      preserves (both P) (update_strategy (ae_now E) i who d)"
    and deleted_strategy: "allowed (DeleteStrategy i) \<Longrightarrow> preserves (both P) (delete_strategy i who)"
    and new_job: "preserves (both P) (create_job (ae_uuid E) (ae_now E) ty i p who)"
    and new_credential: "preserves (both P) (create_credential (ae_fernet E) (ae_environ E) (ae_nonce E) (ae_uuid E) (ae_now E)
      who x l k sec pw)"
    and deleted_credential: "preserves (both P) (delete_credential i who)"
    and new_bot: "preserves (both P) (post_bot (ae_uuid E) (ae_now E) q who)"
    and wanted_bot: "preserves (both P) (set_desired_status (ae_now E) i who st)"
    and deleted_bot: "preserves (both P) (delete_bot i who)"
begin

lemmas operations = new_job new_credential deleted_credential new_bot wanted_bot deleted_bot

lemma handle_strategy:
  "definition_ok d \<Longrightarrow> preserves (both P) (post_strategy (ae_uuid E) (ae_now E) d who)"
  "definition_ok d \<Longrightarrow> preserves (both P) (put_strategy (ae_now E) i d who)"
proof -
  assume d: "definition_ok d"
  have lift: "preserves (both P) (bindS (liftS (validate_definition d)) (\<lambda>_. m))"
    if "validate_definition d = Inr () \<Longrightarrow> preserves (both P) m" for m :: "(database connection, 'x) stm"
    using that by (cases "validate_definition d") (simp_all add: preserves_def st_simps)
  show "preserves (both P) (post_strategy (ae_uuid E) (ae_now E) d who)"
      "preserves (both P) (put_strategy (ae_now E) i d who)"
    unfolding post_strategy_def put_strategy_def
    by (intro lift preserves_mapS or_404_preserve new_strategy changed_strategy d; assumption)+
qed

lemma handle_keeps:
  assumes "check_request q = Inr ()" and "allowed q"
  shows "preserves (both P) (handle E who q)"
  using assms
  by (cases q) (auto simp: handle_def post_credential_def list_credentials_route_def list_strategies_route_def get_strategy_route_def
    delete_strategy_route_def post_backtest_def post_optimization_def start_job_def list_backtests_def list_optimizations_def
    job_of_type_def get_backtest_def get_optimization_def compare_backtests_def check_request_def
    delete_credential_route_def list_bots_route_def get_bot_route_def delete_bot_route_def start_bot_def require_owned_credential_def
    stop_bot_def get_bot_state_route_def list_bot_trades_route_def list_bot_events_route_def
    get_strategy_def list_strategies_def get_job_def list_backtest_summaries_def list_optimization_summaries_def
    get_backtest_result_def get_optimization_result_def list_credentials_def get_bot_def list_bots_def get_state_def
    intro!: operations deleted_strategy handle_strategy discard_preserve or_404_preserve preserves_mapS preserves_seqS
      preserves_returnS preserves_raiseS preserves_liftS preserves_query
      preserves_bindS preserves_if preserves_case_option preserves_case_prod
      compare_list_reads list_trades_reads list_events_reads split: if_splits)

end

locale request_invariant =
  fixes P :: "database \<Rightarrow> bool" and E :: api_env
  assumes every_owner: "owner_invariant P E who (\<lambda>_. True)"

sublocale request_invariant \<subseteq> owner_invariant P E who "\<lambda>_. True" for who
  by (rule every_owner)

lemma serve_run:
  assumes "serve E key q (fresh_connection d) = (c, status)"
  obtains "cn_committed c = d" | who r where "check_request q = Inr ()" "handle E who q (fresh_connection d) = (c, r)"
    "match_key (ae_sha E) (split_csv (ae_api_keys E)) key = Inr who"
  using assms
  by (auto simp: serve_def answer_def require_api_key_def fresh_connection_def split: if_splits sum.splits prod.splits)

lemma kept_by_handle:
  assumes "preserves (both P) (handle E who q)" and "P d" and "handle E who q (fresh_connection d) = (c, r)"
  shows "P (cn_committed c)"
  using preservesD [OF assms(1,3)] assms(2) by (simp add: both_def fresh_connection_def)

context request_invariant
begin

lemma serve_keeps:
  assumes "P d" and "serve E key q (fresh_connection d) = (c, status)"
  shows "P (cn_committed c)"
  using assms(2)
proof (cases rule: serve_run)
  case (2 who r)
  show ?thesis by (rule kept_by_handle [OF handle_keeps [OF 2(1)] assms(1) 2(2)]) simp
qed (simp add: assms(1))

end

end
