(* ===== verification/Api_Jobs.thy ===== *)
theory Api_Jobs
  imports Api_Repository Optimize
begin

text \<open>
  The functions the queue workers run, \<^verbatim>\<open>freqpanda_api/jobs/tasks.py\<close>. A worker opens its own
  connection, marks the job, computes with the functions of the other packages, and stores the result or
  the failure. A walk-forward that never returns makes the optimization job a computation that never
  returns, which is the value \<open>None\<close>. The libraries are \<open>Y\<close>, Optuna is \<open>Q\<close> for the windows and
  \<open>Q1\<close> for the refit, \<open>days\<close> is \<^verbatim>\<open>pd.Timedelta(days=...)\<close> in nanoseconds.
\<close>

section \<open>Reading the payload\<close>

definition payload_get :: "payload \<Rightarrow> string \<Rightarrow> jval \<Rightarrow> jval" where
  "payload_get p k dflt = (case map_of p k of None \<Rightarrow> dflt | Some v \<Rightarrow> v)"

definition as_text :: "jval \<Rightarrow> string res" where
  "as_text v = (case v of VStr s \<Rightarrow> Inr s | _ \<Rightarrow> Inl TypeError)"

definition as_int :: "jval \<Rightarrow> int res" where
  "as_int v = (case v of VInt i \<Rightarrow> Inr i | _ \<Rightarrow> Inl TypeError)"

text \<open>The text of a timestamp is the timestamp; an empty text or null is none.\<close>

definition parse_dt :: "jval \<Rightarrow> time option res" where
  "parse_dt v = (case v of
      VTime t \<Rightarrow> Inr (Some t)
    | VNone \<Rightarrow> Inr None
    | VStr [] \<Rightarrow> Inr None
    | VStr _ \<Rightarrow> Inl (ValueError ''Invalid isoformat string'')
    | _ \<Rightarrow> Inl TypeError)"

definition load_ohlcv :: "payload \<Rightarrow> (database connection, frame) stm" where
  "load_ohlcv p =
     bindS (liftS (bindE (json_get p ''exchange'') as_text)) (\<lambda>exchange.
     bindS (liftS (bindE (json_get p ''symbol'') as_text)) (\<lambda>symbol.
     bindS (liftS (bindE (json_get p ''timeframe'') as_text)) (\<lambda>timeframe.
     bindS (liftS (parse_dt (payload_get p ''start'' VNone))) (\<lambda>start.
     bindS (liftS (parse_dt (payload_get p ''end'' VNone))) (\<lambda>stop.
     bindS (fetch_ohlcv_dataframe db_candles exchange symbol timeframe start stop) (\<lambda>df.
     if fr_index df = [] then raiseS (RuntimeError ''No stored OHLCV data in the requested range'')
     else returnS df))))))"

definition backtest_kwargs :: "payload \<Rightarrow> backtest_args res" where
  "backtest_kwargs p =
     bindE (as_float (payload_get p ''initial_capital'' (VFloat (lit 10000)))) (\<lambda>capital.
     bindE (as_float (payload_get p ''fee_pct'' (VFloat (lit (1 / 1000))))) (\<lambda>fee.
     map_res (\<lambda>slippage. default_args\<lparr>ba_initial_capital := capital, ba_fee_pct := fee, ba_slippage_pct := slippage\<rparr>)
       (as_float (payload_get p ''slippage_pct'' (VFloat 0)))))"

section \<open>The backtest job\<close>

text \<open>\<^verbatim>\<open>except Exception\<close>: the failed transaction is rolled back before the failure is written.\<close>

definition failing :: "time \<Rightarrow> string \<Rightarrow> pyerr \<Rightarrow> (database connection, 'a) stm" where
  "failing now job_id e = seqS rollback (seqS (mark_failed now job_id e) (raiseS e))"

definition find_strategy :: "job_record \<Rightarrow> (database connection, string \<times> strategy_record) stm" where
  "find_strategy j = bindS (get_strategy (jr_strategy_id j) (jr_created_by j)) (\<lambda>found. case found of
      None \<Rightarrow> raiseS (RuntimeError ''Strategy not found'')
    | Some s \<Rightarrow> returnS s)"

definition backtest_body :: "libs \<Rightarrow> time \<Rightarrow> string \<Rightarrow> job_record \<Rightarrow> (database connection, unit) stm" where
  "backtest_body Y now job_id j =
     bindS (find_strategy j) (\<lambda>(strategy_id, s).
     bindS (load_ohlcv (jr_payload j)) (\<lambda>df.
     bindS (liftS (bindE (backtest_kwargs (jr_payload j)) (backtest (li_ext Y) (li_num Y) (sr_definition s) df))) (\<lambda>r.
     seqS (save_backtest_result (li_num Y) now job_id strategy_id r) (mark_completed now job_id))))"

definition run_backtest_job :: "libs \<Rightarrow> time \<Rightarrow> string \<Rightarrow> (database connection, unit) stm" where
  "run_backtest_job Y now job_id =
     bindS (get_job_unscoped job_id) (\<lambda>job. case job of
       None \<Rightarrow> returnS ()
     | Some j \<Rightarrow> seqS (mark_running now job_id) (catchS (backtest_body Y now job_id j) (failing now job_id)))"

section \<open>The optimization job\<close>

definition params_json :: "param_values \<Rightarrow> jval" where
  "params_json vs = VDict (map (\<lambda>(k, n). (k, number_json n)) vs)"

definition window_to_dict :: "libs \<Rightarrow> window_optimization_result \<Rightarrow> jval res" where
  "window_to_dict Y w =
     (let cell = (\<lambda>f. case ow_window w of None \<Rightarrow> VNone | Some x \<Rightarrow> VTime (f x)) in
     bindE (in_sample_score Y w) (\<lambda>ins.
     map_res (\<lambda>outs. VDict [(''train_start'', cell wf_train_start), (''train_end'', cell wf_train_end),
         (''test_start'', cell wf_test_start), (''test_end'', cell wf_test_end),
         (''best_params'', params_json (ow_best_params w)),
         (''in_sample_score'', VFloat ins), (''out_of_sample_score'', VFloat outs),
         (''in_sample_metrics'', VDict (metrics_dict (li_num Y) (ow_in_sample_result w))),
         (''out_of_sample_metrics'', VDict (metrics_dict (li_num Y) (ow_out_of_sample_result w)))])
       (out_of_sample_score Y w)))"

definition search_of :: "payload \<Rightarrow> search_args res" where
  "search_of p =
     bindE (as_text (payload_get p ''metric'' (VStr ''sharpe_ratio''))) (\<lambda>metric.
     bindE (as_int (payload_get p ''n_trials'' (VInt 50))) (\<lambda>n.
     map_res (\<lambda>timeout. \<lparr>sa_metric = MetricName metric, sa_n_trials = n, sa_timeout = timeout\<rparr>)
       (case payload_get p ''timeout_seconds'' VNone of VNone \<Rightarrow> Inr None | v \<Rightarrow> map_res Some (as_float v))))"

definition metric_of :: "payload \<Rightarrow> string res" where
  "metric_of p = as_text (payload_get p ''metric'' (VStr ''sharpe_ratio''))"

record optimization_input =
  oi_strategy_id :: string
  oi_definition :: strategy_definition
  oi_frame :: frame
  oi_search :: search_args
  oi_kwargs :: backtest_args
  oi_train_period :: int
  oi_test_period :: int

definition optimization_input_of :: "(fl \<Rightarrow> int res) \<Rightarrow> job_record \<Rightarrow> (database connection, optimization_input) stm" where
  "optimization_input_of days j =
     bindS (find_strategy j) (\<lambda>(strategy_id, s).
     bindS (load_ohlcv (jr_payload j)) (\<lambda>df.
     bindS (liftS (search_of (jr_payload j))) (\<lambda>sa.
     bindS (liftS (backtest_kwargs (jr_payload j))) (\<lambda>args.
     bindS (liftS (bindE (bindE (json_get (jr_payload j) ''train_period_days'') as_float) days)) (\<lambda>train.
     bindS (liftS (bindE (bindE (json_get (jr_payload j) ''test_period_days'') as_float) days)) (\<lambda>test.
     returnS \<lparr>oi_strategy_id = strategy_id, oi_definition = sr_definition s, oi_frame = df, oi_search = sa,
       oi_kwargs = args, oi_train_period = train, oi_test_period = test\<rparr>))))))"

definition optimization_rest :: "libs \<Rightarrow> optuna \<Rightarrow> time \<Rightarrow> string \<Rightarrow> job_record \<Rightarrow>
    optimization_input \<Rightarrow> optimization_result res \<Rightarrow> (database connection, unit) stm" where
  "optimization_rest Y Q1 now job_id j i outcome =
     bindS (liftS outcome) (\<lambda>r.
     bindS (liftS (refit_on_full_history Y Q1 (oi_definition i) (oi_frame i) (oi_search i) (oi_kwargs i))) (\<lambda>final.
     bindS (liftS (mapE (window_to_dict Y) (or_windows r))) (\<lambda>windows.
     bindS (liftS (metric_of (jr_payload j))) (\<lambda>metric.
     bindS (liftS (mean_in_sample_score Y r)) (\<lambda>mean_in.
     bindS (liftS (mean_out_of_sample_score Y r)) (\<lambda>mean_out.
     seqS (save_optimization_result now job_id (oi_strategy_id i) metric (VList windows) mean_in mean_out
         (params_json (ow_best_params final)) (model_dump (ow_best_definition final)))
       (mark_completed now job_id)))))))"

definition optimization_body :: "libs \<Rightarrow> (fl \<Rightarrow> int res) \<Rightarrow> (wf_window \<Rightarrow> optuna) \<Rightarrow>
    optuna \<Rightarrow> time \<Rightarrow> string \<Rightarrow> job_record \<Rightarrow> database connection \<Rightarrow> (database connection \<times> unit res) option" where
  "optimization_body Y days Q Q1 now job_id j c =
     (case optimization_input_of days j c of
        (c1, Inl e) \<Rightarrow> Some (c1, Inl e)
      | (c1, Inr i) \<Rightarrow>
          map_option (\<lambda>outcome. optimization_rest Y Q1 now job_id j i outcome c1)
            (optimize Y Q (oi_definition i) (oi_frame i) (oi_train_period i) (oi_test_period i) None False
              (oi_search i) (oi_kwargs i)))"

definition run_optimization_job :: "libs \<Rightarrow> (fl \<Rightarrow> int res) \<Rightarrow> (wf_window \<Rightarrow> optuna) \<Rightarrow>
    optuna \<Rightarrow> time \<Rightarrow> string \<Rightarrow> database connection \<Rightarrow> (database connection \<times> unit res) option" where
  "run_optimization_job Y days Q Q1 now job_id c =
     (case get_job_unscoped job_id c of
        (c0, Inl e) \<Rightarrow> Some (c0, Inl e)
      | (c0, Inr None) \<Rightarrow> Some (c0, Inr ())
      | (c0, Inr (Some j)) \<Rightarrow>
          (case mark_running now job_id c0 of
             (c1, Inl e) \<Rightarrow> Some (c1, Inl e)
           | (c1, Inr _) \<Rightarrow>
               map_option (\<lambda>(c2, r). case r of Inl e \<Rightarrow> failing now job_id e c2 | Inr u \<Rightarrow> (c2, Inr u))
                 (optimization_body Y days Q Q1 now job_id j c1)))"

section \<open>What a job leaves behind\<close>

text \<open>\<open>at_rest d c\<close>: nothing is pending on the connection and the database is \<open>d\<close>.\<close>

definition at_rest :: "database \<Rightarrow> database connection \<Rightarrow> bool" where
  "at_rest d c \<longleftrightarrow> both (\<lambda>x. x = d) c"

lemma fresh_at_rest: "at_rest d (fresh_connection d)"
  by (simp add: at_rest_def both_def fresh_connection_def)

lemma reads_at_rest:
  assumes "preserves (both (\<lambda>x. x = d)) m" and "m c = (c', r)" and "at_rest d c"
  shows "at_rest d c'"
  using preservesD [OF assms(1,2)] assms(3) by (simp add: at_rest_def)

lemma preserves_execute_read [preserve]:
  "(\<And>d d' x. stmt d = Inr (d', x) \<Longrightarrow> d' = d) \<Longrightarrow> preserves (both P) (execute stmt)"
  by (rule preserves_execute) blast

lemma find_strategy_reads: "preserves (both P) (find_strategy j)"
  unfolding find_strategy_def get_strategy_def by (intro preserve)

lemma fetch_reads: "preserves (both P) (fetch_ohlcv_dataframe f e s t a b)"
  unfolding fetch_ohlcv_dataframe_def by (intro preserve)

lemma load_reads: "preserves (both P) (load_ohlcv p)"
  unfolding load_ohlcv_def by (intro preserve fetch_reads)

lemma mark_running_run:
  "at_rest d c \<Longrightarrow> cn_status c \<noteq> Aborted \<Longrightarrow> mark_running now i c =
     (\<lparr>cn_committed = set_job i (\<lambda>j. j\<lparr>jr_status := Running, jr_started_at := Some now\<rparr>) d,
       cn_work = set_job i (\<lambda>j. j\<lparr>jr_status := Running, jr_started_at := Some now\<rparr>) d, cn_status = Idle\<rparr>, Inr ())"
  by (cases c) (simp add: mark_running_def st_simps at_rest_def both_def)

lemma failing_run:
  "at_rest d c \<Longrightarrow> failing now i e c =
     (\<lparr>cn_committed = set_job i (\<lambda>j. j\<lparr>jr_status := Failed, jr_error := Some e, jr_finished_at := Some now\<rparr>) d,
       cn_work = set_job i (\<lambda>j. j\<lparr>jr_status := Failed, jr_error := Some e, jr_finished_at := Some now\<rparr>) d,
       cn_status = Idle\<rparr>, Inl e)"
  by (cases c) (simp add: failing_def mark_failed_def st_simps at_rest_def both_def rollback_def)

text \<open>Storing a result and completing the job: both happen, or the failed statement leaves the database as it was.\<close>

lemma store_and_complete:
  assumes "seqS (seqS (execute stmt) commit) (mark_completed now i) c = (c', r)" and "at_rest d c"
  shows "case r of Inl e \<Rightarrow> at_rest d c'
    | Inr _ \<Rightarrow> \<exists>d1. stmt d = Inr (d1, ()) \<and>
        at_rest (set_job i (\<lambda>j. j\<lparr>jr_status := Completed, jr_finished_at := Some now\<rparr>) d1) c'"
  using assms by (cases c) (auto simp: st_simps mark_completed_def at_rest_def both_def split: sum.splits if_splits)

definition save_backtest_stmt :: "numlib \<Rightarrow> time \<Rightarrow> string \<Rightarrow> string \<Rightarrow> backtest_result \<Rightarrow> database \<Rightarrow> (database \<times> unit) res" where
  "save_backtest_stmt N now i sid r = upsert_backtest_row i (backtest_row_of N now sid r)"

lemma save_backtest_result_eq:
  "save_backtest_result N now i sid r = seqS (execute (save_backtest_stmt N now i sid r)) commit"
  by (simp add: save_backtest_result_def save_backtest_stmt_def backtest_row_of_def json_column_def json_safe_ok Let_def
      del: json_safe.simps)

lemma backtest_body_run:
  assumes "backtest_body Y now i j c = (c', r)" and "at_rest d c"
  shows "case r of Inl e \<Rightarrow> at_rest d c'
    | Inr _ \<Rightarrow> \<exists>s df args result d1. find_owned sr_created_by (db_strategies d) (jr_strategy_id j) (jr_created_by j) =
          Some (jr_strategy_id j, s) \<and>
        backtest_kwargs (jr_payload j) = Inr args \<and> backtest (li_ext Y) (li_num Y) (sr_definition s) df args = Inr result \<and>
        save_backtest_stmt (li_num Y) now i (jr_strategy_id j) result d = Inr (d1, ()) \<and>
        at_rest (set_job i (\<lambda>j. j\<lparr>jr_status := Completed, jr_finished_at := Some now\<rparr>) d1) c'"
proof -
  obtain c1 r1 where f: "find_strategy j c = (c1, r1)" by force
  have c1: "at_rest d c1" by (rule reads_at_rest [OF find_strategy_reads f assms(2)])
  show ?thesis
  proof (cases r1)
    case (Inl e)
    with assms(1) f c1 show ?thesis by (auto simp: backtest_body_def st_simps)
  next
    case (Inr ks)
    have found: "find_owned sr_created_by (db_strategies d) (jr_strategy_id j) (jr_created_by j) = Some ks"
      using f Inr assms(2) by (auto simp: find_strategy_def get_strategy_def st_simps at_rest_def both_def split: if_splits option.splits)
    obtain s where ks: "ks = (jr_strategy_id j, s)" using found by (auto simp: find_owned_Some)
    obtain c2 r2 where l: "load_ohlcv (jr_payload j) c1 = (c2, r2)" by force
    have c2: "at_rest d c2" by (rule reads_at_rest [OF load_reads l c1])
    show ?thesis
    proof (cases "\<exists>df args result. r2 = Inr df \<and> backtest_kwargs (jr_payload j) = Inr args \<and>
        backtest (li_ext Y) (li_num Y) (sr_definition s) df args = Inr result")
      case False
      with assms(1) f Inr l c2 ks have "at_rest d c' \<and> (\<exists>e. r = Inl e)"
        by (cases r2; cases "backtest_kwargs (jr_payload j)") (auto simp: backtest_body_def st_simps bindE_def split: sum.splits)
      then show ?thesis by auto
    next
      case True
      then obtain df args result where t: "r2 = Inr df" "backtest_kwargs (jr_payload j) = Inr args"
          "backtest (li_ext Y) (li_num Y) (sr_definition s) df args = Inr result" by blast
      with assms(1) f Inr l ks have "seqS (save_backtest_result (li_num Y) now i (jr_strategy_id j) result) (mark_completed now i) c2 = (c', r)"
        by (simp add: backtest_body_def run_bindS)
      from store_and_complete [OF this [unfolded save_backtest_result_eq] c2] found ks t(2,3) show ?thesis
        by (cases r) auto
    qed
  qed
qed

text \<open>The optimization job stores its row in the same way.\<close>

definition save_optimization_stmt :: "time \<Rightarrow> string \<Rightarrow> string \<Rightarrow> string \<Rightarrow> jval \<Rightarrow> fl \<Rightarrow> fl \<Rightarrow> jval \<Rightarrow> jval \<Rightarrow>
    database \<Rightarrow> (database \<times> unit) res" where
  "save_optimization_stmt now i sid metric windows mi mo params dfn = upsert_optimization_row i
     \<lparr>ot_strategy_id = sid, ot_metric = metric, ot_windows = json_safe windows, ot_mean_in_sample_score = mi,
      ot_mean_out_of_sample_score = mo, ot_final_params = json_safe params, ot_final_definition = json_safe dfn,
      ot_created_at = now\<rparr>"

lemma save_optimization_result_eq:
  "save_optimization_result now i sid metric windows mi mo params dfn =
     seqS (execute (save_optimization_stmt now i sid metric windows mi mo params dfn)) commit"
  by (simp add: save_optimization_result_def save_optimization_stmt_def json_column_def json_safe_ok Let_def
      del: json_safe.simps)

lemma optimization_input_reads: "preserves (both P) (optimization_input_of days j)"
  unfolding optimization_input_of_def by (intro preserve find_strategy_reads load_reads)

lemma optimization_input_Inr:
  assumes "optimization_input_of days j c = (c', Inr i)" and "at_rest d c"
  shows "\<exists>s. find_owned sr_created_by (db_strategies d) (jr_strategy_id j) (jr_created_by j) = Some (oi_strategy_id i, s) \<and>
    oi_strategy_id i = jr_strategy_id j \<and> oi_definition i = sr_definition s"
proof -
  obtain c1 ks where f: "find_strategy j c = (c1, Inr ks)" and i: "oi_strategy_id i = fst ks" "oi_definition i = sr_definition (snd ks)"
    using assms(1) by (auto simp: optimization_input_of_def bindS_Inr)
  have "find_owned sr_created_by (db_strategies d) (jr_strategy_id j) (jr_created_by j) = Some ks"
    using f assms(2) by (auto simp: find_strategy_def get_strategy_def st_simps at_rest_def both_def split: if_splits option.splits)
  with i show ?thesis by (auto simp: find_owned_Some)
qed

lemma optimization_rest_run:
  assumes "optimization_rest Y Q1 now i j inp outcome c = (c', r)" and "at_rest d c"
  shows "case r of Inl e \<Rightarrow> at_rest d c'
    | Inr _ \<Rightarrow> \<exists>res final windows metric mi mo d1. outcome = Inr res \<and> mean_in_sample_score Y res = Inr mi \<and>
        mean_out_of_sample_score Y res = Inr mo \<and>
        refit_on_full_history Y Q1 (oi_definition inp) (oi_frame inp) (oi_search inp) (oi_kwargs inp) = Inr final \<and>
        save_optimization_stmt now i (oi_strategy_id inp) metric (VList windows) mi mo
          (params_json (ow_best_params final)) (model_dump (ow_best_definition final)) d = Inr (d1, ()) \<and>
        at_rest (set_job i (\<lambda>j. j\<lparr>jr_status := Completed, jr_finished_at := Some now\<rparr>) d1) c'"
proof (cases "\<exists>res final windows metric mi mo. outcome = Inr res \<and>
    refit_on_full_history Y Q1 (oi_definition inp) (oi_frame inp) (oi_search inp) (oi_kwargs inp) = Inr final \<and>
    mapE (window_to_dict Y) (or_windows res) = Inr windows \<and> metric_of (jr_payload j) = Inr metric \<and>
    mean_in_sample_score Y res = Inr mi \<and> mean_out_of_sample_score Y res = Inr mo")
  case True
  then obtain res final windows metric mi mo where t: "outcome = Inr res"
      "refit_on_full_history Y Q1 (oi_definition inp) (oi_frame inp) (oi_search inp) (oi_kwargs inp) = Inr final"
      "mapE (window_to_dict Y) (or_windows res) = Inr windows" "metric_of (jr_payload j) = Inr metric"
      "mean_in_sample_score Y res = Inr mi" "mean_out_of_sample_score Y res = Inr mo" by blast
  with assms(1) have "seqS (save_optimization_result now i (oi_strategy_id inp) metric (VList windows) mi mo
      (params_json (ow_best_params final)) (model_dump (ow_best_definition final))) (mark_completed now i) c = (c', r)"
    by (simp add: optimization_rest_def run_bindS)
  from store_and_complete [OF this [unfolded save_optimization_result_eq] assms(2)] t show ?thesis
    by (cases r) auto
next
  case False
  with assms(1) have "c' = c \<and> (\<exists>e. r = Inl e)"
    by (cases outcome;
        cases "refit_on_full_history Y Q1 (oi_definition inp) (oi_frame inp) (oi_search inp) (oi_kwargs inp)";
        cases "mapE (window_to_dict Y) (or_windows (projr outcome))"; cases "metric_of (jr_payload j)";
        cases "mean_in_sample_score Y (projr outcome)"; cases "mean_out_of_sample_score Y (projr outcome)")
      (auto simp: optimization_rest_def run_bindS)
  with assms(2) show ?thesis by auto
qed

end
