(* ===== verification/Job_System.thy ===== *)
theory Job_System
  imports Requests Api_Jobs
begin

text \<open>
  The API, the queue workers and the bot processes on one database, as a transition system at the level
  of commits: any request may be served, and any bot may write, between two commits of a worker. A
  worker holds the job row it read when it took the job, stores a result, and completes or fails the
  job; the jobs taken and the results stored but not yet completed are the state beside the
  database. The invariant is that a completed job has its result. A worker started on a job commits
  along these steps.
\<close>

section \<open>The system\<close>

record system =
  sy_db :: database
  sy_taken :: "(string \<times> job_record) set"
  sy_saved :: "string set"

definition start_system :: "database \<Rightarrow> system" where
  "start_system d = \<lparr>sy_db = d, sy_taken = {}, sy_saved = {}\<rparr>"

text \<open>What the processes of the execution engine write: statuses, state, heartbeats, trades and events.\<close>

definition engine_writes :: "(database connection, unit) stm set" where
  "engine_writes = {m. \<exists>now i st msg. m = update_status now i st msg} \<union>
     {m. \<exists>now i e p pos lp. m = upsert_state now i e p pos lp} \<union> {m. \<exists>now i. m = heartbeat now i} \<union>
     {m. \<exists>u t. m = discard (record_trade u t)} \<union> {m. \<exists>now i ty msg data. m = record_event now i ty msg data}"

inductive system_step :: "libs \<Rightarrow> system \<Rightarrow> system \<Rightarrow> bool" for Y where
  request: "new_id ''job'' (ae_uuid E) \<notin> fst ` sy_taken s \<Longrightarrow>
     serve E key q (fresh_connection (sy_db s)) = (c, status) \<Longrightarrow>
     system_step Y s (s\<lparr>sy_db := cn_committed c\<rparr>)"
| take_job: "map_of (db_jobs (sy_db s)) k = Some j \<Longrightarrow>
     mark_running now k (fresh_connection (sy_db s)) = (c, Inr ()) \<Longrightarrow>
     system_step Y s (s\<lparr>sy_db := cn_committed c, sy_taken := insert (k, j) (sy_taken s)\<rparr>)"
| store_backtest: "(k, j) \<in> sy_taken s \<Longrightarrow> jr_job_type j = BacktestJob \<Longrightarrow>
     save_backtest_result (li_num Y) now k (jr_strategy_id j) r (fresh_connection (sy_db s)) = (c, Inr ()) \<Longrightarrow>
     system_step Y s (s\<lparr>sy_db := cn_committed c, sy_saved := insert k (sy_saved s)\<rparr>)"
| store_optimization: "(k, j) \<in> sy_taken s \<Longrightarrow> jr_job_type j = OptimizationJob \<Longrightarrow>
     save_optimization_result now k (jr_strategy_id j) metric windows mi mo params dfn (fresh_connection (sy_db s)) = (c, Inr ()) \<Longrightarrow>
     system_step Y s (s\<lparr>sy_db := cn_committed c, sy_saved := insert k (sy_saved s)\<rparr>)"
| complete: "k \<in> sy_saved s \<Longrightarrow> mark_completed now k (fresh_connection (sy_db s)) = (c, Inr ()) \<Longrightarrow>
     system_step Y s (s\<lparr>sy_db := cn_committed c, sy_saved := sy_saved s - {k}\<rparr>)"
| fail: "(k, j) \<in> sy_taken s \<Longrightarrow> mark_failed now k e (fresh_connection (sy_db s)) = (c, Inr ()) \<Longrightarrow>
     system_step Y s (s\<lparr>sy_db := cn_committed c\<rparr>)"
| engine: "m \<in> engine_writes \<Longrightarrow> m (fresh_connection (sy_db s)) = (c, r) \<Longrightarrow>
     system_step Y s (s\<lparr>sy_db := cn_committed c\<rparr>)"

inductive reachable :: "libs \<Rightarrow> system \<Rightarrow> bool" for Y where
  start: "reachable Y (start_system (empty_database\<lparr>db_candles := candles\<rparr>))"
| move: "reachable Y s \<Longrightarrow> system_step Y s s' \<Longrightarrow> reachable Y s'"

section \<open>The invariant\<close>

definition has_result :: "database \<Rightarrow> string \<Rightarrow> job_record \<Rightarrow> bool" where
  "has_result d k j = (case jr_job_type j of
      BacktestJob \<Rightarrow> map_of (db_backtest_results d) k \<noteq> None
    | OptimizationJob \<Rightarrow> map_of (db_optimization_results d) k \<noteq> None)"

definition tables_ok :: "database \<Rightarrow> bool" where
  "tables_ok d \<longleftrightarrow> keys_distinct (db_jobs d) \<and> keys_distinct (db_backtest_results d) \<and> keys_distinct (db_optimization_results d) \<and>
     (\<forall>k r. map_of (db_backtest_results d) k = Some r \<longrightarrow>
        map_option jr_strategy_id (map_of (db_jobs d) k) = Some (bt_strategy_id r)) \<and>
     (\<forall>k r. map_of (db_optimization_results d) k = Some r \<longrightarrow>
        map_option jr_strategy_id (map_of (db_jobs d) k) = Some (ot_strategy_id r))"

definition workers_ok :: "(string \<times> job_record) set \<Rightarrow> string set \<Rightarrow> database \<Rightarrow> bool" where
  "workers_ok W S d \<longleftrightarrow> S \<subseteq> fst ` W \<and>
     (\<forall>(k, j) \<in> W. \<forall>j'. map_of (db_jobs d) k = Some j' \<longrightarrow>
        jr_job_type j' = jr_job_type j \<and> jr_strategy_id j' = jr_strategy_id j) \<and>
     (\<forall>k j. map_of (db_jobs d) k = Some j \<longrightarrow> jr_status j = Completed \<or> k \<in> S \<longrightarrow> has_result d k j)"

definition jobs_inv :: "(string \<times> job_record) set \<Rightarrow> string set \<Rightarrow> database \<Rightarrow> bool" where
  "jobs_inv W S d \<longleftrightarrow> tables_ok d \<and> workers_ok W S d"

lemma result_owner:
  assumes "tables_ok d" and "map_of (db_jobs d) k = Some j"
  shows "map_of (db_backtest_results d) k = Some r \<Longrightarrow> bt_strategy_id r = jr_strategy_id j"
    and "map_of (db_optimization_results d) k = Some q \<Longrightarrow> ot_strategy_id q = jr_strategy_id j"
  using assms unfolding tables_ok_def by fastforce+

lemma result_has_job:
  "tables_ok d \<Longrightarrow> map_of (db_backtest_results d) k = Some r \<Longrightarrow> map_of (db_jobs d) k \<noteq> None"
  "tables_ok d \<Longrightarrow> map_of (db_optimization_results d) k = Some q \<Longrightarrow> map_of (db_jobs d) k \<noteq> None"
  unfolding tables_ok_def by (metis not_None_eq option.simps(8))+

lemma taken_row:
  "workers_ok W S d \<Longrightarrow> (k, j) \<in> W \<Longrightarrow> map_of (db_jobs d) k = Some j' \<Longrightarrow>
     jr_job_type j' = jr_job_type j \<and> jr_strategy_id j' = jr_strategy_id j"
  unfolding workers_ok_def by blast

lemma jobs_inv_cong:
  assumes "jobs_inv W S d" and "db_jobs d' = db_jobs d" and "db_backtest_results d' = db_backtest_results d"
    and "db_optimization_results d' = db_optimization_results d"
  shows "jobs_inv W S d'"
  using assms by (simp add: jobs_inv_def tables_ok_def workers_ok_def has_result_def cong: job_type.case_cong)

lemma preserves_other_tables:
  assumes "\<And>d d' x. stmt d = Inr (d', x) \<Longrightarrow> db_jobs d' = db_jobs d \<and>
    db_backtest_results d' = db_backtest_results d \<and> db_optimization_results d' = db_optimization_results d"
  shows "preserves (both (jobs_inv W S)) (execute stmt)"
proof (rule preserves_execute)
  fix d d' x assume "jobs_inv W S d" "stmt d = Inr (d', x)"
  with assms [OF this(2)] show "jobs_inv W S d'" by (blast intro: jobs_inv_cong)
qed

text \<open>Changing a job row without its identity, and the new row not completed unless the result is there.\<close>

lemma set_job_inv:
  assumes "jobs_inv W S d" and "\<And>j. jr_job_type (f j) = jr_job_type j \<and> jr_strategy_id (f j) = jr_strategy_id j"
    and "\<And>j. map_of (db_jobs d) i = Some j \<Longrightarrow> jr_status (f j) = Completed \<Longrightarrow> has_result d i j"
  shows "jobs_inv W S (set_job i f d)"
proof (cases "map_of (db_jobs d) i")
  case None
  with assms(1) show ?thesis by (simp add: set_job_def)
next
  case (Some j)
  have moved: "has_result (set_job i f d) k x = has_result d k x" for k x
    using Some by (simp add: has_result_def set_job_def cong: job_type.case_cong)
  have kind: "has_result d k (f x) = has_result d k x" for k x
    using assms(2) [of x] by (simp add: has_result_def)
  have look: "map_of (db_jobs (set_job i f d)) k = (if k = i then Some (f j) else map_of (db_jobs d) k)" for k
    using Some by (simp add: set_job_def)
  have ok: "tables_ok d" using assms(1) by (simp add: jobs_inv_def)
  have same: "map_option jr_strategy_id (map_of (db_jobs (set_job i f d)) k) = map_option jr_strategy_id (map_of (db_jobs d) k)" for k
    using Some assms(2) by (simp add: look)
  have t: "tables_ok (set_job i f d)"
    using ok unfolding tables_ok_def same by (simp add: set_job_def Some alist.wf_upsert)
  have wk: "workers_ok W S d" using assms(1) by (simp add: jobs_inv_def)
  have ids: "jr_job_type j' = jr_job_type x \<and> jr_strategy_id j' = jr_strategy_id x"
    if kj: "(k, x) \<in> W" "map_of (db_jobs (set_job i f d)) k = Some j'" for k x j'
  proof -
    obtain y where "map_of (db_jobs d) k = Some y" "jr_job_type j' = jr_job_type y" "jr_strategy_id j' = jr_strategy_id y"
      using kj(2) Some assms(2) [of j] by (auto simp: look split: if_splits)
    with taken_row [OF wk kj(1) this(1)] show ?thesis by simp
  qed
  have stored: "has_result (set_job i f d) k j'"
    if "map_of (db_jobs (set_job i f d)) k = Some j'" "jr_status j' = Completed \<or> k \<in> S" for k j'
    using that wk Some assms(3) [OF Some] by (auto simp: look moved kind workers_ok_def split: if_splits)
  have w: "workers_ok W S (set_job i f d)"
    using wk ids stored by (auto simp: workers_ok_def)
  from t w show ?thesis by (simp add: jobs_inv_def)
qed

lemma mapped_filter:
  "keys_distinct t \<Longrightarrow> map_of (filter P t) k = (case map_of t k of None \<Rightarrow> None | Some v \<Rightarrow> if P (k, v) then Some v else None)"
proof (induction t)
  case (Cons kv t)
  obtain a v where "kv = (a, v)" by force
  with Cons show ?case
    by (auto simp: keys_distinct_def weak_map_of_SomeI split: option.splits dest: map_of_SomeD) (force dest: map_of_SomeD)
qed simp

lemma keys_distinct_filter [intro]: "keys_distinct t \<Longrightarrow> keys_distinct (filter P t)"
  by (auto simp: keys_distinct_def distinct_map inj_on_def)

lemma delete_bots_jobs:
  "db_jobs (fold delete_bot_rows is d) = db_jobs d"
  "db_backtest_results (fold delete_bot_rows is d) = db_backtest_results d"
  "db_optimization_results (fold delete_bot_rows is d) = db_optimization_results d"
  by (induction "is" arbitrary: d) (simp_all add: delete_bot_rows_def)

text \<open>Deleting a strategy takes its jobs with their results, and only them.\<close>

lemma delete_strategy_rows_inv: "jobs_inv W S d \<Longrightarrow> jobs_inv W S (delete_strategy_rows i d)"
proof -
  assume inv: "jobs_inv W S d"
  let ?d = "delete_strategy_rows i d"
  have dist: "keys_distinct (db_jobs d)" "keys_distinct (db_backtest_results d)" "keys_distinct (db_optimization_results d)"
    using inv by (simp_all add: jobs_inv_def tables_ok_def)
  let ?gone = "\<lambda>k. \<exists>j. map_of (db_jobs d) k = Some j \<and> jr_strategy_id j = i"
  have gone: "k \<in> set (map fst (filter (\<lambda>(k, j). jr_strategy_id j = i) (db_jobs d))) \<longleftrightarrow> ?gone k" for k
    using dist(1) by (force simp: keys_distinct_def)
  have j: "map_of (db_jobs ?d) k = (if ?gone k then None else map_of (db_jobs d) k)" for k
    by (auto simp: delete_strategy_rows_def Let_def delete_bots_jobs mapped_filter [OF dist(1)] split: option.splits)
  have b: "map_of (db_backtest_results ?d) k = (case map_of (db_backtest_results d) k of None \<Rightarrow> None
      | Some r \<Rightarrow> if \<not> ?gone k \<and> bt_strategy_id r \<noteq> i then Some r else None)" for k
    using gone [of k]
    by (simp add: delete_strategy_rows_def Let_def delete_bots_jobs mapped_filter [OF dist(2)] del: set_map set_filter split: option.splits)
  have p: "map_of (db_optimization_results ?d) k = (case map_of (db_optimization_results d) k of None \<Rightarrow> None
      | Some r \<Rightarrow> if \<not> ?gone k \<and> ot_strategy_id r \<noteq> i then Some r else None)" for k
    using gone [of k]
    by (simp add: delete_strategy_rows_def Let_def delete_bots_jobs mapped_filter [OF dist(3)] del: set_map set_filter split: option.splits)
  have kd: "keys_distinct (db_jobs ?d)" "keys_distinct (db_backtest_results ?d)" "keys_distinct (db_optimization_results ?d)"
    using dist by (auto simp: delete_strategy_rows_def Let_def delete_bots_jobs)
  have t: "tables_ok ?d"
    using inv kd unfolding jobs_inv_def tables_ok_def j b p by (auto split: option.splits if_splits)
  have "workers_ok W S ?d"
  proof -
    have keep: "has_result ?d k x" if "has_result d k x" "map_of (db_jobs d) k = Some x" "jr_strategy_id x \<noteq> i" for k x
      using that inv result_owner [OF _ that(2)] unfolding has_result_def b p jobs_inv_def
      by (auto split: job_type.splits option.splits)
    show ?thesis
      using inv keep unfolding jobs_inv_def workers_ok_def j by (auto split: if_splits)
  qed
  with t show ?thesis by (simp add: jobs_inv_def)
qed

text \<open>A new job has an id no worker holds, and no result.\<close>

lemma insert_job_inv:
  assumes "jobs_inv W S d" and "insert_job k j d = Inr (d', x)" and "k \<notin> fst ` W" and "jr_status j = Pending"
  shows "jobs_inv W S d'"
proof -
  from assms(2) have k: "map_of (db_jobs d) k = None" and d': "d' = d\<lparr>db_jobs := put k j (db_jobs d)\<rparr>"
    by (auto simp: insert_job_def unique_violation_def foreign_key_violation_def map_of_eq_None_iff split: if_splits)
  have kS: "k \<notin> S" using assms(1,3) by (auto simp: jobs_inv_def workers_ok_def)
  have none: "map_of (db_backtest_results d) k = None" "map_of (db_optimization_results d) k = None"
    using assms(1) k unfolding jobs_inv_def tables_ok_def by (metis not_None_eq option.simps(8))+
  have same: "has_result d' i x = has_result d i x" for i x
    by (simp add: d' has_result_def cong: job_type.case_cong)
  have "tables_ok d'"
    using assms(1) none unfolding jobs_inv_def tables_ok_def by (auto simp: d' alist.wf_upsert)
  moreover have "workers_ok W S d'"
  proof -
    have wk: "workers_ok W S d" using assms(1) by (simp add: jobs_inv_def)
    have "jr_job_type j' = jr_job_type x \<and> jr_strategy_id j' = jr_strategy_id x"
      if kj: "(i, x) \<in> W" "map_of (db_jobs d') i = Some j'" for i x j'
    proof -
      from kj(1) assms(3) have "i \<noteq> k" by force
      with kj(2) have "map_of (db_jobs d) i = Some j'" by (simp add: d')
      from taken_row [OF wk kj(1) this] show ?thesis .
    qed
    with wk kS assms(4) show ?thesis unfolding workers_ok_def same by (auto simp: d' split: if_splits)
  qed
  ultimately show ?thesis by (simp add: jobs_inv_def)
qed

lemma create_job_inv [preserve]:
  assumes "new_id ''job'' u \<notin> fst ` W"
  shows "preserves (both (jobs_inv W S)) (create_job u now ty sid p who)"
  unfolding create_job_def
proof (intro preserve)
  fix d d' x
  assume "jobs_inv W S d"
    and "bindE (json_column (VDict p)) (\<lambda>_. insert_job (new_id ''job'' u) \<lparr>jr_job_type = ty, jr_status = Pending,
      jr_strategy_id = sid, jr_payload = p, jr_error = None, jr_created_by = who, jr_created_at = now,
      jr_started_at = None, jr_finished_at = None\<rparr> d) = Inr (d', x)"
  then show "jobs_inv W S d'"
    by (auto simp: bindE_eq_Inr intro: insert_job_inv [OF _ _ assms])
qed

section \<open>Requests\<close>

text \<open>The statements of the other repositories leave the three tables alone.\<close>

lemmas other_statements = insert_strategy_def insert_credential_def delete_credential_rows_def insert_bot_def
  delete_bot_rows_def unique_violation_def foreign_key_violation_def check_violation_def limit_rows_def definition_column_def Let_def

lemma create_strategy_inv [preserve]: "preserves (both (jobs_inv W S)) (create_strategy u now dfn who)"
  unfolding create_strategy_def
  by (intro preserves_bindS preserves_other_tables preserve) (auto simp: other_statements py_simps split: if_splits)

lemma update_strategy_inv [preserve]: "preserves (both (jobs_inv W S)) (update_strategy now i who dfn)"
  unfolding update_strategy_def
  by (intro preserves_bindS preserves_other_tables preserves_seqS preserves_commit preserves_returnS)
    (auto simp: other_statements py_simps split: if_splits option.splits)

lemma delete_strategy_inv [preserve]: "preserves (both (jobs_inv W S)) (delete_strategy i who)"
  unfolding delete_strategy_def
  by (intro preserve) (auto split: option.splits intro: delete_strategy_rows_inv)

lemma create_credential_inv [preserve]:
  "preserves (both (jobs_inv W S)) (create_credential F env nonce u now who ex lb k sec pw)"
  unfolding create_credential_def
  by (intro preserves_bindS preserves_other_tables preserves_liftS preserves_seqS preserves_commit preserves_returnS)
    (auto simp: other_statements py_simps split: if_splits)

lemma delete_credential_inv [preserve]: "preserves (both (jobs_inv W S)) (delete_credential i who)"
  unfolding delete_credential_def
  by (intro preserves_bindS preserves_other_tables preserves_seqS preserves_commit preserves_returnS)
    (auto simp: other_statements py_simps split: if_splits option.splits)

lemma create_bot_inv [preserve]: "preserves (both (jobs_inv W S)) (create_bot u now who b)"
  unfolding create_bot_def
  by (intro preserves_bindS preserves_other_tables preserves_seqS preserves_commit preserves_returnS)
    (auto simp: other_statements py_simps split: if_splits option.splits)

lemma set_desired_status_inv [preserve]: "preserves (both (jobs_inv W S)) (set_desired_status now i who st)"
  unfolding set_desired_status_def
  by (intro preserves_bindS preserves_other_tables preserves_seqS preserves_commit preserves_returnS)
    (auto simp: other_statements py_simps split: if_splits option.splits)

lemma delete_bot_inv [preserve]: "preserves (both (jobs_inv W S)) (delete_bot i who)"
  unfolding delete_bot_def
  by (intro preserves_bindS preserves_other_tables preserves_seqS preserves_commit preserves_returnS)
    (auto simp: other_statements py_simps split: if_splits option.splits)

lemma post_bot_inv [preserve]: "preserves (both (jobs_inv W S)) (post_bot u now q who)"
  unfolding post_bot_def require_owned_credential_def list_credentials_def by (intro preserve)

section \<open>The invariant holds\<close>

text \<open>Requests keep it as long as no worker holds the id drawn for a new job.\<close>

lemma preserves_under: "(b \<Longrightarrow> preserves (both P) m) \<Longrightarrow> preserves (both (\<lambda>d. b \<longrightarrow> P d)) m"
  by (cases b) (simp_all add: preserves_def both_def)

interpretation jobs: request_invariant "\<lambda>d. new_id ''job'' (ae_uuid E) \<notin> fst ` W \<longrightarrow> jobs_inv W S d" E for W S E
  by unfold_locales (rule preserves_under, intro preserve; assumption)+

lemma engine_inv:
  assumes "m \<in> engine_writes"
  shows "preserves (both (jobs_inv W S)) m"
  using assms unfolding engine_writes_def discard_def
  by (auto simp: update_status_def upsert_state_def heartbeat_def dbwrite_def record_trade_def record_event_def insert_trade_def
      foreign_key_violation_def check_violation_def unique_violation_def Let_def
      intro!: preserves_mapS preserves_seqS preserves_commit preserves_returnS preserves_other_tables split: if_splits option.splits)

lemma upsert_backtest_row_Inr:
  assumes "upsert_backtest_row k r d = Inr (d', ())"
  shows "\<exists>r'. d' = d\<lparr>db_backtest_results := put k r' (db_backtest_results d)\<rparr> \<and>
    bt_strategy_id r' = (case map_of (db_backtest_results d) k of Some old \<Rightarrow> bt_strategy_id old | None \<Rightarrow> bt_strategy_id r) \<and>
    (map_of (db_backtest_results d) k = None \<longrightarrow> map_of (db_jobs d) k \<noteq> None)"
proof (cases "map_of (db_backtest_results d) k")
  case None
  with assms show ?thesis
    by (intro exI [of _ r]) (auto simp: upsert_backtest_row_def foreign_key_violation_def map_of_eq_None_iff [of "db_jobs d"] split: if_splits)
next
  case (Some old)
  with assms show ?thesis
    by (intro exI [of _ "old\<lparr>bt_metrics := bt_metrics r, bt_trades := bt_trades r, bt_equity_curve := bt_equity_curve r\<rparr>"])
      (simp add: upsert_backtest_row_def)
qed

lemma upsert_optimization_row_Inr:
  assumes "upsert_optimization_row k r d = Inr (d', ())"
  shows "\<exists>r'. d' = d\<lparr>db_optimization_results := put k r' (db_optimization_results d)\<rparr> \<and>
    ot_strategy_id r' = (case map_of (db_optimization_results d) k of Some old \<Rightarrow> ot_strategy_id old | None \<Rightarrow> ot_strategy_id r) \<and>
    (map_of (db_optimization_results d) k = None \<longrightarrow> map_of (db_jobs d) k \<noteq> None)"
proof (cases "map_of (db_optimization_results d) k")
  case None
  with assms show ?thesis
    by (intro exI [of _ r]) (auto simp: upsert_optimization_row_def foreign_key_violation_def map_of_eq_None_iff [of "db_jobs d"] split: if_splits)
next
  case (Some old)
  with assms show ?thesis
    by (intro exI [of _ "r\<lparr>ot_strategy_id := ot_strategy_id old, ot_created_at := ot_created_at old\<rparr>"])
      (simp add: upsert_optimization_row_def)
qed

text \<open>
  The contract of the two result tables: an upsert keeps the strategy of an existing row, and a new row needs the
  job. The strategy of every row is the strategy of its job, and it stays so when a worker stores the
  result of a job it holds.
\<close>

locale result_store =
  fixes rows :: "database \<Rightarrow> (string \<times> 'r) list" and with_rows :: "(string \<times> 'r) list \<Rightarrow> database \<Rightarrow> database"
    and upsert :: "string \<Rightarrow> 'r \<Rightarrow> database \<Rightarrow> (database \<times> unit) res" and strategy :: "'r \<Rightarrow> string"
  assumes upsert_Inr: "upsert k r d = Inr (d', ()) \<Longrightarrow> \<exists>r'. d' = with_rows (put k r' (rows d)) d \<and>
      strategy r' = (case map_of (rows d) k of Some old \<Rightarrow> strategy old | None \<Rightarrow> strategy r) \<and>
      (map_of (rows d) k = None \<longrightarrow> map_of (db_jobs d) k \<noteq> None)"
    and rows_with: "rows (with_rows t d) = t" and jobs_with: "db_jobs (with_rows t d) = db_jobs d"
begin

lemma stored_rows:
  assumes "upsert k r d = Inr (d', ())" and "keys_distinct (rows d)"
    and owned: "\<And>i q. map_of (rows d) i = Some q \<Longrightarrow> map_option jr_strategy_id (map_of (db_jobs d) i) = Some (strategy q)"
    and job: "\<And>x. map_of (db_jobs d) k = Some x \<Longrightarrow> jr_strategy_id x = strategy r"
  shows "db_jobs d' = db_jobs d \<and> keys_distinct (rows d') \<and> map_of (db_jobs d) k \<noteq> None \<and>
    (\<forall>i q. map_of (rows d') i = Some q \<longrightarrow> map_option jr_strategy_id (map_of (db_jobs d) i) = Some (strategy q)) \<and>
    (\<forall>i. map_of (rows d') i \<noteq> None \<longleftrightarrow> i = k \<or> map_of (rows d) i \<noteq> None)"
proof -
  from upsert_Inr [OF assms(1)] obtain r' where d': "d' = with_rows (put k r' (rows d)) d"
    and r': "strategy r' = (case map_of (rows d) k of Some old \<Rightarrow> strategy old | None \<Rightarrow> strategy r)"
    and known: "map_of (rows d) k = None \<longrightarrow> map_of (db_jobs d) k \<noteq> None"
    by (elim exE conjE) (rule that)
  have "map_option jr_strategy_id (map_of (db_jobs d) k) = Some (strategy r')"
    using known r' owned [of k] job by (cases "map_of (rows d) k") auto
  then show ?thesis
    using assms(2) owned by (auto simp: d' rows_with jobs_with alist.wf_upsert)
qed

end

interpretation backtests: result_store db_backtest_results "\<lambda>t d. d\<lparr>db_backtest_results := t\<rparr>" upsert_backtest_row bt_strategy_id
  by unfold_locales (use upsert_backtest_row_Inr in simp_all)

interpretation optimizations: result_store db_optimization_results "\<lambda>t d. d\<lparr>db_optimization_results := t\<rparr>"
    upsert_optimization_row ot_strategy_id
  by unfold_locales (use upsert_optimization_row_Inr in simp_all)

text \<open>What both have in common for the invariant: the jobs stay, no result is lost, and the result of \<open>k\<close> is there.\<close>

lemma workers_ok_stored:
  assumes "workers_ok W S d" and "(k, j) \<in> W" and "db_jobs d' = db_jobs d"
    and "\<And>i x. has_result d i x \<Longrightarrow> has_result d' i x" and "\<And>x. map_of (db_jobs d) k = Some x \<Longrightarrow> has_result d' k x"
  shows "workers_ok W (insert k S) d'"
proof -
  have "k \<in> fst ` W" using assms(2) by force
  with assms show ?thesis by (auto simp: workers_ok_def)
qed

lemma store_backtest_inv:
  assumes inv: "jobs_inv W S d" and w: "(k, j) \<in> W" "jr_job_type j = BacktestJob"
    and u: "upsert_backtest_row k r d = Inr (d', ())" and sid: "bt_strategy_id r = jr_strategy_id j"
  shows "jobs_inv W (insert k S) d'"
proof -
  have t: "tables_ok d" and wk: "workers_ok W S d" using inv by (simp_all add: jobs_inv_def)
  note taken = taken_row [OF wk w(1)]
  have same: "jr_strategy_id x = bt_strategy_id r" if "map_of (db_jobs d) k = Some x" for x using taken [OF that] sid by simp
  have other: "db_optimization_results d' = db_optimization_results d" using upsert_backtest_row_Inr [OF u] by auto
  have s: "db_jobs d' = db_jobs d \<and> keys_distinct (db_backtest_results d') \<and> map_of (db_jobs d) k \<noteq> None \<and>
      (\<forall>i q. map_of (db_backtest_results d') i = Some q \<longrightarrow> map_option jr_strategy_id (map_of (db_jobs d) i) = Some (bt_strategy_id q)) \<and>
      (\<forall>i. map_of (db_backtest_results d') i \<noteq> None \<longleftrightarrow> i = k \<or> map_of (db_backtest_results d) i \<noteq> None)"
    by (rule backtests.stored_rows [OF u _ _ same]) (use t in \<open>simp_all add: tables_ok_def\<close>)
  then have "tables_ok d'" using t other by (simp add: tables_ok_def)
  moreover have "workers_ok W (insert k S) d'"
  proof (rule workers_ok_stored [OF wk w(1)])
    show "db_jobs d' = db_jobs d" using s by simp
    have there: "map_of (db_backtest_results d') i \<noteq> None" if "i = k \<or> map_of (db_backtest_results d) i \<noteq> None" for i
      using s that by blast
    show "has_result d' i x" if "has_result d i x" for i x
      using that there [of i] other by (cases "jr_job_type x") (simp_all add: has_result_def)
    show "has_result d' k x" if "map_of (db_jobs d) k = Some x" for x
      using taken [OF that] there [of k] w(2) by (simp add: has_result_def)
  qed
  ultimately show ?thesis by (simp add: jobs_inv_def)
qed

lemma store_optimization_inv:
  assumes inv: "jobs_inv W S d" and w: "(k, j) \<in> W" "jr_job_type j = OptimizationJob"
    and u: "upsert_optimization_row k r d = Inr (d', ())" and sid: "ot_strategy_id r = jr_strategy_id j"
  shows "jobs_inv W (insert k S) d'"
proof -
  have t: "tables_ok d" and wk: "workers_ok W S d" using inv by (simp_all add: jobs_inv_def)
  note taken = taken_row [OF wk w(1)]
  have same: "jr_strategy_id x = ot_strategy_id r" if "map_of (db_jobs d) k = Some x" for x using taken [OF that] sid by simp
  have other: "db_backtest_results d' = db_backtest_results d" using upsert_optimization_row_Inr [OF u] by auto
  have s: "db_jobs d' = db_jobs d \<and> keys_distinct (db_optimization_results d') \<and> map_of (db_jobs d) k \<noteq> None \<and>
      (\<forall>i q. map_of (db_optimization_results d') i = Some q \<longrightarrow> map_option jr_strategy_id (map_of (db_jobs d) i) = Some (ot_strategy_id q)) \<and>
      (\<forall>i. map_of (db_optimization_results d') i \<noteq> None \<longleftrightarrow> i = k \<or> map_of (db_optimization_results d) i \<noteq> None)"
    by (rule optimizations.stored_rows [OF u _ _ same]) (use t in \<open>simp_all add: tables_ok_def\<close>)
  then have "tables_ok d'" using t other by (simp add: tables_ok_def)
  moreover have "workers_ok W (insert k S) d'"
  proof (rule workers_ok_stored [OF wk w(1)])
    show "db_jobs d' = db_jobs d" using s by simp
    have there: "map_of (db_optimization_results d') i \<noteq> None" if "i = k \<or> map_of (db_optimization_results d) i \<noteq> None" for i
      using s that by blast
    show "has_result d' i x" if "has_result d i x" for i x
      using that there [of i] other by (cases "jr_job_type x") (simp_all add: has_result_def)
    show "has_result d' k x" if "map_of (db_jobs d) k = Some x" for x
      using taken [OF that] there [of k] w(2) by (simp add: has_result_def)
  qed
  ultimately show ?thesis by (simp add: jobs_inv_def)
qed

text \<open>A worker's statements on its own connection.\<close>

lemma save_backtest_run:
  assumes "save_backtest_result N now k sid r (fresh_connection d) = (c, Inr ())"
  shows "upsert_backtest_row k (backtest_row_of N now sid r) d = Inr (cn_committed c, ())"
  using assms unfolding save_backtest_result_eq
  by (auto simp: st_simps fresh_connection_def save_backtest_stmt_def split: sum.splits)

lemma save_optimization_run:
  assumes "save_optimization_result now k sid metric windows mi mo params dfn (fresh_connection d) = (c, Inr ())"
  shows "save_optimization_stmt now k sid metric windows mi mo params dfn d = Inr (cn_committed c, ())"
  using assms unfolding save_optimization_result_eq
  by (auto simp: st_simps fresh_connection_def split: sum.splits)

lemma marks_run:
  "mark_running now k (fresh_connection d) = (c, x) \<Longrightarrow>
     cn_committed c = set_job k (\<lambda>j. j\<lparr>jr_status := Running, jr_started_at := Some now\<rparr>) d"
  "mark_completed now k (fresh_connection d) = (c, x) \<Longrightarrow>
     cn_committed c = set_job k (\<lambda>j. j\<lparr>jr_status := Completed, jr_finished_at := Some now\<rparr>) d"
  "mark_failed now k e (fresh_connection d) = (c, x) \<Longrightarrow>
     cn_committed c = set_job k (\<lambda>j. j\<lparr>jr_status := Failed, jr_error := Some e, jr_finished_at := Some now\<rparr>) d"
  by (auto simp: mark_running_def mark_completed_def mark_failed_def st_simps fresh_connection_def)

lemma take_job_inv:
  assumes "jobs_inv W S d" and "map_of (db_jobs d) k = Some j"
  shows "jobs_inv (insert (k, j) W) S d"
  using assms by (auto simp: jobs_inv_def workers_ok_def)

lemma fewer_saved: "jobs_inv W S d \<Longrightarrow> S' \<subseteq> S \<Longrightarrow> jobs_inv W S' d"
  by (auto simp: jobs_inv_def workers_ok_def)

theorem step_keeps_jobs_inv:
  assumes "system_step Y s s'" and inv: "jobs_inv (sy_taken s) (sy_saved s) (sy_db s)"
  shows "jobs_inv (sy_taken s') (sy_saved s') (sy_db s')"
  using assms(1)
proof (cases rule: system_step.cases)
  case (request E key q c status)
  with jobs.serve_keeps [OF _ request(3), of "sy_taken s" "sy_saved s"] inv request(2) show ?thesis by simp
next
  case (take_job k j now c)
  have "jobs_inv (insert (k, j) (sy_taken s)) (sy_saved s)
      (set_job k (\<lambda>j. j\<lparr>jr_status := Running, jr_started_at := Some now\<rparr>) (sy_db s))"
    by (rule set_job_inv [OF take_job_inv [OF inv take_job(2)]]) simp_all
  with take_job(1) marks_run(1) [OF take_job(3)] show ?thesis by simp
next
  case (store_backtest k j now r c)
  with store_backtest_inv [OF inv store_backtest(2,3) save_backtest_run [OF store_backtest(4)]]
  show ?thesis by (simp add: backtest_row_of_def)
next
  case (store_optimization k j now metric windows mi mo params dfn c)
  with store_optimization_inv [OF inv store_optimization(2,3)
      save_optimization_run [OF store_optimization(4), unfolded save_optimization_stmt_def]]
  show ?thesis by simp
next
  case (complete k now c)
  have "jobs_inv (sy_taken s) (sy_saved s) (set_job k (\<lambda>j. j\<lparr>jr_status := Completed, jr_finished_at := Some now\<rparr>) (sy_db s))"
    by (rule set_job_inv [OF inv]) (use inv complete(2) in \<open>simp_all add: jobs_inv_def workers_ok_def\<close>)
  from fewer_saved [OF this, of "sy_saved s - {k}"] complete(1) marks_run(2) [OF complete(3)] show ?thesis by auto
next
  case (fail k j now e c)
  have "jobs_inv (sy_taken s) (sy_saved s)
      (set_job k (\<lambda>j. j\<lparr>jr_status := Failed, jr_error := Some e, jr_finished_at := Some now\<rparr>) (sy_db s))"
    by (rule set_job_inv [OF inv]) simp_all
  with fail(1) marks_run(3) [OF fail(3)] show ?thesis by simp
next
  case (engine m c r)
  have "both (jobs_inv (sy_taken s) (sy_saved s)) c"
    by (rule preservesD [OF engine_inv [OF engine(2)] engine(3)]) (simp add: both_def fresh_connection_def inv)
  with engine(1) show ?thesis by (simp add: both_def)
qed

lemma reachable_jobs_inv: "reachable Y s \<Longrightarrow> jobs_inv (sy_taken s) (sy_saved s) (sy_db s)"
proof (induction rule: reachable.induct)
  case (start candles)
  then show ?case by (simp add: empty_database_def start_system_def jobs_inv_def tables_ok_def workers_ok_def keys_distinct_def)
next
  case (move s s')
  then show ?case by (blast intro: step_keeps_jobs_inv)
qed

section \<open>A worker follows the steps\<close>

abbreviation started :: "time \<Rightarrow> job_record \<Rightarrow> job_record" where
  "started now \<equiv> \<lambda>j. j\<lparr>jr_status := Running, jr_started_at := Some now\<rparr>"

abbreviation finished :: "time \<Rightarrow> job_record \<Rightarrow> job_record" where
  "finished now \<equiv> \<lambda>j. j\<lparr>jr_status := Completed, jr_finished_at := Some now\<rparr>"

abbreviation failed_with :: "time \<Rightarrow> pyerr \<Rightarrow> job_record \<Rightarrow> job_record" where
  "failed_with now e \<equiv> \<lambda>j. j\<lparr>jr_status := Failed, jr_error := Some e, jr_finished_at := Some now\<rparr>"

lemma set_job_twice_lookup:
  "map_of (db_jobs d) k = Some j \<Longrightarrow> map_of (db_jobs (set_job k f d)) k = Some (f j)"
  by (simp add: set_job_def)

text \<open>What the backtest worker does to the database \<open>d\<close>, in terms of what the job computes.\<close>

lemma run_backtest_job_outcome:
  assumes j: "map_of (db_jobs d) k = Some j" and run: "run_backtest_job Y now k (fresh_connection d) = (c, r)"
  shows "case r of Inl e \<Rightarrow> at_rest (set_job k (failed_with now e) (set_job k (started now) d)) c
    | Inr _ \<Rightarrow> \<exists>s df args result d1. map_of (db_strategies d) (jr_strategy_id j) = Some s \<and> sr_created_by s = jr_created_by j \<and>
        backtest_kwargs (jr_payload j) = Inr args \<and> backtest (li_ext Y) (li_num Y) (sr_definition s) df args = Inr result \<and>
        upsert_backtest_row k (backtest_row_of (li_num Y) now (jr_strategy_id j) result) (set_job k (started now) d) = Inr (d1, ()) \<and>
        at_rest (set_job k (finished now) d1) c"
proof -
  let ?d = "set_job k (started now) d"
  let ?c = "\<lparr>cn_committed = ?d, cn_work = ?d, cn_status = Idle\<rparr>"
  have get: "get_job_unscoped k (fresh_connection d) = ((fresh_connection d)\<lparr>cn_status := InTx\<rparr>, Inr (Some j))"
    using j by (simp add: get_job_unscoped_def st_simps fresh_connection_def)
  have "mark_running now k ((fresh_connection d)\<lparr>cn_status := InTx\<rparr>) = (?c, Inr ())"
    by (rule mark_running_run) (simp_all add: at_rest_def both_def fresh_connection_def)
  with run get have body: "catchS (backtest_body Y now k j) (failing now k) ?c = (c, r)"
    by (simp add: run_backtest_job_def run_bindS run_seqS)
  have rest: "at_rest ?d ?c" by (simp add: at_rest_def both_def)
  obtain c2 r2 where b: "backtest_body Y now k j ?c = (c2, r2)" by force
  have strategies: "db_strategies ?d = db_strategies d" by (simp add: set_job_def split: option.splits)
  show ?thesis
  proof (cases r2)
    case (Inl e)
    with body b backtest_body_run [OF b rest] show ?thesis
      by (auto simp: run_catchS failing_run at_rest_def both_def)
  next
    case (Inr u)
    with body b have "c = c2" "r = Inr ()" by (simp_all add: run_catchS)
    with backtest_body_run [OF b rest] Inr show ?thesis
      by (auto simp: find_owned_Some strategies save_backtest_stmt_def)
  qed
qed

lemma run_backtest_job_missing:
  "map_of (db_jobs d) k = None \<Longrightarrow> cn_committed (fst (run_backtest_job Y now k (fresh_connection d))) = d"
  by (simp add: run_backtest_job_def get_job_unscoped_def st_simps fresh_connection_def)

text \<open>The same for the optimization worker, where the walk-forward returned.\<close>

lemma run_optimization_job_outcome:
  assumes j: "map_of (db_jobs d) k = Some j"
    and run: "run_optimization_job Y days Q Q1 now k (fresh_connection d) = Some (c, r)"
  shows "case r of Inl e \<Rightarrow> at_rest (set_job k (failed_with now e) (set_job k (started now) d)) c
    | Inr _ \<Rightarrow> \<exists>s (inp :: optimization_input) res final windows metric mi mo d1.
        map_of (db_strategies d) (jr_strategy_id j) = Some s \<and> sr_created_by s = jr_created_by j \<and>
        optimize Y Q (sr_definition s) (oi_frame inp) (oi_train_period inp) (oi_test_period inp) None False
          (oi_search inp) (oi_kwargs inp) = Some (Inr res) \<and>
        mean_in_sample_score Y res = Inr mi \<and> mean_out_of_sample_score Y res = Inr mo \<and>
        refit_on_full_history Y Q1 (sr_definition s) (oi_frame inp) (oi_search inp) (oi_kwargs inp) = Inr final \<and>
        save_optimization_stmt now k (jr_strategy_id j) metric (VList windows) mi mo
          (params_json (ow_best_params final)) (model_dump (ow_best_definition final)) (set_job k (started now) d) = Inr (d1, ()) \<and>
        at_rest (set_job k (finished now) d1) c"
proof -
  let ?d = "set_job k (started now) d"
  let ?c = "\<lparr>cn_committed = ?d, cn_work = ?d, cn_status = Idle\<rparr>"
  have get: "get_job_unscoped k (fresh_connection d) = ((fresh_connection d)\<lparr>cn_status := InTx\<rparr>, Inr (Some j))"
    using j by (simp add: get_job_unscoped_def st_simps fresh_connection_def)
  have "mark_running now k ((fresh_connection d)\<lparr>cn_status := InTx\<rparr>) = (?c, Inr ())"
    by (rule mark_running_run) (simp_all add: at_rest_def both_def fresh_connection_def)
  with run get obtain c2 r2 where b: "optimization_body Y days Q Q1 now k j ?c = Some (c2, r2)"
    and cr: "(case r2 of Inl e \<Rightarrow> failing now k e c2 | Inr u \<Rightarrow> (c2, Inr ())) = (c, r)"
    by (auto simp: run_optimization_job_def)
  have rest: "at_rest ?d ?c" by (simp add: at_rest_def both_def)
  have strategies: "db_strategies ?d = db_strategies d" by (simp add: set_job_def split: option.splits)
  obtain c1 i where inp: "optimization_input_of days j ?c = (c1, i)" by force
  have c1: "at_rest ?d c1" by (rule reads_at_rest [OF optimization_input_reads inp rest])
  show ?thesis
  proof (cases i)
    case (Inl e)
    with b inp have "c2 = c1" "r2 = Inl e" by (simp_all add: optimization_body_def)
    with cr c1 show ?thesis by (auto simp: failing_run at_rest_def both_def)
  next
    case (Inr x)
    from b inp Inr obtain outcome where o: "optimize Y Q (oi_definition x) (oi_frame x) (oi_train_period x)
        (oi_test_period x) None False (oi_search x) (oi_kwargs x) = Some outcome"
      and rest2: "optimization_rest Y Q1 now k j x outcome c1 = (c2, r2)"
      by (auto simp: optimization_body_def)
    show ?thesis
    proof (cases r2)
      case (Inl e)
      with cr optimization_rest_run [OF rest2 c1] show ?thesis by (auto simp: failing_run at_rest_def both_def)
    next
      case (Inr u)
      with cr have "c = c2" "r = Inr ()" by simp_all
      moreover obtain s where "map_of (db_strategies d) (jr_strategy_id j) = Some s" "sr_created_by s = jr_created_by j"
          "oi_strategy_id x = jr_strategy_id j" "oi_definition x = sr_definition s"
        using optimization_input_Inr [OF _ rest] inp \<open>i = Inr x\<close> by (fastforce simp: find_owned_Some strategies)
      ultimately show ?thesis using optimization_rest_run [OF rest2 c1] Inr o by simp blast
    qed
  qed
qed

lemma optimize_returns:
  "fr_index df \<noteq> [] \<Longrightarrow> 0 < test_period \<Longrightarrow> \<exists>r. optimize Y Q d df train_period test_period None anchored sa args = Some r"
  using generate_windows [where index = "fr_index df" and step = None and test_period = test_period] by (fastforce simp: optimize_def)

lemma load_not_empty: "load_ohlcv p c = (c', Inr df) \<Longrightarrow> fr_index df \<noteq> []"
  by (auto simp: load_ohlcv_def bindS_Inr split: if_splits)

definition periods_positive :: "(fl \<Rightarrow> int res) \<Rightarrow> job_record \<Rightarrow> bool" where
  "periods_positive days j \<longleftrightarrow>
     (case bindE (bindE (json_get (jr_payload j) ''test_period_days'') as_float) days of Inl e \<Rightarrow> True | Inr t \<Rightarrow> 0 < t)"

lemma optimization_input_periods:
  assumes "optimization_input_of days j c = (c', Inr i)" and "periods_positive days j"
  shows "fr_index (oi_frame i) \<noteq> []" and "0 < oi_test_period i"
  using assms by (auto simp: optimization_input_of_def bindS_Inr periods_positive_def py_simps dest: load_not_empty)

text \<open>With a positive test period the worker returns.\<close>

lemma optimization_body_returns:
  assumes "periods_positive days j"
  shows "\<exists>cr. optimization_body Y days Q Q1 now k j c = Some cr"
proof (cases "optimization_input_of days j c")
  case (Pair c2 i)
  show ?thesis
  proof (cases i)
    case (Inr x)
    from optimize_returns [OF optimization_input_periods [OF Pair [unfolded Inr] assms]]
    obtain r where "optimize Y Q (oi_definition x) (oi_frame x) (oi_train_period x) (oi_test_period x) None False
        (oi_search x) (oi_kwargs x) = Some r" by blast
    with Pair Inr show ?thesis by (simp add: optimization_body_def)
  qed (simp add: optimization_body_def Pair)
qed

lemma run_optimization_job_returns:
  assumes "\<And>j. map_of (db_jobs (cn_work c)) k = Some j \<Longrightarrow> periods_positive days j"
  shows "\<exists>c' r. run_optimization_job Y days Q Q1 now k c = Some (c', r)"
proof -
  obtain c0 g where g: "get_job_unscoped k c = (c0, g)" by force
  show ?thesis
  proof (cases "\<exists>j. g = Inr (Some j)")
    case True
    then obtain j where j: "g = Inr (Some j)" by blast
    then have "periods_positive days j"
      using g assms by (auto simp: get_job_unscoped_def st_simps split: if_splits)
    from optimization_body_returns [OF this] obtain cr where
      b: "optimization_body Y days Q Q1 now k j (fst (mark_running now k c0)) = Some cr" by metis
    obtain c1 m where m: "mark_running now k c0 = (c1, m)" by force
    show ?thesis
      using g j b m by (cases m; cases cr; cases "snd cr") (auto simp: run_optimization_job_def intro: prod.exhaust)
  next
    case False
    with g show ?thesis by (cases g; cases "projr g") (auto simp: run_optimization_job_def)
  qed
qed

text \<open>Every commit of a worker is a step of the system; the steps may be interleaved with others.\<close>

lemma take_job_step:
  assumes "map_of (db_jobs (sy_db s)) k = Some j"
  shows "system_step Y s (s\<lparr>sy_db := set_job k (started now) (sy_db s), sy_taken := insert (k, j) (sy_taken s)\<rparr>)"
proof -
  obtain c where c: "mark_running now k (fresh_connection (sy_db s)) = (c, Inr ())" by (simp add: mark_running_def st_simps fresh_connection_def)
  from system_step.take_job [OF assms c] marks_run(1) [OF c] show ?thesis by simp
qed

lemma complete_step:
  assumes "k \<in> sy_saved s"
  shows "system_step Y s (s\<lparr>sy_db := set_job k (finished now) (sy_db s), sy_saved := sy_saved s - {k}\<rparr>)"
proof -
  obtain c where c: "mark_completed now k (fresh_connection (sy_db s)) = (c, Inr ())" by (simp add: mark_completed_def st_simps fresh_connection_def)
  from system_step.complete [OF assms c] marks_run(2) [OF c] show ?thesis by simp
qed

lemma fail_step:
  assumes "(k, j) \<in> sy_taken s"
  shows "system_step Y s (s\<lparr>sy_db := set_job k (failed_with now e) (sy_db s)\<rparr>)"
proof -
  obtain c where c: "mark_failed now k e (fresh_connection (sy_db s)) = (c, Inr ())" by (simp add: mark_failed_def st_simps fresh_connection_def)
  from system_step.fail [OF assms c] marks_run(3) [OF c] show ?thesis by simp
qed

lemma store_backtest_step:
  assumes "(k, j) \<in> sy_taken s" and "jr_job_type j = BacktestJob"
    and "upsert_backtest_row k (backtest_row_of (li_num Y) now (jr_strategy_id j) result) (sy_db s) = Inr (d1, ())"
  shows "system_step Y s (s\<lparr>sy_db := d1, sy_saved := insert k (sy_saved s)\<rparr>)"
proof -
  obtain c where c: "save_backtest_result (li_num Y) now k (jr_strategy_id j) result (fresh_connection (sy_db s)) = (c, Inr ())"
      "cn_committed c = d1"
    using assms(3) by (simp add: save_backtest_result_eq st_simps fresh_connection_def save_backtest_stmt_def)
  from system_step.store_backtest [OF assms(1,2) c(1)] c(2) show ?thesis by simp
qed

lemma store_optimization_step:
  assumes "(k, j) \<in> sy_taken s" and "jr_job_type j = OptimizationJob"
    and "save_optimization_stmt now k (jr_strategy_id j) metric windows mi mo params dfn (sy_db s) = Inr (d1, ())"
  shows "system_step Y s (s\<lparr>sy_db := d1, sy_saved := insert k (sy_saved s)\<rparr>)"
proof -
  obtain c where c: "save_optimization_result now k (jr_strategy_id j) metric windows mi mo params dfn
      (fresh_connection (sy_db s)) = (c, Inr ())" "cn_committed c = d1"
    using assms(3) by (simp add: save_optimization_result_eq st_simps fresh_connection_def)
  from system_step.store_optimization [OF assms(1,2) c(1)] c(2) show ?thesis by simp
qed

text \<open>The steps of one worker in a row: take the job, then fail it, or store the result and complete it.\<close>

lemma take_and_fail:
  assumes "map_of (db_jobs (sy_db s)) k = Some j"
  shows "\<exists>s'. (system_step Y)\<^sup>*\<^sup>* s s' \<and> sy_db s' = set_job k (failed_with now e) (set_job k (started now) (sy_db s))"
proof -
  let ?t = "s\<lparr>sy_db := set_job k (started now) (sy_db s), sy_taken := insert (k, j) (sy_taken s)\<rparr>"
  have "system_step Y s ?t" by (rule take_job_step [OF assms])
  moreover have "system_step Y ?t (?t\<lparr>sy_db := set_job k (failed_with now e) (sy_db ?t)\<rparr>)"
    by (rule fail_step [of k j]) simp
  ultimately show ?thesis
    by (intro exI [of _ "?t\<lparr>sy_db := set_job k (failed_with now e) (sy_db ?t)\<rparr>"] conjI
        converse_rtranclp_into_rtranclp [OF _ r_into_rtranclp]) simp_all
qed

lemma take_store_complete:
  assumes "map_of (db_jobs (sy_db s)) k = Some j"
    and store: "\<And>t. (k, j) \<in> sy_taken t \<Longrightarrow> sy_db t = set_job k (started now) (sy_db s) \<Longrightarrow>
      system_step Y t (t\<lparr>sy_db := d1, sy_saved := insert k (sy_saved t)\<rparr>)"
  shows "\<exists>s'. (system_step Y)\<^sup>*\<^sup>* s s' \<and> sy_db s' = set_job k (finished now) d1"
proof -
  let ?t = "s\<lparr>sy_db := set_job k (started now) (sy_db s), sy_taken := insert (k, j) (sy_taken s)\<rparr>"
  let ?u = "?t\<lparr>sy_db := d1, sy_saved := insert k (sy_saved ?t)\<rparr>"
  let ?v = "?u\<lparr>sy_db := set_job k (finished now) (sy_db ?u), sy_saved := sy_saved ?u - {k}\<rparr>"
  have "system_step Y s ?t" by (rule take_job_step [OF assms(1)])
  moreover have "system_step Y ?t ?u" by (rule store) simp_all
  moreover have "system_step Y ?u ?v" by (rule complete_step) simp
  ultimately have "(system_step Y)\<^sup>*\<^sup>* s ?v"
    by (intro converse_rtranclp_into_rtranclp [OF _ converse_rtranclp_into_rtranclp [OF _ r_into_rtranclp]])
  then show ?thesis by (intro exI [of _ ?v]) simp
qed

end
