(* ===== verification/Invariants.thy ===== *)
theory Invariants
  imports Job_System
begin

text \<open>
  Invariants of the whole system. A property of the database that requests keep
  (\<open>request_invariant\<close>), that the processes of the execution engine keep, and that the updates of
  jobs and results keep, holds in every state the system reaches from a database without users.
\<close>

locale system_invariant =
  fixes P :: "database \<Rightarrow> bool"
  assumes requests: "request_invariant P E"
    and engine_keeps: "m \<in> engine_writes \<Longrightarrow> preserves (both P) m"
    and updated_job: "P d \<Longrightarrow> (\<And>j. jr_strategy_id (f j) = jr_strategy_id j) \<Longrightarrow> P (set_job k f d)"
    and stored_backtest: "P d \<Longrightarrow> upsert_backtest_row k r d = Inr (d', ()) \<Longrightarrow> P d'"
    and stored_optimization: "P d \<Longrightarrow> upsert_optimization_row k q d = Inr (d', ()) \<Longrightarrow> P d'"
    and at_start: "P (empty_database\<lparr>db_candles := candles\<rparr>)"

sublocale system_invariant \<subseteq> request_invariant P E for E
  by (rule requests)

context system_invariant
begin

lemma step_keeps:
  assumes "system_step Y s s'" and "P (sy_db s)"
  shows "P (sy_db s')"
  using assms(1)
proof (cases rule: system_step.cases)
  case (request E key q c status)
  with serve_keeps [OF assms(2) request(3)] show ?thesis by simp
next
  case (take_job k j now c)
  with marks_run(1) [OF take_job(3)] assms(2) show ?thesis by (simp add: updated_job)
next
  case (store_backtest k j now r c)
  with stored_backtest [OF assms(2) save_backtest_run [OF store_backtest(4)]] show ?thesis by simp
next
  case (store_optimization k j now metric windows mi mo params dfn c)
  with stored_optimization [OF assms(2) save_optimization_run [OF store_optimization(4), unfolded save_optimization_stmt_def]]
  show ?thesis by simp
next
  case (complete k now c)
  with marks_run(2) [OF complete(3)] assms(2) show ?thesis by (simp add: updated_job)
next
  case (fail k j now e c)
  with marks_run(3) [OF fail(3)] assms(2) show ?thesis by (simp add: updated_job)
next
  case (engine m c r)
  have "both P c"
    by (rule preservesD [OF engine_keeps [OF engine(2)] engine(3)]) (simp add: both_def fresh_connection_def assms(2))
  with engine(1) show ?thesis by (simp add: both_def)
qed

lemma reachable_keeps: "reachable Y s \<Longrightarrow> P (sy_db s)"
proof (induction rule: reachable.induct)
  case (start candles)
  show ?case using at_start by (simp add: start_system_def)
qed (rule step_keeps)

end

end
