(* ===== verification/Tenants.thy ===== *)
theory Tenants
  imports Invariants
begin

text \<open>
  Who owns what: the rows of the other owners, which a request must leave alone, and the
  credentials live bots trade with.
\<close>

section \<open>The rows of others\<close>

definition foreign :: "('v \<Rightarrow> string) \<Rightarrow> string \<Rightarrow> ('k \<times> 'v) list \<Rightarrow> 'k \<Rightarrow> 'v option" where
  "foreign owner who t k = (case map_of t k of None \<Rightarrow> None | Some v \<Rightarrow> if owner v = who then None else Some v)"

lemma foreign_put [simp]:
  "owner v = who \<Longrightarrow> foreign owner who t k = None \<Longrightarrow> foreign owner who (put k v t) = foreign owner who t"
  by (auto simp: foreign_def fun_eq_iff)

lemma foreign_delete [simp]: "foreign owner who t k = None \<Longrightarrow> foreign owner who (delete_key k t) = foreign owner who t"
  by (auto simp: foreign_def fun_eq_iff)

lemma foreign_absent: "k \<notin> fst ` set t \<Longrightarrow> foreign owner who t k = None"
  by (simp add: foreign_def map_of_eq_None_iff [THEN iffD2])

lemma foreign_own: "find_owned owner t k who = Some kv \<Longrightarrow> foreign owner who t k = None"
  by (auto simp: foreign_def find_owned_Some)

lemma found_own:
  "find_owned owner t i who = Some (k, v) \<Longrightarrow> foreign owner who t k = None \<and> owner v = who"
  by (auto simp: foreign_def find_owned_Some)

type_synonym others =
  "(string \<Rightarrow> strategy_record option) \<times> (string \<Rightarrow> credential_row option) \<times>
   (string \<Rightarrow> bot_record option) \<times> (string \<Rightarrow> job_record option)"

definition others_rows :: "string \<Rightarrow> database \<Rightarrow> others" where
  "others_rows who d = (foreign sr_created_by who (db_strategies d), foreign ec_created_by who (db_credentials d),
     foreign bo_created_by who (db_bots d), foreign jr_created_by who (db_jobs d))"

lemma others_statement:
  assumes "\<And>d d' x. stmt d = Inr (d', x) \<Longrightarrow> others_rows who d' = others_rows who d"
  shows "preserves (both (\<lambda>d. others_rows who d = R)) (execute stmt)"
  by (rule preserves_execute) (simp add: assms)

named_theorems tenant \<open>requests that leave the rows of others alone\<close>

lemmas tenant_intros = preserves_bindS preserves_mapS preserves_seqS preserves_commit preserves_returnS
  preserves_liftS preserves_query others_statement

lemma create_strategy_others [tenant]: "preserves (both (\<lambda>d. others_rows who d = R)) (create_strategy u now dfn who)"
  unfolding create_strategy_def by (intro tenant_intros)
    (auto simp: other_statements others_rows_def py_simps foreign_absent split: if_splits)

lemma update_strategy_others [tenant]: "preserves (both (\<lambda>d. others_rows who d = R)) (update_strategy now i who dfn)"
  unfolding update_strategy_def by (intro tenant_intros)
    (auto simp: other_statements others_rows_def py_simps dest!: found_own split: if_splits option.splits)

lemma create_job_others [tenant]: "preserves (both (\<lambda>d. others_rows who d = R)) (create_job u now ty sid p who)"
  unfolding create_job_def by (intro tenant_intros)
    (auto simp: other_statements insert_job_def others_rows_def py_simps foreign_absent split: if_splits)

lemma create_credential_others [tenant]:
  "preserves (both (\<lambda>d. others_rows who d = R)) (create_credential F env nonce u now who ex lb k sec pw)"
  unfolding create_credential_def by (intro tenant_intros)
    (auto simp: other_statements others_rows_def py_simps foreign_absent split: if_splits)

lemma delete_credential_others [tenant]: "preserves (both (\<lambda>d. others_rows who d = R)) (delete_credential i who)"
  unfolding delete_credential_def by (intro tenant_intros)
    (auto simp: other_statements others_rows_def foreign_own split: if_splits option.splits)

lemma create_bot_others [tenant]: "preserves (both (\<lambda>d. others_rows who d = R)) (create_bot u now who b)"
  unfolding create_bot_def by (intro tenant_intros)
    (auto simp: other_statements others_rows_def new_bot_def bot_config.defs bot_record.defs foreign_absent split: if_splits)

lemma set_desired_status_others [tenant]: "preserves (both (\<lambda>d. others_rows who d = R)) (set_desired_status now i who st)"
  unfolding set_desired_status_def by (intro tenant_intros)
    (auto simp: other_statements others_rows_def dest!: found_own split: if_splits option.splits)

lemma delete_bot_others [tenant]: "preserves (both (\<lambda>d. others_rows who d = R)) (delete_bot i who)"
  unfolding delete_bot_def by (intro tenant_intros)
    (auto simp: other_statements others_rows_def foreign_own split: if_splits option.splits)

lemma post_bot_others [tenant]: "preserves (both (\<lambda>d. others_rows who d = R)) (post_bot u now q who)"
  unfolding post_bot_def require_owned_credential_def list_credentials_def
  by (intro tenant tenant_intros preserves_if preserves_raiseS preserves_case_option)

interpretation others: owner_invariant "\<lambda>d. others_rows who d = R" E who "\<lambda>q. \<forall>i. q \<noteq> DeleteStrategy i" for who R E
  by unfold_locales (intro tenant | blast)+

text \<open>Deleting a strategy leaves the strategies and credentials of others alone; its cascade is another matter.\<close>

lemma delete_bots_owners:
  "db_strategies (fold delete_bot_rows is d) = db_strategies d"
  "db_credentials (fold delete_bot_rows is d) = db_credentials d"
  by (induction "is" arbitrary: d) (simp_all add: delete_bot_rows_def)

lemma delete_strategy_foreign:
  "preserves (both (\<lambda>d. foreign sr_created_by who (db_strategies d) = R \<and> foreign ec_created_by who (db_credentials d) = Q))
     (delete_strategy_route i who)"
  unfolding delete_strategy_route_def delete_strategy_def
  by (intro preserve) (auto simp: delete_strategy_rows_def Let_def delete_bots_owners foreign_own split: option.splits)

section \<open>Credentials of live bots\<close>

definition backed :: "(string \<times> credential_row) list \<Rightarrow> bot_record \<Rightarrow> bool" where
  "backed credentials b \<longleftrightarrow> (bc_mode b = ''live'' \<longrightarrow>
     (\<exists>c r. bc_credential_id b = Some c \<and> map_of credentials c = Some r \<and> ec_created_by r = bo_created_by b))"

definition live_ok :: "database \<Rightarrow> bool" where
  "live_ok d \<longleftrightarrow> keys_distinct (db_credentials d) \<and> (\<forall>(i, b) \<in> set (db_bots d). backed (db_credentials d) b)"

lemma live_ok_put_bot: "live_ok d \<Longrightarrow> backed (db_credentials d) b \<Longrightarrow> live_ok (d\<lparr>db_bots := put k b (db_bots d)\<rparr>)"
  using set_put [of k b "db_bots d"] by (auto simp: live_ok_def)

lemma live_ok_fewer_bots:
  "live_ok d \<Longrightarrow> set (db_bots d') \<subseteq> set (db_bots d) \<Longrightarrow> db_credentials d' = db_credentials d \<Longrightarrow> live_ok d'"
  by (auto simp: live_ok_def)

lemma live_ok_cong: "live_ok d \<Longrightarrow> db_bots d' = db_bots d \<Longrightarrow> db_credentials d' = db_credentials d \<Longrightarrow> live_ok d'"
  by (rule live_ok_fewer_bots) simp_all

lemma backed_put: "backed t b \<Longrightarrow> k \<notin> fst ` set t \<Longrightarrow> backed (put k r t) b"
  using map_of_eq_None_iff [of t k] by (auto simp: backed_def)

lemma backed_delete: "backed t b \<Longrightarrow> bc_credential_id b \<noteq> Some k \<Longrightarrow> backed (delete_key k t) b"
  by (auto simp: backed_def)

lemma backed_status [simp]:
  "backed t (b\<lparr>bo_desired_status := x, bo_updated_at := now\<rparr>) = backed t b"
  "backed t (b\<lparr>bo_status := y, bo_status_message := m, bo_updated_at := now\<rparr>) = backed t b"
  by (simp_all add: backed_def)

lemma live_ok_put_credential:
  "live_ok d \<Longrightarrow> k \<notin> fst ` set (db_credentials d) \<Longrightarrow> live_ok (d\<lparr>db_credentials := put k r (db_credentials d)\<rparr>)"
  unfolding live_ok_def by (auto intro: backed_put alist.wf_upsert)

lemma keys_distinct_delete: "keys_distinct t \<Longrightarrow> keys_distinct (delete_key k t)"
  by (auto simp: delete_key_def)

lemma live_ok_delete_credential:
  "live_ok d \<Longrightarrow> \<not> (\<exists>(i, b) \<in> set (db_bots d). bc_credential_id b = Some k) \<Longrightarrow>
     live_ok (d\<lparr>db_credentials := delete_key k (db_credentials d)\<rparr>)"
  unfolding live_ok_def by (auto intro: backed_delete simp: keys_distinct_delete)

lemma other_tables_live:
  assumes "\<And>d d' x. stmt d = Inr (d', x) \<Longrightarrow> db_bots d' = db_bots d \<and> db_credentials d' = db_credentials d"
  shows "preserves (both live_ok) (execute stmt)"
  by (rule preserves_execute) (use assms in \<open>blast intro: live_ok_cong\<close>)

lemma backed_member: "live_ok d \<Longrightarrow> map_of (db_bots d) i = Some b \<Longrightarrow> backed (db_credentials d) b"
  by (auto simp: live_ok_def dest!: map_of_SomeD)

lemma set_desired_status_live: "preserves (both live_ok) (set_desired_status now i who st)"
proof -
  have "live_ok d'" if "live_ok d" "(case find_owned bo_created_by (db_bots d) i who of
         None \<Rightarrow> Inr (d, None)
       | Some (k, b) \<Rightarrow>
           if st \<notin> {''running'', ''stopped''} then check_violation
           else (let b' = b\<lparr>bo_desired_status := st, bo_updated_at := now\<rparr> in
             Inr (d\<lparr>db_bots := put k b' (db_bots d)\<rparr>, Some (k, b')))) = Inr (d', x)" for d d' x
  proof (cases "find_owned bo_created_by (db_bots d) i who")
    case None
    with that show ?thesis by simp
  next
    case (Some kb)
    then obtain b where b: "kb = (i, b)" "map_of (db_bots d) i = Some b" by (auto simp: find_owned_Some)
    have "live_ok (d\<lparr>db_bots := put i (b\<lparr>bo_desired_status := st, bo_updated_at := now\<rparr>) (db_bots d)\<rparr>)"
      by (rule live_ok_put_bot [OF that(1)]) (simp add: backed_member [OF that(1) b(2)])
    with that(2) Some b(1) show ?thesis by (simp add: check_violation_def Let_def split: if_splits)
  qed
  then show ?thesis unfolding set_desired_status_def by (intro preserve)
qed

lemma delete_bots_live:
  "set (db_bots (fold delete_bot_rows is d)) \<subseteq> set (db_bots d)"
  by (induction "is" arbitrary: d) (auto simp: delete_bot_rows_def, fastforce simp: delete_bot_rows_def)

lemma delete_strategy_rows_live: "live_ok d \<Longrightarrow> live_ok (delete_strategy_rows i d)"
  by (rule live_ok_fewer_bots, assumption)
    (use delete_bots_live [of "bots_of_strategy i d" d] in \<open>simp_all add: delete_strategy_rows_def Let_def delete_bots_owners\<close>)

lemma delete_strategy_live: "preserves (both live_ok) (delete_strategy i who)"
  unfolding delete_strategy_def by (intro preserve) (auto split: option.splits intro: delete_strategy_rows_live)

lemma create_credential_live: "preserves (both live_ok) (create_credential F env nonce u now who ex lb k sec pw)"
  unfolding create_credential_def insert_credential_def
  by (intro preserve) (auto simp: unique_violation_def split: if_splits intro: live_ok_put_credential)

lemma delete_credential_live: "preserves (both live_ok) (delete_credential i who)"
  unfolding delete_credential_def delete_credential_rows_def
  by (intro preserve) (auto simp: foreign_key_violation_def split: if_splits option.splits intro!: live_ok_delete_credential)

lemma delete_bot_rows_live: "live_ok d \<Longrightarrow> live_ok (delete_bot_rows i d)"
  by (rule live_ok_fewer_bots, assumption) (auto simp: delete_bot_rows_def)

lemma delete_bot_live: "preserves (both live_ok) (delete_bot i who)"
  unfolding delete_bot_def by (intro preserve) (auto split: option.splits intro: delete_bot_rows_live)

text \<open>A bot is created only after its credential was found among the owner's.\<close>

lemma insert_bot_live:
  assumes "live_ok d" and "insert_bot k b who now d = Inr (d', x)"
    and "\<And>c. bc_credential_id b = Some c \<Longrightarrow> \<exists>r. map_of (db_credentials d) c = Some r \<and> ec_created_by r = who"
  shows "live_ok d'"
proof -
  have "backed (db_credentials d) (new_bot b who now)"
    using assms(2,3) by (auto simp: backed_def insert_bot_def bot_checks_def check_violation_def new_bot_def
      bot_config.defs bot_record.defs split: if_splits)
  with assms(1,2) show ?thesis
    by (auto simp: insert_bot_def check_violation_def unique_violation_def foreign_key_violation_def split: if_splits
      intro: live_ok_put_bot)
qed

lemma require_owned_run:
  assumes "require_owned_credential k who c = (c', Inr ())" and "keys_distinct (db_credentials (cn_work c))"
  shows "cn_work c' = cn_work c \<and> cn_committed c' = cn_committed c \<and>
    (\<exists>r. map_of (db_credentials (cn_work c)) k = Some r \<and> ec_created_by r = who)"
proof -
  from assms(1) have c': "c' = c\<lparr>cn_status := InTx\<rparr>"
    and "k \<in> cs_id ` summary_of ` {kv \<in> set (db_credentials (cn_work c)). ec_created_by (snd kv) = who}"
    by (auto simp: require_owned_credential_def list_credentials_def st_simps split: if_splits)
  then obtain r where r: "(k, r) \<in> set (db_credentials (cn_work c))" "ec_created_by r = who"
    by (auto simp: summary_of_def)
  with assms(2) have "map_of (db_credentials (cn_work c)) k = Some r" by (simp add: keys_distinct_def)
  with c' r(2) show ?thesis by simp
qed

lemma create_bot_live:
  assumes "both live_ok c"
    and "\<And>k. bc_credential_id b = Some k \<Longrightarrow> \<exists>r. map_of (db_credentials (cn_work c)) k = Some r \<and> ec_created_by r = who"
  shows "both live_ok (fst (create_bot u now who b c))"
proof (cases "insert_bot (new_id ''bot'' u) b who now (cn_work c)")
  case (Inl e)
  with assms(1) show ?thesis by (simp add: create_bot_def st_simps both_def)
next
  case (Inr dx)
  obtain d x where dx: "dx = (d, x)" by (cases dx)
  have "live_ok d" if "cn_status c \<noteq> Aborted"
    by (rule insert_bot_live [OF _ Inr [unfolded dx] assms(2)]) (use assms(1) in \<open>simp add: both_def\<close>)
  with Inr dx assms(1) show ?thesis by (auto simp: create_bot_def st_simps both_def)
qed

lemma post_bot_live: "preserves (both live_ok) (post_bot u now q who)"
  unfolding preserves_def
proof (intro allI impI)
  fix c assume c: "both live_ok c"
  then have dist: "keys_distinct (db_credentials (cn_work c))" by (simp add: both_def live_ok_def)
  let ?check = "case bc_credential_id (bb_config q) of None \<Rightarrow> returnS () | Some k \<Rightarrow> require_owned_credential k who"
  obtain c1 r where r: "?check c = (c1, r)" by force
  have reads: "preserves (both live_ok) ?check"
    unfolding require_owned_credential_def list_credentials_def by (intro preserve)
  from preservesD [OF reads r c] have c1: "both live_ok c1" .
  show "both live_ok (fst (post_bot u now q who c))"
  proof (cases r)
    case (Inl e)
    with r c1 show ?thesis by (simp add: post_bot_def run_seqS)
  next
    case (Inr u')
    have "\<exists>r. map_of (db_credentials (cn_work c1)) k = Some r \<and> ec_created_by r = who"
      if "bc_credential_id (bb_config q) = Some k" for k
      using require_owned_run [OF _ dist, of k who c1] r Inr that by auto
    from create_bot_live [OF c1 this] r Inr show ?thesis
      by (simp add: post_bot_def run_seqS run_mapS split: prod.splits) (metis fst_conv)
  qed
qed

lemma create_strategy_live: "preserves (both live_ok) (create_strategy u now dfn who)"
  unfolding create_strategy_def by (intro preserves_bindS other_tables_live preserve)
    (auto simp: other_statements py_simps split: if_splits)

lemma update_strategy_live: "preserves (both live_ok) (update_strategy now i who dfn)"
  unfolding update_strategy_def by (intro preserves_bindS other_tables_live preserves_seqS preserves_commit preserves_returnS)
    (auto simp: other_statements py_simps split: if_splits option.splits)

lemma create_job_live: "preserves (both live_ok) (create_job u now ty sid p who)"
  unfolding create_job_def by (intro preserves_bindS other_tables_live preserves_seqS preserves_commit preserves_returnS)
    (auto simp: other_statements insert_job_def py_simps split: if_splits)

text \<open>The workers and the processes of the engine keep it too.\<close>

lemma set_job_live: "live_ok d \<Longrightarrow> live_ok (set_job k f d)"
  by (erule live_ok_cong) (simp_all add: set_job_def split: option.splits)

lemma put_status_live:
  assumes "live_ok d" and "map_of (db_bots d) i = Some b"
  shows "live_ok (d\<lparr>db_bots := put i (b\<lparr>bo_status := st, bo_status_message := m, bo_updated_at := now\<rparr>) (db_bots d)\<rparr>)"
  by (rule live_ok_put_bot [OF assms(1)]) (simp add: backed_member [OF assms])

lemma engine_live:
  assumes "m \<in> engine_writes"
  shows "preserves (both live_ok) m"
proof -
  have status: "preserves (both live_ok) (update_status now i st msg)" for now i st msg
    unfolding update_status_def
    by (intro preserve) (auto simp: check_violation_def split: option.splits if_splits intro: put_status_live)
  have "preserves (both live_ok) (upsert_state now i e p pos lp)" "preserves (both live_ok) (heartbeat now i)"
      "preserves (both live_ok) (discard (record_trade u t))" "preserves (both live_ok) (record_event now i ty msg data)"
    for now i e p pos lp u t ty msg data
    by (auto simp: upsert_state_def heartbeat_def dbwrite_def record_trade_def record_event_def insert_trade_def discard_def
      foreign_key_violation_def check_violation_def unique_violation_def Let_def
      intro!: preserves_mapS preserves_seqS preserves_commit preserves_returnS other_tables_live split: if_splits option.splits)
  with status assms show ?thesis unfolding engine_writes_def by auto
qed

interpretation live: system_invariant live_ok
proof unfold_locales
  show "upsert_backtest_row k r d = Inr (d', ()) \<Longrightarrow> live_ok d \<Longrightarrow> live_ok d'" for k r d d'
    by (drule upsert_backtest_row_Inr) (auto intro: live_ok_cong)
  show "upsert_optimization_row k q d = Inr (d', ()) \<Longrightarrow> live_ok d \<Longrightarrow> live_ok d'" for k q d d'
    by (drule upsert_optimization_row_Inr) (auto intro: live_ok_cong)
  show "live_ok (empty_database\<lparr>db_candles := candles\<rparr>)" for candles
    by (simp add: live_ok_def empty_database_def keys_distinct_def)
qed (intro create_strategy_live update_strategy_live create_job_live delete_strategy_live create_credential_live
  delete_credential_live post_bot_live set_desired_status_live delete_bot_live engine_live set_job_live; assumption)+

section \<open>Serving a configured key\<close>

lemma serve_configured:
  "q \<noteq> Health \<Longrightarrow> key \<in> set (split_csv (ae_api_keys E)) \<Longrightarrow> \<forall>k \<in> set (split_csv (ae_api_keys E)). is_ascii k \<Longrightarrow>
     serve E key q c = (case check_request q of Inl e \<Rightarrow> (c, 422) | Inr _ \<Rightarrow> answer q (handle E (ae_sha E key) q c))"
  using match_key_complete [of "split_csv (ae_api_keys E)" key "ae_sha E"]
  by (auto simp: serve_def require_api_key_def)

text \<open>A request with a configured key is served for the owner of the key, or changes nothing.\<close>

lemma serve_configured_run:
  assumes "serve E key q (fresh_connection d) = (c, status)" and "key \<in> set (split_csv (ae_api_keys E))"
    and "\<forall>k \<in> set (split_csv (ae_api_keys E)). is_ascii k"
  obtains "cn_committed c = d" | r where "check_request q = Inr ()" "handle E (ae_sha E key) q (fresh_connection d) = (c, r)"
  using assms(1) match_key_complete [OF assms(3,2), of "ae_sha E"] that by (cases rule: serve_run) auto

section \<open>The cascade of a strategy\<close>

lemma delete_bots_none:
  "i \<in> set is \<Longrightarrow> map_of (db_bots (fold delete_bot_rows is d)) i = None \<and> map_of (db_bot_state (fold delete_bot_rows is d)) i = None \<and>
     (\<forall>(k, t) \<in> set (db_bot_trades (fold delete_bot_rows is d)). bx_bot_id t \<noteq> i) \<and>
     (\<forall>e \<in> set (db_bot_events (fold delete_bot_rows is d)). be_bot_id e \<noteq> i)"
proof (induction "is" arbitrary: d rule: rev_induct)
  case (snoc x "is")
  then show ?case by (cases "i = x") (auto simp: delete_bot_rows_def split: prod.splits)
qed simp

lemma delete_strategy_rows_bots:
  assumes "i \<in> set (bots_of_strategy k d)"
  shows "map_of (db_bots (delete_strategy_rows k d)) i = None \<and> map_of (db_bot_state (delete_strategy_rows k d)) i = None \<and>
     (\<forall>(k', t) \<in> set (db_bot_trades (delete_strategy_rows k d)). bx_bot_id t \<noteq> i) \<and>
     (\<forall>e \<in> set (db_bot_events (delete_strategy_rows k d)). be_bot_id e \<noteq> i)"
  using delete_bots_none [OF assms, of d] by (simp add: delete_strategy_rows_def Let_def)

end
