(* ===== verification/Api_Samples.thy ===== *)
theory Api_Samples
  imports Tenants Backtest_Properties Optimize_Properties
begin

text \<open>
  A concrete run of the API: one key, a strategy, a credential, a live bot, and a backtest job that a
  worker takes, stores and completes.
\<close>

definition sample_fernet :: fernet where
  "sample_fernet = \<lparr>fe_valid_key = (\<lambda>_. True), fe_encrypt = (\<lambda>k n p. p), fe_decrypt = (\<lambda>k c. Some c)\<rparr>"

definition sample_api :: api_env where
  "sample_api = \<lparr>ae_api_keys = Some ''k'', ae_sha = (\<lambda>x. x), ae_fernet = sample_fernet, ae_environ = (\<lambda>_. Some ''m''),
     ae_nonce = (\<lambda>_. []), ae_uuid = ''1'', ae_now = 0, ae_enqueue = (\<lambda>_. Inr ())\<rparr>"

lemma sample_keys: "split_csv (ae_api_keys sample_api) = [''k'']"
  by code_simp

lemma sample_ascii: "is_ascii ''k''"
  by code_simp

lemma sample_settings [simp]:
  "ae_sha sample_api x = x" "ae_uuid sample_api = ''1''" "ae_now sample_api = 0" "ae_enqueue sample_api i = Inr ()"
  "ae_fernet sample_api = sample_fernet" "ae_environ sample_api v = Some ''m''"
  by (simp_all add: sample_api_def)

lemma sample_serve:
  "q \<noteq> Health \<Longrightarrow> serve sample_api ''k'' q c =
     (case check_request q of Inl e \<Rightarrow> (c, 422) | Inr _ \<Rightarrow> answer q (handle sample_api ''k'' q c))"
  using serve_configured [of q "''k''" sample_api c] by (cases "check_request q") (simp_all add: sample_keys sample_ascii)

definition sample_strategies :: "(string \<times> strategy_record) list" where
  "sample_strategies = [(''strat_1'', \<lparr>sr_name = ''sample'', sr_definition = sample_strategy, sr_created_by = ''k'',
     sr_created_at = 0, sr_updated_at = 0\<rparr>)]"

definition sample_market :: backtest_request where
  "sample_market = \<lparr>bq_exchange = ''binance'', bq_symbol = ''BTC/USDT'', bq_timeframe = ''1h'', bq_start = None,
     bq_end = None, bq_initial_capital = Fin 800, bq_fee_pct = 0, bq_slippage_pct = 0\<rparr>"

definition sample_job :: job_record where
  "sample_job = \<lparr>jr_job_type = BacktestJob, jr_status = Pending, jr_strategy_id = ''strat_1'',
     jr_payload = backtest_payload sample_market, jr_error = None, jr_created_by = ''k'', jr_created_at = 0,
     jr_started_at = None, jr_finished_at = None\<rparr>"

definition with_strategy :: database where
  "with_strategy = empty_database\<lparr>db_strategies := sample_strategies\<rparr>"

definition with_job :: database where
  "with_job = with_strategy\<lparr>db_jobs := [(''job_1'', sample_job)]\<rparr>"

lemma sample_storable: "definition_column sample_strategy = Inr sample_strategy"
  by (simp add: definition_column_def json_column_def model_dump_def sample_strategy_def sample_risk_def is_finite_def
    optional_json_def operand_json_def risk_json_def number_json_def indicator_json_def param_json_def)

lemma post_sample_strategy:
  "\<exists>c. serve sample_api ''k'' (PostStrategy sample_strategy) (fresh_connection empty_database) = (c, 201) \<and>
     cn_committed c = with_strategy"
  by (simp add: sample_serve check_request_def sample_definition_ok handle_def post_credential_def list_credentials_route_def discard_def post_strategy_def sample_valid
    create_strategy_def sample_storable insert_strategy_def name_taken_def empty_database_def
    fresh_connection_def st_simps answer_def success_status_def with_strategy_def sample_strategies_def new_id_def put_def)
   (simp add: sample_strategy_def)

definition sample_bot_request :: bot_create_request where
  "sample_bot_request = \<lparr>bb_config = \<lparr>bc_name = ''b'', bc_strategy_id = ''strat_1'', bc_exchange_id = ''binance'',
     bc_symbol = ''BTC/USDT'', bc_timeframe = ''1h'', bc_mode = ''live'', bc_credential_id = Some ''cred_1'',
     bc_initial_capital = Fin 1000, bc_fee_pct = 0, bc_slippage_pct = 0, bc_max_drawdown_pct = Fin (1 / 4),
     bc_max_position_notional_pct = 1, bc_max_price_deviation_pct = Fin (1 / 4)\<rparr>, bb_confirm_live = True\<rparr>"

definition sample_credential_request :: credential_request where
  "sample_credential_request = \<lparr>cq_exchange_id = ''binance'', cq_label = ''main'', cq_api_key = ''key'',
     cq_api_secret = ''secret'', cq_password = None\<rparr>"

definition sample_credential_row :: credential_row where
  "sample_credential_row = \<lparr>ec_created_by = ''k'', ec_exchange_id = ''binance'', ec_label = ''main'', ec_encrypted_api_key = ''key'',
     ec_encrypted_api_secret = ''secret'', ec_encrypted_password = None, ec_created_at = 0\<rparr>"

definition with_credential :: database where
  "with_credential = with_strategy\<lparr>db_credentials := [(''cred_1'', sample_credential_row)]\<rparr>"

definition with_bot :: database where
  "with_bot = with_credential\<lparr>db_bots := [(''bot_1'', new_bot (bb_config sample_bot_request) ''k'' 0)]\<rparr>"

lemma post_sample_credential:
  "\<exists>c. serve sample_api ''k'' (PostCredential sample_credential_request) (fresh_connection with_strategy) = (c, 201) \<and>
     cn_committed c = with_credential"
  by (simp add: sample_serve check_request_def handle_def post_credential_def list_credentials_route_def discard_def create_credential_def encrypt_secret_def get_fernet_def
    master_key_env_var_def sample_fernet_def sample_credential_request_def insert_credential_def with_strategy_def
    empty_database_def fresh_connection_def st_simps answer_def success_status_def with_credential_def
    sample_credential_row_def new_id_def put_def)

lemma post_sample_bot:
  "\<exists>c. serve sample_api ''k'' (PostBot sample_bot_request) (fresh_connection with_credential) = (c, 201) \<and>
     cn_committed c = with_bot"
proof -
  have "check_request (PostBot sample_bot_request) = Inr ()"
    by (simp add: check_request_def check_bot_request_def check_live_transition_def sample_bot_request_def Let_def fl_eval)
  moreover have "bot_checks (bb_config sample_bot_request)"
    by (simp add: bot_checks_def pg_less_def sample_bot_request_def is_nan_def zero_fl_def one_fl_def fl_eval)
  moreover have "bc_credential_id (bb_config sample_bot_request) = Some ''cred_1''" "bc_strategy_id (bb_config sample_bot_request) = ''strat_1''"
    by (simp_all add: sample_bot_request_def)
  ultimately show ?thesis
    by (simp add: sample_serve handle_def post_credential_def list_credentials_route_def discard_def post_bot_def require_owned_credential_def list_credentials_def
      create_bot_def insert_bot_def with_credential_def with_strategy_def empty_database_def fresh_connection_def st_simps
      answer_def success_status_def with_bot_def new_id_def put_def owned_by_def newest_first_def summary_of_def
      sample_credential_row_def sample_strategies_def)
qed

lemma post_sample_backtest:
  "\<exists>c. serve sample_api ''k'' (PostBacktest ''strat_1'' sample_market) (fresh_connection with_strategy) = (c, 202) \<and>
     cn_committed c = with_job"
proof -
  have "check_request (PostBacktest ''strat_1'' sample_market) = Inr ()"
    by (simp add: check_request_def check_backtest_request_def sample_market_def fl_eval)
  moreover have "json_column (VDict (backtest_payload sample_market)) = Inr (VDict (backtest_payload sample_market))"
    by (simp add: json_column_def backtest_payload_def sample_market_def time_json_def is_finite_def zero_fl_def)
  ultimately show ?thesis
    by (simp add: sample_serve handle_def post_credential_def list_credentials_route_def discard_def post_backtest_def start_job_def or_404_def get_strategy_def
      create_job_def insert_job_def with_strategy_def empty_database_def fresh_connection_def st_simps
      answer_def success_status_def with_job_def new_id_def put_def sample_strategies_def find_owned_def sample_job_def)
qed

text \<open>The states the run reaches.\<close>

lemma request_step:
  assumes "\<exists>c. serve sample_api ''k'' q (fresh_connection d) = (c, status) \<and> cn_committed c = d'"
  shows "system_step Y (start_system d) (start_system d')"
proof -
  obtain c where c: "serve sample_api ''k'' q (fresh_connection d) = (c, status)" "cn_committed c = d'" using assms by blast
  have "system_step Y (start_system d) (start_system d\<lparr>sy_db := cn_committed c\<rparr>)"
    by (rule system_step.request [where E = sample_api and key = "''k''" and q = q and status = status])
      (simp_all add: start_system_def c)
  with c(2) show ?thesis by (simp add: start_system_def)
qed

lemma sample_reachable:
  "reachable Y (start_system with_strategy)" "reachable Y (start_system with_job)"
  "reachable Y (start_system with_credential)" "reachable Y (start_system with_bot)"
proof -
  have "reachable Y (start_system empty_database)"
    using reachable.start [of Y "[]"] by (simp add: empty_database_def)
  then show s: "reachable Y (start_system with_strategy)"
    by (rule reachable.move) (rule request_step [OF post_sample_strategy])
  show "reachable Y (start_system with_job)"
    by (rule reachable.move [OF s]) (rule request_step [OF post_sample_backtest])
  show c: "reachable Y (start_system with_credential)"
    by (rule reachable.move [OF s]) (rule request_step [OF post_sample_credential])
  show "reachable Y (start_system with_bot)"
    by (rule reachable.move [OF c]) (rule request_step [OF post_sample_bot])
qed

section \<open>The worker\<close>

definition with_search :: database where
  "with_search = with_job\<lparr>db_jobs := [(''job_1'', sample_job\<lparr>jr_job_type := OptimizationJob\<rparr>)]\<rparr>"

definition with_running_bot :: database where
  "with_running_bot = with_bot\<lparr>db_bots := [(''bot_1'', (new_bot (bb_config sample_bot_request) ''k'' 0)
     \<lparr>bo_desired_status := ''running''\<rparr>)]\<rparr>"

lemma sample_stored:
  "jobs_d = db_jobs d \<Longrightarrow> db_strategies d = sample_strategies \<Longrightarrow> db_backtest_results d = [] \<Longrightarrow> ''job_1'' \<in> fst ` set jobs_d \<Longrightarrow>
     upsert_backtest_row ''job_1'' (backtest_row_of N now ''strat_1'' r) d =
       Inr (d\<lparr>db_backtest_results := [(''job_1'', backtest_row_of N now ''strat_1'' r)]\<rparr>, ())"
  by (simp add: upsert_backtest_row_def backtest_row_of_def sample_strategies_def put_def)

lemma sample_saved:
  obtains c r where "save_backtest_result sample_numlib 5 ''job_1'' ''strat_1'' r (fresh_connection with_job) = (c, Inr ())"
proof -
  have "\<exists>c. save_backtest_result sample_numlib 5 ''job_1'' ''strat_1'' r (fresh_connection with_job) = (c, Inr ())" for r
    by (simp add: save_backtest_result_eq save_backtest_stmt_def st_simps fresh_connection_def sample_stored [OF refl]
      with_job_def with_strategy_def empty_database_def)
  with that show ?thesis by blast
qed

lemma sample_worker:
  obtains c where "run_backtest_job Y 5 ''job_1'' (fresh_connection with_job) =
    (c, Inl (RuntimeError ''No stored OHLCV data in the requested range''))"
proof -
  have p: "jr_payload sample_job = backtest_payload sample_market" by (simp add: sample_job_def)
  have "\<exists>c. run_backtest_job Y 5 ''job_1'' (fresh_connection with_job) =
    (c, Inl (RuntimeError ''No stored OHLCV data in the requested range''))"
    by (simp add: run_backtest_job_def get_job_unscoped_def mark_running_def backtest_body_def find_strategy_def get_strategy_def
      load_ohlcv_def json_get_def as_text_def payload_get_def parse_dt_def time_json_def fetch_ohlcv_dataframe_def
      candle_frame_def select_candles_def List.map_filter_simps failing_def mark_failed_def rollback_def st_simps fresh_connection_def set_job_def with_job_def
      with_strategy_def empty_database_def sample_strategies_def find_owned_def backtest_payload_def sample_market_def sample_job_def)
  with that show ?thesis by blast
qed

text \<open>A state with a completed job.\<close>

lemma sample_completed:
  obtains s j where "reachable Y s" and "map_of (db_jobs (sy_db s)) ''job_1'' = Some j" and "jr_status j = Completed"
    and "jr_job_type j = BacktestJob" and "jr_strategy_id j = ''strat_1''"
proof -
  let ?s = "start_system with_job"
  let ?t = "?s\<lparr>sy_db := set_job ''job_1'' (started 5) (sy_db ?s), sy_taken := insert (''job_1'', sample_job) (sy_taken ?s)\<rparr>"
  let ?r = "undefined :: backtest_result"
  let ?u = "?t\<lparr>sy_db := (sy_db ?t)\<lparr>db_backtest_results := [(''job_1'', backtest_row_of (li_num Y) 5 ''strat_1'' ?r)]\<rparr>,
    sy_saved := insert ''job_1'' (sy_saved ?t)\<rparr>"
  let ?v = "?u\<lparr>sy_db := set_job ''job_1'' (finished 5) (sy_db ?u), sy_saved := sy_saved ?u - {''job_1''}\<rparr>"
  have j: "map_of (db_jobs (sy_db ?s)) ''job_1'' = Some sample_job" by (simp add: start_system_def with_job_def)
  have sid: "jr_strategy_id sample_job = ''strat_1''" by (simp add: sample_job_def)
  have row: "upsert_backtest_row ''job_1'' (backtest_row_of (li_num Y) 5 (jr_strategy_id sample_job) ?r) (sy_db ?t) =
      Inr ((sy_db ?t)\<lparr>db_backtest_results := [(''job_1'', backtest_row_of (li_num Y) 5 ''strat_1'' ?r)]\<rparr>, ())"
    unfolding sid by (rule sample_stored [OF refl]) (simp_all add: start_system_def set_job_def with_job_def with_strategy_def empty_database_def)
  have "system_step Y ?s ?t" by (rule take_job_step [OF j])
  moreover have "system_step Y ?t ?u"
    by (rule store_backtest_step [OF _ _ row]) (simp_all add: sample_job_def)
  moreover have "system_step Y ?u ?v" by (rule complete_step) simp
  ultimately have "reachable Y ?v" using sample_reachable(2) by (blast intro: reachable.move)
  moreover have "map_of (db_jobs (sy_db ?v)) ''job_1'' = Some (finished 5 (started 5 sample_job))"
    using j by (simp add: set_job_def)
  ultimately show ?thesis by (rule that) (simp_all add: sample_job_def)
qed

end
