(* ===== verification/Api_Properties.thy ===== *)
theory Api_Properties
  imports Api_Samples Optimize_Properties
begin

text \<open>
  What the API and its workers promise: a completed job has its result, what a worker leaves behind in every
  case, which keys are let in, that one owner's requests leave the others' rows alone, that
  live bots trade with credentials of their owner, and that a request read back from its
  payload is the request.
\<close>

section \<open>Jobs\<close>







section \<open>Keys and owners\<close>




text \<open>C15: One owner's requests leave the rows of the others alone. Whatever a request with a configured key asks
  for, and whatever it answers, no strategy and no exchange credential that belongs to another
  key is added, changed or removed by it; and unless it deletes a strategy, neither is any bot or job.\<close>

theorem requests_are_isolated:
  assumes "key \<in> set (split_csv (ae_api_keys E))" and "\<forall>k \<in> set (split_csv (ae_api_keys E)). is_ascii k"
    and "serve E key q (fresh_connection d) = (c, status)"
  shows "foreign sr_created_by (ae_sha E key) (db_strategies (cn_committed c)) = foreign sr_created_by (ae_sha E key) (db_strategies d) \<and>
    foreign ec_created_by (ae_sha E key) (db_credentials (cn_committed c)) = foreign ec_created_by (ae_sha E key) (db_credentials d) \<and>
    ((\<forall>i. q \<noteq> DeleteStrategy i) \<longrightarrow>
      foreign bo_created_by (ae_sha E key) (db_bots (cn_committed c)) = foreign bo_created_by (ae_sha E key) (db_bots d) \<and>
      foreign jr_created_by (ae_sha E key) (db_jobs (cn_committed c)) = foreign jr_created_by (ae_sha E key) (db_jobs d))"
proof -
  let ?who = "ae_sha E key"
  have runs: "P (cn_committed c)" if "check_request q = Inr () \<Longrightarrow> preserves (both P) (handle E ?who q)" "P d" for P
    using assms(3,1,2) by (cases rule: serve_configured_run) (use that kept_by_handle in auto)
  show ?thesis
  proof (cases "\<exists>i. q = DeleteStrategy i")
    case True
    then obtain i where i: "q = DeleteStrategy i" by blast
    have "handle E ?who q = delete_strategy_route i ?who" by (simp add: i handle_def)
    with runs [of "\<lambda>x. foreign sr_created_by ?who (db_strategies x) = foreign sr_created_by ?who (db_strategies d) \<and>
        foreign ec_created_by ?who (db_credentials x) = foreign ec_created_by ?who (db_credentials d)"]
      delete_strategy_foreign [of ?who] i show ?thesis by simp
  next
    case False
    with runs [OF others.handle_keeps, of "others_rows ?who d"] show ?thesis by (simp add: others_rows_def)
  qed
qed

theorem requests_are_isolated_witness:
  "\<exists>c. serve sample_api ''k'' (PostStrategy sample_strategy) (fresh_connection empty_database) = (c, 201) \<and>
     foreign sr_created_by ''k'' (db_strategies (cn_committed c)) = foreign sr_created_by ''k'' []"
proof -
  obtain c where c: "serve sample_api ''k'' (PostStrategy sample_strategy) (fresh_connection empty_database) = (c, 201)"
    using post_sample_strategy by blast
  from requests_are_isolated [OF _ _ c] c show ?thesis
    by (simp add: sample_keys sample_ascii) (simp add: empty_database_def)
qed

text \<open>The check that protects a running bot is bypassed by its strategy. Deleting a bot that is meant to run is refused
  with 409 and changes nothing; deleting the strategy, which its owner always may, removes every bot on it
  with its state, trades and events, running or not, and whoever owns the bot.\<close>

theorem deleting_a_strategy_takes_running_bots:
  assumes key: "key \<in> set (split_csv (ae_api_keys E))" "\<forall>k \<in> set (split_csv (ae_api_keys E)). is_ascii k"
    and bot: "map_of (db_bots d) i = Some b" "bo_desired_status b = ''running''"
    and strategy: "map_of (db_strategies d) (bc_strategy_id b) = Some st" "sr_created_by st = ae_sha E key"
  shows "(bo_created_by b = ae_sha E key \<longrightarrow>
      (\<exists>c. serve E key (DeleteBot i) (fresh_connection d) = (c, 409) \<and> cn_committed c = d)) \<and>
    (\<exists>c. serve E key (DeleteStrategy (bc_strategy_id b)) (fresh_connection d) = (c, 204) \<and>
      map_of (db_bots (cn_committed c)) i = None \<and> map_of (db_bot_state (cn_committed c)) i = None \<and>
      (\<forall>(k, t) \<in> set (db_bot_trades (cn_committed c)). bx_bot_id t \<noteq> i) \<and>
      (\<forall>e \<in> set (db_bot_events (cn_committed c)). be_bot_id e \<noteq> i))"
proof -
  have run: "serve E key q c = (case check_request q of Inl e \<Rightarrow> (c, 422) | Inr _ \<Rightarrow> answer q (handle E (ae_sha E key) q c))"
    if "q \<noteq> Health" for q c
    by (rule serve_configured [OF that key])
  have gone: "i \<in> set (bots_of_strategy (bc_strategy_id b) d)"
    using bot(1) by (force simp: bots_of_strategy_def dest: map_of_SomeD)
  have "\<exists>c. serve E key (DeleteBot i) (fresh_connection d) = (c, 409) \<and> cn_committed c = d" if "bo_created_by b = ae_sha E key"
    using bot that
    by (simp add: run check_request_def handle_def delete_bot_route_def or_404_def get_bot_def st_simps fresh_connection_def
      find_owned_def answer_def http_status_def)
  moreover have "\<exists>c. serve E key (DeleteStrategy (bc_strategy_id b)) (fresh_connection d) = (c, 204) \<and>
      cn_committed c = delete_strategy_rows (bc_strategy_id b) d"
    using strategy
    by (simp add: run check_request_def handle_def delete_strategy_route_def delete_strategy_def st_simps fresh_connection_def
      find_owned_def answer_def success_status_def)
  moreover note delete_strategy_rows_bots [OF gone]
  ultimately show ?thesis by auto
qed

theorem deleting_a_strategy_takes_running_bots_witness:
  "\<exists>c. serve sample_api ''k'' (DeleteStrategy ''strat_1'') (fresh_connection with_running_bot) = (c, 204) \<and>
     map_of (db_bots (cn_committed c)) ''bot_1'' = None"
proof -
  let ?b = "(new_bot (bb_config sample_bot_request) ''k'' 0)\<lparr>bo_desired_status := ''running''\<rparr>"
  have "map_of (db_bots with_running_bot) ''bot_1'' = Some ?b" "bo_desired_status ?b = ''running''"
      "map_of (db_strategies with_running_bot) (bc_strategy_id ?b) = Some (snd (hd sample_strategies))"
      "sr_created_by (snd (hd sample_strategies)) = ae_sha sample_api ''k''"
    by (simp_all add: with_running_bot_def with_bot_def with_credential_def with_strategy_def sample_strategies_def
      new_bot_def bot_config.defs bot_record.defs sample_bot_request_def)
  moreover have "bc_strategy_id ?b = ''strat_1''"
    by (simp add: new_bot_def bot_config.defs bot_record.defs sample_bot_request_def)
  ultimately show ?thesis
    using deleting_a_strategy_takes_running_bots [of "''k''" sample_api with_running_bot "''bot_1''" ?b "snd (hd sample_strategies)"]
    by (auto simp: sample_keys sample_ascii)
qed

text \<open>C7: Live bots trade only with credentials of their owner. In every reachable state, each live bot
  names a credential that exists and belongs to the owner of the bot, so starting it is never refused for a
  missing credential; and a live bot is only ever created by a request that confirms it.\<close>

theorem live_bots_use_own_credentials:
  assumes "reachable Y s" and "map_of (db_bots (sy_db s)) i = Some b" and "bc_mode b = ''live''"
  shows "(\<exists>k r. bc_credential_id b = Some k \<and> map_of (db_credentials (sy_db s)) k = Some r \<and> ec_created_by r = bo_created_by b) \<and>
    (\<exists>c row. start_bot now i (bo_created_by b) (fresh_connection (sy_db s)) = (c, Inr row) \<and> rb_desired_status row = ''running'') \<and>
    (\<forall>E key q c c'. serve E key (PostBot q) c = (c', 201) \<and> bc_mode (bb_config q) = ''live'' \<longrightarrow> bb_confirm_live q)"
proof -
  let ?d = "sy_db s"
  from live.reachable_keeps [OF assms(1)] have live: "live_ok ?d" .
  from backed_member [OF this assms(2)] assms(3) obtain k r where
    k: "bc_credential_id b = Some k" "map_of (db_credentials ?d) k = Some r" "ec_created_by r = bo_created_by b"
    by (auto simp: backed_def)
  have "k \<in> cs_id ` summary_of ` {kv \<in> set (db_credentials ?d). ec_created_by (snd kv) = bo_created_by b}"
    using k(2,3) by (force simp: summary_of_def dest: map_of_SomeD)
  then have "\<exists>c row. start_bot now i (bo_created_by b) (fresh_connection ?d) = (c, Inr row) \<and> rb_desired_status row = ''running''"
    using assms(2,3) k(1)
    by (simp add: start_bot_def or_404_def get_bot_def st_simps fresh_connection_def find_owned_def
      require_owned_credential_def list_credentials_def set_desired_status_def Let_def bot_to_response_def)
  moreover have "bb_confirm_live q" if "serve E key (PostBot q) c = (c', 201)" "bc_mode (bb_config q) = ''live''" for E key q c c'
    using that by (auto simp: serve_def check_request_def check_bot_request_def check_live_transition_def Let_def
      require_api_key_def http_status_def dest!: match_key_Inl split: if_splits sum.splits option.splits)
  ultimately show ?thesis using k by blast
qed

theorem live_bots_use_own_credentials_witness:
  "\<exists>b k r. map_of (db_bots with_bot) ''bot_1'' = Some b \<and> bc_mode b = ''live'' \<and> bc_credential_id b = Some k \<and>
     map_of (db_credentials with_bot) k = Some r \<and> ec_created_by r = bo_created_by b"
proof -
  let ?b = "new_bot (bb_config sample_bot_request) ''k'' 0"
  have "map_of (db_bots (sy_db (start_system with_bot))) ''bot_1'' = Some ?b" "bc_mode ?b = ''live''"
    by (simp_all add: start_system_def with_bot_def new_bot_def bot_config.defs bot_record.defs sample_bot_request_def)
  from live_bots_use_own_credentials [OF sample_reachable(4) this] this show ?thesis
    by (auto simp: start_system_def)
qed

section \<open>What is written is what is read\<close>

lemma bindS_liftS [simp]: "bindS (liftS (Inr x)) f = f x"
  by (simp add: fun_eq_iff run_bindS)

lemma parse_time_json [simp]: "parse_dt (time_json t) = Inr t"
  by (simp add: parse_dt_def time_json_def split: option.splits)

definition market_frame :: "backtest_request \<Rightarrow> (database connection, frame) stm" where
  "market_frame b = bindS (fetch_ohlcv_dataframe db_candles (bq_exchange b) (bq_symbol b) (bq_timeframe b) (bq_start b) (bq_end b))
     (\<lambda>df. if fr_index df = [] then raiseS (RuntimeError ''No stored OHLCV data in the requested range'') else returnS df)"

text \<open>A worker reads back the request that was made. The costs, the market and the range, and for an
  optimization the metric, the number of trials, the time limit and the two periods, that the API writes into
  the payload of a job are the ones the worker runs with; the payload fits into its column exactly
  when every number in the request is finite.\<close>

theorem payload_round_trip:
  fixes b :: backtest_request and q :: optimization_request
  shows "backtest_kwargs (backtest_payload b) = Inr (default_args\<lparr>ba_initial_capital := bq_initial_capital b,
      ba_fee_pct := bq_fee_pct b, ba_slippage_pct := bq_slippage_pct b\<rparr>) \<and>
    load_ohlcv (backtest_payload b) = market_frame b \<and>
    json_ok (VDict (backtest_payload b)) = (is_finite (bq_initial_capital b) \<and> is_finite (bq_fee_pct b) \<and> is_finite (bq_slippage_pct b)) \<and>
    backtest_kwargs (optimization_payload q) = Inr (default_args\<lparr>ba_initial_capital := bq_initial_capital q,
      ba_fee_pct := bq_fee_pct q, ba_slippage_pct := bq_slippage_pct q\<rparr>) \<and>
    load_ohlcv (optimization_payload q) = market_frame (backtest_request.truncate q) \<and>
    search_of (optimization_payload q) =
      Inr \<lparr>sa_metric = MetricName (oq_metric q), sa_n_trials = oq_n_trials q, sa_timeout = oq_timeout_seconds q\<rparr> \<and>
    metric_of (optimization_payload q) = Inr (oq_metric q) \<and>
    bindE (json_get (optimization_payload q) ''train_period_days'') as_float = Inr (oq_train_period_days q) \<and>
    bindE (json_get (optimization_payload q) ''test_period_days'') as_float = Inr (oq_test_period_days q) \<and>
    json_ok (VDict (optimization_payload q)) = (is_finite (oq_train_period_days q) \<and> is_finite (oq_test_period_days q) \<and>
      (case oq_timeout_seconds q of None \<Rightarrow> True | Some t \<Rightarrow> is_finite t) \<and> is_finite (bq_initial_capital q) \<and>
      is_finite (bq_fee_pct q) \<and> is_finite (bq_slippage_pct q))"
proof -
  have b: "backtest_kwargs (backtest_payload b) = Inr (default_args\<lparr>ba_initial_capital := bq_initial_capital b,
      ba_fee_pct := bq_fee_pct b, ba_slippage_pct := bq_slippage_pct b\<rparr>)"
    and q: "backtest_kwargs (optimization_payload q) = Inr (default_args\<lparr>ba_initial_capital := bq_initial_capital q,
      ba_fee_pct := bq_fee_pct q, ba_slippage_pct := bq_slippage_pct q\<rparr>)"
    by (simp_all add: backtest_kwargs_def backtest_payload_def optimization_payload_def payload_get_def as_float_def)
  have l: "load_ohlcv (backtest_payload b) = market_frame b"
      "load_ohlcv (optimization_payload q) = market_frame (backtest_request.truncate q)"
    by (simp_all add: load_ohlcv_def market_frame_def backtest_payload_def optimization_payload_def json_get_def
      as_text_def payload_get_def backtest_request.defs)
  have s: "search_of (optimization_payload q) =
      Inr \<lparr>sa_metric = MetricName (oq_metric q), sa_n_trials = oq_n_trials q, sa_timeout = oq_timeout_seconds q\<rparr>"
    by (cases "oq_timeout_seconds q")
      (simp_all add: search_of_def optimization_payload_def payload_get_def as_text_def as_int_def as_float_def)
  have m: "metric_of (optimization_payload q) = Inr (oq_metric q)"
      "bindE (json_get (optimization_payload q) ''train_period_days'') as_float = Inr (oq_train_period_days q)"
      "bindE (json_get (optimization_payload q) ''test_period_days'') as_float = Inr (oq_test_period_days q)"
    by (simp_all add: metric_of_def optimization_payload_def payload_get_def as_text_def json_get_def as_float_def)
  have t: "json_ok (time_json x)" for x by (simp add: time_json_def split: option.splits)
  have j: "json_ok (VDict (backtest_payload b)) = (is_finite (bq_initial_capital b) \<and> is_finite (bq_fee_pct b) \<and> is_finite (bq_slippage_pct b))"
    by (simp add: backtest_payload_def t)
  have k: "json_ok (VDict (optimization_payload q)) = (is_finite (oq_train_period_days q) \<and> is_finite (oq_test_period_days q) \<and>
      (case oq_timeout_seconds q of None \<Rightarrow> True | Some t \<Rightarrow> is_finite t) \<and> is_finite (bq_initial_capital q) \<and>
      is_finite (bq_fee_pct q) \<and> is_finite (bq_slippage_pct q))"
    by (cases "oq_timeout_seconds q") (auto simp: optimization_payload_def t)
  from b q l s m j k show ?thesis by simp
qed

lemma backtest_row_stored:
  "upsert_backtest_row k row d = Inr (d', ()) \<Longrightarrow>
     map_option (\<lambda>x. (bt_metrics x, bt_trades x, bt_equity_curve x)) (map_of (db_backtest_results d') k) =
       Some (bt_metrics row, bt_trades row, bt_equity_curve row)"
  by (auto simp: upsert_backtest_row_def foreign_key_violation_def split: option.splits if_splits)

lemma optimization_row_stored:
  "upsert_optimization_row k row d = Inr (d', ()) \<Longrightarrow>
     \<exists>x. map_of (db_optimization_results d') k = Some x \<and> ot_metric x = ot_metric row \<and> ot_windows x = ot_windows row \<and>
       ot_mean_in_sample_score x = ot_mean_in_sample_score row \<and> ot_mean_out_of_sample_score x = ot_mean_out_of_sample_score row \<and>
       ot_final_params x = ot_final_params row \<and> ot_final_definition x = ot_final_definition row"
  by (auto simp: upsert_optimization_row_def foreign_key_violation_def split: option.splits if_splits)

text \<open>C39: Results are read back as they were stored. After a worker stored the result of a job, its owner's request returns the
  metrics, trades and curve of the backtest, or the windows, parameters and definition of the optimization, with null
  for every number json cannot hold, so that this part of the response is json; but the two mean scores are
  stored and returned as they are, and the response is json only when both are finite.\<close>

theorem results_read_back:
  assumes "map_of (db_jobs d) k = Some j"
  shows "(jr_job_type j = BacktestJob \<and> save_backtest_result N now k sid r (fresh_connection d) = (c, Inr ()) \<longrightarrow>
      (\<exists>c' dt. get_backtest k (jr_created_by j) c = (c', Inr dt) \<and> job_response.truncate dt = job_to_response (k, j) \<and>
        rd_metrics dt = Some (json_safe (VDict (metrics_dict N r))) \<and>
        rd_trades dt = Some (json_safe (VList (map VDict (trade_records r)))) \<and>
        rd_equity_curve dt = Some (json_safe (VList (map VDict (equity_curve_records r))))) \<and>
      json_ok (VList [json_safe (VDict (metrics_dict N r)), json_safe (VList (map VDict (trade_records r))),
        json_safe (VList (map VDict (equity_curve_records r)))])) \<and>
    (jr_job_type j = OptimizationJob \<and> save_optimization_result now k sid metric windows mi mo params dfn (fresh_connection d) = (c, Inr ()) \<longrightarrow>
      (\<exists>c' dt. get_optimization k (jr_created_by j) c = (c', Inr dt) \<and> job_response.truncate dt = job_to_response (k, j) \<and> rd_metric dt = VStr metric \<and>
        rd_windows dt = json_safe windows \<and> rd_final_params dt = json_safe params \<and> rd_final_definition dt = json_safe dfn \<and>
        rd_mean_in_sample_score dt = VFloat mi \<and> rd_mean_out_of_sample_score dt = VFloat mo \<and>
        (json_ok (VList [rd_windows dt, rd_mean_in_sample_score dt, rd_mean_out_of_sample_score dt, rd_final_params dt,
           rd_final_definition dt]) \<longleftrightarrow> is_finite mi \<and> is_finite mo)))"
proof -
  let ?row = "backtest_row_of N now sid r"
  have "\<exists>c'. get_backtest k (jr_created_by j) c = (c', Inr (backtest_detail_of (k, j) (Some ?row)))"
    if ty: "jr_job_type j = BacktestJob" and save: "save_backtest_result N now k sid r (fresh_connection d) = (c, Inr ())"
  proof -
    have u: "upsert_backtest_row k ?row d = Inr (cn_committed c, ())" by (rule save_backtest_run [OF save])
    have c: "cn_work c = cn_committed c \<and> cn_status c = Idle"
      using save unfolding save_backtest_result_eq by (auto simp: st_simps fresh_connection_def split: sum.splits)
    have "db_jobs (cn_committed c) = db_jobs d" using upsert_backtest_row_Inr [OF u] by auto
    moreover note backtest_row_stored [OF u]
    ultimately show ?thesis using assms ty c
      by (auto simp: get_backtest_def job_of_type_def get_job_def get_backtest_result_def st_simps find_owned_def
        backtest_detail_of_def)
  qed
  moreover have "\<exists>c' dt. get_optimization k (jr_created_by j) c = (c', Inr dt) \<and> job_response.truncate dt = job_to_response (k, j) \<and>
        rd_metric dt = VStr metric \<and> rd_windows dt = json_safe windows \<and> rd_final_params dt = json_safe params \<and>
        rd_final_definition dt = json_safe dfn \<and> rd_mean_in_sample_score dt = VFloat mi \<and> rd_mean_out_of_sample_score dt = VFloat mo"
    if ty: "jr_job_type j = OptimizationJob"
      and save: "save_optimization_result now k sid metric windows mi mo params dfn (fresh_connection d) = (c, Inr ())"
  proof -
    have u: "save_optimization_stmt now k sid metric windows mi mo params dfn d = Inr (cn_committed c, ())"
      by (rule save_optimization_run [OF save])
    have c: "cn_work c = cn_committed c \<and> cn_status c = Idle"
      using save unfolding save_optimization_result_eq by (auto simp: st_simps fresh_connection_def split: sum.splits)
    have "db_jobs (cn_committed c) = db_jobs d"
      using upsert_optimization_row_Inr [OF u [unfolded save_optimization_stmt_def]] by auto
    moreover note optimization_row_stored [OF u [unfolded save_optimization_stmt_def]]
    ultimately show ?thesis using assms ty c
      by (auto simp: get_optimization_def job_of_type_def get_job_def get_optimization_result_def st_simps find_owned_def
        optimization_detail_of_def Let_def job_response.defs job_to_response_def)
  qed
  ultimately show ?thesis
    by (auto simp: backtest_row_of_def backtest_detail_of_def json_safe_ok job_response.defs job_to_response_def
      simp del: json_safe.simps)
qed

theorem results_read_back_witness:
  "\<exists>c c' r. save_backtest_result sample_numlib 5 ''job_1'' ''strat_1'' r (fresh_connection with_job) = (c, Inr ()) \<and>
     (\<exists>dt. get_backtest ''job_1'' ''k'' c = (c', Inr dt) \<and> rd_metrics dt = Some (json_safe (VDict (metrics_dict sample_numlib r))))"
proof -
  have j: "map_of (db_jobs with_job) ''job_1'' = Some sample_job" "jr_job_type sample_job = BacktestJob"
      "jr_created_by sample_job = ''k''"
    by (simp_all add: with_job_def sample_job_def)
  obtain c r where c: "save_backtest_result sample_numlib 5 ''job_1'' ''strat_1'' r (fresh_connection with_job) = (c, Inr ())"
    by (rule sample_saved)
  from results_read_back [OF j(1), of sample_numlib 5 "''strat_1''" r c] c j(2,3) show ?thesis by metis
qed

end
