(* ===== verification/Integrity.thy ===== *)
theory Integrity
  imports Tenants
begin

text \<open>
  Two invariants of the database in every reachable state of the system: every row that refers to
  another has it (\<open>references_ok\<close>), although the cascades of the deletes are spread over the tables;
  and every stored strategy is one the engine can read and run (\<open>strategies_ok\<close>).
\<close>

section \<open>Columns that refer to rows\<close>

lemma in_put: "kv \<in> set (put k v t) \<Longrightarrow> kv = (k, v) \<or> kv \<in> set t"
  using set_put [of k v t] by blast

lemma references_okD:
  assumes "references_ok d"
  shows "(k, j) \<in> set (db_jobs d) \<Longrightarrow> jr_strategy_id j \<in> fst ` set (db_strategies d)"
    and "(k, r) \<in> set (db_backtest_results d) \<Longrightarrow> k \<in> fst ` set (db_jobs d)"
    and "(k, q) \<in> set (db_optimization_results d) \<Longrightarrow> k \<in> fst ` set (db_jobs d)"
    and "(k, b) \<in> set (db_bots d) \<Longrightarrow> bc_strategy_id b \<in> fst ` set (db_strategies d)"
    and "(k, b) \<in> set (db_bots d) \<Longrightarrow> bc_credential_id b = Some c \<Longrightarrow> c \<in> fst ` set (db_credentials d)"
    and "map_of (db_bot_state d) k = Some s \<Longrightarrow> k \<in> fst ` set (db_bots d)"
  using assms unfolding references_ok_def by (fastforce dest: map_of_SomeD)+

lemma bots_put:
  assumes "references_ok d" and "bc_strategy_id b \<in> fst ` set (db_strategies d)"
    and "\<And>c. bc_credential_id b = Some c \<Longrightarrow> c \<in> fst ` set (db_credentials d)"
  shows "references_ok (d\<lparr>db_bots := put k b (db_bots d)\<rparr>)"
  using assms by (auto simp: references_ok_def dest!: in_put)

text \<open>Tables that only grow on the side that is referred to, and keep the columns that refer.\<close>

lemma references_mono:
  assumes "references_ok d"
    and "fst ` set (db_strategies d) \<subseteq> fst ` set (db_strategies d')" "fst ` set (db_credentials d) \<subseteq> fst ` set (db_credentials d')"
    and "db_jobs d' = db_jobs d" "db_backtest_results d' = db_backtest_results d" "db_bots d' = db_bots d"
    and "db_optimization_results d' = db_optimization_results d"
    and "db_bot_state d' = db_bot_state d" "db_bot_trades d' = db_bot_trades d" "db_bot_events d' = db_bot_events d"
  shows "references_ok d'"
  using assms unfolding references_ok_def by (auto 0 4 dest: subsetD)

lemma delete_bot_rows_refs: "references_ok d \<Longrightarrow> references_ok (delete_bot_rows i d)"
  by (auto simp: references_ok_def delete_bot_rows_def)

lemma delete_bots_refs: "references_ok d \<Longrightarrow> references_ok (fold delete_bot_rows is d)"
  by (induction "is" arbitrary: d) (simp_all add: delete_bot_rows_refs)

lemma delete_bots_remaining:
  "set (db_bots (fold delete_bot_rows is d)) = {kb \<in> set (db_bots d). fst kb \<notin> set is}"
  by (induction "is" arbitrary: d) (auto simp: delete_bot_rows_def)

text \<open>Deleting a strategy: its bots go with their rows, then its jobs with their results.\<close>

lemma delete_strategy_rows_refs:
  assumes "references_ok d"
  shows "references_ok (delete_strategy_rows i d)"
proof -
  let ?d = "fold delete_bot_rows (bots_of_strategy i d) d" and ?e = "delete_strategy_rows i d"
  let ?gone = "set (map fst (filter (\<lambda>(k, j). jr_strategy_id j = i) (db_jobs ?d)))"
  have refs: "references_ok ?d" by (rule delete_bots_refs [OF assms])
  have bots: "bc_strategy_id b \<noteq> i" if "(k, b) \<in> set (db_bots ?d)" for k b
    using that unfolding delete_bots_remaining by (force simp: bots_of_strategy_def)
  have kept: "k \<in> fst ` set (db_jobs ?e)" if k: "k \<in> fst ` set (db_jobs ?d)" "k \<notin> ?gone" for k
  proof -
    from k(1) obtain j where "(k, j) \<in> set (db_jobs ?d)" by auto
    moreover from this k(2) have "jr_strategy_id j \<noteq> i" by force
    ultimately have "(k, j) \<in> set (db_jobs ?e)" by (simp add: delete_strategy_rows_def Let_def)
    then show ?thesis by force
  qed
  have same: "db_bots ?e = db_bots ?d" "db_bot_state ?e = db_bot_state ?d" "db_bot_trades ?e = db_bot_trades ?d"
      "db_bot_events ?e = db_bot_events ?d" "db_credentials ?e = db_credentials ?d"
    by (simp_all add: delete_strategy_rows_def Let_def)
  have "db_strategies ?e = delete_key i (db_strategies ?d)" by (simp add: delete_strategy_rows_def Let_def)
  then have strategies: "fst ` set (db_strategies ?e) = fst ` set (db_strategies ?d) - {i}" by (simp only: delete_key_simps(1))
  have results: "(k, r) \<in> set (db_backtest_results ?e) \<Longrightarrow> (k, r) \<in> set (db_backtest_results ?d) \<and> k \<notin> ?gone"
      "(k, q) \<in> set (db_optimization_results ?e) \<Longrightarrow> (k, q) \<in> set (db_optimization_results ?d) \<and> k \<notin> ?gone" for k r q
    by (simp_all add: delete_strategy_rows_def Let_def del: set_map set_filter, auto)
  have jobs: "(k, j) \<in> set (db_jobs ?e) \<Longrightarrow> (k, j) \<in> set (db_jobs ?d) \<and> jr_strategy_id j \<noteq> i" for k j
    by (simp add: delete_strategy_rows_def Let_def)
  have "\<forall>(k, j) \<in> set (db_jobs ?e). jr_strategy_id j \<in> fst ` set (db_strategies ?e)"
    unfolding strategies by (auto dest!: jobs intro: references_okD(1) [OF refs])
  moreover have "\<forall>(k, r) \<in> set (db_backtest_results ?e). k \<in> fst ` set (db_jobs ?e)"
      "\<forall>(k, r) \<in> set (db_optimization_results ?e). k \<in> fst ` set (db_jobs ?e)"
    using refs results kept unfolding references_ok_def by blast+
  moreover have "\<forall>(k, b) \<in> set (db_bots ?e). bc_strategy_id b \<in> fst ` set (db_strategies ?e) \<and>
      (\<forall>c. bc_credential_id b = Some c \<longrightarrow> c \<in> fst ` set (db_credentials ?e))"
    unfolding same strategies using bots by (auto intro: references_okD(4,5) [OF refs])
  ultimately show ?thesis using refs unfolding references_ok_def same by blast
qed

text \<open>A new or updated row was checked against what it refers to.\<close>

lemma strategies_put_refs: "references_ok d \<Longrightarrow> references_ok (d\<lparr>db_strategies := put k s (db_strategies d)\<rparr>)"
  by (rule references_mono, assumption) auto

lemma credentials_put_refs: "references_ok d \<Longrightarrow> references_ok (d\<lparr>db_credentials := put k s (db_credentials d)\<rparr>)"
  by (rule references_mono, assumption) auto

lemma jobs_put_refs:
  "references_ok d \<Longrightarrow> jr_strategy_id j \<in> fst ` set (db_strategies d) \<Longrightarrow> references_ok (d\<lparr>db_jobs := put k j (db_jobs d)\<rparr>)"
  unfolding references_ok_def by (auto dest!: in_put)

lemma found_bot_refs:
  assumes "references_ok d" and "map_of (db_bots d) i = Some b"
    and "bc_strategy_id b' = bc_strategy_id b" and "bc_credential_id b' = bc_credential_id b"
  shows "references_ok (d\<lparr>db_bots := put i b' (db_bots d)\<rparr>)"
proof -
  have "(i, b) \<in> set (db_bots d)" using assms(2) by (rule map_of_SomeD)
  with references_okD(4,5) [OF assms(1) this] assms show ?thesis by (intro bots_put) simp_all
qed

lemma set_job_refs:
  assumes "references_ok d" and "\<And>j. jr_strategy_id (f j) = jr_strategy_id j"
  shows "references_ok (set_job k f d)"
proof (cases "map_of (db_jobs d) k")
  case (Some j)
  then have "jr_strategy_id j \<in> fst ` set (db_strategies d)"
    by (auto intro: references_okD(1) [OF assms(1)] dest: map_of_SomeD)
  with assms Some show ?thesis by (simp add: set_job_def jobs_put_refs)
qed (simp add: set_job_def assms(1))

lemma delete_credential_refs:
  assumes "references_ok d" and "\<not> (\<exists>(i, b) \<in> set (db_bots d). bc_credential_id b = Some k)"
  shows "references_ok (d\<lparr>db_credentials := delete_key k (db_credentials d)\<rparr>)"
proof -
  have "c \<in> fst ` set (delete_key k (db_credentials d))" if "(i, b) \<in> set (db_bots d)" "bc_credential_id b = Some c" for i b c
    using references_okD(5) [OF assms(1) that] assms(2) that unfolding delete_key_simps(1) by blast
  with assms(1) show ?thesis unfolding references_ok_def by (auto simp del: delete_key_simps)
qed

lemma state_put_refs:
  "references_ok d \<Longrightarrow> i \<in> fst ` set (db_bots d) \<Longrightarrow> references_ok (d\<lparr>db_bot_state := put i s (db_bot_state d)\<rparr>)"
  unfolding references_ok_def by (auto dest!: in_put)

lemma trade_put_refs:
  "references_ok d \<Longrightarrow> bx_bot_id t \<in> fst ` set (db_bots d) \<Longrightarrow> references_ok (d\<lparr>db_bot_trades := put k t (db_bot_trades d)\<rparr>)"
  unfolding references_ok_def by (auto dest!: in_put)

lemma event_refs:
  "references_ok d \<Longrightarrow> be_bot_id e \<in> fst ` set (db_bots d) \<Longrightarrow> references_ok (d\<lparr>db_bot_events := db_bot_events d @ [e]\<rparr>)"
  unfolding references_ok_def by auto

lemmas violations = unique_violation_def foreign_key_violation_def check_violation_def

lemma create_strategy_refs: "preserves (both references_ok) (create_strategy u now dfn who)"
  unfolding create_strategy_def
  by (intro preserves_bindS preserves_execute preserves_seqS preserves_commit preserves_returnS)
    (auto simp: insert_strategy_def violations py_simps strategies_put_refs split: if_splits)

lemma update_strategy_refs: "preserves (both references_ok) (update_strategy now i who dfn)"
  unfolding update_strategy_def
  by (intro preserves_bindS preserves_execute preserves_seqS preserves_commit preserves_returnS)
    (auto simp: violations py_simps Let_def strategies_put_refs split: if_splits option.splits)

lemma delete_strategy_refs: "preserves (both references_ok) (delete_strategy i who)"
  unfolding delete_strategy_def
  by (intro preserve) (auto split: option.splits intro: delete_strategy_rows_refs)

lemma create_job_refs: "preserves (both references_ok) (create_job u now ty i p who)"
  unfolding create_job_def
  by (intro preserves_bindS preserves_execute preserves_seqS preserves_commit preserves_returnS)
    (auto simp: insert_job_def violations py_simps jobs_put_refs split: if_splits)

lemma create_credential_refs: "preserves (both references_ok) (create_credential F env nonce u now who ex lb k sec pw)"
  unfolding create_credential_def insert_credential_def
  by (intro preserve) (auto simp: violations credentials_put_refs split: if_splits)

lemma remove_credential_refs: "preserves (both references_ok) (delete_credential i who)"
  unfolding delete_credential_def delete_credential_rows_def
  by (intro preserve) (auto simp: violations split: if_splits option.splits intro!: delete_credential_refs)

lemma insert_bot_refs: "references_ok d \<Longrightarrow> insert_bot k b who now d = Inr (d', x) \<Longrightarrow> references_ok d'"
proof -
  assume refs: "references_ok d" and ins: "insert_bot k b who now d = Inr (d', x)"
  from ins have "bc_strategy_id b \<in> fst ` set (db_strategies d)"
      and "\<And>c. bc_credential_id b = Some c \<Longrightarrow> c \<in> fst ` set (db_credentials d)"
      and "d' = d\<lparr>db_bots := put k (new_bot b who now) (db_bots d)\<rparr>"
    by (auto simp: insert_bot_def violations split: if_splits option.splits)
  with bots_put [OF refs, of "new_bot b who now" k] show ?thesis
    by (simp add: new_bot_def bot_config.defs bot_record.defs)
qed

lemma post_bot_refs: "preserves (both references_ok) (post_bot u now q who)"
  unfolding post_bot_def create_bot_def require_owned_credential_def list_credentials_def
  by (intro preserves_seqS preserves_case_option preserves_returnS preserves_mapS preserves_bindS preserves_if
    preserves_raiseS preserves_query preserves_execute preserves_commit) (blast intro: insert_bot_refs)

lemma wanted_bot_refs: "preserves (both references_ok) (set_desired_status now i who st)"
  unfolding set_desired_status_def
  by (intro preserves_bindS preserves_execute preserves_seqS preserves_commit preserves_returnS)
    (auto simp: violations Let_def find_owned_Some split: if_splits option.splits elim!: found_bot_refs)

lemma delete_bot_refs: "preserves (both references_ok) (delete_bot i who)"
  unfolding delete_bot_def by (intro preserve) (auto split: option.splits intro: delete_bot_rows_refs)

lemma engine_refs:
  assumes "m \<in> engine_writes"
  shows "preserves (both references_ok) m"
proof -
  have "preserves (both references_ok) (update_status now i st msg)" for now i st msg
    unfolding update_status_def by (intro preserves_seqS preserves_execute preserves_commit)
      (auto simp: violations split: option.splits if_splits elim!: found_bot_refs)
  moreover have "preserves (both references_ok) (upsert_state now i e p pos lp)" for now i e p pos lp
    unfolding upsert_state_def by (intro preserves_seqS preserves_execute preserves_commit)
      (auto simp: violations split: if_splits intro: state_put_refs)
  moreover have "preserves (both references_ok) (heartbeat now i)" for now i
    unfolding heartbeat_def by (intro preserves_seqS preserves_dbwrite preserves_commit)
      (auto split: option.splits intro!: state_put_refs dest: references_okD(6))
  moreover have "preserves (both references_ok) (discard (record_trade u t))" for u t
    unfolding record_trade_def discard_def Let_def insert_trade_def
    by (intro preserves_mapS preserves_seqS preserves_execute preserves_commit preserves_returnS)
      (auto simp: violations split: if_splits intro: trade_put_refs)
  moreover have "preserves (both references_ok) (record_event now i ty msg data)" for now i ty msg data
    unfolding record_event_def by (intro preserves_seqS preserves_execute preserves_commit)
      (auto simp: violations split: if_splits intro!: event_refs intro: rev_image_eqI)
  ultimately show ?thesis using assms unfolding engine_writes_def by auto
qed

lemma backtest_put_refs:
  assumes "references_ok d" and "upsert_backtest_row k r d = Inr (d', ())"
  shows "references_ok d'"
proof -
  from upsert_backtest_row_Inr [OF assms(2)] obtain r' where d': "d' = d\<lparr>db_backtest_results := put k r' (db_backtest_results d)\<rparr>"
    and "map_of (db_backtest_results d) k = None \<longrightarrow> map_of (db_jobs d) k \<noteq> None"
    by (elim exE conjE) (rule that)
  then have "k \<in> fst ` set (db_jobs d)"
    using references_okD(2) [OF assms(1)] map_of_SomeD map_of_eq_None_iff [of "db_jobs d"] by (metis not_None_eq)
  with assms(1) d' show ?thesis unfolding references_ok_def by (auto dest!: in_put)
qed

lemma optimization_put_refs:
  assumes "references_ok d" and "upsert_optimization_row k r d = Inr (d', ())"
  shows "references_ok d'"
proof -
  from upsert_optimization_row_Inr [OF assms(2)] obtain r'
    where d': "d' = d\<lparr>db_optimization_results := put k r' (db_optimization_results d)\<rparr>"
    and "map_of (db_optimization_results d) k = None \<longrightarrow> map_of (db_jobs d) k \<noteq> None"
    by (elim exE conjE) (rule that)
  then have "k \<in> fst ` set (db_jobs d)"
    using references_okD(3) [OF assms(1)] map_of_SomeD map_of_eq_None_iff [of "db_jobs d"] by (metis not_None_eq)
  with assms(1) d' show ?thesis unfolding references_ok_def by (auto dest!: in_put)
qed

interpretation references: system_invariant references_ok
proof unfold_locales
  show "references_ok (empty_database\<lparr>db_candles := candles\<rparr>)" for candles
    by (simp add: references_ok_def empty_database_def)
qed (rule create_strategy_refs update_strategy_refs delete_strategy_refs create_job_refs create_credential_refs
  remove_credential_refs post_bot_refs wanted_bot_refs delete_bot_refs engine_refs set_job_refs backtest_put_refs
  optimization_put_refs; assumption)+

section \<open>Stored strategies\<close>

definition runnable :: "strategy_record \<Rightarrow> bool" where
  "runnable s \<longleftrightarrow> definition_ok (sr_definition s) \<and> validate_definition (sr_definition s) = Inr () \<and>
     json_ok (model_dump (sr_definition s)) \<and> sr_name s = sd_name (sr_definition s)"

definition strategies_ok :: "database \<Rightarrow> bool" where
  "strategies_ok d \<longleftrightarrow> (\<forall>(k, s) \<in> set (db_strategies d). runnable s)"

lemma strategies_cong: "strategies_ok d \<Longrightarrow> set (db_strategies d') \<subseteq> set (db_strategies d) \<Longrightarrow> strategies_ok d'"
  unfolding strategies_ok_def by blast

lemma strategies_put: "strategies_ok d \<Longrightarrow> runnable s \<Longrightarrow> strategies_ok (d\<lparr>db_strategies := put k s (db_strategies d)\<rparr>)"
  unfolding strategies_ok_def by (auto dest!: in_put)

lemma definition_column_Inr: "definition_column d = Inr x \<longleftrightarrow> x = d \<and> json_ok (model_dump d)"
  by (auto simp: definition_column_def json_column_def map_res_eq_Inr)

lemma create_strategy_runs:
  assumes "definition_ok dfn" and "validate_definition dfn = Inr ()"
  shows "preserves (both strategies_ok) (create_strategy u now dfn who)"
  unfolding create_strategy_def
  by (intro preserves_bindS preserves_execute preserves_seqS preserves_commit preserves_returnS)
    (auto simp: insert_strategy_def violations bindE_eq_Inr definition_column_Inr runnable_def assms
      split: if_splits intro!: strategies_put)

lemma update_strategy_runs:
  assumes "definition_ok dfn" and "validate_definition dfn = Inr ()"
  shows "preserves (both strategies_ok) (update_strategy now i who dfn)"
  unfolding update_strategy_def
  by (intro preserves_bindS preserves_execute preserves_seqS preserves_commit preserves_returnS)
    (auto simp: violations bindE_eq_Inr definition_column_Inr runnable_def assms Let_def
      split: if_splits option.splits intro!: strategies_put)

lemma other_strategies:
  assumes "\<And>d d' x. stmt d = Inr (d', x) \<Longrightarrow> set (db_strategies d') \<subseteq> set (db_strategies d)"
  shows "preserves (both strategies_ok) (execute stmt)"
  by (rule preserves_execute) (use assms strategies_cong in blast)

lemmas other_strategies_intros = preserves_bindS preserves_mapS preserves_seqS preserves_commit preserves_returnS
  preserves_liftS preserves_query preserves_if preserves_raiseS preserves_case_option other_strategies

lemma delete_strategy_runs: "preserves (both strategies_ok) (delete_strategy i who)"
  unfolding delete_strategy_def
  by (intro other_strategies_intros)
    (auto simp: delete_strategy_rows_def Let_def delete_bots_owners split: option.splits)

interpretation strategies: system_invariant strategies_ok
proof unfold_locales
  show "preserves (both strategies_ok) m" if "m \<in> engine_writes" for m
    using that unfolding engine_writes_def discard_def
    by (auto simp: update_status_def upsert_state_def heartbeat_def dbwrite_def record_trade_def record_event_def insert_trade_def
      violations Let_def intro!: other_strategies_intros split: if_splits option.splits)
  show "preserves (both strategies_ok) (create_job u now ty i p who)" for u now ty i p who
    unfolding create_job_def
    by (intro other_strategies_intros) (auto simp: insert_job_def violations bindE_eq_Inr split: if_splits)
  show "preserves (both strategies_ok) (create_credential F env nonce u now who ex lb k sec pw)" for F env nonce u now who ex lb k sec pw
    unfolding create_credential_def insert_credential_def
    by (intro other_strategies_intros) (auto simp: violations split: if_splits)
  show "preserves (both strategies_ok) (delete_credential i who)" for i who
    unfolding delete_credential_def delete_credential_rows_def
    by (intro other_strategies_intros) (auto simp: violations split: if_splits option.splits)
  show "preserves (both strategies_ok) (post_bot u now q who)" for u now q who
    unfolding post_bot_def create_bot_def insert_bot_def require_owned_credential_def list_credentials_def
    by (intro other_strategies_intros) (auto simp: violations split: if_splits option.splits)
  show "preserves (both strategies_ok) (set_desired_status now i who st)" for now i who st
    unfolding set_desired_status_def
    by (intro other_strategies_intros) (auto simp: violations Let_def split: if_splits option.splits)
  show "preserves (both strategies_ok) (delete_bot i who)" for i who
    unfolding delete_bot_def
    by (intro other_strategies_intros) (auto simp: delete_bot_rows_def split: option.splits)
  show "upsert_backtest_row k r d = Inr (d', ()) \<Longrightarrow> strategies_ok d \<Longrightarrow> strategies_ok d'" for k r d d'
    by (drule upsert_backtest_row_Inr) (auto intro: strategies_cong)
  show "upsert_optimization_row k q d = Inr (d', ()) \<Longrightarrow> strategies_ok d \<Longrightarrow> strategies_ok d'" for k q d d'
    by (drule upsert_optimization_row_Inr) (auto intro: strategies_cong)
  show "strategies_ok d \<Longrightarrow> strategies_ok (set_job k f d)" for d k f
    by (erule strategies_cong) (simp add: set_job_def split: option.splits)
  show "strategies_ok (empty_database\<lparr>db_candles := candles\<rparr>)" for candles
    by (simp add: strategies_ok_def empty_database_def)
qed (intro create_strategy_runs update_strategy_runs delete_strategy_runs; assumption)+

end
