(* ===== verification/Keys.thy ===== *)
theory Keys
  imports Integrity
begin

text \<open>
  The primary keys: in every reachable state no table has two rows with the same key. The check of
  an insert, the upserts and the deletes keep it.
\<close>

definition keys_ok :: "database \<Rightarrow> bool" where
  "keys_ok d \<longleftrightarrow> keys_distinct (db_strategies d) \<and> keys_distinct (db_jobs d) \<and> keys_distinct (db_backtest_results d) \<and>
     keys_distinct (db_optimization_results d) \<and> keys_distinct (db_credentials d) \<and> keys_distinct (db_bots d) \<and>
     keys_distinct (db_bot_state d) \<and> keys_distinct (db_bot_trades d)"

lemmas keyed = alist.wf_upsert keys_distinct_delete keys_distinct_filter

lemma delete_bot_rows_keys: "keys_ok d \<Longrightarrow> keys_ok (delete_bot_rows i d)"
  by (simp add: keys_ok_def delete_bot_rows_def keyed)

lemma delete_bots_keys: "keys_ok d \<Longrightarrow> keys_ok (fold delete_bot_rows is d)"
  by (induction "is" arbitrary: d) (simp_all add: delete_bot_rows_keys)

lemma delete_strategy_rows_keys: "keys_ok d \<Longrightarrow> keys_ok (delete_strategy_rows i d)"
  using delete_bots_keys [of d "bots_of_strategy i d"]
  by (simp add: keys_ok_def delete_strategy_rows_def Let_def keyed)

lemma keys_statement:
  assumes "\<And>d d' x. stmt d = Inr (d', x) \<Longrightarrow> keys_ok d \<Longrightarrow> keys_ok d'"
  shows "preserves (both keys_ok) (execute stmt)"
  by (rule preserves_execute) (rule assms)

lemmas keys_intros = preserves_bindS preserves_mapS preserves_seqS preserves_commit preserves_returnS preserves_liftS
  preserves_query preserves_if preserves_raiseS preserves_case_option preserves_dbwrite keys_statement

lemma engine_keys:
  assumes "m \<in> engine_writes"
  shows "preserves (both keys_ok) m"
  using assms unfolding engine_writes_def discard_def
  by (auto simp: update_status_def upsert_state_def heartbeat_def record_trade_def record_event_def
    insert_trade_def violations Let_def keys_ok_def keyed intro!: keys_intros split: if_splits option.splits)

interpretation keys: system_invariant keys_ok
proof unfold_locales
  show "preserves (both keys_ok) (create_strategy u now dfn who)" for u now dfn who
    unfolding create_strategy_def by (intro keys_intros)
      (auto simp: insert_strategy_def violations py_simps keys_ok_def keyed split: if_splits)
  show "preserves (both keys_ok) (update_strategy now i who dfn)" for now i who dfn
    unfolding update_strategy_def by (intro keys_intros)
      (auto simp: violations py_simps Let_def keys_ok_def keyed split: if_splits option.splits)
  show "preserves (both keys_ok) (delete_strategy i who)" for i who
    unfolding delete_strategy_def by (intro keys_intros) (auto split: option.splits intro: delete_strategy_rows_keys)
  show "preserves (both keys_ok) (create_job u now ty i p who)" for u now ty i p who
    unfolding create_job_def by (intro keys_intros)
      (auto simp: insert_job_def violations py_simps keys_ok_def keyed split: if_splits)
  show "preserves (both keys_ok) (create_credential F env nonce u now who ex lb k sec pw)" for F env nonce u now who ex lb k sec pw
    unfolding create_credential_def insert_credential_def by (intro keys_intros)
      (auto simp: violations keys_ok_def keyed split: if_splits)
  show "preserves (both keys_ok) (delete_credential i who)" for i who
    unfolding delete_credential_def delete_credential_rows_def by (intro keys_intros)
      (auto simp: violations keys_ok_def keyed split: if_splits option.splits)
  show "preserves (both keys_ok) (post_bot u now q who)" for u now q who
    unfolding post_bot_def create_bot_def insert_bot_def require_owned_credential_def list_credentials_def
    by (intro keys_intros) (auto simp: violations keys_ok_def keyed split: if_splits option.splits)
  show "preserves (both keys_ok) (set_desired_status now i who st)" for now i who st
    unfolding set_desired_status_def by (intro keys_intros)
      (auto simp: violations Let_def keys_ok_def keyed split: if_splits option.splits)
  show "preserves (both keys_ok) (delete_bot i who)" for i who
    unfolding delete_bot_def by (intro keys_intros) (auto split: option.splits intro: delete_bot_rows_keys)
  show "upsert_backtest_row k r d = Inr (d', ()) \<Longrightarrow> keys_ok d \<Longrightarrow> keys_ok d'" for k r d d'
    by (drule upsert_backtest_row_Inr) (auto simp: keys_ok_def keyed)
  show "upsert_optimization_row k q d = Inr (d', ()) \<Longrightarrow> keys_ok d \<Longrightarrow> keys_ok d'" for k q d d'
    by (drule upsert_optimization_row_Inr) (auto simp: keys_ok_def keyed)
  show "keys_ok d \<Longrightarrow> keys_ok (set_job k f d)" for d k f
    by (simp add: set_job_def keys_ok_def keyed split: option.splits)
  show "keys_ok (empty_database\<lparr>db_candles := candles\<rparr>)" for candles
    by (simp add: keys_ok_def empty_database_def keys_distinct_def)
qed (rule engine_keys)

end
