(* ===== verification/Supervision.thy ===== *)
theory Supervision
  imports Supervisor Exec_Repository
begin

text \<open>
  The supervisor with the database it polls: \<^verbatim>\<open>freqpanda_execution/supervisor.py\<close> with its repository
  calls, each on a connection of its own that is closed afterwards. \<open>Supervisor\<close> has the same pass over a
  \<open>world\<close> that answers for the database; here the state is the database beside the supervisor, a bot
  that is given up is marked in it, and the pass is shown to be the one of \<open>Supervisor\<close> together with
  these marks. What remains outside is a \<open>host\<close>: processes, clocks, and whether a connection opens.
\<close>

record host =
  ho_environ :: environ
  ho_connect :: "string \<Rightarrow> unit res"
  ho_now :: time
  ho_poll :: "nat \<Rightarrow> int option"
  ho_exits :: "nat \<Rightarrow> bool"
  ho_monotonic :: "string \<Rightarrow> fl"
  ho_spawn :: "string \<Rightarrow> unit res"

type_synonym supervision = "database \<times> supervisor"

section \<open>The pass\<close>

text \<open>What is not committed when the connection is closed is lost.\<close>

definition with_connection :: "host \<Rightarrow> (database connection, 'a) stm \<Rightarrow> (supervision, 'a) stm" where
  "with_connection h m = bindS (getS (sv_settings \<circ> snd)) (\<lambda>cfg.
     bindS (liftS (bindE (connection_url (ho_environ h) (ss_database_url cfg)) (ho_connect h))) (\<lambda>_ (d, s).
       case m (fresh_connection d) of (c, r) \<Rightarrow> ((cn_committed c, s), r)))"

definition supervisorS :: "(supervisor, 'a) stm \<Rightarrow> (supervision, 'a) stm" where
  "supervisorS m = (\<lambda>(d, s). case m s of (s', r) \<Rightarrow> ((d, s'), r))"

definition crash_message :: pyerr where
  "crash_message = RuntimeError ''Crash-looped; stopped restarting.''"

definition mark_error :: "host \<Rightarrow> string \<Rightarrow> (supervision, unit) stm" where
  "mark_error h bot_id = with_connection h (update_status (ho_now h) bot_id ''error'' (Some crash_message))"

definition desired_running :: "host \<Rightarrow> (supervision, string list) stm" where
  "desired_running h = with_connection h (mapS (map fst) (list_bots_by_desired_status ''running''))"

definition spawn_process :: "host \<Rightarrow> string \<Rightarrow> fl list \<Rightarrow> (supervision, unit) stm" where
  "spawn_process h bot_id restart_times = bindS (liftS (ho_spawn h bot_id)) (\<lambda>_.
     supervisorS (modifyS (add_process bot_id restart_times)))"

definition reap_process :: "host \<Rightarrow> string set \<Rightarrow> string \<times> child \<Rightarrow> (supervision, unit) stm" where
  "reap_process h desired kc = (case kc of (bot_id, child) \<Rightarrow>
     (case ho_poll h (ch_process child) of
        None \<Rightarrow> returnS ()
      | Some exit_code \<Rightarrow>
          seqS (supervisorS (modifyS (forget_child bot_id \<circ> set_process (ch_process child) Exited)))
          (if bot_id \<notin> desired then returnS ()
           else bindS (getS (sv_settings \<circ> snd)) (\<lambda>cfg.
             let now = ho_monotonic h bot_id;
                 recent = filter (\<lambda>t. now - t < ss_crash_loop_window_seconds cfg) (ch_restart_times child) in
             if ss_max_restarts_in_window cfg \<le> int (length recent)
             then seqS (supervisorS (modifyS (\<lambda>s. s\<lparr>sv_given_up := insert bot_id (sv_given_up s)\<rparr>))) (mark_error h bot_id)
             else spawn_process h bot_id (recent @ [now])))))"

definition start_wanted :: "host \<Rightarrow> string \<Rightarrow> (supervision, unit) stm" where
  "start_wanted h bot_id = bindS (getS snd) (\<lambda>s.
     if bot_id \<notin> fst ` set (sv_children s) \<and> bot_id \<notin> sv_given_up s then spawn_process h bot_id [] else returnS ())"

definition reconcile_pass :: "host \<Rightarrow> (supervision, unit) stm" where
  "reconcile_pass h = bindS (desired_running h) (\<lambda>ids. let desired = set ids in
     seqS (supervisorS (modifyS (\<lambda>s. s\<lparr>sv_given_up := sv_given_up s \<inter> desired\<rparr>)))
     (seqS (bindS (getS (sv_children \<circ> snd)) (\<lambda>children. forS (reap_process h desired) children))
     (seqS (forS (start_wanted h) (remdups ids))
     (bindS (getS (sv_children \<circ> snd)) (\<lambda>children.
        forS (\<lambda>(bot_id, _). if bot_id \<notin> desired then supervisorS (stop_child (ho_exits h) bot_id) else returnS ()) children)))))"

definition supervise :: "host list \<Rightarrow> supervision \<Rightarrow> supervision" where
  "supervise hs ds = fold (\<lambda>h ds. fst (reconcile_pass h ds)) hs ds"

text \<open>The process: settings from its environment, then passes for ever; here a number of them.\<close>

definition supervisor_main :: "environ \<Rightarrow> host list \<Rightarrow> database \<Rightarrow> supervision res" where
  "supervisor_main env hs d = map_res (\<lambda>cfg. supervise hs (d, init_supervisor cfg)) (get_settings env)"

section \<open>The pass over a database is the pass over its world\<close>

definition opens :: "host \<Rightarrow> settings \<Rightarrow> unit res" where
  "opens h cfg = bindE (connection_url (ho_environ h) (ss_database_url cfg)) (ho_connect h)"

definition wanted_ids :: "database \<Rightarrow> string list" where
  "wanted_ids d = map fst (filter (\<lambda>(k, b). bo_desired_status b = ''running'') (db_bots d))"

definition world_of :: "host \<Rightarrow> settings \<Rightarrow> database \<Rightarrow> world" where
  "world_of h cfg d = \<lparr>wo_desired = map_res (\<lambda>_. wanted_ids d) (opens h cfg), wo_poll = ho_poll h,
     wo_exits = ho_exits h, wo_monotonic = ho_monotonic h, wo_spawn = ho_spawn h, wo_mark_error = \<lambda>_. opens h cfg\<rparr>"

definition marked :: "time \<Rightarrow> string \<Rightarrow> database \<Rightarrow> database" where
  "marked now i = set_bot i (\<lambda>b. b\<lparr>bo_status := ''error'', bo_status_message := Some crash_message, bo_updated_at := now\<rparr>)"

lemma run_with_connection [st_simps]:
  "with_connection h m (d, s) = (case opens h (sv_settings s) of
      Inl e \<Rightarrow> ((d, s), Inl e)
    | Inr _ \<Rightarrow> (case m (fresh_connection d) of (c, r) \<Rightarrow> ((cn_committed c, s), r)))"
  by (simp add: with_connection_def opens_def st_simps split: sum.splits)

lemma run_supervisorS [st_simps]: "supervisorS m (d, s) = (case m s of (s', r) \<Rightarrow> ((d, s'), r))"
  by (simp add: supervisorS_def)

lemma run_mark_error [st_simps]:
  "mark_error h i (d, s) = (case opens h (sv_settings s) of Inl e \<Rightarrow> ((d, s), Inl e) | Inr _ \<Rightarrow> ((marked (ho_now h) i d, s), Inr ()))"
  by (auto simp: mark_error_def st_simps update_status_def fresh_connection_def marked_def set_bot_def bot_statuses_def
    split: sum.splits option.splits)

lemma run_desired_running [st_simps]:
  "desired_running h (d, s) = (case opens h (sv_settings s) of Inl e \<Rightarrow> ((d, s), Inl e) | Inr _ \<Rightarrow> ((d, s), Inr (wanted_ids d)))"
  by (simp add: desired_running_def st_simps list_bots_by_desired_status_def fresh_connection_def wanted_ids_def split: sum.splits)

lemma spawn_process_world:
  fixes cfg :: settings and d0 :: database
  shows "spawn_process h k ts = supervisorS (spawn (world_of h cfg d0) k ts)"
  by (auto simp: spawn_process_def spawn_def world_of_def st_simps fun_eq_iff split: sum.splits)

lemma start_wanted_world:
  fixes cfg :: settings and d0 :: database
  shows "start_wanted h = (\<lambda>k. supervisorS (start_missing (world_of h cfg d0) k))"
  by (auto simp: start_wanted_def start_missing_def start_child_def spawn_process_world [where cfg = cfg and ?d0.0 = d0] st_simps fun_eq_iff)

lemma forS_supervisorS: "forS (\<lambda>x. supervisorS (f x)) xs (d, s) = supervisorS (forS f xs) (d, s)"
  by (induction xs arbitrary: s) (simp_all add: st_simps split: prod.splits sum.splits)

lemma reap_process_world:
  assumes "reap_process h D (k, c) (d, s) = ((d', s'), r)" and "k \<notin> sv_given_up s"
  shows "reap_child (world_of h (sv_settings s) d0) D (k, c) s = (s', r)"
    and "d' = (if r = Inr () \<and> k \<in> sv_given_up s' then marked (ho_now h) k d else d)"
proof -
  let ?w = "world_of h (sv_settings s) d0"
  have w: "wo_poll ?w = ho_poll h" "wo_monotonic ?w = ho_monotonic h" "wo_mark_error ?w i = opens h (sv_settings s)" for i
    by (simp_all add: world_of_def)
  have sp: "spawn_process h k ts (d, t) = (case spawn ?w k ts t of (t', r) \<Rightarrow> ((d, t'), r))" for ts t
    by (simp add: spawn_process_world [where cfg = "sv_settings s" and ?d0.0 = d0] st_simps)
  have given_up: "sv_given_up (fst (spawn ?w k ts t)) = sv_given_up t" for ts t
    by (simp add: spawn_def add_process_def st_simps split: sum.splits)
  note run = assms(1) [unfolded reap_process_def] assms(2)
  show "reap_child ?w D (k, c) s = (s', r)"
    using run by (auto simp: reap_child_def w sp st_simps Let_def forget_child_def split: option.splits if_splits sum.splits prod.splits)
  show "d' = (if r = Inr () \<and> k \<in> sv_given_up s' then marked (ho_now h) k d else d)"
    using run given_up
    by (auto simp: sp st_simps Let_def forget_child_def dest: arg_cong [of _ _ "sv_given_up \<circ> fst"] split: option.splits if_splits sum.splits prod.splits)
qed

text \<open>The bots given up in this pass, each marked once.\<close>

definition marks :: "host \<Rightarrow> supervisor \<Rightarrow> supervisor \<Rightarrow> unit res \<Rightarrow> database \<Rightarrow> database \<Rightarrow> bool" where
  "marks h s s' r d d' \<longleftrightarrow> (\<exists>is. d' = fold (marked (ho_now h)) is d \<and> distinct is \<and>
     set is \<subseteq> sv_given_up s' - sv_given_up s \<and> (r = Inr () \<longrightarrow> set is = sv_given_up s' - sv_given_up s))"

lemma reap_processes_world:
  assumes "supervisor_ok s" and "distinct (map fst cs)" and "fst ` set cs \<inter> sv_given_up s = {}"
    and "forS (reap_process h D) cs (d, s) = ((d', s'), r)"
  shows "forS (reap_child (world_of h (sv_settings s) d0) D) cs s = (s', r) \<and> marks h s s' r d d'"
  using assms
proof (induction cs arbitrary: s d)
  case Nil
  then show ?case by (auto simp: marks_def st_simps)
next
  case (Cons kc cs)
  obtain k c where kc: "kc = (k, c)" by force
  from Cons.prems kc have k: "k \<notin> sv_given_up s" "k \<notin> fst ` set cs" by auto
  let ?w = "world_of h (sv_settings s) d0"
  obtain d1 s1 r1 where one: "reap_process h D (k, c) (d, s) = ((d1, s1), r1)" by (metis surj_pair)
  note world = reap_process_world(1) [OF one k(1), of d0] reap_process_world(2) [OF one k(1)]
  note kept = reap_child_ok [OF Cons.prems(1) k(1) world(1)]
  have new: "sv_given_up s1 - sv_given_up s = (if k \<in> sv_given_up s1 then {k} else {})" using kept(3,4) k(1) by auto
  show ?case
  proof (cases r1)
    case (Inl e)
    with Cons.prems(4) one world show ?thesis by (auto simp: kc st_simps marks_def intro!: exI [of _ "[]"])
  next
    case (Inr u)
    with Cons.prems(4) one have rest: "forS (reap_process h D) cs (d1, s1) = ((d', s'), r)" by (simp add: kc st_simps)
    have "fst ` set cs \<inter> sv_given_up s1 = {}" using kept(4) Cons.prems(3) k(2) by (simp add: kc) blast
    from Cons.IH [OF kept(1) _ this rest] Cons.prems(2) kept(2)
    have ih: "forS (reap_child ?w D) cs s1 = (s', r)" and m: "marks h s1 s' r d1 d'" by (simp_all add: kc)
    from m obtain "is" where "is": "d' = fold (marked (ho_now h)) is d1" "distinct is" "set is \<subseteq> sv_given_up s' - sv_given_up s1"
        "r = Inr () \<longrightarrow> set is = sv_given_up s' - sv_given_up s1"
      unfolding marks_def by (elim exE conjE) (rule that)
    have grown: "sv_given_up s1 \<subseteq> sv_given_up s'"
      using reap_list_ok [OF kept(1) _ \<open>fst ` set cs \<inter> sv_given_up s1 = {}\<close> ih] Cons.prems(2) by (simp add: kc)
    have "marks h s s' r d d'"
      unfolding marks_def
      using "is" new grown kept(3) world(2) Inr k(1)
      by (intro exI [of _ "if k \<in> sv_given_up s1 then k # is else is"]) auto
    with ih world(1) Inr show ?thesis by (simp add: kc st_simps)
  qed
qed

lemma reconcile_pass_world:
  assumes "supervisor_ok s" and "reconcile_pass h (d, s) = ((d', s'), r)"
  shows "reconcile_once (world_of h (sv_settings s) d) s = (s', r) \<and> marks h s s' r d d'"
proof (cases "opens h (sv_settings s)")
  case (Inl e)
  then have "wo_desired (world_of h (sv_settings s) d) = Inl e" by (simp add: world_of_def)
  from reconcile_failed_read [OF this, of s] assms(2) Inl show ?thesis
    by (auto simp: reconcile_pass_def st_simps marks_def intro!: exI [of _ "[]"])
next
  case (Inr u)
  let ?w = "world_of h (sv_settings s) d" and ?D = "set (wanted_ids d)"
  let ?s0 = "s\<lparr>sv_given_up := sv_given_up s \<inter> ?D\<rparr>"
  have desired: "wo_desired ?w = Inr (wanted_ids d)" by (simp add: world_of_def Inr)
  have ok0: "supervisor_ok ?s0" using assms(1) by (auto simp: supervisor_ok_def)
  have pre: "distinct (map fst (sv_children s))" "fst ` set (sv_children s) \<inter> sv_given_up ?s0 = {}"
    using assms(1) by (auto simp: supervisor_ok_def keys_distinct_def)
  obtain d1 s1 r1 where reap: "forS (reap_process h ?D) (sv_children s) (d, ?s0) = ((d1, s1), r1)" by (metis surj_pair)
  have world: "forS (reap_child ?w ?D) (sv_children s) ?s0 = (s1, r1)" and m: "marks h ?s0 s1 r1 d d1"
    using reap_processes_world [OF ok0 pre reap, of d] by simp_all
  have start: "forS (start_wanted h) xs (d1, t) = (case forS (start_missing ?w) xs t of (t', r) \<Rightarrow> ((d1, t'), r))" for xs t
    using forS_supervisorS [of "start_missing ?w" xs d1 t] unfolding start_wanted_world [where cfg = "sv_settings s" and ?d0.0 = d]
    by (simp add: st_simps)
  have stop: "forS (\<lambda>(k, _). if k \<notin> ?D then supervisorS (stop_child (ho_exits h) k) else returnS ()) xs (d1, t) =
      (case forS (\<lambda>(k, _). if k \<notin> ?D then stop_child (ho_exits h) k else returnS ()) xs t of (t', r) \<Rightarrow> ((d1, t'), r))" for xs :: "(string \<times> child) list" and t
    by (induction xs arbitrary: t) (auto simp: st_simps split: prod.splits sum.splits)
  obtain s2 r2 where wanted: "forS (start_missing ?w) (remdups (wanted_ids d)) s1 = (s2, r2)" by force
  obtain s3 r3 where unwanted: "forS (\<lambda>(k, _). if k \<notin> ?D then stop_child (ho_exits h) k else returnS ()) (sv_children s2) s2 = (s3, r3)"
    by force
  have exits: "wo_exits ?w = ho_exits h" by (simp add: world_of_def)
  have once: "reconcile_once ?w s = (case r1 of Inl e \<Rightarrow> (s1, Inl e) | Inr _ \<Rightarrow>
      (case r2 of Inl e \<Rightarrow> (s2, Inl e) | Inr _ \<Rightarrow> (s3, r3)))"
    using desired world wanted unwanted [folded exits]
    by (simp add: reconcile_once_def reap_dead_children_def st_simps Let_def split: sum.splits)
  have pass: "((d', s'), r) = (case r1 of Inl e \<Rightarrow> ((d1, s1), Inl e) | Inr _ \<Rightarrow>
      (case r2 of Inl e \<Rightarrow> ((d1, s2), Inl e) | Inr _ \<Rightarrow> ((d1, s3), r3)))"
    using assms(2) Inr reap wanted unwanted
    by (simp add: reconcile_pass_def st_simps Let_def start stop split: sum.splits)
  have ok1: "supervisor_ok s1" using reap_list_ok [OF ok0 pre world] by simp
  have bounds: "sv_given_up s1 \<subseteq> ?D" "sv_given_up ?s0 \<subseteq> sv_given_up s1"
    using reap_list_ok [OF ok0 pre world] by auto
  have ok2: "supervisor_ok s2" "sv_given_up s2 = sv_given_up s1" using start_list [OF wanted ok1] by simp_all
  then have same: "sv_given_up s2 = sv_given_up s1" "sv_given_up s3 = sv_given_up s1"
    using stop_list [OF unwanted] by (auto simp: supervisor_ok_def keys_distinct_def)
  have "sv_given_up s1 - sv_given_up ?s0 = sv_given_up s1 - sv_given_up s" using bounds by auto
  with m have "marks h s s' r d d'"
    using pass same by (auto simp: marks_def split: sum.splits)
  with once pass show ?thesis by (auto split: sum.splits)
qed

end
