(* ===== verification/System_Properties.thy ===== *)
theory System_Properties
  imports Keys Supervision Api_Samples
begin

text \<open>
  Properties that span the processes: requests, the database and the supervisor.
\<close>

section \<open>The database\<close>



text \<open>C9: A bot process always finds a strategy it can run. In every reachable state, what a bot reads for
  its strategy is a definition that passes every check of the schema and the semantic validation, and
  that survives the \<^verbatim>\<open>jsonb\<close> column it is stored in.\<close>

theorem bots_have_runnable_strategies:
  assumes "reachable Y s" and "map_of (db_bots (sy_db s)) i = Some b"
  shows "\<exists>c d. get_strategy_definition (bc_strategy_id b) (fresh_connection (sy_db s)) = (c, Inr (Some d)) \<and>
    definition_ok d \<and> validate_definition d = Inr () \<and> json_ok (model_dump d) \<and> model_validate lax (model_dump d) = Inr d"
proof -
  let ?d = "sy_db s"
  have refs: "references_ok ?d" by (rule references.reachable_keeps [OF assms(1)])
  have "(i, b) \<in> set (db_bots ?d)" using assms(2) by (rule map_of_SomeD)
  from references_okD(4) [OF refs this] obtain r where r: "map_of (db_strategies ?d) (bc_strategy_id b) = Some r"
    using map_of_eq_None_iff [of "db_strategies ?d" "bc_strategy_id b"] by auto
  then have "runnable r"
    using strategies.reachable_keeps [OF assms(1)] by (auto simp: strategies_ok_def dest: map_of_SomeD)
  with r show ?thesis
    by (simp add: get_strategy_definition_def run_query fresh_connection_def runnable_def model_validate_dump)
qed

theorem bots_have_runnable_strategies_witness:
  "\<exists>c d. get_strategy_definition ''strat_1'' (fresh_connection with_bot) = (c, Inr (Some d)) \<and> definition_ok d"
proof -
  let ?b = "new_bot (bb_config sample_bot_request) ''k'' 0"
  have "map_of (db_bots (sy_db (start_system with_bot))) ''bot_1'' = Some ?b" "bc_strategy_id ?b = ''strat_1''"
    by (simp_all add: start_system_def with_bot_def new_bot_def bot_config.defs bot_record.defs sample_bot_request_def)
  from bots_have_runnable_strategies [OF sample_reachable(4) this(1), of "\<lambda>_. None"] this(2) show ?thesis
    unfolding start_system_def by fastforce
qed

section \<open>The supervisor and its database\<close>

lemma marked_lookup:
  "map_of (db_bots (marked now i d)) k = (if k = i then map_option (\<lambda>b. b\<lparr>bo_status := ''error'',
     bo_status_message := Some crash_message, bo_updated_at := now\<rparr>) (map_of (db_bots d) i) else map_of (db_bots d) k)"
  by (auto simp: marked_def set_bot_def split: option.splits)

lemma marks_lookup:
  "distinct is \<Longrightarrow> map_of (db_bots (fold (marked now) is d)) k = (if k \<in> set is then map_option (\<lambda>b. b\<lparr>bo_status := ''error'',
     bo_status_message := Some crash_message, bo_updated_at := now\<rparr>) (map_of (db_bots d) k) else map_of (db_bots d) k)"
  by (induction "is" arbitrary: d) (auto simp: marked_lookup)

lemma marks_frame: "fold (marked now) is d = d\<lparr>db_bots := db_bots (fold (marked now) is d)\<rparr>"
proof -
  have "\<exists>t. fold (marked now) is d = d\<lparr>db_bots := t\<rparr>"
  proof (induction "is" arbitrary: d)
    case Nil
    show ?case by (rule exI [of _ "db_bots d"]) simp
  next
    case (Cons i "is")
    obtain t where "marked now i d = d\<lparr>db_bots := t\<rparr>"
      using that [of "db_bots (marked now i d)"] by (cases "map_of (db_bots d) i") (simp_all add: marked_def set_bot_def)
    with Cons [of "d\<lparr>db_bots := t\<rparr>"] show ?case by simp
  qed
  then show ?thesis by (elim exE) simp
qed

lemma marks_keys: "keys_distinct (db_bots d) \<Longrightarrow> keys_distinct (db_bots (fold (marked now) is d))"
  by (induction "is" arbitrary: d) (simp_all add: marked_def set_bot_def alist.wf_upsert split: option.splits)

lemma wanted_lookup:
  "keys_distinct (db_bots d) \<Longrightarrow> i \<in> set (wanted_ids d) \<longleftrightarrow>
     (\<exists>b. map_of (db_bots d) i = Some b \<and> bo_desired_status b = ''running'')"
  by (force simp: wanted_ids_def keys_distinct_def)

text \<open>The marks of a pass are commits of the engine, so a supervised system stays reachable.\<close>

lemma marks_reachable: "reachable Y sy \<Longrightarrow> reachable Y (sy\<lparr>sy_db := fold (marked now) is (sy_db sy)\<rparr>)"
proof (induction "is" arbitrary: sy)
  case (Cons i "is")
  have "system_step Y sy (sy\<lparr>sy_db := marked now i (sy_db sy)\<rparr>)"
  proof -
    let ?m = "update_status now i ''error'' (Some crash_message)"
    obtain c r where run: "?m (fresh_connection (sy_db sy)) = (c, r)" by force
    then have "cn_committed c = marked now i (sy_db sy)"
      by (auto simp: update_status_def st_simps fresh_connection_def marked_def set_bot_def bot_statuses_def split: option.splits)
    moreover have "?m \<in> engine_writes" unfolding engine_writes_def by blast
    ultimately show ?thesis using system_step.engine [where m = ?m and s = sy and c = c and r = r and Y = Y] run by simp
  qed
  from Cons.IH [OF reachable.move [OF Cons.prems this]] show ?case by simp
qed simp

lemma pass_wanted:
  assumes "supervisor_ok s" and "reconcile_pass h (d, s) = ((d', s'), Inr ())"
  shows "supervisor_ok s'" and "fst ` set (sv_children s') = set (wanted_ids d) - sv_given_up s'"
    and "sv_given_up s' \<subseteq> set (wanted_ids d)" and "\<exists>is. d' = fold (marked (ho_now h)) is d \<and> distinct is"
    and "i \<notin> fst ` set (sv_children s) \<Longrightarrow> i \<notin> sv_given_up s \<Longrightarrow> i \<notin> sv_given_up s'"
    and "(i, c) \<in> set (sv_children s') \<Longrightarrow> i \<notin> fst ` set (sv_children s) \<Longrightarrow> length (sv_processes s) \<le> ch_process c"
    and "processes_ok s \<Longrightarrow> processes_ok s'"
    and "processes_ok s \<Longrightarrow> map_of (sv_children s) i = Some c \<Longrightarrow> i \<notin> set (wanted_ids d) \<Longrightarrow>
      gone s' i (ch_process c) (if ho_poll h (ch_process c) \<noteq> None \<or> ho_exits h (ch_process c) then Exited else Killed)"
proof -
  let ?w = "world_of h (sv_settings s) d"
  from reconcile_pass_world [OF assms] have once: "reconcile_once ?w s = (s', Inr ())" and m: "marks h s s' (Inr ()) d d'" by simp_all
  have "\<exists>u. opens h (sv_settings s) = Inr u"
    using assms(2) by (cases "opens h (sv_settings s)") (auto simp: reconcile_pass_def st_simps)
  then have ids: "wo_desired ?w = Inr (wanted_ids d)" by (auto simp: world_of_def)
  note ok = reconcile_ok [OF assms(1) once ids]
  show "supervisor_ok s'" "fst ` set (sv_children s') = set (wanted_ids d) - sv_given_up s'"
      "sv_given_up s' \<subseteq> set (wanted_ids d)" using ok by simp_all
  show "\<exists>is. d' = fold (marked (ho_now h)) is d \<and> distinct is" using m unfolding marks_def by blast
  show "i \<notin> sv_given_up s'" if "i \<notin> fst ` set (sv_children s)" "i \<notin> sv_given_up s"
    using assms(1) once ids
  proof (rule pass_reaps)
    fix s0 s1
    assume "supervisor_ok s0" "distinct (map fst (sv_children s))" "fst ` set (sv_children s) \<inter> sv_given_up s0 = {}"
      "forS (reap_child ?w (set (wanted_ids d))) (sv_children s) s0 = (s1, Inr ())" "sv_given_up s' = sv_given_up s1"
      "sv_given_up s0 = sv_given_up s \<inter> set (wanted_ids d)"
    with reap_list_other [of s0 "sv_children s" ?w] that show ?thesis by auto
  qed
  show "processes_ok s'" if "processes_ok s" by (rule reconcile_processes(1) [OF assms(1) that once])
  show "gone s' i (ch_process c) (if ho_poll h (ch_process c) \<noteq> None \<or> ho_exits h (ch_process c) then Exited else Killed)"
    if "processes_ok s" "map_of (sv_children s) i = Some c" "i \<notin> set (wanted_ids d)"
    using reconcile_processes(2) [OF assms(1) that(1) once refl ids that(2,3)] by (simp add: world_of_def)
  show "length (sv_processes s) \<le> ch_process c" if "(i, c) \<in> set (sv_children s')" "i \<notin> fst ` set (sv_children s)"
  proof -
    have "good ?w s (i, c)" using ok(5) that(1) by simp
    moreover have "(i, c) \<notin> set (sv_children s)" using that(2) by force
    ultimately show ?thesis by (simp add: good_def)
  qed
qed

text \<open>C22: The supervisor keeps the database and the processes together. A pass over the database moves the
  supervisor as the pass over the world that answers for it; and when it gets through, the bots it
  gave up are exactly those whose status became an error, with nothing else in the database changed. The system it
  leaves behind is again reachable, so the invariants of the tables hold after it.\<close>

theorem given_up_bots_are_marked:
  assumes "reachable Y sy" and "sy_db sy = d" and "supervisor_ok s" and "reconcile_pass h (d, s) = ((d', s'), Inr ())"
  shows "reconcile_once (world_of h (sv_settings s) d) s = (s', Inr ()) \<and> supervisor_ok s' \<and>
    reachable Y (sy\<lparr>sy_db := d'\<rparr>) \<and> d' = d\<lparr>db_bots := db_bots d'\<rparr> \<and>
    map_of (db_bots d') i = (if i \<in> sv_given_up s' - sv_given_up s
      then map_option (\<lambda>b. b\<lparr>bo_status := ''error'', bo_status_message := Some crash_message, bo_updated_at := ho_now h\<rparr>)
        (map_of (db_bots d) i)
      else map_of (db_bots d) i)"
proof -
  from reconcile_pass_world [OF assms(3,4)] obtain "is" where once: "reconcile_once (world_of h (sv_settings s) d) s = (s', Inr ())"
    and "is": "d' = fold (marked (ho_now h)) is d" "distinct is" "set is = sv_given_up s' - sv_given_up s"
    by (auto simp: marks_def)
  have "reachable Y (sy\<lparr>sy_db := d'\<rparr>)" using marks_reachable [OF assms(1)] by (simp add: "is"(1) assms(2))
  then show ?thesis
    using once marks_frame [of "ho_now h" "is" d] pass_wanted(1) [OF assms(3,4)]
    by (simp add: "is"(1) marks_lookup [OF "is"(2)] "is"(3))
qed

text \<open>What the requests that stop and start a bot write.\<close>

definition wanting :: "time \<Rightarrow> string \<Rightarrow> string \<Rightarrow> database \<Rightarrow> database" where
  "wanting now st i = set_bot i (\<lambda>b. b\<lparr>bo_desired_status := st, bo_updated_at := now\<rparr>)"

lemma wanting_lookup:
  "map_of (db_bots (wanting now st i d)) k = (if k = i then map_option (\<lambda>b. b\<lparr>bo_desired_status := st, bo_updated_at := now\<rparr>)
     (map_of (db_bots d) i) else map_of (db_bots d) k)"
  by (auto simp: wanting_def set_bot_def split: option.splits)

lemma wanting_keys: "keys_distinct (db_bots d) \<Longrightarrow> keys_distinct (db_bots (wanting now st i d))"
  by (simp add: wanting_def set_bot_def alist.wf_upsert split: option.splits)

lemma http_status_200: "http_status e = 200 \<longleftrightarrow> (\<exists>m. e = HTTPException 200 m)"
  by (cases e) (simp_all add: http_status_def)

lemma serve_200:
  assumes "serve E key q c = (c', 200)" and "q \<noteq> Health"
  obtains who r where "handle E who q c = (c', r)" "r = Inr () \<or> (\<exists>m. r = Inl (HTTPException 200 m))"
proof -
  from assms obtain who where a: "answer q (handle E who q c) = (c', 200)"
    by (auto simp: serve_def require_api_key_def http_status_def split: if_splits sum.splits dest!: match_key_Inl)
  obtain c1 r where r: "handle E who q c = (c1, r)" by force
  with a show ?thesis
    by (intro that [of who r]) (auto simp: answer_def http_status_200 split: sum.splits)
qed

lemmas served_simps = handle_def discard_def or_404_def st_simps fresh_connection_def set_desired_status_def
  find_owned_Some wanting_def set_bot_def Let_def check_violation_def

lemma stop_served:
  assumes "serve E key (StopBot i) (fresh_connection d) = (c, 200)"
  shows "map_of (db_bots d) i \<noteq> None \<and> cn_committed c = wanting (ae_now E) ''stopped'' i d"
  using assms
proof (rule serve_200)
  fix who r
  assume "handle E who (StopBot i) (fresh_connection d) = (c, r)" "r = Inr () \<or> (\<exists>m. r = Inl (HTTPException 200 m))"
  then show ?thesis by (auto simp: served_simps stop_bot_def split: option.splits if_splits)
qed simp

lemma start_served:
  assumes "serve E key (StartBot i) (fresh_connection d) = (c, 200)"
  shows "map_of (db_bots d) i \<noteq> None \<and> cn_committed c = wanting (ae_now E) ''running'' i d"
  using assms
proof (rule serve_200)
  fix who r
  assume "handle E who (StartBot i) (fresh_connection d) = (c, r)" "r = Inr () \<or> (\<exists>m. r = Inl (HTTPException 200 m))"
  then show ?thesis by (auto simp: served_simps start_bot_def require_owned_credential_def list_credentials_def get_bot_def
    split: option.splits if_splits)
qed simp

text \<open>C8: Stopping a bot ends its process and starting it again always gives it a new one: the requests
  only write what is wanted, the passes do the rest. After the pass that follows the stop no process of the
  bot is running; the one it had ended by itself, also within 30 seconds of the \<^verbatim>\<open>SIGTERM\<close>, or was killed. After the pass
  that follows the start exactly one process of the bot is running, and it is a new one, also when
  the supervisor had given the bot up: the toggle the code promises clears the crash loop.\<close>

theorem stop_and_start_reach_the_process:
  assumes "reachable Y sy" and ok: "supervisor_ok s" "processes_ok s"
    and stop: "serve E key (StopBot i) (fresh_connection (sy_db sy)) = (c1, 200)"
    and pass: "reconcile_pass h (cn_committed c1, s) = ((d2, s2), Inr ())"
    and start: "serve E' key' (StartBot i) (fresh_connection d2) = (c3, 200)"
    and again: "reconcile_pass h' (cn_committed c3, s2) = ((d4, s4), Inr ())"
  shows "running_processes s2 i = {} \<and> i \<notin> fst ` set (sv_children s2) \<and> i \<notin> sv_given_up s2 \<and>
    (\<forall>c. map_of (sv_children s) i = Some c \<longrightarrow> state_of s2 (ch_process c) =
      (if ho_poll h (ch_process c) \<noteq> None \<or> ho_exits h (ch_process c) then Exited else Killed)) \<and>
    (\<exists>p. running_processes s4 i = {p} \<and> length (sv_processes s2) \<le> p)"
proof -
  have bots: "keys_distinct (db_bots (sy_db sy))" using keys.reachable_keeps [OF assms(1)] by (simp add: keys_ok_def)
  from stop_served [OF stop] have c1: "cn_committed c1 = wanting (ae_now E) ''stopped'' i (sy_db sy)" by simp
  then have k1: "keys_distinct (db_bots (cn_committed c1))" by (simp add: wanting_keys bots)
  have unwanted: "i \<notin> set (wanted_ids (cn_committed c1))"
    by (simp add: wanted_lookup [OF k1]) (auto simp: c1 wanting_lookup)
  with pass_wanted(2,3) [OF ok(1) pass] have gone: "i \<notin> fst ` set (sv_children s2)" "i \<notin> sv_given_up s2" by auto
  then have none: "map_of (sv_children s2) i = None" by (simp add: map_of_eq_None_iff)
  note ok2 = pass_wanted(1) [OF ok(1) pass] pass_wanted(7) [OF ok(1) pass ok(2)]
  have stopped: "running_processes s2 i = {}" using ok2(2) none by (simp add: processes_ok_def child_process_def)
  have how: "state_of s2 (ch_process c) = (if ho_poll h (ch_process c) \<noteq> None \<or> ho_exits h (ch_process c) then Exited else Killed)"
    if "map_of (sv_children s) i = Some c" for c
    using pass_wanted(8) [OF ok(1) pass ok(2) that unwanted] by (simp add: gone_def state_of_def)
  from pass_wanted(4) [OF ok(1) pass] k1 have "keys_distinct (db_bots d2)" by (auto intro: marks_keys)
  moreover from start_served [OF start] have c3: "cn_committed c3 = wanting (ae_now E') ''running'' i d2" "map_of (db_bots d2) i \<noteq> None"
    by simp_all
  ultimately have "keys_distinct (db_bots (cn_committed c3))" by (simp add: wanting_keys)
  from wanted_lookup [OF this] c3 have wanted: "i \<in> set (wanted_ids (cn_committed c3))" by (auto simp: wanting_lookup)
  from pass_wanted(5) [OF ok2(1) again gone] wanted pass_wanted(2) [OF ok2(1) again] have "i \<in> fst ` set (sv_children s4)" by simp
  then obtain c where c: "map_of (sv_children s4) i = Some c"
    using map_of_eq_None_iff [of "sv_children s4" i] by auto
  have "running_processes s4 i = {ch_process c}"
    using pass_wanted(7) [OF ok2(1) again ok2(2)] c by (simp add: processes_ok_def child_process_def)
  with pass_wanted(6) [OF ok2(1) again map_of_SomeD [OF c] gone(1)] stopped gone how show ?thesis by blast
qed

text \<open>
  A bot whose process does not heed the \<^verbatim>\<open>SIGTERM\<close> is stopped and started: process 0 is killed, and it runs
  as process 1.
\<close>

definition sample_config :: settings where
  "sample_config = \<lparr>ss_database_url = Some ''postgres'', ss_execution_master_key = None, ss_supervisor_poll_interval_seconds = Fin 5,
     ss_heartbeat_interval_seconds = Fin 15, ss_poll_interval_seconds = Fin 5, ss_max_restarts_in_window = 0,
     ss_crash_loop_window_seconds = Fin 300\<rparr>"

definition sample_host :: host where
  "sample_host = \<lparr>ho_environ = (\<lambda>_. None), ho_connect = (\<lambda>_. Inr ()), ho_now = 9, ho_poll = (\<lambda>_. Some 1), ho_exits = (\<lambda>_. True),
     ho_monotonic = (\<lambda>_. Fin 0), ho_spawn = (\<lambda>_. Inr ())\<rparr>"

definition stubborn_host :: host where
  "stubborn_host = sample_host\<lparr>ho_poll := \<lambda>_. None, ho_exits := \<lambda>_. False\<rparr>"

definition supervising :: "process_state \<Rightarrow> supervisor" where
  "supervising st = (init_supervisor sample_config)\<lparr>sv_processes := [\<lparr>pc_bot = ''bot_1'', pc_state = st\<rparr>],
     sv_children := (if has_ended st then [] else [(''bot_1'', \<lparr>ch_process = 0, ch_restart_times = []\<rparr>)])\<rparr>"

lemma sample_opens: "opens sample_host sample_config = Inr ()" "opens stubborn_host sample_config = Inr ()"
  by (simp_all add: opens_def sample_host_def stubborn_host_def sample_config_def connection_url_def)

lemma supervising_ok: "supervisor_ok (supervising Alive)" "processes_ok (supervising Alive)"
  by (auto simp: supervisor_ok_def processes_ok_def running_processes_def child_process_def supervising_def init_supervisor_def
      keys_distinct_def sample_config_def state_of_def has_ended_def)

definition sample_wanted :: "string \<Rightarrow> database" where
  "sample_wanted st = with_credential\<lparr>db_bots := [(''bot_1'', (new_bot (bb_config sample_bot_request) ''k'' 0)\<lparr>bo_desired_status := st\<rparr>)]\<rparr>"

lemma sample_wanting: "wanting 0 st ''bot_1'' (sample_wanted st') = sample_wanted st"
  by (simp add: wanting_def set_bot_def sample_wanted_def put_def new_bot_def bot_config.defs bot_record.defs)

lemma sample_stopped: "with_bot = sample_wanted ''stopped''"
  by (simp add: with_bot_def sample_wanted_def new_bot_def bot_config.defs bot_record.defs)

lemma sample_owned_bot: "find_owned bo_created_by (db_bots (sample_wanted st)) ''bot_1'' ''k'' =
    Some (''bot_1'', (new_bot (bb_config sample_bot_request) ''k'' 0)\<lparr>bo_desired_status := st\<rparr>)"
  by (simp add: find_owned_def sample_wanted_def new_bot_def bot_config.defs bot_record.defs)

lemma sample_bot_credential:
  "bc_mode ((new_bot (bb_config sample_bot_request) ''k'' 0)\<lparr>bo_desired_status := st\<rparr>) = ''live''"
  "bc_credential_id ((new_bot (bb_config sample_bot_request) ''k'' 0)\<lparr>bo_desired_status := st\<rparr>) = Some ''cred_1''"
  "db_credentials (sample_wanted st) = [(''cred_1'', sample_credential_row)]"
  by (simp_all add: new_bot_def bot_config.defs bot_record.defs sample_bot_request_def sample_wanted_def with_credential_def)

lemma sample_served:
  "\<exists>c. serve sample_api ''k'' (StopBot ''bot_1'') (fresh_connection (sample_wanted st)) = (c, 200) \<and>
     cn_committed c = wanting 0 ''stopped'' ''bot_1'' (sample_wanted st)"
  "\<exists>c. serve sample_api ''k'' (StartBot ''bot_1'') (fresh_connection (sample_wanted st)) = (c, 200) \<and>
     cn_committed c = wanting 0 ''running'' ''bot_1'' (sample_wanted st)"
proof -
  let ?b = "(new_bot (bb_config sample_bot_request) ''k'' 0)\<lparr>bo_desired_status := st\<rparr>"
  have look: "map_of (db_bots (sample_wanted st)) ''bot_1'' = Some ?b" by (simp add: sample_wanted_def)
  note run = sample_serve check_request_def handle_def discard_def or_404_def get_bot_def set_desired_status_def
    sample_owned_bot fresh_connection_def st_simps answer_def success_status_def Let_def wanting_def set_bot_def look
  show "\<exists>c. serve sample_api ''k'' (StopBot ''bot_1'') (fresh_connection (sample_wanted st)) = (c, 200) \<and>
      cn_committed c = wanting 0 ''stopped'' ''bot_1'' (sample_wanted st)"
    by (simp add: run stop_bot_def)
  show "\<exists>c. serve sample_api ''k'' (StartBot ''bot_1'') (fresh_connection (sample_wanted st)) = (c, 200) \<and>
      cn_committed c = wanting 0 ''running'' ''bot_1'' (sample_wanted st)"
    by (simp add: run start_bot_def sample_bot_credential require_owned_credential_def list_credentials_def owned_by_def
      newest_first_def summary_of_def sample_credential_row_def)
qed

lemmas sample_toggle = sample_served [unfolded sample_wanting]

lemma sample_ids: "wanted_ids (sample_wanted st) = (if st = ''running'' then [''bot_1''] else [])"
  by (simp add: wanted_ids_def sample_wanted_def)

lemma sample_passes:
  "reconcile_pass stubborn_host (sample_wanted ''stopped'', supervising Alive) = ((sample_wanted ''stopped'', supervising Killed), Inr ())"
  "\<exists>s. reconcile_pass sample_host (sample_wanted ''running'', supervising Killed) = ((sample_wanted ''running'', s), Inr ())"
proof -
  have same: "(supervising st)\<lparr>sv_given_up := {}\<rparr> = supervising st" for st by (simp add: supervising_def init_supervisor_def)
  have "stop_child (ho_exits stubborn_host) ''bot_1'' (supervising Alive) = (supervising Killed, Inr ())"
    by (simp add: run_stop_child supervising_def init_supervisor_def stopped_def state_of_def has_ended_def stubborn_host_def
      forget_child_def delete_key_def set_process_def)
  moreover have "ho_poll stubborn_host p = None" for p by (simp add: stubborn_host_def)
  moreover have "sv_settings (supervising st) = sample_config" "sv_given_up (supervising st) = {}"
      "sv_children (supervising Alive) = [(''bot_1'', \<lparr>ch_process = 0, ch_restart_times = []\<rparr>)]" for st
    by (simp_all add: supervising_def init_supervisor_def has_ended_def)
  ultimately show "reconcile_pass stubborn_host (sample_wanted ''stopped'', supervising Alive) =
      ((sample_wanted ''stopped'', supervising Killed), Inr ())"
    by (simp add: reconcile_pass_def reap_process_def st_simps sample_opens Let_def sample_ids same)
  show "\<exists>s. reconcile_pass sample_host (sample_wanted ''running'', supervising Killed) = ((sample_wanted ''running'', s), Inr ())"
    by (simp add: reconcile_pass_def st_simps supervising_def has_ended_def sample_opens init_supervisor_def Let_def sample_ids start_wanted_def
      spawn_process_def add_process_def put_def) (simp add: sample_host_def st_simps)
qed

theorem stop_and_start_reach_the_process_witness:
  "\<exists>s p. reconcile_pass stubborn_host (sample_wanted ''stopped'', supervising Alive) = ((sample_wanted ''stopped'', supervising Killed), Inr ()) \<and>
     state_of (supervising Killed) 0 = Killed \<and>
     reconcile_pass sample_host (sample_wanted ''running'', supervising Killed) = ((sample_wanted ''running'', s), Inr ()) \<and>
     running_processes s ''bot_1'' = {p} \<and> 1 \<le> p"
proof -
  obtain c1 where c1: "serve sample_api ''k'' (StopBot ''bot_1'') (fresh_connection (sy_db (start_system with_bot))) = (c1, 200)"
      "cn_committed c1 = sample_wanted ''stopped''"
    using sample_toggle(1) [of "''stopped''"] by (auto simp: start_system_def sample_stopped)
  obtain c3 where c3: "serve sample_api ''k'' (StartBot ''bot_1'') (fresh_connection (sample_wanted ''stopped'')) = (c3, 200)"
      "cn_committed c3 = sample_wanted ''running''"
    using sample_toggle(2) by blast
  obtain s where s: "reconcile_pass sample_host (cn_committed c3, supervising Killed) = ((sample_wanted ''running'', s), Inr ())"
    using sample_passes(2) c3(2) by auto
  have p: "reconcile_pass stubborn_host (cn_committed c1, supervising Alive) = ((sample_wanted ''stopped'', supervising Killed), Inr ())"
    by (simp add: c1(2) sample_passes(1))
  have "length (sv_processes (supervising Killed)) = 1" "state_of (supervising Killed) 0 = Killed"
    by (simp_all add: supervising_def state_of_def)
  with stop_and_start_reach_the_process [OF sample_reachable(4) supervising_ok c1(1) p c3(1) s] s c3(2) show ?thesis
    by (auto simp: sample_passes(1))
qed

text \<open>A bot whose process is gone and that has no restart to spare.\<close>

definition crashing :: supervisor where
  "crashing = (init_supervisor sample_config)\<lparr>sv_children := [(''bot_1'', \<lparr>ch_process = 0, ch_restart_times = []\<rparr>)],
     sv_processes := [\<lparr>pc_bot = ''bot_1'', pc_state = Alive\<rparr>]\<rparr>"

theorem given_up_bots_are_marked_witness:
  "\<exists>d' s'. reconcile_pass sample_host (sample_wanted ''running'', crashing) = ((d', s'), Inr ()) \<and>
     map_option bo_status (map_of (db_bots d') ''bot_1'') = Some ''error''"
proof -
  have ok: "supervisor_ok crashing"
    by (simp add: supervisor_ok_def crashing_def init_supervisor_def keys_distinct_def)
  have opened: "opens sample_host (sv_settings crashing) = Inr ()" by (simp add: crashing_def init_supervisor_def sample_opens)
  obtain d' s' where pass: "reconcile_pass sample_host (sample_wanted ''running'', crashing) = ((d', s'), Inr ())"
      and new: "''bot_1'' \<in> sv_given_up s' - sv_given_up crashing"
  proof -
    let ?s = "\<lparr>sv_settings = sample_config, sv_children = [], sv_given_up = {''bot_1''},
      sv_processes = [\<lparr>pc_bot = ''bot_1'', pc_state = Exited\<rparr>]\<rparr>"
    have p: "ho_poll sample_host i = Some 1" for i by (simp add: sample_host_def)
    have m: "ss_max_restarts_in_window sample_config = 0" by (simp add: sample_config_def)
    have "reap_process sample_host {''bot_1''} (''bot_1'', \<lparr>ch_process = 0, ch_restart_times = []\<rparr>) (sample_wanted ''running'', crashing) =
        ((marked (ho_now sample_host) ''bot_1'' (sample_wanted ''running''), ?s), Inr ())"
      by (simp add: reap_process_def p m st_simps Let_def crashing_def init_supervisor_def sample_opens
        forget_child_def delete_key_def set_process_def)
    then have "reconcile_pass sample_host (sample_wanted ''running'', crashing) =
        ((marked (ho_now sample_host) ''bot_1'' (sample_wanted ''running''), ?s), Inr ())"
      by (simp add: reconcile_pass_def st_simps opened sample_ids Let_def start_wanted_def)
        (simp add: crashing_def init_supervisor_def st_simps)
    from that [OF this] show thesis by (simp add: crashing_def init_supervisor_def)
  qed
  have "reachable Y (start_system (sample_wanted ''running''))" for Y
    by (rule reachable.move [OF sample_reachable(4) request_step]) (use sample_toggle(2) [of "''stopped''"] in \<open>simp add: sample_stopped\<close>)
  from given_up_bots_are_marked [OF this _ ok pass, where i = "''bot_1''"] new pass show ?thesis
    by (simp add: start_system_def) (simp add: sample_wanted_def)
qed

end
