(* ===== verification/Service.thy ===== *)
theory Service
  imports Requests Settings Pipeline
begin

text \<open>
  The API as it is deployed: every request reads the settings from the environment
  (\<^verbatim>\<open>freqpanda_api/config.py\<close>), opens a connection of its own and closes it afterwards (\<^verbatim>\<open>db.py\<close>), and a
  new job goes to the queue the settings name (\<^verbatim>\<open>jobs/queue.py\<close>). The database server, \<^verbatim>\<open>redis.from_url\<close> and
  the \<^verbatim>\<open>enqueue\<close> of RQ are arguments, with what is random about a request.
\<close>

section \<open>Clients made of the settings\<close>

text \<open>What \<^verbatim>\<open>rq.Queue\<close> is given.\<close>

record 'a job_queue =
  jq_name :: string
  jq_connection :: 'a
  jq_default_timeout :: int

record 'a api_host =
  ah_environ :: environ
  ah_connect :: "string \<Rightarrow> unit res"
  ah_from_url :: "string \<Rightarrow> 'a res"
  ah_enqueue :: "'a job_queue \<Rightarrow> string \<Rightarrow> unit res"
  ah_sha :: "string \<Rightarrow> string"
  ah_fernet :: fernet
  ah_nonce :: "nat \<Rightarrow> string"
  ah_uuid :: string
  ah_now :: time

definition get_redis_connection :: "'a api_host \<Rightarrow> 'a res" where
  "get_redis_connection H = bindE (get_api_settings (ah_environ H)) (\<lambda>s. ah_from_url H (as_redis_url s))"

definition get_queue :: "'a api_host \<Rightarrow> 'a job_queue res" where
  "get_queue H = bindE (get_api_settings (ah_environ H)) (\<lambda>s.
     map_res (\<lambda>c. \<lparr>jq_name = as_job_queue_name s, jq_connection = c, jq_default_timeout = as_job_timeout_seconds s\<rparr>)
       (get_redis_connection H))"

definition enqueue_job :: "'a api_host \<Rightarrow> string \<Rightarrow> unit res" where
  "enqueue_job H job_id = bindE (get_queue H) (\<lambda>q. ah_enqueue H q job_id)"

text \<open>\<^verbatim>\<open>get_db\<close> around the rest of a request: what is not committed when it is closed is lost.\<close>

definition open_db :: "'a api_host \<Rightarrow> unit res" where
  "open_db H = bindE (get_api_settings (ah_environ H)) (\<lambda>s.
     bindE (connection_url (ah_environ H) (as_database_url s)) (ah_connect H))"

definition get_db :: "'a api_host \<Rightarrow> (database connection \<Rightarrow> database connection \<times> int) \<Rightarrow> database \<Rightarrow> database \<times> int" where
  "get_db H m d = (case open_db H of
      Inl e \<Rightarrow> (d, http_status e)
    | Inr _ \<Rightarrow> (case m (fresh_connection d) of (c, n) \<Rightarrow> (cn_committed c, n)))"

definition env_of :: "'a api_host \<Rightarrow> api_env" where
  "env_of H = \<lparr>ae_api_keys = ah_environ H ''API_KEYS'', ae_sha = ah_sha H, ae_fernet = ah_fernet H,
     ae_environ = ah_environ H, ae_nonce = ah_nonce H, ae_uuid = ah_uuid H, ae_now = ah_now H,
     ae_enqueue = enqueue_job H\<rparr>"

text \<open>One request: the key first, then the connection, then the body and the route.\<close>

definition service :: "'a api_host \<Rightarrow> string \<Rightarrow> request \<Rightarrow> database \<Rightarrow> database \<times> int" where
  "service H key q d =
     (if q = Health then (d, 200)
      else (case bindE (get_api_settings (ah_environ H)) (\<lambda>s. require_api_key (ah_sha H) (as_api_keys s) key) of
          Inl e \<Rightarrow> (d, http_status e)
        | Inr who \<Rightarrow> get_db H (\<lambda>c. case check_request q of
              Inl e \<Rightarrow> (c, 422)
            | Inr _ \<Rightarrow> answer q (handle (env_of H) who q c)) d))"

section \<open>Facts\<close>

lemma api_settings_errors: "get_api_settings env = Inl e \<Longrightarrow> http_status e = 500"
  by (auto simp: get_api_settings_def int_of_text_def map_res_def http_status_def split: option.splits sum.splits)

lemma api_settings_keys: "get_api_settings env = Inr s \<Longrightarrow> as_api_keys s = split_csv (env ''API_KEYS'')"
  by (auto simp: get_api_settings_def map_res_eq_Inr)

lemma env_of_simps [simp]:
  "ae_api_keys (env_of H) = ah_environ H ''API_KEYS''" "ae_sha (env_of H) = ah_sha H" "ae_enqueue (env_of H) = enqueue_job H"
  "ae_uuid (env_of H) = ah_uuid H" "ae_now (env_of H) = ah_now H"
  by (simp_all add: env_of_def)

text \<open>A request to a configured server with its database is \<open>serve\<close> on a connection of its own.\<close>

lemma service_serve:
  assumes "get_api_settings (ah_environ H) = Inr s" and "open_db H = Inr u"
  shows "service H key q d = (case serve (env_of H) key q (fresh_connection d) of (c, n) \<Rightarrow> (cn_committed c, n))"
  using assms api_settings_keys [OF assms(1)]
  by (auto simp: service_def serve_def get_db_def fresh_connection_def split: sum.splits prod.splits)

lemma open_db_settings: "open_db H = Inr u \<Longrightarrow> \<exists>s. get_api_settings (ah_environ H) = Inr s"
  by (auto simp: open_db_def bindE_eq_Inr)

text \<open>Otherwise nothing changes.\<close>

lemma service_unchanged: "open_db H = Inl e \<Longrightarrow> fst (service H key q d) = d"
  by (auto simp: service_def get_db_def split: sum.splits)

end
