(* ===== verification/Deployment.thy ===== *)
theory Deployment
  imports Service Keys Api_Samples
begin

text \<open>
  Properties of the deployed API: what a missing configuration does, and what becomes of a job whose
  queue cannot be reached.
\<close>

section \<open>Jobs that wait\<close>

definition waiting :: "string \<Rightarrow> database \<Rightarrow> bool" where
  "waiting k d \<longleftrightarrow> (\<forall>j. (k, j) \<in> set (db_jobs d) \<longrightarrow> jr_status j = Pending)"

lemma waiting_subset: "set (db_jobs d') \<subseteq> set (db_jobs d) \<Longrightarrow> waiting k d \<Longrightarrow> waiting k d'"
  unfolding waiting_def by blast

lemma waiting_statement:
  assumes "\<And>d d' x. stmt d = Inr (d', x) \<Longrightarrow> set (db_jobs d') \<subseteq> set (db_jobs d)"
  shows "preserves (both (waiting k)) (execute stmt)"
  by (rule preserves_execute) (rule waiting_subset [OF assms])

lemma waiting_put: "waiting k d \<Longrightarrow> jr_status j = Pending \<Longrightarrow> waiting k (d\<lparr>db_jobs := put k' j (db_jobs d)\<rparr>)"
  using set_put [of k' j "db_jobs d"] by (auto simp: waiting_def)

lemma waiting_new_job: "preserves (both (waiting k)) (create_job u now ty i p who)"
  unfolding create_job_def
  by (intro preserves_bindS preserves_seqS preserves_commit preserves_returnS preserves_execute)
    (auto simp: insert_job_def violations py_simps split: if_splits intro: waiting_put)

lemmas waiting_intros = preserves_bindS preserves_mapS preserves_seqS preserves_commit preserves_returnS preserves_liftS
  preserves_query preserves_if preserves_raiseS preserves_case_option preserves_dbwrite waiting_statement

interpretation waiting: request_invariant "waiting k" E for k E
proof unfold_locales
  show "preserves (both (waiting k)) (create_strategy u now dfn who)" for u now dfn who
    unfolding create_strategy_def by (intro waiting_intros)
      (auto simp: insert_strategy_def violations py_simps split: if_splits)
  show "preserves (both (waiting k)) (update_strategy now i who dfn)" for now i who dfn
    unfolding update_strategy_def by (intro waiting_intros)
      (auto simp: violations py_simps Let_def split: if_splits option.splits)
  show "preserves (both (waiting k)) (delete_strategy i who)" for i who
    unfolding delete_strategy_def by (intro waiting_intros)
      (auto simp: delete_strategy_rows_def Let_def delete_bots_jobs split: option.splits)
  show "preserves (both (waiting k)) (create_credential F env nonce u now who ex lb s sec pw)" for F env nonce u now who ex lb s sec pw
    unfolding create_credential_def insert_credential_def by (intro waiting_intros)
      (auto simp: violations split: if_splits)
  show "preserves (both (waiting k)) (delete_credential i who)" for i who
    unfolding delete_credential_def delete_credential_rows_def by (intro waiting_intros)
      (auto simp: violations split: if_splits option.splits)
  show "preserves (both (waiting k)) (post_bot u now q who)" for u now q who
    unfolding post_bot_def create_bot_def insert_bot_def require_owned_credential_def list_credentials_def
    by (intro waiting_intros) (auto simp: violations split: if_splits option.splits)
  show "preserves (both (waiting k)) (set_desired_status now i who st)" for now i who st
    unfolding set_desired_status_def by (intro waiting_intros)
      (auto simp: violations Let_def split: if_splits option.splits)
  show "preserves (both (waiting k)) (delete_bot i who)" for i who
    unfolding delete_bot_def by (intro waiting_intros)
      (auto simp: delete_bot_rows_def split: option.splits)
qed (rule waiting_new_job)

lemma service_keeps_waiting:
  assumes "waiting k d"
  shows "waiting k (fst (service H key q d))"
proof (cases "open_db H")
  case (Inl e)
  then show ?thesis using assms by (simp add: service_unchanged)
next
  case (Inr u)
  then obtain s where "get_api_settings (ah_environ H) = Inr s" using open_db_settings by blast
  moreover obtain c n where "serve (env_of H) key q (fresh_connection d) = (c, n)" by force
  ultimately show ?thesis using service_serve [OF _ Inr] waiting.serve_keeps [OF assms] by simp
qed

text \<open>A list of requests, each with its host and key, one after the other.\<close>

fun requests_after :: "('a api_host \<times> string \<times> request) list \<Rightarrow> database \<Rightarrow> database" where
  "requests_after [] d = d"
| "requests_after ((H, key, q) # rs) d = requests_after rs (fst (service H key q d))"

lemma requests_keep_waiting: "waiting k d \<Longrightarrow> waiting k (requests_after rs d)"
  by (induction rs d rule: requests_after.induct) (simp_all add: service_keeps_waiting)

section \<open>The queue cannot be reached\<close>

text \<open>C37: A backtest request commits its job before it puts it on the queue. When the queue cannot be reached
  the client gets the error, but the job stays in the database as pending, and no later request of anyone
  runs it or ends it: it is pending until its strategy is deleted.\<close>

theorem unreachable_queue_leaves_the_job:
  fixes rs :: "('a api_host \<times> string \<times> request) list"
  assumes settings: "get_api_settings (ah_environ H) = Inr s" and db: "open_db H = Inr u"
    and key: "require_api_key (ah_sha H) (as_api_keys s) key = Inr who"
    and strategy: "find_owned sr_created_by (db_strategies d) i who = Some (i, sr)"
    and body: "check_request (PostBacktest i b) = Inr ()" "json_ok (VDict (backtest_payload b))"
    and fresh: "new_id ''job'' (ah_uuid H) \<notin> fst ` set (db_jobs d)"
    and queue: "enqueue_job H (new_id ''job'' (ah_uuid H)) = Inl e"
  shows "\<exists>d' j. service H key (PostBacktest i b) d = (d', http_status e) \<and>
    d' = d\<lparr>db_jobs := put (new_id ''job'' (ah_uuid H)) j (db_jobs d)\<rparr> \<and> jr_status j = Pending \<and>
    (\<forall>j'. (new_id ''job'' (ah_uuid H), j') \<in> set (db_jobs (requests_after rs d')) \<longrightarrow> jr_status j' = Pending)"
proof -
  let ?k = "new_id ''job'' (ah_uuid H)"
  let ?j = "\<lparr>jr_job_type = BacktestJob, jr_status = Pending, jr_strategy_id = i, jr_payload = backtest_payload b,
    jr_error = None, jr_created_by = who, jr_created_at = ah_now H, jr_started_at = None, jr_finished_at = None\<rparr>"
  let ?d = "d\<lparr>db_jobs := put ?k ?j (db_jobs d)\<rparr>"
  from strategy have row: "i \<in> fst ` set (db_strategies d)" by (auto simp: find_owned_Some intro: rev_image_eqI dest: map_of_SomeD)
  have "service H key (PostBacktest i b) d = (?d, http_status e)"
    using settings db key body by (simp add: service_def get_db_def handle_def discard_def post_backtest_def start_job_def
      or_404_def get_strategy_def strategy create_job_def json_column_def insert_job_def fresh row queue
      fresh_connection_def st_simps answer_def)
  moreover have "waiting ?k ?d"
    by (rule waiting_put [rotated]) (use fresh in \<open>auto simp: waiting_def intro: rev_image_eqI\<close>)
  then have "waiting ?k (requests_after rs ?d)" by (rule requests_keep_waiting)
  ultimately show ?thesis by (auto simp: waiting_def)
qed

lemma put_not_empty: "put k v t \<noteq> []"
  by (cases t) (auto simp: put_def)

text \<open>A host whose Redis URL is refused.\<close>

definition down_host :: "unit api_host" where
  "down_host = \<lparr>ah_environ = (\<lambda>v. if v = ''API_KEYS'' then Some ''k'' else if v = ''DATABASE_URL'' then Some ''postgres'' else None),
     ah_connect = (\<lambda>_. Inr ()), ah_from_url = (\<lambda>_. Inl (ValueError ''url'')), ah_enqueue = (\<lambda>_ _. Inr ()),
     ah_sha = (\<lambda>x. x), ah_fernet = sample_fernet, ah_nonce = (\<lambda>_. []), ah_uuid = ''1'', ah_now = 0\<rparr>"

lemma down_settings:
  "get_api_settings (ah_environ down_host) = Inr \<lparr>as_database_url = Some ''postgres'', as_redis_url = ''redis://localhost:6379/0'',
     as_api_keys = [''k''], as_default_exchange_id = ''binance'', as_job_queue_name = ''freqpanda'', as_job_timeout_seconds = 1800\<rparr>"
proof -
  have "strip ''1800'' = ''1800''" "integer_of ''1800'' = Some 1800" "split_csv (Some ''k'') = [''k'']" by code_simp+
  then show ?thesis
    by (simp add: get_api_settings_def down_host_def getenv_def either_env_def int_of_text_def)
qed

theorem unreachable_queue_leaves_the_job_witness:
  "\<exists>d'. service down_host ''k'' (PostBacktest ''strat_1'' sample_market) with_strategy = (d', 500) \<and> db_jobs d' \<noteq> []"
proof -
  have db: "open_db down_host = Inr ()"
    unfolding open_db_def down_settings by (simp add: connection_url_def) (simp add: down_host_def)
  have key: "require_api_key (ah_sha down_host) [''k''] ''k'' = Inr ''k''"
    by (simp add: require_api_key_def down_host_def compare_digest_def sample_ascii)
  have strategy: "find_owned sr_created_by (db_strategies with_strategy) ''strat_1'' ''k'' =
      Some (''strat_1'', snd (hd sample_strategies))"
    by (simp add: find_owned_def with_strategy_def sample_strategies_def)
  have body: "check_request (PostBacktest ''strat_1'' sample_market) = Inr ()"
    by (simp add: check_request_def check_backtest_request_def sample_market_def fl_eval)
  have json: "json_ok (VDict (backtest_payload sample_market))"
    by (simp add: backtest_payload_def sample_market_def time_json_def is_finite_def zero_fl_def)
  have fresh: "new_id ''job'' (ah_uuid down_host) \<notin> fst ` set (db_jobs with_strategy)"
    by (simp add: with_strategy_def empty_database_def)
  have queue: "enqueue_job down_host (new_id ''job'' (ah_uuid down_host)) = Inl (ValueError ''url'')"
    unfolding enqueue_job_def get_queue_def get_redis_connection_def down_settings by (simp add: down_host_def)
  from unreachable_queue_leaves_the_job [OF down_settings db _ strategy body json fresh queue, where key = "''k''"
    and rs = "[] :: (unit api_host \<times> string \<times> request) list"]
  show ?thesis by (auto simp: key http_status_def put_not_empty)
qed

section \<open>Configuration\<close>

text \<open>A server that is not configured serves nothing. Without API keys, or with a job timeout that is not a number,
  every request but the health check is answered with 500 and changes nothing, whatever key it carries.\<close>

theorem unconfigured_server_refuses:
  assumes "case get_api_settings (ah_environ H) of Inl e \<Rightarrow> True | Inr s \<Rightarrow> as_api_keys s = []"
  shows "service H key q d = (d, if q = Health then 200 else 500)"
  using assms api_settings_errors
  by (auto simp: service_def require_api_key_def http_status_def split: sum.splits)

theorem unconfigured_server_refuses_witness:
  "service (down_host\<lparr>ah_environ := (\<lambda>_. None)\<rparr>) ''k'' GetBots with_bot = (with_bot, 500)"
proof -
  have "split_csv None = []" by code_simp
  then show ?thesis
    using unconfigured_server_refuses [of "down_host\<lparr>ah_environ := (\<lambda>_. None)\<rparr>" "''k''" GetBots with_bot]
    by (simp add: get_api_settings_def map_res_def getenv_def split: sum.splits)
qed

end
