(* ===== verification/Scripts.thy ===== *)
theory Scripts
  imports Optimize Generate Loader
begin

text \<open>
  The example and benchmark scripts, \<^verbatim>\<open>scripts/benchmark_backtest.py\<close>, \<^verbatim>\<open>benchmark_parallel.py\<close> and
  \<^verbatim>\<open>optimize_example.py\<close>: their synthetic candles, the variants that are compared, and the runs they
  make. The draws of the random generator, \<^verbatim>\<open>np.sin\<close>, the clock and the parsers are arguments; what is
  printed is left out.
\<close>

section \<open>Synthetic candles\<close>

text \<open>The draws of \<^verbatim>\<open>rng.normal\<close> and \<^verbatim>\<open>rng.uniform\<close> by row.\<close>

record draws =
  dr_noise :: "nat \<Rightarrow> fl"
  dr_drift :: "nat \<Rightarrow> fl"
  dr_high :: "nat \<Rightarrow> fl"
  dr_low :: "nat \<Rightarrow> fl"
  dr_volume :: "nat \<Rightarrow> fl"

definition np_maximum :: "fl \<Rightarrow> fl \<Rightarrow> fl" where
  "np_maximum x y = (if is_nan x \<or> is_nan y then NaN else if x < y then y else x)"

text \<open>\<^verbatim>\<open>100.0 + 15.0 * np.sin(2 * np.pi * t / 60)\<close> at row \<open>i\<close>, with \<open>pi64\<close> the double \<^verbatim>\<open>np.pi\<close>\<close>

definition wave :: "(fl \<Rightarrow> fl) \<Rightarrow> fl \<Rightarrow> nat \<Rightarrow> fl" where
  "wave sine pi64 i = Fin 100 + Fin 15 * sine (((Fin 2 * pi64) * round64 (of_nat i)) / Fin 60)"

definition benchmark_close :: "(fl \<Rightarrow> fl) \<Rightarrow> fl \<Rightarrow> draws \<Rightarrow> nat \<Rightarrow> fl" where
  "benchmark_close sine pi64 D i = np_maximum (wave sine pi64 i + dr_noise D i) 1"

fun cumsum :: "(nat \<Rightarrow> fl) \<Rightarrow> nat \<Rightarrow> fl" where
  "cumsum f 0 = f 0"
| "cumsum f (Suc i) = cumsum f i + f (Suc i)"

definition example_close :: "(fl \<Rightarrow> fl) \<Rightarrow> fl \<Rightarrow> draws \<Rightarrow> nat \<Rightarrow> fl" where
  "example_close sine pi64 D i = np_maximum ((wave sine pi64 i + cumsum (dr_drift D) i) + dr_noise D i) 1"

text \<open>
  From the closes to the frame: each candle opens where the last one closed, the first where it closes itself
  (which an empty array cannot do), and the wicks are drawn.
\<close>

definition hour_ns :: int where
  "hour_ns = 3600 * 10 ^ 9"

definition candle_high :: "draws \<Rightarrow> fl list \<Rightarrow> fl list \<Rightarrow> nat \<Rightarrow> fl" where
  "candle_high D opens closes i = np_maximum (opens ! i) (closes ! i) + dr_high D i"

definition candle_low :: "draws \<Rightarrow> fl list \<Rightarrow> fl list \<Rightarrow> nat \<Rightarrow> fl" where
  "candle_low D opens closes i = np_minimum (opens ! i) (closes ! i) - dr_low D i"

definition candles_from :: "draws \<Rightarrow> time \<Rightarrow> fl list \<Rightarrow> frame res" where
  "candles_from D start closes = (case closes of
      [] \<Rightarrow> Inl IndexError
    | c # cs \<Rightarrow>
        (let n = length closes; opens = c # butlast closes in
         Inr \<lparr>fr_index = map (\<lambda>i. start + int i * hour_ns) [0..<n],
           fr_columns = [''open'' \<mapsto> opens, ''high'' \<mapsto> map (candle_high D opens closes) [0..<n],
             ''low'' \<mapsto> map (candle_low D opens closes) [0..<n], ''close'' \<mapsto> closes,
             ''volume'' \<mapsto> map (dr_volume D) [0..<n]]\<rparr>))"

definition benchmark_ohlcv :: "(fl \<Rightarrow> fl) \<Rightarrow> fl \<Rightarrow> draws \<Rightarrow> nat \<Rightarrow> frame res" where
  "benchmark_ohlcv sine pi64 D n = candles_from D (1704067200 * 10 ^ 9) (map (benchmark_close sine pi64 D) [0..<n])"

definition example_ohlcv :: "(fl \<Rightarrow> fl) \<Rightarrow> fl \<Rightarrow> draws \<Rightarrow> nat \<Rightarrow> frame res" where
  "example_ohlcv sine pi64 D n = candles_from D (1672531200 * 10 ^ 9) (map (example_close sine pi64 D) [0..<n])"

section \<open>The runs\<close>

definition candles_per_year_1h :: nat where
  "candles_per_year_1h = 365 * 24"

definition repeats :: nat where
  "repeats = 10"

text \<open>\<^verbatim>\<open>time_it\<close>: the clock before and after each call.\<close>

definition time_it :: "(nat \<Rightarrow> fl) \<Rightarrow> 'a res \<Rightarrow> nat \<Rightarrow> fl list res" where
  "time_it clock run n = mapE (\<lambda>k. map_res (\<lambda>_. clock (2 * k + 1) - clock (2 * k)) run) [0..<n]"

definition example_args :: backtest_args where
  "example_args = default_args\<lparr>ba_fee_pct := lit (1 / 1000), ba_slippage_pct := lit (5 / 10000)\<rparr>"

definition benchmark_backtest :: "file_parsers \<Rightarrow> (jval \<Rightarrow> number option) \<Rightarrow> extlib \<Rightarrow> numlib \<Rightarrow> (nat \<Rightarrow> nat \<Rightarrow> fl) \<Rightarrow>
    (fl \<Rightarrow> fl) \<Rightarrow> fl \<Rightarrow> draws \<Rightarrow> (fl list \<times> fl list \<times> nat) res" where
  "benchmark_backtest P lax L N clock sine pi64 D =
     bindE (benchmark_ohlcv sine pi64 D candles_per_year_1h) (\<lambda>df.
     bindE (load_strategy_definition P lax ''examples/ema_crossover.json'') (\<lambda>d.
     bindE (time_it (clock 0) (run_strategy L d df) repeats) (\<lambda>interpreter_samples.
     bindE (time_it (clock 1) (backtest L N d df example_args) repeats) (\<lambda>full_backtest_samples.
     map_res (\<lambda>trades. (interpreter_samples, full_backtest_samples, length trades)) (run_strategy L d df)))))"

text \<open>The variants of the parallel benchmark, as the values Pydantic builds them from.\<close>

definition variant_risk :: jval where
  "variant_risk = VDict [(''stop_loss_pct'', VFloat (lit (2 / 100))), (''take_profit_pct'', VFloat (lit (6 / 100)))]"

definition ema_value :: "string \<Rightarrow> nat \<Rightarrow> jval" where
  "ema_value als period = VDict [(''name'', VStr ''ema''), (''alias'', VStr als),
     (''params'', VDict [(''period'', VInt (int period))])]"

definition cross_value :: "string \<Rightarrow> jval" where
  "cross_value op = VDict [(''type'', VStr ''comparison''), (''left'', VStr ''ema_fast''), (''op'', VStr op),
     (''right'', VStr ''ema_slow'')]"

definition variant_value :: "nat \<Rightarrow> jval" where
  "variant_value i = (let period = 5 + i in VDict [(''name'', VStr (''ema_fast_'' @ decimal period)),
     (''indicators'', VList [ema_value ''ema_fast'' period, ema_value ''ema_slow'' (period + 20)]),
     (''entry_conditions'', cross_value ''crosses_above''), (''exit_conditions'', cross_value ''crosses_below''),
     (''risk_management'', variant_risk)])"

definition make_variants :: "(jval \<Rightarrow> number option) \<Rightarrow> nat \<Rightarrow> strategy_definition list res" where
  "make_variants lax n = mapE (\<lambda>i. model_validate lax (variant_value i)) [0..<n]"

definition n_variants :: nat where
  "n_variants = 40"

definition benchmark_parallel :: "(jval \<Rightarrow> number option) \<Rightarrow> extlib \<Rightarrow> numlib \<Rightarrow>
    (fl \<Rightarrow> fl) \<Rightarrow> fl \<Rightarrow> draws \<Rightarrow> (backtest_result list \<times> backtest_result list) res" where
  "benchmark_parallel lax L N sine pi64 D =
     bindE (benchmark_ohlcv sine pi64 D candles_per_year_1h) (\<lambda>df.
     bindE (make_variants lax n_variants) (\<lambda>variants.
     bindE (mapE (\<lambda>v. backtest L N v df default_args) variants) (\<lambda>sequential.
     map_res (Pair sequential) (run_backtests_parallel L N variants df None default_args))))"

definition day_ns :: int where
  "day_ns = 24 * hour_ns"

definition sharpe_search :: search_args where
  "sharpe_search = \<lparr>sa_metric = MetricName ''sharpe_ratio'', sa_n_trials = 25, sa_timeout = None\<rparr>"

definition optimize_example :: "file_parsers \<Rightarrow> (jval \<Rightarrow> number option) \<Rightarrow> libs \<Rightarrow> (wf_window \<Rightarrow> optuna) \<Rightarrow> optuna \<Rightarrow>
    (fl \<Rightarrow> fl) \<Rightarrow> fl \<Rightarrow> draws \<Rightarrow> (optimization_result \<times> window_optimization_result) res option" where
  "optimize_example P lax Y Q Q_full sine pi64 D =
     (case bindE (example_ohlcv sine pi64 D (24 * 200)) (\<lambda>df. map_res (Pair df) (load_strategy_definition P lax ''examples/ema_crossover.json'')) of
        Inl e \<Rightarrow> Some (Inl e)
      | Inr (df, d) \<Rightarrow> map_option (\<lambda>r. bindE r (\<lambda>result.
            map_res (Pair result) (refit_on_full_history Y Q_full d df sharpe_search example_args)))
          (optimize Y Q d df (60 * day_ns) (20 * day_ns) None False sharpe_search example_args))"

section \<open>The candles are consistent\<close>

text \<open>Draws the generator can make: finite noise, and wicks and volumes from the ranges of the code.\<close>

definition drawn :: "draws \<Rightarrow> bool" where
  "drawn D \<longleftrightarrow> (\<forall>i. (\<exists>e. dr_noise D i = Fin e \<and> e \<le> 900) \<and> (\<exists>u. dr_high D i = Fin u \<and> 0 \<le> u) \<and>
     (\<exists>u. dr_low D i = Fin u \<and> 0 \<le> u \<and> u \<le> 3 / 10) \<and> (\<exists>v. dr_volume D i = Fin v \<and> 0 \<le> v))"

definition plain_price :: "fl \<Rightarrow> bool" where
  "plain_price x \<longleftrightarrow> is_double x \<and> (\<exists>q. x = Fin q \<and> 1 \<le> q)"

lemma np_maximum_one:
  assumes "x \<noteq> NaN" and "x \<noteq> PInf" and "is_double x"
  shows "plain_price (np_maximum x 1)"
proof -
  have "is_double (Fin 1)" by (simp add: is_double_Fin fl_eval)
  then show ?thesis
    using assms by (cases x) (auto simp: np_maximum_def is_nan_def plain_price_def one_fl_def)
qed

lemma fl_chain: "x \<le> y \<Longrightarrow> y \<le> z \<Longrightarrow> x \<le> (z :: fl)"
  by (cases x; cases y; cases z) auto

lemma maximum_minimum:
  assumes "plain_price x" and "plain_price y"
  shows "plain_price (np_maximum x y)" and "plain_price (np_minimum x y)"
    and "x \<le> np_maximum x y" and "y \<le> np_maximum x y" and "np_minimum x y \<le> x" and "np_minimum x y \<le> y"
  using assms by (auto simp: np_maximum_def np_minimum_def is_nan_def plain_price_def)

lemma wick_above:
  assumes "plain_price x" and "0 \<le> u"
  shows "x \<le> x + Fin u"
proof -
  obtain q where q: "x = Fin q" "1 \<le> q" "round64 q = Fin q"
    using assms(1) by (auto simp: plain_price_def is_double_Fin)
  then show ?thesis using b64.rnd_above [of q "q + u"] assms(2) by simp
qed

lemma wick_below:
  assumes "plain_price x" and "0 \<le> u" and "u \<le> 3 / 10"
  shows "x - Fin u \<le> x" and "0 < x - Fin u"
proof -
  obtain q where q: "x = Fin q" "1 \<le> q" "round64 q = Fin q"
    using assms(1) by (auto simp: plain_price_def is_double_Fin)
  then show "x - Fin u \<le> x" using b64.rnd_below [of "q - u" q] assms(2) by (simp add: minus_fl_def)
  have "round64 (1 / 2) = Fin (1 / 2)" by (simp add: fl_eval)
  then have "Fin (1 / 2) \<le> x - Fin u"
    using b64.rnd_above [of "1 / 2" "q - u"] assms(3) q by (simp add: minus_fl_def)
  then show "0 < x - Fin u" by (cases "x - Fin u") (auto simp: zero_fl_def)
qed

definition consistent :: "frame \<Rightarrow> nat \<Rightarrow> bool" where
  "consistent df n \<longleftrightarrow> frame_ok df \<and> length (fr_index df) = n \<and> sorted_wrt (<) (fr_index df) \<and>
     (\<exists>opens highs lows closes volumes. fr_columns df =
        [''open'' \<mapsto> opens, ''high'' \<mapsto> highs, ''low'' \<mapsto> lows, ''close'' \<mapsto> closes, ''volume'' \<mapsto> volumes] \<and>
      (\<forall>i < n. 0 < lows ! i \<and> lows ! i \<le> opens ! i \<and> lows ! i \<le> closes ! i \<and> opens ! i \<le> highs ! i \<and>
        closes ! i \<le> highs ! i \<and> 1 \<le> closes ! i \<and> (0 < i \<longrightarrow> opens ! i = closes ! (i - 1)) \<and> 0 \<le> volumes ! i))"

lemma candles_from_consistent:
  assumes "drawn D" and "closes \<noteq> []" and "\<forall>c \<in> set closes. plain_price c"
  shows "\<exists>df. candles_from D start closes = Inr df \<and> consistent df (length closes)"
proof -
  obtain c cs where closes: "closes = c # cs" using assms(2) by (cases closes) auto
  let ?n = "length closes" and ?opens = "c # butlast closes"
  have len: "length ?opens = ?n" by (simp add: closes)
  have prev: "?opens ! i = closes ! (i - 1)" if "0 < i" "i < ?n" for i
    using that by (cases i) (simp_all add: nth_butlast)
  have price: "plain_price (closes ! i)" if "i < ?n" for i using assms(3) that by simp
  have price': "plain_price (?opens ! i)" if "i < ?n" for i
    using that price [of 0] price [of "i - 1"] prev [of i] by (cases "i = 0") (simp_all add: closes)
  have one: "0 < candle_low D ?opens closes i \<and> candle_low D ?opens closes i \<le> ?opens ! i \<and>
      candle_low D ?opens closes i \<le> closes ! i \<and> ?opens ! i \<le> candle_high D ?opens closes i \<and>
      closes ! i \<le> candle_high D ?opens closes i \<and> 1 \<le> closes ! i \<and> 0 \<le> dr_volume D i" if i: "i < ?n" for i
  proof -
    obtain u l v where u: "dr_high D i = Fin u" "0 \<le> u" and l: "dr_low D i = Fin l" "0 \<le> l" "l \<le> 3 / 10"
      and v: "dr_volume D i = Fin v" "0 \<le> v"
      using assms(1) unfolding drawn_def by metis
    note m = maximum_minimum [OF price' [OF i] price [OF i]]
    note below = wick_below(1) [OF m(2) l(2,3)] and above = wick_above [OF m(1) u(2)]
    have "0 < candle_low D ?opens closes i"
      using wick_below(2) [OF m(2) l(2,3)] by (simp add: candle_low_def l(1))
    moreover have "candle_low D ?opens closes i \<le> ?opens ! i" "candle_low D ?opens closes i \<le> closes ! i"
      using fl_chain [OF below m(5)] fl_chain [OF below m(6)] by (simp_all add: candle_low_def l(1))
    moreover have "?opens ! i \<le> candle_high D ?opens closes i" "closes ! i \<le> candle_high D ?opens closes i"
      using fl_chain [OF m(3) above] fl_chain [OF m(4) above] by (simp_all add: candle_high_def u(1))
    moreover have "1 \<le> closes ! i" using price [OF i] by (auto simp: plain_price_def one_fl_def)
    ultimately show ?thesis using v by (simp add: zero_fl_def)
  qed
  have index: "sorted_wrt (<) (map (\<lambda>i. start + int i * hour_ns) [0..<?n])"
    by (auto simp: sorted_wrt_map hour_ns_def intro: sorted_wrt_mono_rel [OF _ sorted_wrt_upt])
  let ?highs = "map (candle_high D ?opens closes) [0..<?n]" and ?lows = "map (candle_low D ?opens closes) [0..<?n]"
    and ?volumes = "map (dr_volume D) [0..<?n]"
  let ?df = "\<lparr>fr_index = map (\<lambda>i. start + int i * hour_ns) [0..<?n], fr_columns = [''open'' \<mapsto> ?opens, ''high'' \<mapsto> ?highs,
     ''low'' \<mapsto> ?lows, ''close'' \<mapsto> closes, ''volume'' \<mapsto> ?volumes]\<rparr>"
  have "candles_from D start closes = Inr ?df" by (simp add: candles_from_def Let_def closes)
  moreover have "frame_ok ?df" using len by (auto simp: frame_ok_def split: if_splits)
  moreover have rows: "\<forall>i < ?n. 0 < ?lows ! i \<and> ?lows ! i \<le> ?opens ! i \<and> ?lows ! i \<le> closes ! i \<and>
      ?opens ! i \<le> ?highs ! i \<and> closes ! i \<le> ?highs ! i \<and> 1 \<le> closes ! i \<and>
      (0 < i \<longrightarrow> ?opens ! i = closes ! (i - 1)) \<and> 0 \<le> ?volumes ! i"
    using one prev by simp
  then have "\<exists>opens highs lows closes' volumes. fr_columns ?df =
        [''open'' \<mapsto> opens, ''high'' \<mapsto> highs, ''low'' \<mapsto> lows, ''close'' \<mapsto> closes', ''volume'' \<mapsto> volumes] \<and>
      (\<forall>i < ?n. 0 < lows ! i \<and> lows ! i \<le> opens ! i \<and> lows ! i \<le> closes' ! i \<and> opens ! i \<le> highs ! i \<and>
        closes' ! i \<le> highs ! i \<and> 1 \<le> closes' ! i \<and> (0 < i \<longrightarrow> opens ! i = closes' ! (i - 1)) \<and> 0 \<le> volumes ! i)"
    by - (rule exI [of _ ?opens], rule exI [of _ ?highs], rule exI [of _ ?lows], rule exI [of _ closes],
      rule exI [of _ ?volumes], rule conjI, simp, assumption)
  ultimately have "consistent ?df ?n"
    unfolding consistent_def using index by simp
  with \<open>candles_from D start closes = Inr ?df\<close> show ?thesis by blast
qed


text \<open>The sines of the benchmark keep its closes finite: \<^verbatim>\<open>np.sin\<close> is within one of zero on finite arguments.\<close>

definition sine_ok :: "(fl \<Rightarrow> fl) \<Rightarrow> bool" where
  "sine_ok sine \<longleftrightarrow> (\<forall>q. \<exists>r. sine (Fin q) = Fin r \<and> - 1 \<le> r \<and> r \<le> 1)"

lemma whole_doubles:
  "round64 0 = Fin 0" "round64 8 = Fin 8" "round64 16384 = Fin 16384" "round64 131072 = Fin 131072"
  "round64 15 = Fin 15" "round64 (- 15) = Fin (- 15)" "round64 85 = Fin 85" "round64 115 = Fin 115"
  "round64 1015 = Fin 1015"
  by (simp_all add: fl_eval)

lemma wave_finite:
  assumes "sine_ok sine" and "3 \<le> p" and "p \<le> 4" and "i \<le> 16384"
  shows "\<exists>q. wave sine (Fin p) i = Fin q \<and> 85 \<le> q \<and> q \<le> 115"
proof -
  have "0 \<le> 2 * p" and "2 * p \<le> 8" using assms(2,3) by auto
  then obtain a where a: "round64 (2 * p) = Fin a" "0 \<le> a" "a \<le> 8"
    using b64.rnd_between [of 0 "2 * p" 8] by (auto simp: whole_doubles)
  obtain t where t: "round64 (of_nat i) = Fin t" "0 \<le> t" "t \<le> 16384"
    using b64.rnd_between [of 0 "of_nat i" 16384] assms(4) by (auto simp: whole_doubles)
  have "a * t \<le> 8 * 16384" using a t by (intro mult_mono) auto
  then obtain m where m: "round64 (a * t) = Fin m" "0 \<le> m" "m \<le> 131072"
    using b64.rnd_between [of 0 "a * t" 131072] a t by (auto simp: whole_doubles)
  obtain w where w: "round64 (m / 60) = Fin w"
    using b64.rnd_between [of 0 "m / 60" 131072] m by (auto simp: whole_doubles)
  obtain r where r: "sine (Fin w) = Fin r" "- 1 \<le> r" "r \<le> 1" using assms(1) unfolding sine_ok_def by metis
  obtain s where s: "round64 (15 * r) = Fin s" "- 15 \<le> s" "s \<le> 15"
    using b64.rnd_between [of "- 15" "15 * r" 15] r by (auto simp: whole_doubles)
  obtain q where "round64 (100 + s) = Fin q" "85 \<le> q" "q \<le> 115"
    using b64.rnd_between [of 85 "100 + s" 115] s by (auto simp: whole_doubles)
  then show ?thesis by (simp add: wave_def a t m w r s)
qed

lemma benchmark_close_plain:
  assumes "sine_ok sine" and "3 \<le> p" and "p \<le> 4" and "i \<le> 16384" and "\<exists>e. dr_noise D i = Fin e \<and> e \<le> 900"
  shows "plain_price (benchmark_close sine (Fin p) D i)"
proof -
  obtain q e where q: "wave sine (Fin p) i = Fin q" "85 \<le> q" "q \<le> 115" and e: "dr_noise D i = Fin e" "e \<le> 900"
    using wave_finite [OF assms(1-4)] assms(5) by auto
  have "round64 (q + e) \<le> Fin 1015" using b64.rnd_below [of "q + e" 1015] q e whole_doubles by auto
  then have "wave sine (Fin p) i + dr_noise D i \<noteq> NaN" "wave sine (Fin p) i + dr_noise D i \<noteq> PInf"
    using q e by (cases "round64 (q + e)"; simp)+
  then show ?thesis unfolding benchmark_close_def by (rule np_maximum_one) simp
qed

theorem benchmark_candles_are_consistent:
  assumes "sine_ok sine" and "3 \<le> p" and "p \<le> 4" and "drawn D" and "0 < n" and "n \<le> 16384"
  shows "\<exists>df. benchmark_ohlcv sine (Fin p) D n = Inr df \<and> consistent df n"
proof -
  let ?closes = "map (benchmark_close sine (Fin p) D) [0..<n]"
  have "\<forall>c \<in> set ?closes. plain_price c"
    using benchmark_close_plain [OF assms(1-3), of _ D] assms(4,6) by (auto simp: drawn_def)
  with candles_from_consistent [OF assms(4), of ?closes] show ?thesis
    using assms(5) by (simp add: benchmark_ohlcv_def)
qed

section \<open>The two runs of the benchmark\<close>

definition variant :: "nat \<Rightarrow> strategy_definition" where
  "variant i = \<lparr>sd_name = ''ema_fast_'' @ decimal (5 + i), sd_description = None, sd_timeframe = None,
     sd_indicators = [\<lparr>ic_name = ''ema'', ic_alias = ''ema_fast'', ic_params = [(''period'', Fixed (IntN (5 + int i)))]\<rparr>,
       \<lparr>ic_name = ''ema'', ic_alias = ''ema_slow'', ic_params = [(''period'', Fixed (IntN (25 + int i)))]\<rparr>],
     sd_entry_conditions = Comparison (Ref ''ema_fast'') CrossesAbove (Ref ''ema_slow''),
     sd_exit_conditions = Some (Comparison (Ref ''ema_fast'') CrossesBelow (Ref ''ema_slow'')),
     sd_risk_management = \<lparr>rm_stop_loss_pct = FloatN (lit (2 / 100)), rm_take_profit_pct = FloatN (lit (6 / 100)),
       rm_trailing_stop_pct = None\<rparr>\<rparr>"

lemma ema_parsed:
  "indicator_of lax (ema_value als period) =
     map_res (\<lambda>a. \<lparr>ic_name = ''ema'', ic_alias = a, ic_params = [(''period'', Fixed (IntN (int period)))]\<rparr>) (alias_is_identifier als)"
  by (simp add: indicator_of_def ema_value_def required_def defaulted_def params_of_def param_value_of_def number_of_def
    map_res_def bindE_def split: sum.splits)

lemma cross_parsed:
  "tagged_node_of lax (cross_value ''crosses_above'') = Inr (Comparison (Ref ''ema_fast'') CrossesAbove (Ref ''ema_slow''))"
  "tagged_node_of lax (cross_value ''crosses_below'') = Inr (Comparison (Ref ''ema_fast'') CrossesBelow (Ref ''ema_slow''))"
  by (simp_all add: tagged_node_of_def cross_value_def comparison_of_def required_def operand_of_def literal_of_def
    comparison_ops_def comparison_name_def)

lemma risk_parsed:
  "risk_of lax variant_risk = Inr \<lparr>rm_stop_loss_pct = FloatN (lit (2 / 100)), rm_take_profit_pct = FloatN (lit (6 / 100)),
     rm_trailing_stop_pct = None\<rparr>"
  by (simp add: risk_of_def variant_risk_def required_def optional_def number_of_def check_risk_def in_open_unit_def
    num_less_def lit_def fl_eval)

lemma optional_cross:
  "map_of kvs k = Some (cross_value op) \<Longrightarrow> optional kvs k f = map_res Some (f (cross_value op))"
  by (simp add: optional_def cross_value_def)

lemma variant_parsed: "model_validate lax (variant_value i) = Inr (variant i)"
  by (simp add: model_validate_def variant_value_def required_def optional_cross defaulted_def items_of_def ema_parsed
    optional_def [of _ "''description''"] optional_def [of _ "''timeframe''"] cross_parsed risk_parsed variant_def Let_def alias_is_identifier_def isidentifier_def is_letter_def
    check_unique_aliases_def text_of_def)

lemma make_variants_eq: "make_variants lax n = Inr (map variant [0..<n])"
proof -
  have "mapE (\<lambda>i. model_validate lax (variant_value i)) is = Inr (map variant is)" for "is"
    by (induction "is") (simp_all add: variant_parsed)
  then show ?thesis by (simp add: make_variants_def)
qed

theorem benchmark_runs_agree:
  assumes "benchmark_parallel lax L N sine pi64 D = Inr (sequential, parallel)"
  shows "parallel = sequential \<and> (\<exists>df. benchmark_ohlcv sine pi64 D candles_per_year_1h = Inr df \<and> length sequential = n_variants \<and>
    (\<forall>i < n_variants. backtest L N (variant i) df default_args = Inr (sequential ! i)))"
proof -
  obtain df where df: "benchmark_ohlcv sine pi64 D candles_per_year_1h = Inr df"
      and "mapE (\<lambda>v. backtest L N v df default_args) (map variant [0..<n_variants]) = Inr sequential"
      and "run_backtests_parallel L N (map variant [0..<n_variants]) df None default_args = Inr parallel"
    using assms by (auto simp: benchmark_parallel_def make_variants_eq bindE_eq_Inr map_res_eq_Inr)
  then have "mapE (\<lambda>v. backtest L N v df default_args) (map variant [0..<n_variants]) = Inr sequential \<and> parallel = sequential"
    by (simp add: run_backtests_parallel_def run_one_def [abs_def] init_worker_def)
  with df show ?thesis using mapE_length mapE_nth by fastforce
qed

end
