(* ===== verification/Paper_Bot.thy ===== *)
theory Paper_Bot
  imports Bot
begin

text \<open>
  A paper bot against the backtest: its handler, fed the candles of a frame one by one with the history up to each, keeps
  the position the backtest has at that candle and writes the trades the backtest's cost model
  computes. \<open>bot_follows\<close> is the simulation between the bot with its connection and the state of the
  backtest's loop; it holds as long as neither the hard stop nor a rejected order interferes.
\<close>

section \<open>What the trade table holds\<close>

definition booked :: "string \<Rightarrow> trade_cost_result \<Rightarrow> bot_trade \<Rightarrow> bool" where
  "booked i r row \<longleftrightarrow> bx_bot_id row = i \<and> bx_entry_time row = tr_entry_time (cr_trade r) \<and>
     bx_exit_time row = tr_exit_time (cr_trade r) \<and> bx_entry_price row = cr_entry_fill_price r \<and>
     bx_exit_price row = cr_exit_fill_price r \<and> bx_quantity row = cr_quantity r \<and>
     bx_exit_reason row = reason_name (tr_exit_reason (cr_trade r)) \<and>
     bx_net_pnl_pct row = cr_net_pnl_pct r \<and> bx_net_pnl_abs row = cr_net_pnl_abs r"

definition capital :: "fl \<Rightarrow> trade_cost_result list \<Rightarrow> fl" where
  "capital e rs = last (e # map cr_equity_after rs)"

definition interfered :: "bot_event list \<Rightarrow> bool" where
  "interfered es \<longleftrightarrow> (\<exists>e \<in> set es. be_event_type e \<in> {''hard_stop_loss'', ''order_rejected''})"

lemma interfered_types: "interfered es \<longleftrightarrow> {''hard_stop_loss'', ''order_rejected''} \<inter> be_event_type ` set es \<noteq> {}"
proof -
  have "(\<exists>x \<in> A. f x \<in> B) \<longleftrightarrow> B \<inter> f ` A \<noteq> {}" for A B and f :: "bot_event \<Rightarrow> string" by blast
  then show ?thesis unfolding interfered_def .
qed

text \<open>The part of the relation that is about money.\<close>

definition accounts :: "trading_costs \<Rightarrow> fl \<Rightarrow> bot_trade list \<Rightarrow> loop_state \<Rightarrow> database connection \<Rightarrow> bot \<Rightarrow> bool" where
  "accounts costs e0 old s c b \<longleftrightarrow> (\<exists>rs rows. apply_costs_to_trades (st_trades s) e0 costs = Inr rs \<and>
     map snd (db_bot_trades (cn_work c)) = old @ rows \<and> list_all2 (booked (bm_id b)) rs rows \<and>
     (if st_in_position s
      then entry_fill_price costs (the (st_entry_price s)) \<noteq> 0 \<and> bm_equity_at_entry b = capital e0 rs \<and>
        bm_current_quantity b = (capital e0 rs * (1 - tc_fee_pct costs)) / entry_fill_price costs (the (st_entry_price s))
      else bm_equity b = capital e0 rs))"

definition bot_follows :: "strategy_definition \<Rightarrow> trading_costs \<Rightarrow> fl \<Rightarrow> bot_trade list \<Rightarrow> loop_state \<Rightarrow> bot_state_of_run \<Rightarrow> bool" where
  "bot_follows d costs e0 old s cb \<longleftrightarrow> (case cb of (c, b) \<Rightarrow> ready (bm_id b) c \<and> bm_definition b = d \<and>
     bm_broker b = PaperBroker costs \<and> bm_costs b = costs \<and> locals_ok s \<and>
     bm_tracker b = \<lparr>tk_risk_management = sd_risk_management d, tk_position = abs_position s\<rparr> \<and> accounts costs e0 old s c b)"

section \<open>Capital\<close>

lemma apply_costs_snoc:
  assumes "apply_costs_to_trades ts e costs = Inr rs" and "cost_of_trade costs (capital e rs) t = Inr r"
  shows "apply_costs_to_trades (ts @ [t]) e costs = Inr (rs @ [r])"
  using assms
proof (induction ts arbitrary: e rs)
  case Nil
  then show ?case by (simp add: capital_def)
next
  case (Cons u us)
  then obtain q qs where q: "cost_of_trade costs e u = Inr q" "rs = q # qs"
      "apply_costs_to_trades us (cr_equity_after q) costs = Inr qs"
    by (auto simp: bindE_eq_Inr map_res_eq_Inr)
  moreover from q(2) Cons.prems(2) have "cost_of_trade costs (capital (cr_equity_after q) qs) t = Inr r"
    by (simp add: capital_def split: if_splits)
  ultimately show ?case using Cons.IH by simp
qed

lemma capital_snoc [simp]: "capital e (rs @ [r]) = cr_equity_after r"
  by (simp add: capital_def)

lemma no_slippage: "tc_slippage_pct costs = 0 \<Longrightarrow> is_double x \<Longrightarrow> entry_fill_price costs x = x"
  by (cases x) (auto simp: entry_fill_price_def is_double_Fin fl_eval)

lemma put_new: "k \<notin> fst ` set t \<Longrightarrow> put k v t = t @ [(k, v)]"
  by (induction t) (auto simp: put_def)

lemma heartbeat_run:
  assumes "ready i c"
  obtains c' where "heartbeat now i c = (c', Inr ())" "db_bots (cn_work c') = db_bots (cn_work c)"
    "db_bot_trades (cn_work c') = db_bot_trades (cn_work c)" "db_bot_events (cn_work c') = db_bot_events (cn_work c)"
    "cn_status c' = Idle"
proof -
  have "cn_status c \<noteq> Aborted" using assms by (simp add: ready_def)
  from run_heartbeat [OF this, of now i] that show thesis by (auto split: option.splits)
qed

section \<open>Events are only added\<close>

definition new_events :: "database connection \<Rightarrow> database connection \<Rightarrow> bot_event list" where
  "new_events c c' = drop (length (db_bot_events (cn_work c))) (db_bot_events (cn_work c'))"

definition extends :: "string \<Rightarrow> database connection \<Rightarrow> database connection \<Rightarrow> bool" where
  "extends i c c' \<longleftrightarrow> ready i c' \<and> db_bot_events (cn_work c') = db_bot_events (cn_work c) @ new_events c c'"

lemma extends_iff: "extends i c c' \<longleftrightarrow> ready i c' \<and> (\<exists>es. db_bot_events (cn_work c') = db_bot_events (cn_work c) @ es)"
  by (auto simp: extends_def new_events_def)

lemma extends_trans: "extends i c c1 \<Longrightarrow> extends i c1 c2 \<Longrightarrow> extends i c c2"
  by (auto simp: extends_iff)

lemma new_events_trans:
  "extends i c c1 \<Longrightarrow> extends i c1 c2 \<Longrightarrow> interfered (new_events c c2) \<longleftrightarrow> interfered (new_events c c1) \<or> interfered (new_events c1 c2)"
  by (auto simp: extends_iff new_events_def interfered_def)

lemma heartbeat_extends: "ready i c \<Longrightarrow> heartbeat now i c = (c', r) \<Longrightarrow> extends i c c'"
  by (rule heartbeat_run [of i c now]) (auto simp: extends_iff ready_def)

lemma save_extends:
  assumes "save_state now history (c, b) = ((c', b'), r)" and "ready (bm_id b) c"
  shows "extends (bm_id b) c c'" and "b' = b"
  using run_save_state [OF assms(2), of now history] assms ready_known [OF assms(2)] by (auto simp: extends_iff)

lemma close_extends:
  assumes "close_position_bot w p x reason t (c, b) = ((c', b'), Inr ())" and "ready (bm_id b) c"
  shows "extends (bm_id b) c c'" and "bm_id b' = bm_id b"
  using assms by (rule close_cases, use ready_known [OF assms(2)] in \<open>auto simp: extends_iff after_close_def Let_def\<close>)+

lemma entry_extends:
  assumes "execute_entry w sg (c, b) = ((c', b'), Inr ())" and "ready (bm_id b) c"
  shows "extends (bm_id b) c c'" and "bm_id b' = bm_id b"
  using assms by (rule execute_entry_cases, use ready_known [OF assms(2)] in \<open>auto simp: extends_iff\<close>)+

lemma follow_extends:
  assumes "follow_tracker w history sg (c, b) = ((c', b'), Inr ())" and "ready (bm_id b) c"
  shows "extends (bm_id b) c c'" and "bm_id b' = bm_id b"
proof -
  from assms(1) obtain t action where p: "process (bm_tracker b) sg = Inr (t, action)"
    by (cases "process (bm_tracker b) sg") (auto simp: follow_tracker_def st_simps)
  let ?b = "b\<lparr>bm_tracker := t\<rparr>"
  have r: "ready (bm_id ?b) c" using assms(2) by simp
  have "extends (bm_id b) c c' \<and> bm_id b' = bm_id b"
  proof (cases action)
    case None
    with assms(1) p obtain r where "heartbeat (ce_now w) (bm_id b) c = (c', r)" and "b' = ?b"
      by (auto simp: follow_tracker_def st_simps split: prod.splits)
    with heartbeat_extends [OF assms(2)] show ?thesis by simp
  next
    case (Some a)
    have "\<exists>c1 b1. extends (bm_id b) c c1 \<and> bm_id b1 = bm_id b \<and> save_state (ce_now w) history (c1, b1) = ((c', b'), Inr ())"
    proof (cases a)
      case (Enter x)
      with assms(1) p Some obtain c1 b1 where step: "execute_entry w sg (c, ?b) = ((c1, b1), Inr ())"
          "save_state (ce_now w) history (c1, b1) = ((c', b'), Inr ())"
        by (auto simp: follow_tracker_def st_simps split: prod.splits sum.splits)
      show ?thesis by (rule exI [of _ c1], rule exI [of _ b1]) (use entry_extends [OF step(1) r] step(2) in simp)
    next
      case (Exit x reason)
      with assms(1) p Some obtain pos c1 b1 where step: "close_position_bot w pos x (reason_name reason) (sg_timestamp sg) (c, ?b) = ((c1, b1), Inr ())"
          "save_state (ce_now w) history (c1, b1) = ((c', b'), Inr ())"
        by (auto simp: follow_tracker_def st_simps split: prod.splits sum.splits option.splits)
      show ?thesis by (rule exI [of _ c1], rule exI [of _ b1]) (use close_extends [OF step(1) r] step(2) in simp)
    qed
    then obtain c1 b1 where "extends (bm_id b) c c1" "bm_id b1 = bm_id b" "save_state (ce_now w) history (c1, b1) = ((c', b'), Inr ())"
      by blast
    with save_extends [of "ce_now w" history c1 b1] show ?thesis
      by (metis extends_iff extends_trans)
  qed
  then show "extends (bm_id b) c c'" "bm_id b' = bm_id b" by auto
qed

lemma hard_stop_extends:
  assumes "close_at_hard_stop w history sg p (c, b) = ((c', b'), Inr ())" and "ready (bm_id b) c"
  shows "extends (bm_id b) c c'" and "interfered (new_events c c')" and "bm_id b' = bm_id b"
proof -
  let ?D = "Some (VDict [(''entry_price'', VFloat (op_entry_price p)), (''trigger_price'', VFloat (sg_close sg))])"
  define e where "e = \<lparr>be_bot_id = bm_id b, be_event_type = ''hard_stop_loss'', be_message = ''Independent hard stop-loss triggered'',
    be_data = map_option json_safe ?D, be_created_at = ce_now w\<rparr>"
  have "event (ce_now w) ''hard_stop_loss'' ''Independent hard stop-loss triggered'' ?D (c, b) = ((committed (add_event e) c, b), Inr ())"
    unfolding e_def by (rule run_event [OF assms(2)]) (simp add: event_types_def)
  with assms(1) obtain c1 b1 where
    close: "close_position_bot w p (sg_close sg) ''hard_stop_loss'' (sg_timestamp sg) (committed (add_event e) c, b) = ((c1, b1), Inr ())"
    and save: "save_state (ce_now w) history (c1, set_position None b1) = ((c', b'), Inr ())"
    by (auto simp: close_at_hard_stop_def st_simps split: prod.splits sum.splits)
  have grows: "extends (bm_id b) c (committed (add_event e) c)" using ready_known [OF assms(2)] by (simp add: extends_iff subset_insertI2)
  have r: "ready (bm_id b) (committed (add_event e) c)" using ready_known [OF assms(2)] by simp
  from save_extends [OF save] close_extends [OF close r]
  have tail: "extends (bm_id b) (committed (add_event e) c) c'" by (auto simp: extends_iff)
  with grows show "extends (bm_id b) c c'" by (rule extends_trans)
  from tail show "interfered (new_events c c')" by (auto simp: extends_iff new_events_def interfered_def e_def)
  from save_extends(2) [OF save] close_extends [OF close r] show "bm_id b' = bm_id b" by (auto simp: extends_iff)
qed

lemma candle_extends:
  assumes "on_candle_close L env history (c, b) = ((c', b'), Inr ())" and "ready (bm_id b) c"
  shows "extends (bm_id b) c c'" and "bm_id b' = bm_id b"
proof -
  from assms(1) obtain sg hit where "latest_signal L (bm_definition b) (history_frame history) = Inr sg" "hard_stop sg b = Inr hit"
    by (cases "latest_signal L (bm_definition b) (history_frame history)"; cases "hard_stop (projr (latest_signal L (bm_definition b) (history_frame history))) b")
      (auto simp: on_candle_close_def st_simps Let_def)
  with assms(1) consider p where "close_at_hard_stop (env history) history sg p (c, b) = ((c', b'), Inr ())"
    | "follow_tracker (env history) history sg (c, b) = ((c', b'), Inr ())"
    by (auto simp: on_candle_close_def st_simps Let_def split: option.splits if_splits)
  then have "extends (bm_id b) c c' \<and> bm_id b' = bm_id b"
  proof cases
    case (1 p)
    from hard_stop_extends(1,3) [OF 1 assms(2)] show ?thesis by simp
  next
    case 2
    from follow_extends [OF 2 assms(2)] show ?thesis by simp
  qed
  then show "extends (bm_id b) c c'" "bm_id b' = bm_id b" by simp_all
qed

section \<open>One candle\<close>

lemma quiet_candle:
  assumes "bot_follows d costs e0 old s (c, b)" and "process (bm_tracker b) sg = Inr (t, None)"
    and "st_trades s' = st_trades s" "st_in_position s' = st_in_position s" "st_entry_price s' = st_entry_price s"
    and "locals_ok s'" and "t = \<lparr>tk_risk_management = sd_risk_management d, tk_position = abs_position s'\<rparr>"
    and "follow_tracker w history sg (c, b) = ((c', b'), Inr ())"
  shows "bot_follows d costs e0 old s' (c', b')"
proof -
  have ready: "ready (bm_id b) c" using assms(1) by (simp add: bot_follows_def)
  obtain c1 where c1: "heartbeat (ce_now w) (bm_id b) c = (c1, Inr ())" "db_bots (cn_work c1) = db_bots (cn_work c)"
    "db_bot_trades (cn_work c1) = db_bot_trades (cn_work c)" "db_bot_events (cn_work c1) = db_bot_events (cn_work c)"
    "cn_status c1 = Idle"
    by (rule heartbeat_run [OF ready])
  have "c' = c1" "b' = b\<lparr>bm_tracker := t\<rparr>"
    using assms(8) by (simp_all add: follow_tracker_def st_simps assms(2) c1(1))
  moreover have "accounts costs e0 old s' c1 (b\<lparr>bm_tracker := t\<rparr>)"
    using assms(1) by (cases "st_in_position s") (simp_all add: bot_follows_def accounts_def assms(3-5) c1(3))
  ultimately show ?thesis
    using assms(1,6,7) c1 by (simp add: bot_follows_def ready_def)
qed

lemma entry_candle:
  assumes follows: "bot_follows d costs e0 old s (c, b)" and flat: "\<not> st_in_position s"
    and slip: "tc_slippage_pct costs = 0" "is_double (sg_close sg)"
    and run: "follow_tracker w history sg (c, b) = ((c', b'), Inr ())" and entry: "sg_entry_signal sg"
    and quiet: "\<not> interfered (new_events c c')"
  shows "bot_follows d costs e0 old (s\<lparr>st_in_position := True, st_entry_price := Some (sg_close sg),
      st_entry_time := Some (sg_timestamp sg), st_highest := Some (sg_close sg)\<rparr>) (c', b')"
proof -
  let ?p = "\<lparr>op_entry_time = sg_timestamp sg, op_entry_price = sg_close sg, op_highest_since_entry = sg_close sg\<rparr>"
  let ?b = "b\<lparr>bm_tracker := (bm_tracker b)\<lparr>tk_position := Some ?p\<rparr>\<rparr>"
  have b: "ready (bm_id b) c" "bm_definition b = d" "bm_broker b = PaperBroker costs" "bm_costs b = costs"
      "bm_tracker b = \<lparr>tk_risk_management = sd_risk_management d, tk_position = None\<rparr>" and ok: "locals_ok s"
    using follows flat by (auto simp: bot_follows_def abs_position_def)
  have "process (bm_tracker b) sg = Inr ((bm_tracker b)\<lparr>tk_position := Some ?p\<rparr>, Some (Enter (sg_close sg)))"
    by (simp add: process_def b(5) entry)
  with run obtain c1 b1 where enter: "execute_entry w sg (c, ?b) = ((c1, b1), Inr ())"
      and save: "save_state (ce_now w) history (c1, b1) = ((c', b'), Inr ())"
    by (auto simp: follow_tracker_def st_simps split: prod.splits sum.splits)
  have rb: "ready (bm_id ?b) c" using b(1) by simp
  from enter rb show ?thesis
  proof (cases rule: execute_entry_cases)
    case (1 e t)
    have "ready (bm_id b1) c1" using ready_known [OF rb] by (simp add: 1)
    from run_save_state [OF this, of "ce_now w" history] save have "c' = committed (set_state (bm_id b1) (saved_row (ce_now w) history b1)) c1" by simp
    then have "e \<in> set (new_events c c')" by (simp add: 1(2) new_events_def)
    with quiet 1(3) show ?thesis by (auto simp: interfered_def)
  next
    case (2 f e t)
    have r1: "ready (bm_id b1) c1" using ready_known [OF rb] by (simp add: 2)
    from run_save_state [OF r1, of "ce_now w" history] save have c': "c' = committed (set_state (bm_id b1) (saved_row (ce_now w) history b1)) c1"
      and b': "b' = b1" by simp_all
    have price: "entry_fill_price costs (sg_close sg) = sg_close sg" by (rule no_slippage [OF slip])
    have f: "fi_price f = sg_close sg" "fi_quantity f = (bm_equity b * (1 - tc_fee_pct costs)) / sg_close sg" "sg_close sg \<noteq> 0"
      using 2(1) by (auto simp: broker_defs b Let_def price py_div_def map_res_eq_Inr split: if_splits)
    have "bm_tracker b1 = (bm_tracker b)\<lparr>tk_position := Some ?p\<rparr>"
      by (simp add: 2(2) book_entry_def set_position_def f(1))
    moreover have "bm_definition b1 = d" "bm_broker b1 = PaperBroker costs" "bm_costs b1 = costs" "bm_id b1 = bm_id b"
        "bm_equity_at_entry b1 = bm_equity b" "bm_current_quantity b1 = fi_quantity f"
      by (simp_all add: 2(2) book_entry_def set_position_def b)
    ultimately show ?thesis
      using follows flat r1 by (auto simp: bot_follows_def accounts_def abs_position_def locals_ok_def b' c' 2(3) price f b ready_def)
  qed
qed

text \<open>With slippage the two part: the tracker's exits are measured from the fill, those of the backtest from the close.\<close>

lemma position_holds_the_fill:
  assumes "execute_entry w sg (c, b) = ((c1, b1), Inr ())" and "ready (bm_id b) c"
    and "bm_broker b = PaperBroker costs" and "tk_position (bm_tracker b) = Some p" and "tk_position (bm_tracker b1) = Some q"
  shows "op_entry_price q = entry_fill_price costs (sg_close sg) \<and> op_highest_since_entry q = entry_fill_price costs (sg_close sg)"
  using assms(1,2)
proof (cases rule: execute_entry_cases)
  case (1 e t)
  with assms(5) show ?thesis by simp
next
  case (2 f e t)
  from 2(1) have "fi_price f = entry_fill_price costs (sg_close sg)"
    by (auto simp: broker_defs assms(3) Let_def map_res_eq_Inr)
  with 2(2) assms(4,5) show ?thesis by auto
qed

lemma exit_candle:
  assumes follows: "bot_follows d costs e0 old s (c, b)" and held: "st_in_position s"
    and locals: "st_entry_price s = Some p" "st_entry_time s = Some t"
    and act: "process (bm_tracker b) sg = Inr ((bm_tracker b)\<lparr>tk_position := None\<rparr>, Some (Exit price reason))"
    and run: "follow_tracker w history sg (c, b) = ((c', b'), Inr ())"
    and trade: "tr = \<lparr>tr_entry_time = t, tr_entry_price = p, tr_exit_time = sg_timestamp sg, tr_exit_price = price,
      tr_exit_reason = reason, tr_pnl_pct = q\<rparr>" and slip: "entry_fill_price costs p = p"
  shows "bot_follows d costs e0 old (s\<lparr>st_trades := st_trades s @ [tr], st_in_position := False,
      st_entry_price := None, st_entry_time := None, st_highest := None\<rparr>) (c', b')"
proof -
  let ?b = "b\<lparr>bm_tracker := (bm_tracker b)\<lparr>tk_position := None\<rparr>\<rparr>"
  have b: "ready (bm_id b) c" "bm_definition b = d" "bm_broker b = PaperBroker costs" "bm_costs b = costs"
    and pos: "tk_position (bm_tracker b) = Some \<lparr>op_entry_time = t, op_entry_price = p, op_highest_since_entry = the (st_highest s)\<rparr>"
    and risk: "(bm_tracker b)\<lparr>tk_position := None\<rparr> = \<lparr>tk_risk_management = sd_risk_management d, tk_position = None\<rparr>"
    using follows held by (auto simp: bot_follows_def abs_position_def locals)
  let ?pos = "\<lparr>op_entry_time = t, op_entry_price = p, op_highest_since_entry = the (st_highest s)\<rparr>"
  from follows held obtain rs rows where acc: "apply_costs_to_trades (st_trades s) e0 costs = Inr rs"
      "map snd (db_bot_trades (cn_work c)) = old @ rows" "list_all2 (booked (bm_id b)) rs rows"
      "entry_fill_price costs p \<noteq> 0" "bm_equity_at_entry b = capital e0 rs"
      "bm_current_quantity b = (capital e0 rs * (1 - tc_fee_pct costs)) / entry_fill_price costs p"
    by (auto simp: bot_follows_def accounts_def locals)
  from run act pos obtain c1 b1 where close: "close_position_bot w ?pos price (reason_name reason) (sg_timestamp sg) (c, ?b) =
        ((c1, b1), Inr ())"
      and save: "save_state (ce_now w) history (c1, b1) = ((c', b'), Inr ())"
    by (auto simp: follow_tracker_def st_simps split: prod.splits sum.splits)
  have rb: "ready (bm_id ?b) c" using b(1) by simp
  from close rb show ?thesis
  proof (cases rule: close_cases)
    case (4 f e)
    let ?k = "new_id ''bottrade'' (ce_uuid w)" and ?row = "closing_row ?b ?pos (reason_name reason) (sg_timestamp sg) f"
    have b1: "b1 = after_close f ?b" and c1: "c1 = committed (add_event e) (committed (add_trade ?k ?row) c)" using 4(2) by simp_all
    have r1: "ready (bm_id b1) c1" using ready_known [OF rb] by (simp add: b1 c1 after_close_def Let_def)
    from run_save_state [OF r1, of "ce_now w" history] save have c': "c' = committed (set_state (bm_id b1) (saved_row (ce_now w) history b1)) c1"
      and b': "b' = b1" by simp_all
    have f: "fi_price f = exit_fill_price costs price" "fi_quantity f = bm_current_quantity b"
      using 4(1) by (auto simp: broker_defs b)
    obtain r where r: "cost_of_trade costs (capital e0 rs) tr = Inr r" and row: "booked (bm_id b) r ?row"
        and after: "bm_equity b1 = cr_equity_after r"
      using 4(4) acc(4-6)
      by (simp add: cost_of_trade_Inr trade booked_def closing_row_def after_close_def b1 b f Let_def slip)
    have "map snd (db_bot_trades (cn_work c')) = old @ rows @ [?row]"
      using 4(5) acc(2) by (simp add: c' c1 put_new)
    moreover note apply_costs_snoc [OF acc(1) r]
    moreover have "list_all2 (booked (bm_id b)) (rs @ [r]) (rows @ [?row])" using acc(3) row by (auto intro: list_all2_appendI)
    moreover have "bm_id b1 = bm_id b" "bm_definition b1 = d" "bm_broker b1 = PaperBroker costs" "bm_costs b1 = costs"
        "bm_tracker b1 = \<lparr>tk_risk_management = sd_risk_management d, tk_position = None\<rparr>"
      using b risk by (simp_all add: b1 after_close_def Let_def)
    ultimately show ?thesis
      using r1 after by (auto simp: bot_follows_def accounts_def abs_position_def locals_ok_def b' c' c1 ready_def)
  qed simp_all
qed

lemma candle_follows:
  assumes follows: "bot_follows d costs e0 old s (c, b)" and slip: "tc_slippage_pct costs = 0" "is_double (cd_close row)"
    and held: "st_in_position s \<Longrightarrow> is_double (the (st_entry_price s))"
    and signal: "latest_signal L d (history_frame history) = Inr (row_snapshot row be e)"
    and en: "enf (cd_time row) = Inr be" "exf (cd_time row) = Inr e"
    and step: "run_step (sd_risk_management d) enf exf s row = Inr s'"
    and run: "on_candle_close L env history (c, b) = ((c', b'), Inr ())"
    and quiet: "\<not> interfered (new_events c c')"
  shows "bot_follows d costs e0 old s' (c', b')"
proof -
  let ?sg = "row_snapshot row be e" and ?w = "env history"
  have d: "bm_definition b = d" and ok: "locals_ok s" and ready: "ready (bm_id b) c"
    and tracker: "bm_tracker b = \<lparr>tk_risk_management = sd_risk_management d, tk_position = abs_position s\<rparr>"
    using follows by (simp_all add: bot_follows_def)
  from run signal d obtain hit where hit: "hard_stop ?sg b = Inr hit"
    by (cases "hard_stop ?sg b") (simp_all add: on_candle_close_def st_simps Let_def)
  show ?thesis
  proof (cases "st_in_position s")
    case False
    then have pos: "tk_position (bm_tracker b) = None" by (simp add: tracker abs_position_def)
    then have follow: "follow_tracker ?w history ?sg (c, b) = ((c', b'), Inr ())"
      using run signal d hit by (simp add: on_candle_close_def st_simps Let_def)
    show ?thesis
    proof (cases be)
      case True
      then have "s' = s\<lparr>st_in_position := True, st_entry_price := Some (sg_close ?sg), st_entry_time := Some (sg_timestamp ?sg),
          st_highest := Some (sg_close ?sg)\<rparr>"
        using step run_step_flat [OF False] en by (simp add: row_snapshot_def)
      then show ?thesis
        using entry_candle [OF follows False slip(1) _ follow _ quiet] slip(2) True by (simp add: row_snapshot_def)
    next
      case be: False
      then have "s' = s" using step run_step_flat [OF False] en by simp
      moreover have "process (bm_tracker b) ?sg = Inr (bm_tracker b, None)"
        using pos be by (simp add: process_def row_snapshot_def)
      ultimately show ?thesis using quiet_candle [OF follows _ _ _ _ ok tracker follow] by simp
    qed
  next
    case True
    with ok obtain p t h where l: "st_entry_price s = Some p" "st_entry_time s = Some t" "st_highest s = Some h"
      by (auto simp: locals_ok_def)
    have pos: "tk_position (bm_tracker b) = Some \<lparr>op_entry_time = t, op_entry_price = p, op_highest_since_entry = h\<rparr>"
      using True l by (simp add: tracker abs_position_def)
    have "\<not> hit"
    proof
      assume hit
      with run signal d hit pos have "close_at_hard_stop ?w history ?sg \<lparr>op_entry_time = t, op_entry_price = p, op_highest_since_entry = h\<rparr>
          (c, b) = ((c', b'), Inr ())"
        by (simp add: on_candle_close_def st_simps Let_def)
      with hard_stop_extends(2) [OF _ ready] quiet show False by blast
    qed
    then have follow: "follow_tracker ?w history ?sg (c, b) = ((c', b'), Inr ())"
      using run signal d hit pos by (simp add: on_candle_close_def st_simps Let_def)
    let ?h = "py_max h (cd_high row)"
    from step run_step_open [OF True l] obtain action where
      action: "exit_decision (sd_risk_management d) exf p ?h row = Inr action" and
      s': "(case action of None \<Rightarrow> Inr (s\<lparr>st_highest := Some ?h\<rparr>)
        | Some pr \<Rightarrow> map_res (\<lambda>tr. s\<lparr>st_trades := st_trades s @ [tr], st_in_position := False,
            st_entry_price := None, st_entry_time := None, st_highest := None\<rparr>) (close_trade t p row pr)) = Inr s'"
      by (auto simp: bindE_eq_Inr)
    note acts = process_open [where ex = exf and row = row and b = be, OF pos en(2)]
    show ?thesis
    proof (cases action)
      case None
      let ?t = "(bm_tracker b)\<lparr>tk_position := Some \<lparr>op_entry_time = t, op_entry_price = p, op_highest_since_entry = ?h\<rparr>\<rparr>"
      from None s' have s'': "s' = s\<lparr>st_highest := Some ?h\<rparr>" by simp
      from None action acts have "process (bm_tracker b) ?sg = Inr (?t, None)" by (simp add: tracker)
      then show ?thesis
        by (rule quiet_candle [OF follows _ _ _ _ _ _ follow])
          (use ok l True in \<open>simp_all add: s'' locals_ok_def abs_position_def tracker\<close>)
    next
      case (Some pr)
      obtain price reason where pr: "pr = (price, reason)" by (cases pr)
      from s' Some pr obtain tr where tr: "close_trade t p row (price, reason) = Inr tr" "s' = s\<lparr>st_trades := st_trades s @ [tr],
          st_in_position := False, st_entry_price := None, st_entry_time := None, st_highest := None\<rparr>"
        by (auto simp: map_res_eq_Inr)
      from tr(1) obtain q where q: "tr = \<lparr>tr_entry_time = t, tr_entry_price = p, tr_exit_time = sg_timestamp ?sg, tr_exit_price = price,
          tr_exit_reason = reason, tr_pnl_pct = q\<rparr>"
        by (auto simp: close_trade_def map_res_eq_Inr row_snapshot_def)
      from Some pr action acts have act: "process (bm_tracker b) ?sg = Inr ((bm_tracker b)\<lparr>tk_position := None\<rparr>, Some (Exit price reason))"
        by (simp add: tracker close_position_def)
      have "entry_fill_price costs p = p" using no_slippage [OF slip(1)] held [OF True] l by simp
      from exit_candle [OF follows True l(1,2) act follow q this] tr(2) show ?thesis by simp
    qed
  qed
qed

section \<open>All candles\<close>

definition price_ok :: "loop_state \<Rightarrow> bool" where
  "price_ok s \<longleftrightarrow> (st_in_position s \<longrightarrow> is_double (the (st_entry_price s)))"

lemma run_step_price: "run_step risk enf exf s row = Inr s' \<Longrightarrow> is_double (cd_close row) \<Longrightarrow> price_ok s \<Longrightarrow> price_ok s'"
  by (auto simp: run_step_def price_ok_def py_simps Let_def split: if_splits option.splits)

lemma forS_snoc:
  assumes "forS f (xs @ [x]) s = (s', Inr ())"
  obtains s1 where "forS f xs s = (s1, Inr ())" and "f x s1 = (s', Inr ())"
proof -
  have "\<exists>s1. forS f xs s = (s1, Inr ()) \<and> f x s1 = (s', Inr ())"
    using assms by (induction xs arbitrary: s) (auto simp: st_simps split: prod.splits sum.splits)
  with that show thesis by blast
qed

lemma idle_fold:
  "(\<And>i. i < n \<Longrightarrow> enf (cd_time (row i)) = Inr False) \<Longrightarrow>
     foldE (run_step risk enf exf) start_state (map row [0..<n]) = Inr start_state"
  by (induction n) (simp_all add: foldE_append run_step_flat)

text \<open>The signals the bot sees, and the rows and series of the backtest they belong to.\<close>

definition same_signals :: "extlib \<Rightarrow> strategy_definition \<Rightarrow> (nat \<Rightarrow> bar list) \<Rightarrow> (nat \<Rightarrow> candle) \<Rightarrow>
    (time \<Rightarrow> bool res) \<Rightarrow> (time \<Rightarrow> bool res) \<Rightarrow> nat \<Rightarrow> bool" where
  "same_signals L d hist row enf exf n \<longleftrightarrow> (\<forall>i < n. is_double (cd_close (row i)) \<and> (\<exists>be e. enf (cd_time (row i)) = Inr be \<and>
     exf (cd_time (row i)) = Inr e \<and> latest_signal L d (history_frame (hist i)) = Inr (row_snapshot (row i) be e)))"

lemma forS_extends:
  "forS (\<lambda>i. on_candle_close L env (hist i)) is (c, b) = ((c', b'), Inr ()) \<Longrightarrow> ready (bm_id b) c \<Longrightarrow>
     extends (bm_id b) c c' \<and> bm_id b' = bm_id b"
proof (induction "is" arbitrary: c b)
  case Nil
  then show ?case by (simp add: extends_iff)
next
  case (Cons i "is")
  from Cons.prems(1) obtain c1 b1 where first: "on_candle_close L env (hist i) (c, b) = ((c1, b1), Inr ())"
      and rest: "forS (\<lambda>i. on_candle_close L env (hist i)) is (c1, b1) = ((c', b'), Inr ())"
    by (auto simp: st_simps split: prod.splits sum.splits)
  note one = candle_extends [OF first Cons.prems(2)]
  then have "ready (bm_id b1) c1" by (simp add: extends_def)
  with Cons.IH [OF rest] one show ?case by (auto intro: extends_trans)
qed

lemma candles_follow:
  assumes signals: "same_signals L d hist row enf exf n" and idle: "\<forall>i < n0. enf (cd_time (row i)) = Inr False" and "n0 \<le> n"
    and slip: "tc_slippage_pct costs = 0" and start: "bot_follows d costs e0 old start_state (c, b)"
    and "foldE (run_step (sd_risk_management d) enf exf) start_state (map row [0..<n]) = Inr s"
    and "forS (\<lambda>i. on_candle_close L env (hist i)) [n0..<n] (c, b) = ((c', b'), Inr ())"
    and "\<not> interfered (new_events c c')"
  shows "bot_follows d costs e0 old s (c', b') \<and> price_ok s"
  using assms(3,1,6-8)
proof (induction n arbitrary: s c' b' rule: dec_induct)
  case base
  moreover have "foldE (run_step (sd_risk_management d) enf exf) start_state (map row [0..<n0]) = Inr start_state"
    by (rule idle_fold) (use idle in simp)
  ultimately show ?case using start by (simp add: price_ok_def)
next
  case (step n)
  from step.prems(2) obtain s1 where s1: "foldE (run_step (sd_risk_management d) enf exf) start_state (map row [0..<n]) = Inr s1"
    and last: "run_step (sd_risk_management d) enf exf s1 (row n) = Inr s"
    by (auto simp: foldE_append bindE_eq_Inr)
  let ?f = "\<lambda>i. on_candle_close L env (hist i)"
  have "[n0..<Suc n] = [n0..<n] @ [n]" using step.hyps(1) by simp
  with step.prems(3) have snoc: "forS ?f ([n0..<n] @ [n]) (c, b) = ((c', b'), Inr ())" by (simp only:)
  obtain c1 b1 where run: "forS ?f [n0..<n] (c, b) = ((c1, b1), Inr ())" and candle: "?f n (c1, b1) = ((c', b'), Inr ())"
    by (rule forS_snoc [OF snoc]) (metis surj_pair)
  from step.prems(1) obtain be e where now: "is_double (cd_close (row n))" "enf (cd_time (row n)) = Inr be"
      "exf (cd_time (row n)) = Inr e" "latest_signal L d (history_frame (hist n)) = Inr (row_snapshot (row n) be e)"
    by (auto simp: same_signals_def)
  have before: "same_signals L d hist row enf exf n" using step.prems(1) by (simp add: same_signals_def)
  have sofar: "extends (bm_id b) c c1" "bm_id b1 = bm_id b" using forS_extends [OF run] start by (simp_all add: bot_follows_def)
  then have "ready (bm_id b1) c1" by (simp add: extends_def)
  from candle_extends(1) [OF candle this] sofar have next_one: "extends (bm_id b) c1 c'" by simp
  with new_events_trans [OF sofar(1)] step.prems(4) have quiet: "\<not> interfered (new_events c c1)" "\<not> interfered (new_events c1 c')" by simp_all
  from step.IH [OF before s1 run quiet(1)] have follows: "bot_follows d costs e0 old s1 (c1, b1)" and price: "price_ok s1" by simp_all
  have "bot_follows d costs e0 old s (c', b')"
    by (rule candle_follows [OF follows slip now(1) _ now(4,2,3) last candle quiet(2)])
      (use price in \<open>simp add: price_ok_def\<close>)
  with run_step_price [OF last now(1) price] show ?case by simp
qed

end
