(* ===== verification/Replay.thy ===== *)
theory Replay
  imports Paper_Bot
begin

text \<open>
  A whole run of a bot: what the feed does is to call the handler once per new candle, with the history
  up to it. \<open>feed_run_replays\<close> turns a run over messages and polls into that sequence of calls, whatever the
  handler is; with \<open>Paper_Bot\<close> it gives the trades of a run of a paper bot.
\<close>

section \<open>The feed as a sequence of calls\<close>

definition replay :: "(bar list \<Rightarrow> ('s, unit) stm) \<Rightarrow> nat \<Rightarrow> bar list \<Rightarrow> bar list \<Rightarrow> ('s, unit) stm" where
  "replay cb m seed new = forS (\<lambda>i. cb (last_n m (take (Suc i) (seed @ new)))) [length seed..<length (seed @ new)]"

definition replayed :: "(bar list \<Rightarrow> ('s, unit) stm) \<Rightarrow> bar list \<Rightarrow> 's \<Rightarrow> feed \<times> 's \<Rightarrow> bool" where
  "replayed cb seed s0 fs \<longleftrightarrow> feed_ok (fst fs) \<and> (\<exists>new. fd_history (fst fs) = last_n (fd_max_history (fst fs)) (seed @ new) \<and>
     replay cb (fd_max_history (fst fs)) seed new s0 = (snd fs, Inr ()))"

lemma last_n_last_n: "last_n m (last_n m xs @ [x]) = last_n m (xs @ [x])"
  by (cases "length xs \<le> m") (auto simp: last_n_def Suc_diff_le)

lemma forS_append: "forS f (xs @ ys) s = (case forS f xs s of (s', Inl e) \<Rightarrow> (s', Inl e) | (s', Inr _) \<Rightarrow> forS f ys s')"
  by (induction xs arbitrary: s) (auto simp: st_simps split: prod.splits sum.splits)

lemma forS_cong: "(\<And>x. x \<in> set xs \<Longrightarrow> f x = g x) \<Longrightarrow> forS f xs = forS g xs"
  by (induction xs) auto

lemma replay_snoc:
  assumes "replay cb m seed new s0 = (s, Inr ())" and "cb (last_n m (seed @ new @ [x])) s = (s', Inr ())"
  shows "replay cb m seed (new @ [x]) s0 = (s', Inr ())"
proof -
  let ?f = "\<lambda>new i. cb (last_n m (take (Suc i) (seed @ new)))"
  have "forS (?f (new @ [x])) [length seed..<length (seed @ new)] = forS (?f new) [length seed..<length (seed @ new)]"
    by (rule forS_cong) auto
  with assms show ?thesis by (simp add: replay_def forS_append st_simps)
qed

lemma read_candle_replays:
  assumes "read_candle cb tf cn (f, s) = ((f', s'), Inr ())" and "replayed cb seed s0 (f, s)"
  shows "replayed cb seed s0 (f', s') \<and> fd_max_history f' = fd_max_history f"
proof -
  obtain c now where cn: "cn = (c, now)" by force
  let ?m = "fd_max_history f"
  from assms(2) obtain new where ok: "feed_ok f" and new: "fd_history f = last_n ?m (seed @ new)" "replay cb ?m seed new s0 = (s, Inr ())"
    by (auto simp: replayed_def)
  consider "f' = f" "s' = s" | h where "append_candle f c = (f', Some h)" "cb h s = (s', Inr ())"
    using assms(1) append_candle_None [of f c] by (auto simp: cn read_candle_def split: if_splits prod.splits option.splits)
  then show ?thesis
  proof cases
    case 1
    with assms(2) show ?thesis by simp
  next
    case (2 h)
    have "feed_ok f'" by (rule append_candle_Some(1) [OF 2(1) ok])
    moreover from 2(1) have "h = last_n ?m (seed @ new @ [bar_of c])" "f' = f\<lparr>fd_history := h\<rparr>"
      by (auto simp: append_candle_def Let_def new(1) last_n_last_n split: if_splits)
    ultimately show ?thesis using replay_snoc [OF new(2), of "bar_of c"] 2(2)
      by (simp add: replayed_def exI [of _ "new @ [bar_of c]"])
  qed
qed

lemma reads_replay:
  "forS (read_candle cb tf) cns (f, s) = ((f', s'), Inr ()) \<Longrightarrow> replayed cb seed s0 (f, s) \<Longrightarrow>
     replayed cb seed s0 (f', s') \<and> fd_max_history f' = fd_max_history f"
proof (induction cns arbitrary: f s)
  case (Cons cn cns)
  from Cons.prems(1) obtain f1 s1 where "read_candle cb tf cn (f, s) = ((f1, s1), Inr ())"
      "forS (read_candle cb tf) cns (f1, s1) = ((f', s'), Inr ())"
    by (auto simp: st_simps split: prod.splits sum.splits)
  with Cons.IH read_candle_replays [OF _ Cons.prems(2)] show ?case by metis
qed simp

lemma feed_step_replays:
  assumes "feed_step cb seconds tf r (f, s) = Some ((f', s'), Inr ())" and "replayed cb seed s0 (f, s)"
  shows "replayed cb seed s0 (f', s') \<and> fd_max_history f' = fd_max_history f"
proof -
  consider (nothing) "f' = f" "s' = s" | cns where "forS (read_candle cb tf) cns (f, s) = ((f', s'), Inr ())"
  proof (cases r)
    case (WebsocketMessage candles now)
    have "forS (\<lambda>c. read_candle cb tf (c, now)) candles = forS (read_candle cb tf) (map (\<lambda>c. (c, now)) candles)"
      by (induction candles) simp_all
    with assms(1) WebsocketMessage that(2) show thesis by (simp add: feed_step_def websocket_round_def)
  next
    case (PollingRound now fetch clock)
    with assms(1) that show thesis
      by (auto simp: feed_step_def polling_round_def st_simps split: sum.splits if_splits option.splits prod.splits)
  qed
  then show ?thesis
  proof cases
    case nothing
    with assms(2) show ?thesis by simp
  next
    case (2 cns)
    from reads_replay [OF this assms(2)] show ?thesis .
  qed
qed

lemma feed_run_replays:
  "feed_run cb seconds tf rounds (f, s) = Some ((f', s'), Inr ()) \<Longrightarrow> replayed cb seed s0 (f, s) \<Longrightarrow>
     replayed cb seed s0 (f', s') \<and> fd_max_history f' = fd_max_history f"
proof (induction rounds arbitrary: f s)
  case (Cons r rounds)
  from Cons.prems(1) obtain f1 s1 where "feed_step cb seconds tf r (f, s) = Some ((f1, s1), Inr ())"
      "feed_run cb seconds tf rounds (f1, s1) = Some ((f', s'), Inr ())"
    by (auto split: option.splits prod.splits sum.splits)
  with Cons.IH feed_step_replays [OF _ Cons.prems(2)] show ?case by metis
qed simp

text \<open>While the history has not reached its limit, the calls get everything from the first seed candle on.\<close>

lemma full_replay:
  assumes "feed_run cb seconds tf rounds (f, s) = Some ((f', s'), Inr ())"
    and "feed_ok f" and "length (fd_history f') < fd_max_history f"
  shows "feed_ok f' \<and> (\<exists>new. fd_history f' = fd_history f @ new \<and>
    forS (\<lambda>i. cb (take (Suc i) (fd_history f'))) [length (fd_history f)..<length (fd_history f')] s = (s', Inr ()))"
proof -
  let ?m = "fd_max_history f" and ?seed = "fd_history f"
  have "replayed cb ?seed s (f, s)"
    unfolding replayed_def
    by (intro conjI exI [of _ "[]"]) (use assms(2) in \<open>simp_all add: replay_def last_n_def feed_ok_def\<close>)
  from feed_run_replays [OF assms(1) this] obtain new where new: "feed_ok f'" "fd_history f' = last_n ?m (?seed @ new)"
      "replay cb ?m ?seed new s = (s', Inr ())"
    by (auto simp: replayed_def)
  have "length (?seed @ new) < ?m" using assms(3) last_n_simps(1) [of ?m "?seed @ new"] by (simp add: new(2))
  then have l: "last_n ?m xs = xs" if "length xs \<le> length (?seed @ new)" for xs :: "bar list" using that by (simp add: last_n_def)
  have "forS (\<lambda>i. cb (last_n ?m (take (Suc i) (?seed @ new)))) [length ?seed..<length (?seed @ new)] =
      forS (\<lambda>i. cb (take (Suc i) (?seed @ new))) [length ?seed..<length (?seed @ new)]"
    by (rule forS_cong) (subst l, simp_all)
  with new(3) have "forS (\<lambda>i. cb (take (Suc i) (?seed @ new))) [length ?seed..<length (?seed @ new)] s = (s', Inr ())"
    by (simp only: replay_def)
  moreover have "fd_history f' = ?seed @ new" using new(2) l [OF order_refl] by simp
  ultimately show ?thesis using new(1) by auto
qed

section \<open>Start and end of a run\<close>

definition set_status :: "time \<Rightarrow> string \<Rightarrow> bot_record \<Rightarrow> bot_record" where
  "set_status now st r = r\<lparr>bo_status := st, bo_status_message := None, bo_updated_at := now\<rparr>"

lemma run_typed_event:
  "ready (bm_id b) c \<Longrightarrow> ty \<in> set event_types \<Longrightarrow>
     \<exists>e. be_event_type e = ty \<and> event now ty m data (c, b) = ((committed (add_event e) c, b), Inr ())"
  by (rule exI, rule conjI [OF _ run_event]) simp_all

lemma run_start:
  assumes "ready (bm_id b) c"
  shows "\<exists>e. be_event_type e = ''started'' \<and> start_run now h (c, b) = ((committed (set_state (bm_id b) (saved_row now h b))
    (committed (add_event e) (committed (set_bot (bm_id b) (set_status now ''running'')) c)), b), Inr ())"
proof -
  let ?c1 = "committed (set_bot (bm_id b) (set_status now ''running'')) c"
  have s: "update_status now (bm_id b) ''running'' None c = (?c1, Inr ())"
    unfolding set_status_def [abs_def] using assms by (intro run_update_status) (simp_all add: bot_statuses_def)
  have r1: "ready (bm_id b) ?c1" using ready_known [OF assms] by simp
  obtain e where e: "be_event_type e = ''started''"
    "event now ''started'' ''Bot started'' None (?c1, b) = ((committed (add_event e) ?c1, b), Inr ())"
    using run_typed_event [OF r1, of "''started''" now "''Bot started''" None] by (auto simp: event_types_def)
  have r2: "ready (bm_id b) (committed (add_event e) ?c1)" using ready_known [OF r1] by simp
  show ?thesis
    using s e run_save_state [OF r2, of now h] by (intro exI [of _ e]) (simp add: start_run_def st_simps)
qed

lemma run_finish:
  assumes "ready (bm_id b) c"
  shows "\<exists>e. be_event_type e = ''stopped'' \<and> finish_run now (Inr ()) (c, b) =
    ((committed (add_event e) (committed (set_bot (bm_id b) (set_status now ''stopped'')) c), b), Inr ())"
proof -
  let ?c1 = "committed (set_bot (bm_id b) (set_status now ''stopped'')) c"
  have s: "update_status now (bm_id b) ''stopped'' None c = (?c1, Inr ())"
    unfolding set_status_def [abs_def] using assms by (intro run_update_status) (simp_all add: bot_statuses_def)
  have r1: "ready (bm_id b) ?c1" using ready_known [OF assms] by simp
  obtain e where e: "be_event_type e = ''stopped''"
    "event now ''stopped'' ''Bot stopped'' None (?c1, b) = ((committed (add_event e) ?c1, b), Inr ())"
    using run_typed_event [OF r1, of "''stopped''" now "''Bot stopped''" None] by (auto simp: event_types_def)
  show ?thesis using s e by (intro exI [of _ e]) (simp add: finish_run_def st_simps)
qed

lemma start_run_done:
  assumes "start_run now h (c, b) = ((c1, b1), Inr ())" and "ready (bm_id b) c"
  shows "b1 = b" and "extends (bm_id b) c c1" and "db_bot_trades (cn_work c1) = db_bot_trades (cn_work c)"
proof -
  from run_start [OF assms(2), of now h] obtain e where "c1 = committed (set_state (bm_id b) (saved_row now h b))
      (committed (add_event e) (committed (set_bot (bm_id b) (set_status now ''running'')) c))" and "b1 = b"
    using assms(1) by (metis prod.inject)
  then show "b1 = b" "extends (bm_id b) c c1" "db_bot_trades (cn_work c1) = db_bot_trades (cn_work c)"
    using ready_known [OF assms(2)] by (auto simp: extends_iff)
qed

lemma finish_run_done:
  assumes "finish_run now (Inr ()) (c, b) = ((c', b'), Inr ())" and "ready (bm_id b) c"
  shows "b' = b" and "extends (bm_id b) c c'" and "db_bot_trades (cn_committed c') = db_bot_trades (cn_work c)"
proof -
  from run_finish [OF assms(2), of now] obtain e where
      "c' = committed (add_event e) (committed (set_bot (bm_id b) (set_status now ''stopped'')) c)" and "b' = b"
    using assms(1) by (metis prod.inject)
  then show "b' = b" "extends (bm_id b) c c'" "db_bot_trades (cn_committed c') = db_bot_trades (cn_work c)"
    using ready_known [OF assms(2)] by (auto simp: extends_iff)
qed

text \<open>A run that ends with the status \<open>stopped\<close> is one whose feed ended without an exception.\<close>

lemma stopped_run:
  assumes "finish_run now r (c, b) = ((c', b'), Inr ())"
    and "map_option bo_status (map_of (db_bots (cn_committed c')) (bm_id b')) = Some ''stopped''"
  shows "r = Inr ()"
proof (cases r)
  case (Inl e)
  with assms(1) have trip: "e = CircuitBreakerTripped" by (cases e) (auto simp: finish_run_def st_simps split: prod.splits sum.splits)
  have "cn_status c \<noteq> Aborted"
    using assms(1) aborted_refused(2) [of c now "bm_id b"] by (auto simp: Inl trip finish_run_def st_simps)
  with assms show ?thesis
    by (auto simp: Inl trip finish_run_def st_simps update_status_def event_def record_event_def bot_statuses_def Let_def
      event_types_def foreign_key_violation_def split: option.splits if_splits prod.splits sum.splits)
qed simp

end
