(* ===== verification/Paper_Sample.thy ===== *)
theory Paper_Sample
  imports Replay Execution_Properties
begin

text \<open>
  A concrete run of a paper bot: three hourly candles, on the second of which it enters and on the
  third of which the stop-loss closes the position.
\<close>

definition hours :: "int \<Rightarrow> int" where "hours n = n * 3600000"

definition paper_candle :: "int \<Rightarrow> fl \<Rightarrow> fl \<Rightarrow> fl \<Rightarrow> fl \<Rightarrow> raw_candle" where
  "paper_candle n op hi lo cl = \<lparr>rc_ts = hours n, rc_open = op, rc_high = hi, rc_low = lo, rc_close = cl, rc_volume = Fin 1\<rparr>"

definition paper_candles :: "raw_candle list" where
  "paper_candles = [paper_candle 1 (Fin 90) (Fin 96) (Fin 88) (Fin 95), paper_candle 2 (Fin 100) (Fin 104) (Fin 98) (Fin 100),
     paper_candle 3 (Fin 104) (Fin 106) (Fin 92) (Fin 94)]"

definition paper_bars :: "bar list" where "paper_bars = map bar_of paper_candles"

definition paper_feed :: feed where "paper_feed = \<lparr>fd_history = take 1 paper_bars, fd_max_history = 10\<rparr>"

definition paper_bot :: bot where
  "paper_bot = sample_bot\<lparr>bm_broker := PaperBroker \<lparr>tc_fee_pct = 0, tc_slippage_pct = 0\<rparr>,
     bm_costs := \<lparr>tc_fee_pct = 0, tc_slippage_pct = 0\<rparr>,
     bm_tracker := \<lparr>tk_risk_management = sample_risk, tk_position = None\<rparr>\<rparr>"

definition entered_bot :: bot where
  "entered_bot = book_entry \<lparr>fi_price = Fin 100, fi_quantity = Fin 8, fi_order_id = None\<rparr>
     (paper_bot\<lparr>bm_tracker := \<lparr>tk_risk_management = sample_risk, tk_position = Some \<lparr>op_entry_time = hours 2 * 1000000,
        op_entry_price = Fin 100, op_highest_since_entry = Fin 100\<rparr>\<rparr>,
      bm_risk := sample_middleware\<lparr>rk_last_order_at := Some 0\<rparr>\<rparr>)"

definition exited_bot :: bot where
  "exited_bot = after_close \<lparr>fi_price = Fin (375 / 4), fi_quantity = Fin 8, fi_order_id = None\<rparr> (set_position None entered_bot)"

section \<open>The backtest\<close>

lemma paper_bars_eq: "paper_bars = [
    \<lparr>bar_time = 3600000000000, bar_open = Fin 90, bar_high = Fin 96, bar_low = Fin 88, bar_close = Fin 95, bar_volume = Fin 1\<rparr>,
    \<lparr>bar_time = 7200000000000, bar_open = Fin 100, bar_high = Fin 104, bar_low = Fin 98, bar_close = Fin 100, bar_volume = Fin 1\<rparr>,
    \<lparr>bar_time = 10800000000000, bar_open = Fin 104, bar_high = Fin 106, bar_low = Fin 92, bar_close = Fin 94, bar_volume = Fin 1\<rparr>]"
  by (simp add: paper_bars_def paper_candles_def paper_candle_def bar_of_def hours_def)

definition paper_data :: frame where
  "paper_data = set_column (history_frame paper_bars) (''fast'', [Fin 95, Fin 100, Fin 94])"

lemma paper_columns: "fr_index paper_data = [3600000000000, 7200000000000, 10800000000000]"
  "set ohlcv_columns \<subseteq> dom (fr_columns (history_frame paper_bars))"
  by (simp_all add: paper_data_def history_frame_def paper_bars_eq ohlcv_columns_def)

lemma paper_indicators:
  "compute_indicators sample_lib (history_frame paper_bars) (sd_indicators sample_strategy) = Inr paper_data"
  by (simp add: compute_indicators_def add_indicator_def sample_strategy_def find_handler_def
      indicator_registry_def resolved_params_def resolve_param_def ema_compute_def get_param_def
      py_int_def get_column_def history_frame_def paper_bars_eq sample_lib_def paper_data_def)

lemma paper_series:
  "evaluate_condition sample_lib (sd_entry_conditions sample_strategy) paper_data = Inr [False, True, False]"
  "exit_series sample_lib (sd_exit_conditions sample_strategy) paper_data = Inr [False, False, False]"
  by (simp_all add: sample_strategy_def resolve_operand_def get_column_def paper_data_def
      history_frame_def paper_bars_eq sample_constants const_series_def apply_op_def exit_series_def numeral_eq_Suc)

lemma paper_rows: "iterrows paper_data = [
    \<lparr>cd_time = 3600000000000, cd_open = Fin 90, cd_high = Fin 96, cd_low = Fin 88, cd_close = Fin 95\<rparr>,
    \<lparr>cd_time = 7200000000000, cd_open = Fin 100, cd_high = Fin 104, cd_low = Fin 98, cd_close = Fin 100\<rparr>,
    \<lparr>cd_time = 10800000000000, cd_open = Fin 104, cd_high = Fin 106, cd_low = Fin 92, cd_close = Fin 94\<rparr>]"
  by (simp add: iterrows_def row_at_def cell_def paper_data_def history_frame_def paper_bars_eq upt_rec)

definition paper_trade :: trade where
  "paper_trade = \<lparr>tr_entry_time = 7200000000000, tr_entry_price = Fin 100, tr_exit_time = 10800000000000,
     tr_exit_price = Fin (375 / 4), tr_exit_reason = StopLoss, tr_pnl_pct = Fin (- (1 / 16))\<rparr>"

lemma paper_reads:
  "distinct [t1, t2, t3] \<Longrightarrow> loc_bool [t1, t2, t3] [a, b, c] t1 = Inr a \<and> loc_bool [t1, t2, t3] [a, b, c] t2 = Inr b \<and>
     loc_bool [t1, t2, t3] [a, b, c] t3 = Inr c"
  by (auto simp: loc_bool_def rows_at_def upt_rec)

lemma paper_backtest: "run_strategy sample_lib sample_strategy (history_frame paper_bars) = Inr [paper_trade]"
proof -
  have risk: "sd_risk_management sample_strategy = sample_risk" by (simp add: sample_strategy_def)
  have none: "filter (\<lambda>c. fr_columns (history_frame paper_bars) c = None) ohlcv_columns = []"
    using paper_columns(2) by (auto simp: filter_empty_conv)
  have loop: "run_loop sample_risk (loc_bool (fr_index paper_data) [False, True, False])
      (loc_bool (fr_index paper_data) [False, False, False]) (iterrows paper_data) = Inr \<lparr>st_in_position = False,
        st_entry_price = None, st_entry_time = None, st_highest = None, st_trades = [paper_trade]\<rparr>"
    by (simp add: run_loop_def paper_rows paper_columns run_step_def start_state_def paper_reads Let_def
        exit_decision_def sample_risk_def sample_arith close_trade_def paper_trade_def
        del: one_minus_float mult_num_float)
  show ?thesis by (simp add: run_strategy_def sample_valid paper_indicators paper_series none risk loop)
qed

lemma paper_signal:
  assumes "i < 3"
  shows "latest_signal sample_lib sample_strategy (history_frame (take (Suc i) paper_bars)) =
    Inr (row_snapshot (iterrows paper_data ! i) ([False, True, False] ! i) ([False, False, False] ! i))"
proof -
  have df: "frame_ok (history_frame paper_bars)" "distinct (fr_index (history_frame paper_bars))"
      "length (fr_index (history_frame paper_bars)) = 3"
    by (simp_all add: history_frame_ok history_frame_index paper_bars_eq)
  have take: "frame_take n (history_frame bars) = history_frame (take n bars)" for n bars
    by (auto simp: frame_take_def history_frame_def take_map fun_eq_iff)
  have row: "row_at paper_data i = iterrows paper_data ! i" using assms by (simp add: paper_columns)
  from latest_signal_prefix [OF sample_lib_causal df(1,2) paper_columns(2) paper_indicators paper_series, of i] assms df(3)
  show ?thesis by (simp only: take row)
qed

section \<open>The calls of the handler\<close>

lemma paper_bot_simps [simp]:
  "bm_id paper_bot = ''bot_1''" "bm_definition paper_bot = sample_strategy" "bm_equity paper_bot = Fin 800"
  "bm_broker paper_bot = PaperBroker \<lparr>tc_fee_pct = 0, tc_slippage_pct = 0\<rparr>" "bm_costs paper_bot = \<lparr>tc_fee_pct = 0, tc_slippage_pct = 0\<rparr>"
  "bm_tracker paper_bot = \<lparr>tk_risk_management = sample_risk, tk_position = None\<rparr>" "bm_risk paper_bot = sample_middleware"
  by (simp_all add: paper_bot_def sample_bot_def)

lemma paper_entry:
  assumes "ready ''bot_1'' c"
  shows "\<exists>e. be_event_type e = ''entry'' \<and> on_candle_close sample_lib (\<lambda>_. sample_env) (take 2 paper_bars) (c, paper_bot) =
    ((committed (set_state ''bot_1'' (saved_row 7 (take 2 paper_bars) entered_bot)) (committed (add_event e) c), entered_bot), Inr ())"
proof -
  let ?h = "take 2 paper_bars"
  let ?sg = "\<lparr>sg_timestamp = 7200000000000, sg_open = Fin 100, sg_high = Fin 104, sg_low = Fin 98, sg_close = Fin 100,
      sg_entry_signal = True, sg_exit_signal = False\<rparr>"
  have s: "latest_signal sample_lib sample_strategy (history_frame ?h) = Inr ?sg"
    using paper_signal [of 1] by (simp add: numeral_2_eq_2 paper_rows row_snapshot_def)
  let ?b = "paper_bot\<lparr>bm_tracker := \<lparr>tk_risk_management = sample_risk, tk_position = Some \<lparr>op_entry_time = 7200000000000,
        op_entry_price = Fin 100, op_highest_since_entry = Fin 100\<rparr>\<rparr>\<rparr>"
  have q: "py_div (Fin 800 * (1 - 0)) (Fin 100) = Inr (Fin 8)" by (simp add: fl_eval)
  have o: "check_order (Fin 8) (Fin 100) (Fin 800) (Some (Fin 100)) (Some 0) sample_middleware =
      (sample_middleware\<lparr>rk_last_order_at := Some 0\<rparr>, Inr ())"
    by (simp add: order_checks_exact [THEN conjunct1] sample_middleware_def sample_limits_def fl_eval)
  have f: "open_long (PaperBroker \<lparr>tc_fee_pct = 0, tc_slippage_pct = 0\<rparr>) r (Fin 800) 0 (Fin 100) =
      Inr \<lparr>fi_price = Fin 100, fi_quantity = Fin 8, fi_order_id = None\<rparr>" for r
    by (simp add: broker_defs entry_fill_price_def Let_def fl_eval)
  have ent: "book_entry \<lparr>fi_price = Fin 100, fi_quantity = Fin 8, fi_order_id = None\<rparr>
      (?b\<lparr>bm_risk := sample_middleware\<lparr>rk_last_order_at := Some 0\<rparr>\<rparr>) = entered_bot"
    by (simp add: entered_bot_def hours_def)
  have id: "bm_id entered_bot = ''bot_1''" by (simp add: entered_bot_def)
  have ev: "event now ''entry'' m d (c, entered_bot) = ((committed (add_event
      \<lparr>be_bot_id = ''bot_1'', be_event_type = ''entry'', be_message = m, be_data = map_option json_safe d,
       be_created_at = now\<rparr>) c, entered_bot), Inr ())" for now m d
    using run_event [of entered_bot c "''entry''"] assms by (simp add: id event_types_def)
  have env: "ce_monotonic sample_env = 0" "ce_now sample_env = 7" by (simp_all add: sample_env_def)
  have enter: "\<exists>e. be_event_type e = ''entry'' \<and> execute_entry sample_env ?sg (c, ?b) = ((committed (add_event e) c, entered_bot), Inr ())"
    by (simp add: execute_entry_def st_simps q o f ent ev env del: json_safe.simps) (rule exI, rule conjI [rotated], rule refl, simp)
  then obtain e where e: "be_event_type e = ''entry''" "execute_entry sample_env ?sg (c, ?b) = ((committed (add_event e) c, entered_bot), Inr ())"
    by blast
  have "ready (bm_id entered_bot) (committed (add_event e) c)" using ready_known [OF assms] by (simp add: id)
  note save = run_save_state [OF this, of 7 ?h, unfolded id]
  have p: "process \<lparr>tk_risk_management = sample_risk, tk_position = None\<rparr> ?sg = Inr (\<lparr>tk_risk_management = sample_risk, tk_position = Some
      \<lparr>op_entry_time = 7200000000000, op_entry_price = Fin 100, op_highest_since_entry = Fin 100\<rparr>\<rparr>, Some (Enter (Fin 100)))"
    by (simp add: process_def)
  show ?thesis
    by (rule exI [of _ e], rule conjI [OF e(1)])
      (simp add: on_candle_close_def st_simps Let_def s hard_stop_def follow_tracker_def p e(2) save env)
qed

lemma entered_bot_simps [simp]:
  "bm_id entered_bot = ''bot_1''" "bm_definition entered_bot = sample_strategy" "bm_equity entered_bot = Fin 800"
  "bm_broker entered_bot = PaperBroker \<lparr>tc_fee_pct = 0, tc_slippage_pct = 0\<rparr>"
  "bm_costs entered_bot = \<lparr>tc_fee_pct = 0, tc_slippage_pct = 0\<rparr>" "bm_current_quantity entered_bot = Fin 8"
  "bm_equity_at_entry entered_bot = Fin 800" "bm_risk entered_bot = sample_middleware\<lparr>rk_last_order_at := Some 0\<rparr>"
  "bm_tracker entered_bot = \<lparr>tk_risk_management = sample_risk, tk_position = Some \<lparr>op_entry_time = 7200000000000,
     op_entry_price = Fin 100, op_highest_since_entry = Fin 100\<rparr>\<rparr>"
  by (simp_all add: entered_bot_def book_entry_def set_position_def paper_bot_def sample_bot_def hours_def fl_eval)

definition paper_row :: bot_trade where
  "paper_row = closing_row (set_position None entered_bot) \<lparr>op_entry_time = 7200000000000, op_entry_price = Fin 100,
     op_highest_since_entry = Fin 100\<rparr> (reason_name StopLoss) 10800000000000
     \<lparr>fi_price = Fin (375 / 4), fi_quantity = Fin 8, fi_order_id = None\<rparr>"

lemma paper_exit:
  assumes "ready ''bot_1'' c" and "db_bot_trades (cn_work c) = []"
  shows "\<exists>e. be_event_type e = ''exit'' \<and> on_candle_close sample_lib (\<lambda>_. sample_env) (take 3 paper_bars) (c, entered_bot) =
    ((committed (set_state ''bot_1'' (saved_row 7 (take 3 paper_bars) exited_bot)) (committed (add_event e)
      (committed (add_trade (new_id ''bottrade'' ''0f'') paper_row) c)), exited_bot), Inr ())"
proof -
  let ?h = "take 3 paper_bars" and ?p = "\<lparr>op_entry_time = 7200000000000, op_entry_price = Fin 100, op_highest_since_entry = Fin 100\<rparr>"
  let ?sg = "\<lparr>sg_timestamp = 10800000000000, sg_open = Fin 104, sg_high = Fin 106, sg_low = Fin 92, sg_close = Fin 94,
      sg_entry_signal = False, sg_exit_signal = False\<rparr>"
  let ?t = "\<lparr>tk_risk_management = sample_risk, tk_position = None\<rparr>"
  let ?b = "entered_bot\<lparr>bm_tracker := ?t\<rparr>" and ?f = "\<lparr>fi_price = Fin (375 / 4), fi_quantity = Fin 8, fi_order_id = None\<rparr>"
  have b: "?b = set_position None entered_bot" by (simp add: set_position_def)
  have s: "latest_signal sample_lib sample_strategy (history_frame ?h) = Inr ?sg"
    using paper_signal [of 2] by (simp add: numeral_3_eq_3 numeral_2_eq_2 paper_rows row_snapshot_def)
  have risk: "sd_risk_management sample_strategy = sample_risk" by (simp add: sample_strategy_def)
  have stop: "hard_stop ?sg entered_bot = Inr False"
    by (simp add: hard_stop_def check_hard_stop_loss_def risk sample_risk_def sample_arith del: one_minus_float mult_num_float)
  have p: "process \<lparr>tk_risk_management = sample_risk, tk_position = Some ?p\<rparr> ?sg = Inr (?t, Some (Exit (Fin (375 / 4)) StopLoss))"
    by (simp add: process_def sample_risk_def sample_arith close_position_def Let_def del: one_minus_float mult_num_float)
  have cl: "close_long (PaperBroker \<lparr>tc_fee_pct = 0, tc_slippage_pct = 0\<rparr>) r (Fin 8) (Fin (375 / 4)) = Inr ?f" for r
    by (simp add: broker_defs exit_fill_price_def fl_eval)
  have up: "snd (update_equity (bm_equity (after_close ?f ?b)) (bm_risk ?b)) = Inr ()"
    by (simp add: after_close_def Let_def sample_middleware_def sample_limits_def update_equity_def st_simps py_div_def fl_eval)
  obtain s' r where run: "close_position_bot sample_env ?p (Fin (375 / 4)) (reason_name StopLoss) 10800000000000 (c, ?b) = (s', r)"
    by (metis surj_pair)
  have rb: "ready (bm_id ?b) c" using assms(1) by simp
  obtain e where e: "be_event_type e = ''exit''" "s' = (committed (add_event e) (committed (add_trade (new_id ''bottrade'' ''0f'') paper_row) c), exited_bot)"
      "r = Inr ()"
    using run rb
  proof (cases rule: close_cases)
    case 2
    then show thesis by (simp add: zero_fl_def)
  next
    case (4 f e)
    then have "f = ?f" by (simp add: cl)
    with 4 up show thesis by (intro that [of e]) (simp_all add: paper_row_def exited_bot_def b sample_env_def)
  qed (simp_all add: cl assms(2))
  have id: "bm_id exited_bot = ''bot_1''" by (simp add: exited_bot_def after_close_def Let_def)
  have "ready (bm_id exited_bot) (committed (add_event e) (committed (add_trade (new_id ''bottrade'' ''0f'') paper_row) c))"
    using ready_known [OF assms(1)] by (simp add: id)
  note save = run_save_state [OF this, of 7 ?h, unfolded id]
  have env: "ce_now sample_env = 7" by (simp add: sample_env_def)
  show ?thesis
    using run e by (intro exI [of _ e] conjI [OF e(1)])
      (simp add: on_candle_close_def st_simps Let_def s stop follow_tracker_def p save env)
qed

section \<open>The run\<close>

definition paper_result :: "((feed \<times> bot_state_of_run) \<times> unit res) option" where
  "paper_result = run_bot sample_lib (\<lambda>_. sample_env) (\<lambda>_. 0) (hours 1) [WebsocketMessage (tl paper_candles) (hours 4)] 0 9
     (paper_feed, (fresh_connection sample_database, paper_bot))"

lemma paper_appends:
  "append_candle paper_feed (paper_candles ! 1) = (paper_feed\<lparr>fd_history := take 2 paper_bars\<rparr>, Some (take 2 paper_bars))"
  "append_candle (paper_feed\<lparr>fd_history := take 2 paper_bars\<rparr>) (paper_candles ! 2) =
     (paper_feed\<lparr>fd_history := paper_bars\<rparr>, Some (take 3 paper_bars))"
  by (simp_all add: append_candle_def paper_feed_def paper_bars_def paper_candles_def paper_candle_def bar_of_def hours_def
    Let_def last_n_def)

lemma paper_feed_run:
  assumes "on_candle_close sample_lib (\<lambda>_. sample_env) (take 2 paper_bars) s1 = (s2, Inr ())"
    and "on_candle_close sample_lib (\<lambda>_. sample_env) (take 3 paper_bars) s2 = (s3, Inr ())"
  shows "feed_run (on_candle_close sample_lib (\<lambda>_. sample_env)) (\<lambda>_. 0) (hours 1) [WebsocketMessage (tl paper_candles) (hours 4)]
    (paper_feed, s1) = Some ((paper_feed\<lparr>fd_history := paper_bars\<rparr>, s3), Inr ())"
proof -
  have tl: "tl paper_candles = [paper_candles ! 1, paper_candles ! 2]" by (simp add: paper_candles_def)
  have "is_closed_candle (paper_candles ! 1) (hours 1) (hours 4)" "is_closed_candle (paper_candles ! 2) (hours 1) (hours 4)"
    by (simp_all add: paper_candles_def paper_candle_def is_closed_candle_def hours_def)
  with assms paper_appends show ?thesis
    by (simp add: tl feed_step_def websocket_round_def st_simps read_candle_def)
qed

lemma paper_run:
  "\<exists>c'. paper_result = Some ((paper_feed\<lparr>fd_history := paper_bars\<rparr>, (c', exited_bot)), Inr ()) \<and>
     map be_event_type (db_bot_events (cn_work c')) = [''started'', ''entry'', ''exit'', ''stopped''] \<and>
     map_option bo_status (map_of (db_bots (cn_committed c')) ''bot_1'') = Some ''stopped''"
proof -
  let ?c0 = "fresh_connection sample_database" and ?h1 = "take 1 paper_bars"
  have empty: "db_bot_trades (cn_work ?c0) = []" "db_bot_events (cn_work ?c0) = []" "db_bots (cn_work ?c0) = [(''bot_1'', sample_record)]"
    by (simp_all add: fresh_connection_def sample_database_def empty_database_def)
  from run_start [of paper_bot ?c0 0 ?h1] sample_ready obtain e1 where e1: "be_event_type e1 = ''started''"
      "start_run 0 ?h1 (?c0, paper_bot) = ((committed (set_state ''bot_1'' (saved_row 0 ?h1 paper_bot))
        (committed (add_event e1) (committed (set_bot ''bot_1'' (set_status 0 ''running'')) ?c0)), paper_bot), Inr ())"
    by auto
  let ?c1 = "committed (set_state ''bot_1'' (saved_row 0 ?h1 paper_bot))
        (committed (add_event e1) (committed (set_bot ''bot_1'' (set_status 0 ''running'')) ?c0))"
  have r1: "ready ''bot_1'' ?c1" using ready_known [OF sample_ready] by simp
  obtain e2 where e2: "be_event_type e2 = ''entry''" "on_candle_close sample_lib (\<lambda>_. sample_env) (take 2 paper_bars) (?c1, paper_bot) =
      ((committed (set_state ''bot_1'' (saved_row 7 (take 2 paper_bars) entered_bot)) (committed (add_event e2) ?c1), entered_bot), Inr ())"
    using paper_entry [OF r1] by blast
  let ?c2 = "committed (set_state ''bot_1'' (saved_row 7 (take 2 paper_bars) entered_bot)) (committed (add_event e2) ?c1)"
  have r2: "ready ''bot_1'' ?c2" using ready_known [OF r1] by simp
  have t2: "db_bot_trades (cn_work ?c2) = []" by (simp add: empty)
  obtain e3 where e3: "be_event_type e3 = ''exit''" "on_candle_close sample_lib (\<lambda>_. sample_env) (take 3 paper_bars) (?c2, entered_bot) =
      ((committed (set_state ''bot_1'' (saved_row 7 (take 3 paper_bars) exited_bot)) (committed (add_event e3)
        (committed (add_trade (new_id ''bottrade'' ''0f'') paper_row) ?c2)), exited_bot), Inr ())"
    using paper_exit [OF r2 t2] by blast
  let ?c3 = "committed (set_state ''bot_1'' (saved_row 7 (take 3 paper_bars) exited_bot)) (committed (add_event e3)
        (committed (add_trade (new_id ''bottrade'' ''0f'') paper_row) ?c2))"
  have id: "bm_id exited_bot = ''bot_1''" by (simp add: exited_bot_def after_close_def Let_def)
  have r3: "ready (bm_id exited_bot) ?c3" using ready_known [OF r2] by (simp add: id)
  obtain e4 where e4: "be_event_type e4 = ''stopped''" "finish_run 9 (Inr ()) (?c3, exited_bot) =
      ((committed (add_event e4) (committed (set_bot ''bot_1'' (set_status 9 ''stopped'')) ?c3), exited_bot), Inr ())"
    using run_finish [OF r3, of 9] by (auto simp: id)
  let ?c4 = "committed (add_event e4) (committed (set_bot ''bot_1'' (set_status 9 ''stopped'')) ?c3)"
  note fed = paper_feed_run [OF e2(2) e3(2)]
  have "paper_result = Some ((paper_feed\<lparr>fd_history := paper_bars\<rparr>, (?c4, exited_bot)), Inr ())"
    using e1(2) fed e4(2) by (simp add: paper_result_def run_bot_def paper_feed_def)
  moreover have "map be_event_type (db_bot_events (cn_work ?c4)) = [''started'', ''entry'', ''exit'', ''stopped'']"
    by (simp add: empty e1(1) e2(1) e3(1) e4(1))
  moreover have "map_option bo_status (map_of (db_bots (cn_committed ?c4)) ''bot_1'') = Some ''stopped''"
    by (simp add: empty set_bot_def put_def set_status_def)
  ultimately show ?thesis by (intro exI [of _ ?c4] conjI)
qed

lemma paper_quiet:
  assumes "map be_event_type (db_bot_events (cn_work c')) = [''started'', ''entry'', ''exit'', ''stopped'']"
  shows "\<not> interfered (new_events (fresh_connection sample_database) c')"
proof -
  have "db_bot_events (cn_work (fresh_connection sample_database)) = []"
    by (simp add: fresh_connection_def sample_database_def empty_database_def)
  with assms have "be_event_type ` set (new_events (fresh_connection sample_database) c') = {''started'', ''entry'', ''exit'', ''stopped''}"
    by (simp add: new_events_def flip: set_map)
  then show ?thesis by (simp add: interfered_types)
qed

lemma paper_signals:
  assumes "i < length (fd_history (paper_feed\<lparr>fd_history := paper_bars\<rparr>))"
    and "latest_signal sample_lib (bm_definition paper_bot)
      (history_frame (take (Suc i) (fd_history (paper_feed\<lparr>fd_history := paper_bars\<rparr>)))) = Inr sg"
  shows "is_double (sg_close sg) \<and> (i < length (fd_history paper_feed) \<longrightarrow> \<not> sg_entry_signal sg)"
proof -
  from assms(1) have i: "i < 3" by (simp add: paper_bars_eq)
  then have "i = 0 \<or> i = 1 \<or> i = 2" by arith
  with assms(2) paper_signal [OF i] show ?thesis
    by (auto simp: paper_rows row_snapshot_def paper_feed_def paper_bars_eq is_double_Fin round_eval)
qed

end
