(* ===== verification/Paper_Properties.thy ===== *)
theory Paper_Properties
  imports Replay Paper_Sample
begin

text \<open>
  A whole run of a paper bot and the backtest of the candles it has seen. The two are connected by
  \<open>Replay\<close>, which makes the run a sequence of calls of the handler, and \<open>Paper_Bot\<close>, in which every
  call keeps the bot and the backtest together.
\<close>

lemma frame_take_history: "frame_take n (history_frame bars) = history_frame (take n bars)"
  by (auto simp: frame_take_def history_frame_def take_map fun_eq_iff)

lemma sorted_times_distinct: "sorted_wrt (<) (xs :: int list) \<Longrightarrow> distinct xs"
  by (induction xs) auto

lemma backtest_signals:
  assumes lib: "causal_lib L" and feed: "feed_ok f" and run: "run_strategy L d (history_frame (fd_history f)) = Inr ts"
    and double: "\<And>i sg. i < length (fd_history f) \<Longrightarrow>
      latest_signal L d (history_frame (take (Suc i) (fd_history f))) = Inr sg \<Longrightarrow> is_double (sg_close sg)"
  obtains row enf exf s where
    "same_signals L d (\<lambda>i. take (Suc i) (fd_history f)) row enf exf (length (fd_history f))"
    and "foldE (run_step (sd_risk_management d) enf exf) start_state (map row [0..<length (fd_history f)]) = Inr s"
    and "ts = st_trades s"
proof -
  let ?bars = "fd_history f" and ?df = "history_frame (fd_history f)"
  have df: "frame_ok ?df" "distinct (fr_index ?df)" "length (fr_index ?df) = length ?bars"
    using feed by (simp_all add: history_frame_ok history_frame_index feed_ok_def sorted_times_distinct)
  from run obtain data en ex s where cols: "set ohlcv_columns \<subseteq> dom (fr_columns ?df)"
      and data: "compute_indicators L ?df (sd_indicators d) = Inr data"
      and en: "evaluate_condition L (sd_entry_conditions d) data = Inr en"
      and ex: "exit_series L (sd_exit_conditions d) data = Inr ex"
      and loop: "run_loop (sd_risk_management d) (loc_bool (fr_index data) en)
        (loc_bool (fr_index data) ex) (iterrows data) = Inr s"
      and ts: "ts = st_trades s"
    by (rule run_strategy_Inr)
  have idx: "fr_index data = fr_index ?df" using compute_indicators_causal [OF lib df(1) data] by simp
  have signal: "latest_signal L d (history_frame (take (Suc i) ?bars)) = Inr (row_snapshot (row_at data i) (en ! i) (ex ! i))"
    if "i < length ?bars" for i
    using latest_signal_prefix [OF lib df(1,2) cols data en ex, of i] that df(3) by (simp add: frame_take_history)
  have close: "is_double (cell data ''close'' i)" if "i < length ?bars" for i
    using double [OF that signal [OF that]] by (simp add: row_snapshot_def)
  show thesis
  proof (rule that [of "row_at data" "loc_bool (fr_index data) en" "loc_bool (fr_index data) ex" s, OF _ _ ts])
    show "same_signals L d (\<lambda>i. take (Suc i) ?bars) (row_at data) (loc_bool (fr_index data) en)
        (loc_bool (fr_index data) ex) (length ?bars)"
      unfolding same_signals_def using signal close df idx by (auto simp: loc_bool_distinct)
    show "foldE (run_step (sd_risk_management d) (loc_bool (fr_index data) en) (loc_bool (fr_index data) ex))
        start_state (map (row_at data) [0..<length ?bars]) = Inr s"
      using loop idx df(3) by (simp add: run_loop_def iterrows_def)
  qed
qed

lemma idle_seed:
  assumes "same_signals L d hist row enf exf n" and "n0 \<le> n"
    and "\<And>i sg. i < n0 \<Longrightarrow> latest_signal L d (history_frame (hist i)) = Inr sg \<Longrightarrow> \<not> sg_entry_signal sg"
  shows "\<forall>i < n0. enf (cd_time (row i)) = Inr False"
proof (intro allI impI)
  fix i assume i: "i < n0"
  with assms(1,2) obtain be e where "enf (cd_time (row i)) = Inr be"
      "latest_signal L d (history_frame (hist i)) = Inr (row_snapshot (row i) be e)"
    unfolding same_signals_def by (meson less_le_trans)
  with assms(3) [OF i] show "enf (cd_time (row i)) = Inr False" by (auto simp: row_snapshot_def)
qed

lemma follows_accounts:
  assumes "bot_follows d costs e0 old s (c, b)"
  shows "\<exists>rs rows. apply_costs_to_trades (st_trades s) e0 costs = Inr rs \<and> map snd (db_bot_trades (cn_work c)) = old @ rows \<and>
    list_all2 (booked (bm_id b)) rs rows \<and> (tk_position (bm_tracker b) = None \<longrightarrow> bm_equity b = capital e0 rs)"
  using assms by (cases "st_in_position s") (auto simp: bot_follows_def accounts_def abs_position_def locals_ok_def)

lemma run_bot_stopped:
  assumes "run_bot L env seconds tf rounds started ended (f, (c, b)) = Some ((f', (c', b')), Inr ())"
    and "ready (bm_id b) c"
    and "map_option bo_status (map_of (db_bots (cn_committed c')) (bm_id b')) = Some ''stopped''"
  obtains c1 c2 where "extends (bm_id b) c c1" and "db_bot_trades (cn_work c1) = db_bot_trades (cn_work c)"
    and "feed_run (on_candle_close L env) seconds tf rounds (f, (c1, b)) = Some ((f', (c2, b')), Inr ())"
    and "finish_run ended (Inr ()) (c2, b') = ((c', b'), Inr ())"
proof -
  obtain c1 b1 where start: "start_run started (fd_history f) (c, b) = ((c1, b1), Inr ())"
      and rest: "map_option (\<lambda>((f, s'), r). case finish_run ended r s' of (s'', out) \<Rightarrow> ((f, s''), out))
            (feed_run (on_candle_close L env) seconds tf rounds (f, (c1, b1))) = Some ((f', (c', b')), Inr ())"
    using assms(1) by (cases "start_run started (fd_history f) (c, b)") (auto simp: run_bot_def split: sum.splits)
  note s = start_run_done [OF start assms(2)]
  from rest obtain f2 c2 b2 r where run: "feed_run (on_candle_close L env) seconds tf rounds (f, (c1, b1)) = Some ((f2, (c2, b2)), r)"
      and out: "(case finish_run ended r (c2, b2) of (s'', out) \<Rightarrow> ((f2, s''), out)) = ((f', (c', b')), Inr ())"
    by (auto simp del: split_paired_Ex)
  from out have finish: "finish_run ended r (c2, b2) = ((c', b'), Inr ())" "f2 = f'"
    by (cases "finish_run ended r (c2, b2)"; simp)+
  have r: "r = Inr ()" by (rule stopped_run [OF finish(1) assms(3)])
  from finish r have "b' = b2" by (auto simp: finish_run_def event_def st_simps split: prod.splits sum.splits)
  with s run finish r that show thesis by simp
qed

text \<open>C2: What a paper bot has booked when its process is stopped is what the backtest says. A bot with the paper broker and no
  slippage runs, without a position at first, over whatever messages and polls the feed reads until it is stopped. Then the
  rows it has appended to the trade table are, one for one, the trades of one backtest over
  the candles in its history, each with the prices, quantity and profit that the backtest's cost model computes from the capital
  before it; and a bot that holds no position has the final capital of that backtest. The
  conditions are those under which the two can differ: an indicator that looks ahead, an entry
  signal among the seed candles, which the bot does not trade, a history cut at its limit, a hard stop and a rejected
  order. With slippage they differ too, since the bot measures its exits from the filled price and
  the backtest from the close.\<close>

theorem paper_run_books_the_backtest:
  assumes lib: "causal_lib L"
    and paper: "bm_broker b = PaperBroker (bm_costs b)" "tc_slippage_pct (bm_costs b) = 0"
    and begins: "ready (bm_id b) c" "feed_ok f"
      "bm_tracker b = \<lparr>tk_risk_management = sd_risk_management (bm_definition b), tk_position = None\<rparr>"
    and run: "run_bot L env seconds tf rounds started ended (f, (c, b)) = Some ((f', (c', b')), Inr ())"
    and stopped: "map_option bo_status (map_of (db_bots (cn_committed c')) (bm_id b')) = Some ''stopped''"
    and room: "length (fd_history f') < fd_max_history f"
    and quiet: "\<not> interfered (new_events c c')"
    and signals: "\<And>i sg. i < length (fd_history f') \<Longrightarrow>
      latest_signal L (bm_definition b) (history_frame (take (Suc i) (fd_history f'))) = Inr sg \<Longrightarrow>
      is_double (sg_close sg) \<and> (i < length (fd_history f) \<longrightarrow> \<not> sg_entry_signal sg)"
    and backtest: "run_strategy L (bm_definition b) (history_frame (fd_history f')) = Inr ts"
  shows "\<exists>rs rows. apply_costs_to_trades ts (bm_equity b) (bm_costs b) = Inr rs \<and>
    map snd (db_bot_trades (cn_committed c')) = map snd (db_bot_trades (cn_work c)) @ rows \<and>
    list_all2 (booked (bm_id b)) rs rows \<and>
    (tk_position (bm_tracker b') = None \<longrightarrow> bm_equity b' = capital (bm_equity b) rs)"
proof -
  define d n0 where d_def: "d = bm_definition b" and n0_def: "n0 = length (fd_history f)"
  note here = signals [folded d_def n0_def] backtest [folded d_def]
  let ?bars = "fd_history f'"
  obtain c1 c2 where start: "extends (bm_id b) c c1" "db_bot_trades (cn_work c1) = db_bot_trades (cn_work c)"
      and fed: "feed_run (on_candle_close L env) seconds tf rounds (f, (c1, b)) = Some ((f', (c2, b')), Inr ())"
      and finish: "finish_run ended (Inr ()) (c2, b') = ((c', b'), Inr ())"
    by (rule run_bot_stopped [OF run begins(1) stopped])
  from full_replay [OF fed begins(2) room] have feed: "feed_ok f'" "n0 \<le> length ?bars"
      and calls: "forS (\<lambda>i. on_candle_close L env (take (Suc i) ?bars)) [n0..<length ?bars] (c1, b) = ((c2, b'), Inr ())"
    by (auto simp: n0_def)
  obtain row enf exf s where same: "same_signals L d (\<lambda>i. take (Suc i) ?bars) row enf exf (length ?bars)"
      and loop: "foldE (run_step (sd_risk_management d) enf exf) start_state (map row [0..<length ?bars]) = Inr s"
      and ts: "ts = st_trades s"
    by (rule backtest_signals [OF lib feed(1) here(2)]) (use here(1) in blast)
  have idle: "\<forall>i < n0. enf (cd_time (row i)) = Inr False"
    by (rule idle_seed [OF same feed(2)]) (use here(1) feed(2) in \<open>metis less_le_trans\<close>)
  have ready: "ready (bm_id b) c1" using start(1) by (simp add: extends_def)
  have follows: "bot_follows d (bm_costs b) (bm_equity b) (map snd (db_bot_trades (cn_work c))) start_state (c1, b)"
    using ready paper begins(3) start(2)
    by (simp add: bot_follows_def accounts_def start_state_def locals_ok_def abs_position_def capital_def d_def)
  from forS_extends [OF calls ready] have mid: "extends (bm_id b) c1 c2" "bm_id b' = bm_id b" by simp_all
  then have "ready (bm_id b') c2" by (simp add: extends_def)
  note last = finish_run_done [OF finish this]
  from start(1) mid have "extends (bm_id b) c c2" by (blast intro: extends_trans)
  with quiet last(2) mid(2) have "\<not> interfered (new_events c c2)" by (simp add: new_events_trans)
  with new_events_trans [OF start(1) mid(1)] have "\<not> interfered (new_events c1 c2)" by simp
  from candles_follow [OF same idle feed(2) paper(2) follows loop calls this]
  have end_state: "bot_follows d (bm_costs b) (bm_equity b) (map snd (db_bot_trades (cn_work c))) s (c2, b')" by simp
  from follows_accounts [OF this] last(3) mid(2) show ?thesis by (simp add: ts)
qed

theorem paper_run_books_the_backtest_witness:
  "\<exists>f c b row. paper_result = Some ((f, (c, b)), Inr ()) \<and> map snd (db_bot_trades (cn_committed c)) = [row] \<and>
     bx_entry_price row = Fin 100 \<and> bx_exit_price row = Fin (375 / 4) \<and> bx_exit_reason row = ''stop_loss'' \<and> bm_equity b = Fin 750"
proof -
  let ?c0 = "fresh_connection sample_database" and ?f = "paper_feed\<lparr>fd_history := paper_bars\<rparr>"
  obtain c' where run: "paper_result = Some ((?f, (c', exited_bot)), Inr ())"
      and events: "map be_event_type (db_bot_events (cn_work c')) = [''started'', ''entry'', ''exit'', ''stopped'']"
      and stopped: "map_option bo_status (map_of (db_bots (cn_committed c')) ''bot_1'') = Some ''stopped''"
    by (rule exE [OF paper_run], elim conjE, rule that)
  have feed: "feed_ok paper_feed" by (simp add: feed_ok_def paper_feed_def paper_bars_eq)
  note quiet = paper_quiet [OF events]
  have id: "bm_id exited_bot = ''bot_1''" "tk_position (bm_tracker exited_bot) = None"
    by (simp_all add: exited_bot_def after_close_def Let_def)
  have start: "ready (bm_id paper_bot) ?c0" "bm_tracker paper_bot = \<lparr>tk_risk_management = sd_risk_management (bm_definition paper_bot), tk_position = None\<rparr>"
      "bm_broker paper_bot = PaperBroker (bm_costs paper_bot)" "tc_slippage_pct (bm_costs paper_bot) = 0"
    using sample_ready by (simp_all add: sample_strategy_def)
  have ended: "map_option bo_status (map_of (db_bots (cn_committed c')) (bm_id exited_bot)) = Some ''stopped''"
    using stopped by (simp only: id)
  have room: "length (fd_history ?f) < fd_max_history paper_feed" by (simp add: paper_feed_def paper_bars_eq)
  have backtest: "run_strategy sample_lib (bm_definition paper_bot) (history_frame (fd_history ?f)) = Inr [paper_trade]"
    using paper_backtest by simp
  have old: "map snd (db_bot_trades (cn_work ?c0)) = []" by (simp add: fresh_connection_def sample_database_def empty_database_def)
  from paper_run_books_the_backtest [OF sample_lib_causal start(3,4,1) feed start(2) run [unfolded paper_result_def] ended room quiet paper_signals backtest]
  obtain rs where money: "apply_costs_to_trades [paper_trade] (Fin 800) \<lparr>tc_fee_pct = 0, tc_slippage_pct = 0\<rparr> = Inr rs"
      "list_all2 (booked ''bot_1'') rs (map snd (db_bot_trades (cn_committed c')))" "bm_equity exited_bot = capital (Fin 800) rs"
    unfolding old paper_bot_simps by (auto simp: id(2))
  obtain r where r: "cost_of_trade \<lparr>tc_fee_pct = 0, tc_slippage_pct = 0\<rparr> (Fin 800) paper_trade = Inr r" "cr_trade r = paper_trade"
      "cr_entry_fill_price r = Fin 100" "cr_exit_fill_price r = Fin (375 / 4)" "cr_equity_after r = Fin 750"
    by (simp add: cost_of_trade_def paper_trade_def entry_fill_price_def exit_fill_price_def Let_def fl_eval)
  with money(1) have rs: "rs = [r]" by simp
  with money(2) obtain row where row: "map snd (db_bot_trades (cn_committed c')) = [row]" "booked ''bot_1'' r row"
    by (auto simp: list_all2_Cons1)
  show ?thesis
    using run row r(3-5) money(3)
    by (intro exI [of _ ?f] exI [of _ c'] exI [of _ exited_bot] exI [of _ row])
      (simp add: booked_def r(2) paper_trade_def rs capital_def reason_name_def)
qed

end
