(* ===== verification/Spec2Isabelle.thy ===== *)
theory Spec2Isabelle
  imports Strategy_Properties Backtest_Properties Data_Properties Service_Properties Optimize_Properties Api_Properties
    System_Properties Deployment Scripts Paper_Properties
begin

text \<open>
  freqpanda: strategies written as data are backtested, optimized, and traded by bots, with an HTTP
  interface and queue workers over one PostgreSQL database. This development models the Python
  packages under \<^verbatim>\<open>src/\<close> and states what makes them correct.

  \<^bold>\<open>The parts and their theories.\<close>
  \<^item> Shared: \<open>Prelude\<close> (errors as values, the state monad \<open>stm\<close> that keeps the state when code raises, the
    collections \<open>preserve\<close> and \<open>avoid\<close>), \<open>Rounding\<close> and \<open>Pyfloat\<close> (binary64 with infinities and NaN, rounded to
    53 bits after every operation, Python numbers and their comparisons), \<open>Frames\<close> (pandas series and
    frames as lists), \<open>Json\<close> (values of \<^verbatim>\<open>jsonb\<close> columns), \<open>Database\<close> (a connection with the transaction rules of
    PostgreSQL, tables with a unique key as the locale \<open>keyed_table\<close>), \<open>Tables\<close> (the tables with their
    constraints and cascades).
  \<^item> \<^verbatim>\<open>freqpanda_strategy\<close>: \<open>Schema\<close> (\<^verbatim>\<open>schema.py\<close>), \<open>Indicators\<close> (\<^verbatim>\<open>indicators.py\<close>), \<open>Conditions\<close> (\<^verbatim>\<open>conditions.py\<close>),
    \<open>Validation\<close> (\<^verbatim>\<open>validation.py\<close>), \<open>Interpreter\<close> (\<^verbatim>\<open>interpreter.py\<close>), \<open>Loader\<close> (\<^verbatim>\<open>loader.py\<close>: a parsed value to a definition, with the
    field declarations of \<^verbatim>\<open>schema.py\<close>, and back).
  \<^item> \<^verbatim>\<open>freqpanda_backtest\<close>: \<open>Equity\<close> (\<^verbatim>\<open>costs.py\<close>, \<^verbatim>\<open>equity.py\<close>), \<open>Metrics\<close>, \<open>Backtest\<close> (\<^verbatim>\<open>backtest.py\<close>, \<^verbatim>\<open>result.py\<close>, \<^verbatim>\<open>batch.py\<close>),
    \<open>Walkforward\<close>.
  \<^item> \<^verbatim>\<open>freqpanda_data\<close>: \<open>Exchange\<close> (paging), \<open>Pipeline\<close> (\<^verbatim>\<open>db.py\<close> and the update of a pair in \<^verbatim>\<open>pipeline.py\<close>), \<open>Pipeline_Main\<close> (\<^verbatim>\<open>config.py\<close>,
    \<^verbatim>\<open>run_pipeline\<close> and \<^verbatim>\<open>scripts/run_pipeline.py\<close>).
  \<^item> \<^verbatim>\<open>freqpanda_execution\<close>: \<open>Live\<close> (\<^verbatim>\<open>live_interpreter.py\<close>), \<open>Risk\<close>, \<open>Broker\<close>, \<open>Feed\<close>, \<open>Exec_Repository\<close> (\<^verbatim>\<open>crypto.py\<close>,
    \<^verbatim>\<open>repository.py\<close>), \<open>Bot\<close> (\<^verbatim>\<open>bot.py\<close>, \<^verbatim>\<open>runner.py\<close>), \<open>Supervisor\<close> (a pass over a world that answers for the
    database), \<open>Supervision\<close> (the same pass over the database, \<^verbatim>\<open>supervisor.py\<close> with its repository calls).
  \<^item> \<^verbatim>\<open>freqpanda_optimize\<close>: \<open>SearchSpace\<close>, \<open>Scoring\<close> (\<^verbatim>\<open>scoring.py\<close>, \<^verbatim>\<open>evaluate.py\<close>), \<open>Generate\<close>, \<open>Optimize\<close>.
  \<^item> \<^verbatim>\<open>freqpanda_api\<close>: \<open>Api_Repository\<close> (\<^verbatim>\<open>repositories/\<close>), \<open>Api_Jobs\<close> (\<^verbatim>\<open>jobs/tasks.py\<close>), \<open>Api\<close> (\<^verbatim>\<open>schemas.py\<close>, \<^verbatim>\<open>auth.py\<close>,
    \<^verbatim>\<open>serializers.py\<close>, \<^verbatim>\<open>routers/\<close>), \<open>Api_App\<close> (\<^verbatim>\<open>main.py\<close>), \<open>Service\<close> (\<^verbatim>\<open>db.py\<close>, \<^verbatim>\<open>jobs/queue.py\<close>: a request with the settings and connection it opens).
  \<^item> Settings and scripts: \<open>Settings\<close> (both \<^verbatim>\<open>config.py\<close>, with the texts Python turns into numbers), \<open>Scripts\<close> (the example and the
    benchmarks under \<^verbatim>\<open>scripts/\<close>).
  \<^item> Composition: \<open>Job_System\<close> (requests, workers and bots as steps on one database), \<open>Requests\<close> and \<open>Invariants\<close> (what every
    request and every step keeps), with the invariants \<open>Tenants\<close> (who owns which row), \<open>Integrity\<close> (rows find the rows they name,
    stored strategies are valid) and \<open>Keys\<close>. \<open>Replay\<close> turns a run of the feed into a sequence of calls of its handler, \<open>Paper_Bot\<close> is
    the simulation of the backtest's loop by the handler of a paper bot with its database.

  \<^bold>\<open>How they interact.\<close> \<open>validate_definition\<close> guards \<open>run_strategy\<close>; \<open>backtest\<close> turns its trade log into capital, curve and
  metrics; \<open>optimize\<close> and \<open>evaluate_variants\<close> call \<open>backtest\<close>; a worker (\<open>run_backtest_job\<close>, \<open>run_optimization_job\<close>) reads a
  job and candles that \<open>run_pipeline\<close> stored, and stores a result; a bot feeds \<open>append_candle\<close>, \<open>latest_signal\<close>, the
  tracker, the risk checks and a broker; the supervisor makes the running processes match the table that
  the routes write. An exception is a value of \<open>pyerr\<close>, a statement or handler is a function from the state
  before to the state after beside its result, a loop that may not end is a partial function.

  \<^bold>\<open>What the lemmas show.\<close> \<open>Strategy_Properties\<close>: validation of any value, loading, row semantics of conditions, no look-ahead, validation exact, the trade log.
  \<open>Backtest_Properties\<close>: capital, curve, drawdown, windows. \<open>Data_Properties\<close>: paging, incremental update, a run of the script, the frame
  read back. \<open>Execution_Properties\<close>, \<open>Service_Properties\<close>: risk, fills, feed, resume, supervisor, credentials. \<open>Optimize_Properties\<close>:
  search space, ranking, best trial, generated definitions. \<open>Api_Properties\<close>: job outcomes, the invariants of every
  reachable state, keys, isolation of owners, round trips. \<open>Paper_Properties\<close>: a whole run of a paper bot books
  the trades of the backtest. \<open>System_Properties\<close>: requests, database and supervisor together.
  \<open>Deployment\<close>: missing configuration and an unreachable queue. This theory: the live tracker books the trades of the
  backtest. The theories \<open>Samples\<close>, \<open>Api_Samples\<close> and \<open>Paper_Sample\<close> hold the concrete inputs of the witnesses.

  \<^bold>\<open>Interfaces.\<close> The locales \<open>keyed_table\<close> (tables), \<open>causal_series\<close> (series without look-ahead), \<open>broker_contract\<close> (fills),
  \<open>rounding\<close> (what is used of the rounding to doubles), \<open>result_store\<close> (the two result tables) and the chain \<open>owner_invariant\<close>,
  \<open>request_invariant\<close>, \<open>system_invariant\<close>, linked by sublocales: a component states what each repository operation keeps and
  gets it for every route, every request and every reachable state. Each is interpreted on the model's own definitions,
  and the properties use the facts of the interpretations.

  \<^bold>\<open>Loops and bounds.\<close> There is no fuel. The window loop and the paging loop are \<open>partial_function (option)\<close>: the window loop
  is shown to return for a positive step and not to return for a step of zero, paging to return for an exchange
  whose pages advance; a run of the feed is a list of rounds and a run of the supervisor a list of passes. Timestamps
  are integers in nanoseconds with the range of 64 bits checked where pandas adds to them.

  \<^bold>\<open>Parameters.\<close> The indicator library, numpy's reductions, CCXT, Optuna, Fernet, SHA-256, the queue, random numbers, ids
  and clocks are arguments. What is assumed of them is a named hypothesis of the property that needs it: trailing
  windows (\<open>causal_lib\<close>), \<open>best_law\<close>, \<open>trial_in_bounds\<close>, decryption of what was encrypted.

  \<^bold>\<open>Not modelled.\<close> The parsers of HTTP, YAML and JSON themselves (the value they give is an argument, what Pydantic makes of the value of
  a definition is modelled), logging, signal handlers and the waiting for a process, the SQL migrations except for the
  constraints the code runs into, the texts of messages beyond their fixed part, what the scripts print, and the
  TypeScript front end. Concurrent
  transactions are interleaved commit by commit; what two overlapping transactions of PostgreSQL may see of
  each other is not modelled.
\<close>

section \<open>Backtest and live execution agree\<close>

text \<open>C1: Live execution does not drift from the backtest. Fed the candles of a frame one at a time,
  recomputing the latest signal from the history up to each of them, the live tracker books the
  trades that one run of the strategy over the whole frame books: the same entries and exits, at
  the same times and prices, for the same reasons. It holds for every library of trailing
  indicators and every index without repeated timestamps.\<close>

theorem live_matches_backtest:
  assumes lib: "causal_lib L" and df: "frame_ok df" "distinct (fr_index df)"
    and run: "run_strategy L d df = Inr ts"
  shows "live_run L d df = Inr (map as_live ts)"
proof -
  from run obtain data en ex s where cols: "set ohlcv_columns \<subseteq> dom (fr_columns df)"
      and data: "compute_indicators L df (sd_indicators d) = Inr data"
      and en: "evaluate_condition L (sd_entry_conditions d) data = Inr en"
      and ex: "exit_series L (sd_exit_conditions d) data = Inr ex"
      and loop: "run_loop (sd_risk_management d) (loc_bool (fr_index data) en)
        (loc_bool (fr_index data) ex) (iterrows data) = Inr s"
      and ts: "ts = st_trades s"
    by (rule run_strategy_Inr)
  have idx: "fr_index data = fr_index df" using compute_indicators_causal [OF lib df(1) data] by simp
  let ?n = "length (fr_index df)"
  let ?sig = "\<lambda>i. latest_signal L d (frame_take (Suc i) df)"
  have "foldE (live_step ?sig) (abs_live (sd_risk_management d) start_state) [0..<?n] =
      Inr (abs_live (sd_risk_management d) s) \<and> locals_ok s"
  proof (rule live_fold_simulates)
    show "foldE (run_step (sd_risk_management d) (loc_bool (fr_index data) en)
        (loc_bool (fr_index data) ex)) start_state (map (row_at data) [0..<?n]) = Inr s"
      using loop idx by (simp add: run_loop_def iterrows_def)
    show "i < ?n \<Longrightarrow> ?sig i = Inr (row_snapshot (row_at data i) (en ! i) (ex ! i))" for i
      by (rule latest_signal_prefix [OF lib df cols data en ex])
    show "i < ?n \<Longrightarrow> loc_bool (fr_index data) en (cd_time (row_at data i)) = Inr (en ! i) \<and>
        loc_bool (fr_index data) ex (cd_time (row_at data i)) = Inr (ex ! i)" for i
      using df(2) idx by (simp add: loc_bool_distinct)
  qed
  moreover have "abs_live (sd_risk_management d) start_state =
      (\<lparr>tk_risk_management = sd_risk_management d, tk_position = None\<rparr>, None, [])"
    by (simp add: abs_live_def abs_position_def)
  ultimately show ?thesis by (simp add: live_run_def ts abs_live_def)
qed

theorem live_matches_backtest_witness:
  "live_run sample_lib sample_strategy sample_frame =
     Inr [\<lparr>lt_entry_time = 2, lt_entry_price = Fin 100, lt_exit_time = 3,
       lt_exit_price = Fin (375 / 4), lt_exit_reason = StopLoss\<rparr>]"
  using live_matches_backtest [OF sample_lib_causal sample_frame_ok sample_run]
  by (simp add: as_live_def sample_trade_def)

end
